(* ===== verification/Prelude.thy ===== *)
theory Prelude
  imports Main "HOL-Library.AList" "HOL-Library.Char_ord" "HOL-Library.List_Lexorder"
    "HOL-Library.Word" "HOL-Library.Code_Target_Nat"
begin

text \<open>
  Shared vocabulary of the development: the exceptions of the Python sources as values,
  sequential checks that stop at the first exception, dictionaries as association lists
  in insertion order, decimal and hexadecimal text, and little-endian integers.
  Nothing here models one particular source file; it is the part of the language and of
  its standard library that the components use.

  A Python \<open>str\<close> is represented by its UTF-8 encoding, a \<^typ>\<open>string\<close>; so \<open>length\<close> is
  the length of \<open>value.encode("utf-8")\<close>, and a string is ASCII when every character code is
  below 128. Lone surrogates, which have no UTF-8 encoding, are not represented.
\<close>

named_theorems check_simps \<open>acceptance of sequential checks\<close>
named_theorems dict_simps \<open>association lists used as dictionaries\<close>

section \<open>Exceptions as values\<close>

datatype pyexc =
    ValueError string
  | TypeError string
  | KeyError string
  | OverflowError string
  | AssertionError string

text \<open>
  A validator of the sources is a sequence of statements
  \<open>if condition: raise exception\<close>. It is written as a list of optional exceptions; the
  first one that is raised wins.
\<close>

definition raise_if :: "bool \<Rightarrow> 'e \<Rightarrow> 'e option" where
  "raise_if b e = (if b then Some e else None)"

fun first_error :: "'e option list \<Rightarrow> 'e option" where
  "first_error [] = None"
| "first_error (c # cs) = (case c of Some e \<Rightarrow> Some e | None \<Rightarrow> first_error cs)"

text \<open>The body of a \<open>for\<close> loop that only checks: the first exception over the list.\<close>

definition for_each :: "('a \<Rightarrow> 'e option) \<Rightarrow> 'a list \<Rightarrow> 'e option" where
  "for_each f xs = first_error (map f xs)"

text \<open>The checks followed by the value the function returns.\<close>

definition checked :: "'e option \<Rightarrow> 'a \<Rightarrow> 'e + 'a" where
  "checked c x = (case c of Some e \<Rightarrow> Inl e | None \<Rightarrow> Inr x)"

definition bindE :: "'e + 'a \<Rightarrow> ('a \<Rightarrow> 'e + 'b) \<Rightarrow> 'e + 'b" where
  "bindE m f = (case m of Inl e \<Rightarrow> Inl e | Inr x \<Rightarrow> f x)"

text \<open>The first exception of a computation used only for its exceptions.\<close>

definition exc_of :: "'e + 'a \<Rightarrow> 'e option" where
  "exc_of m = (case m of Inl e \<Rightarrow> Some e | Inr _ \<Rightarrow> None)"

text \<open>Building a tuple from a generator of fallible calls: the first exception wins.\<close>

fun mapE :: "('a \<Rightarrow> 'e + 'b) \<Rightarrow> 'a list \<Rightarrow> 'e + 'b list" where
  "mapE f [] = Inr []"
| "mapE f (x # xs) = bindE (f x) (\<lambda>y. bindE (mapE f xs) (\<lambda>ys. Inr (y # ys)))"

lemma raise_if_None [simp, check_simps]: "raise_if b e = None \<longleftrightarrow> \<not> b"
  by (simp add: raise_if_def)

lemma raise_if_Some [simp]: "raise_if b e = Some e' \<longleftrightarrow> b \<and> e' = e"
  by (auto simp: raise_if_def)

lemma first_error_None_iff: "first_error cs = None \<longleftrightarrow> (\<forall>c \<in> set cs. c = None)"
  by (induction cs) (auto split: option.splits)

lemma first_error_Cons_None [simp, check_simps]:
  "first_error (c # cs) = None \<longleftrightarrow> c = None \<and> first_error cs = None"
  by (auto split: option.splits)

declare first_error.simps(2) [simp del]

lemma for_each_None [simp, check_simps]: "for_each f xs = None \<longleftrightarrow> (\<forall>x \<in> set xs. f x = None)"
  by (auto simp: for_each_def first_error_None_iff)

lemma checked_Inr [simp, check_simps]: "checked c x = Inr y \<longleftrightarrow> c = None \<and> y = x"
  by (auto simp: checked_def split: option.splits)

lemma checked_Inl [simp]: "checked c x = Inl e \<longleftrightarrow> c = Some e"
  by (auto simp: checked_def split: option.splits)

lemma bindE_Inr [simp]: "bindE (Inr x) f = f x"
  by (simp add: bindE_def)

lemma bindE_Inl [simp]: "bindE (Inl e) f = Inl e"
  by (simp add: bindE_def)

lemma bindE_eq_Inr [check_simps]: "bindE m f = Inr y \<longleftrightarrow> (\<exists>x. m = Inr x \<and> f x = Inr y)"
  by (auto simp: bindE_def split: sum.splits)

lemma exc_of_None [simp, check_simps]: "exc_of m = None \<longleftrightarrow> (\<exists>x. m = Inr x)"
  by (auto simp: exc_of_def split: sum.splits)

lemma mapE_Inr_iff: "mapE f xs = Inr ys \<longleftrightarrow> list_all2 (\<lambda>x y. f x = Inr y) xs ys"
  by (induction xs arbitrary: ys) (auto simp: bindE_eq_Inr list_all2_Cons1)

lemma mapE_length: "mapE f xs = Inr ys \<Longrightarrow> length ys = length xs"
  by (auto simp: mapE_Inr_iff dest: list_all2_lengthD)

section \<open>Dictionaries\<close>

text \<open>
  A dictionary keeps its keys in insertion order: \<open>d[k] = v\<close> replaces the value in place or
  appends, \<open>del d[k]\<close> and \<open>d.pop(k, None)\<close> remove, \<open>d.get(k)\<close> looks up, \<open>len(d)\<close> counts.
\<close>

abbreviation dict_get :: "('k \<times> 'v) list \<Rightarrow> 'k \<Rightarrow> 'v option" where
  "dict_get d \<equiv> map_of d"

abbreviation dict_set :: "'k \<Rightarrow> 'v \<Rightarrow> ('k \<times> 'v) list \<Rightarrow> ('k \<times> 'v) list" where
  "dict_set \<equiv> AList.update"

abbreviation dict_del :: "'k \<Rightarrow> ('k \<times> 'v) list \<Rightarrow> ('k \<times> 'v) list" where
  "dict_del \<equiv> AList.delete"

definition dict_keys :: "('k \<times> 'v) list \<Rightarrow> 'k list" where
  "dict_keys d = map fst d"

definition dict_wf :: "('k \<times> 'v) list \<Rightarrow> bool" where
  "dict_wf d \<longleftrightarrow> distinct (map fst d)"

fun dict_update :: "('k \<times> 'v) list \<Rightarrow> ('k \<times> 'v) list \<Rightarrow> ('k \<times> 'v) list" where
  "dict_update d [] = d"
| "dict_update d ((k, v) # kvs) = dict_update (dict_set k v d) kvs"

text \<open>
  The interface the components rely on when they keep one pending entry per key: lookup
  after store and after removal, and how the size changes. The bounded tables of the
  trace decoder use it twice.
\<close>

locale keyed_table =
  fixes lookup :: "'t \<Rightarrow> 'k \<Rightarrow> 'v option"
    and store :: "'k \<Rightarrow> 'v \<Rightarrow> 't \<Rightarrow> 't"
    and remove :: "'k \<Rightarrow> 't \<Rightarrow> 't"
    and size_of :: "'t \<Rightarrow> nat"
    and invar :: "'t \<Rightarrow> bool"
  assumes lookup_store: "lookup (store k v t) k' = (if k' = k then Some v else lookup t k')"
    and lookup_remove: "lookup (remove k t) k' = (if k' = k then None else lookup t k')"
    and size_store: "invar t \<Longrightarrow> size_of (store k v t) =
      (if lookup t k = None then Suc (size_of t) else size_of t)"
    and size_remove: "invar t \<Longrightarrow> size_of (remove k t) \<le> size_of t"
    and invar_store: "invar t \<Longrightarrow> invar (store k v t)"
    and invar_remove: "invar t \<Longrightarrow> invar (remove k t)"
begin

text \<open>A table with a limit: an entry is admitted only below the limit or when its key is there.\<close>

definition bounded :: "nat \<Rightarrow> ('v \<Rightarrow> bool) \<Rightarrow> 't \<Rightarrow> bool" where
  "bounded n P t \<longleftrightarrow> invar t \<and> size_of t \<le> n \<and> (\<forall>k v. lookup t k = Some v \<longrightarrow> P v)"

lemma bounded_lookup: "bounded n P t \<Longrightarrow> lookup t k = Some v \<Longrightarrow> P v"
  by (simp add: bounded_def)

lemma bounded_store_new: "bounded n P t \<Longrightarrow> size_of t < n \<Longrightarrow> P v \<Longrightarrow> bounded n P (store k v t)"
  by (auto simp: bounded_def invar_store size_store lookup_store)

lemma bounded_store_old:
  "bounded n P t \<Longrightarrow> lookup t k = Some w \<Longrightarrow> P v \<Longrightarrow> bounded n P (store k v t)"
  by (auto simp: bounded_def invar_store size_store lookup_store)

lemma bounded_remove: "bounded n P t \<Longrightarrow> bounded n P (remove k t)"
  using size_remove [of t k] by (auto simp: bounded_def invar_remove lookup_remove)

lemma bounded_size: "bounded n P t \<Longrightarrow> size_of t \<le> n"
  by (simp add: bounded_def)

end

lemma map_of_dict_set: "map_of (dict_set k v d) k' = (if k' = k then Some v else map_of d k')"
  by (simp add: update_conv')

lemma map_of_dict_del: "map_of (dict_del k d) k' = (if k' = k then None else map_of d k')"
  by (simp add: delete_conv')

lemma length_dict_set:
  "length (dict_set k v d) = (if map_of d k = None then Suc (length d) else length d)"
  by (induction d) auto

lemma length_dict_del: "length (dict_del k d) \<le> length d"
  by (rule length_delete_le)

interpretation alist: keyed_table map_of AList.update AList.delete length dict_wf
  by unfold_locales
    (auto simp: map_of_dict_set map_of_dict_del length_dict_set length_dict_del dict_wf_def
      distinct_update distinct_delete)

lemma map_of_dict_update:
  "map_of (dict_update d kvs) k = (case map_of (rev kvs) k of Some v \<Rightarrow> Some v | None \<Rightarrow> map_of d k)"
  by (induction d kvs rule: dict_update.induct)
    (auto simp: map_of_dict_set map_add_def split: option.splits)

end
