(* ===== verification/Bytes.thy ===== *)
theory Bytes
  imports Prelude
begin

text \<open>
  Octets and their textual forms: \<open>bytes\<close> objects are lists of 8-bit words,
  \<open>int.from_bytes(_, "little")\<close>, \<open>bytes.hex()\<close> and \<open>bytes.fromhex\<close>, and the decimal and
  hexadecimal formatting the sources use in identifiers and messages.
\<close>

type_synonym byte = "8 word"

section \<open>Little-endian integers\<close>

fun from_le :: "byte list \<Rightarrow> nat" where
  "from_le [] = 0"
| "from_le (b # bs) = unat b + 256 * from_le bs"

fun to_le :: "nat \<Rightarrow> nat \<Rightarrow> byte list" where
  "to_le 0 n = []"
| "to_le (Suc k) n = of_nat (n mod 256) # to_le k (n div 256)"

lemma unat_byte_less [simp]: "unat (b :: byte) < 256"
  using unsigned_less [of b] by simp

lemma length_to_le [simp]: "length (to_le k n) = k"
  by (induction k arbitrary: n) auto

lemma from_le_bound: "from_le bs < 256 ^ length bs"
proof (induction bs)
  case Nil
  then show ?case by simp
next
  case (Cons b bs)
  have "unat b < 256" by (rule unat_byte_less)
  with Cons have "unat b + 256 * from_le bs < 256 * Suc (from_le bs)" by simp
  also have "\<dots> \<le> 256 * 256 ^ length bs" using Cons by (intro mult_le_mono2) simp
  finally show ?case by simp
qed

lemma unat_of_nat_byte [simp]: "unat (of_nat n :: byte) = n mod 256"
  by (simp add: unat_of_nat)

lemma from_le_to_le: "from_le (to_le k n) = n mod 256 ^ k"
  by (induction k arbitrary: n) (auto simp: mod_mult2_eq)

lemma to_le_from_le: "to_le (length bs) (from_le bs) = bs"
  by (induction bs) (auto simp: word_unat_eq_iff)

lemma from_le_inject: "length xs = length ys \<Longrightarrow> from_le xs = from_le ys \<Longrightarrow> xs = ys"
  by (metis to_le_from_le)

section \<open>Decimal and hexadecimal text\<close>

definition digit_char :: "nat \<Rightarrow> char" where
  "digit_char n = (if n < 10 then char_of (48 + n) else char_of (55 + n))"

fun dec :: "nat \<Rightarrow> string" where
  "dec n = (if n < 10 then [digit_char n] else dec (n div 10) @ [digit_char (n mod 10)])"

declare dec.simps [simp del]

definition str_int :: "int \<Rightarrow> string" where
  "str_int i = (if i < 0 then ''-'' @ dec (nat (- i)) else dec (nat i))"

fun join :: "string \<Rightarrow> string list \<Rightarrow> string" where
  "join sep [] = []"
| "join sep [s] = s"
| "join sep (s # t # ss) = s @ sep @ join sep (t # ss)"

definition hex_byte :: "byte \<Rightarrow> string" where
  "hex_byte b = [digit_char (unat b div 16), digit_char (unat b mod 16)]"

text \<open>\<open>data.hex().upper()\<close>\<close>

definition hex_upper :: "byte list \<Rightarrow> string" where
  "hex_upper bs = concat (map hex_byte bs)"

text \<open>\<open>data.hex(" ").upper()\<close>\<close>

definition hex_spaced :: "byte list \<Rightarrow> string" where
  "hex_spaced bs = join '' '' (map hex_byte bs)"

definition hex_value :: "char \<Rightarrow> nat option" where
  "hex_value c = (let n = of_char c in
     if 48 \<le> n \<and> n \<le> 57 then Some (n - 48)
     else if 65 \<le> n \<and> n \<le> 70 then Some (n - 55)
     else if 97 \<le> n \<and> n \<le> 102 then Some (n - 87)
     else None)"

definition is_hex :: "char \<Rightarrow> bool" where
  "is_hex c \<longleftrightarrow> hex_value c \<noteq> None"

text \<open>
  \<open>bytes.fromhex(text)\<close>: pairs of hexadecimal digits, ASCII white space between the pairs is
  skipped, anything else is an error.
\<close>

definition is_ascii_space :: "char \<Rightarrow> bool" where
  "is_ascii_space c \<longleftrightarrow> (let n = (of_char c :: nat) in n = 32 \<or> 9 \<le> n \<and> n \<le> 13)"

fun bytes_fromhex :: "string \<Rightarrow> byte list option" where
  "bytes_fromhex [] = Some []"
| "bytes_fromhex [c] = (if is_ascii_space c then Some [] else None)"
| "bytes_fromhex (c # d # cs) =
     (if is_ascii_space c then bytes_fromhex (d # cs)
      else case (hex_value c, hex_value d) of
          (Some h, Some l) \<Rightarrow> map_option (Cons (of_nat (16 * h + l))) (bytes_fromhex cs)
        | _ \<Rightarrow> None)"

lemma hex_value_digit_char [simp]: "n < 16 \<Longrightarrow> hex_value (digit_char n) = Some n"
  by (auto simp: digit_char_def hex_value_def Let_def)

lemma not_space_digit_char [simp]: "n < 16 \<Longrightarrow> \<not> is_ascii_space (digit_char n)"
  by (auto simp: digit_char_def is_ascii_space_def Let_def)

lemma is_hex_digit_char [simp]: "n < 16 \<Longrightarrow> is_hex (digit_char n)"
  by (simp add: is_hex_def)

lemma byte_div16 [simp]: "unat (b :: byte) div 16 < 16"
  using unat_byte_less [of b] by linarith

lemma of_nat_hex_parts [simp]: "of_nat (16 * (unat (b :: byte) div 16) + unat b mod 16) = b"
  by simp

lemma fromhex_hex_byte [simp]:
  "bytes_fromhex (hex_byte b @ cs) = map_option (Cons b) (bytes_fromhex cs)"
  by (cases cs) (simp_all add: hex_byte_def)

lemma fromhex_hex_upper: "bytes_fromhex (hex_upper bs) = Some bs"
  by (induction bs) (auto simp: hex_upper_def)

lemma hex_upper_inject: "hex_upper xs = hex_upper ys \<longleftrightarrow> xs = ys"
  by (metis fromhex_hex_upper option.inject)

lemma length_hex_upper: "length (hex_upper bs) = 2 * length bs"
  by (induction bs) (auto simp: hex_upper_def hex_byte_def)

lemma hex_spaced_Cons: "bs \<noteq> [] \<Longrightarrow> hex_spaced (b # bs) = hex_byte b @ CHR '' '' # hex_spaced bs"
  by (cases bs) (simp_all add: hex_spaced_def)

lemma fromhex_hex_spaced: "bytes_fromhex (hex_spaced bs) = Some bs"
proof (induction bs)
  case Nil
  then show ?case by (simp add: hex_spaced_def)
next
  case (Cons b bs)
  show ?case
  proof (cases "bs = []")
    case True
    then show ?thesis using fromhex_hex_byte [of b "[]"] by (simp add: hex_spaced_def)
  next
    case False
    then obtain c cs where "hex_spaced bs = c # cs"
      by (cases bs; cases "tl bs") (auto simp: hex_spaced_def hex_byte_def)
    with Cons False show ?thesis by (simp add: hex_spaced_Cons is_ascii_space_def)
  qed
qed

end
