(* ===== verification/PyVal.thy ===== *)
theory PyVal
  imports Complex_Main "HOL-Library.Log_Nat" Bytes
begin

text \<open>
  The dynamic values the sources inspect: what \<open>json.loads\<close> returns and what callers pass as
  arguments, with the type tests (\<open>type(v) is int\<close>, \<open>isinstance\<close>), truth values, equality and
  dictionary access the validators use, and binary64 arithmetic as far as the sources use it
  (conversion of integers, multiplication, \<open>round\<close>).

  A finite float is represented by its exact rational value; the sign of a zero is not
  represented, no modelled operation depends on it.
\<close>

section \<open>Values\<close>

datatype pyfloat = Fin rat | PosInf | NegInf | NaN

datatype pyval =
    PNone
  | PBool bool
  | PInt int
  | PFloat pyfloat
  | PStr string
  | PList "pyval list"
  | PDict "(string \<times> pyval) list"

type_synonym dict = "(string \<times> pyval) list"

text \<open>\<open>type(v) is int\<close> and \<open>isinstance(v, int) and not isinstance(v, bool)\<close> agree on these values.\<close>

fun is_int :: "pyval \<Rightarrow> bool" where
  "is_int (PInt _) = True"
| "is_int _ = False"

fun is_bool :: "pyval \<Rightarrow> bool" where
  "is_bool (PBool _) = True"
| "is_bool _ = False"

fun is_str :: "pyval \<Rightarrow> bool" where
  "is_str (PStr _) = True"
| "is_str _ = False"

fun is_list :: "pyval \<Rightarrow> bool" where
  "is_list (PList _) = True"
| "is_list _ = False"

fun is_dict :: "pyval \<Rightarrow> bool" where
  "is_dict (PDict _) = True"
| "is_dict _ = False"

text \<open>
  Projections, used after the type test has passed; the default of a failed projection is
  never reached by a value that is returned.
\<close>

fun as_int :: "pyval \<Rightarrow> int" where
  "as_int (PInt i) = i"
| "as_int _ = 0"

fun as_bool :: "pyval \<Rightarrow> bool" where
  "as_bool (PBool b) = b"
| "as_bool _ = False"

fun as_str :: "pyval \<Rightarrow> string" where
  "as_str (PStr s) = s"
| "as_str _ = []"

fun as_list :: "pyval \<Rightarrow> pyval list" where
  "as_list (PList xs) = xs"
| "as_list _ = []"

fun as_dict :: "pyval \<Rightarrow> dict" where
  "as_dict (PDict d) = d"
| "as_dict _ = []"

lemma is_int_iff: "is_int v \<longleftrightarrow> (\<exists>i. v = PInt i)" by (cases v) auto
lemma is_bool_iff: "is_bool v \<longleftrightarrow> (\<exists>b. v = PBool b)" by (cases v) auto
lemma is_str_iff: "is_str v \<longleftrightarrow> (\<exists>s. v = PStr s)" by (cases v) auto
lemma is_list_iff: "is_list v \<longleftrightarrow> (\<exists>xs. v = PList xs)" by (cases v) auto
lemma is_dict_iff: "is_dict v \<longleftrightarrow> (\<exists>d. v = PDict d)" by (cases v) auto

lemmas is_iffs = is_int_iff is_bool_iff is_str_iff is_list_iff is_dict_iff

text \<open>Lists and dictionaries are not hashable: testing their membership in a set raises.\<close>

fun hashable :: "pyval \<Rightarrow> bool" where
  "hashable (PList _) = False"
| "hashable (PDict _) = False"
| "hashable _ = True"

text \<open>\<open>if v not in {strings}: raise e\<close>\<close>

definition check_member :: "pyval \<Rightarrow> string list \<Rightarrow> pyexc \<Rightarrow> pyexc option" where
  "check_member v ss e =
     (if \<not> hashable v then Some (TypeError ''unhashable type'')
      else raise_if (\<not> (is_str v \<and> as_str v \<in> set ss)) e)"

lemma check_member_None [simp, check_simps]:
  "check_member v ss e = None \<longleftrightarrow> (\<exists>s \<in> set ss. v = PStr s)"
  by (cases v) (auto simp: check_member_def)

text \<open>The truth value of an object.\<close>

fun truthy :: "pyval \<Rightarrow> bool" where
  "truthy PNone = False"
| "truthy (PBool b) = b"
| "truthy (PInt i) = (i \<noteq> 0)"
| "truthy (PFloat f) = (f \<noteq> Fin 0)"
| "truthy (PStr s) = (s \<noteq> [])"
| "truthy (PList xs) = (xs \<noteq> [])"
| "truthy (PDict d) = (d \<noteq> [])"

text \<open>\<open>v == n\<close> for an integer \<open>n\<close>: booleans and floats compare by value.\<close>

fun eq_int :: "pyval \<Rightarrow> int \<Rightarrow> bool" where
  "eq_int (PInt i) n = (i = n)"
| "eq_int (PBool b) n = (of_bool b = n)"
| "eq_int (PFloat (Fin q)) n = (q = of_int n)"
| "eq_int _ n = False"

section \<open>Dictionary access\<close>

text \<open>
  \<open>d.get(k)\<close>; after a check that the key is present it is also \<open>d[k]\<close>.
\<close>

definition get :: "dict \<Rightarrow> string \<Rightarrow> pyval" where
  "get d k = (case map_of d k of Some v \<Rightarrow> v | None \<Rightarrow> PNone)"

definition missing_keys :: "string list \<Rightarrow> dict \<Rightarrow> string list" where
  "missing_keys required d = filter (\<lambda>k. map_of d k = None) required"

definition same_keys :: "dict \<Rightarrow> string list \<Rightarrow> bool" where
  "same_keys d ks \<longleftrightarrow> list_all (\<lambda>k. k \<in> set ks) (map fst d) \<and> list_all (\<lambda>k. map_of d k \<noteq> None) ks"

lemma same_keys_iff: "same_keys d ks \<longleftrightarrow> set (map fst d) = set ks"
  by (auto simp: same_keys_def list_all_iff map_of_eq_None_iff)

lemma missing_keys_Nil [simp, check_simps]:
  "missing_keys required d = [] \<longleftrightarrow> (\<forall>k \<in> set required. map_of d k \<noteq> None)"
  by (auto simp: missing_keys_def filter_empty_conv)

section \<open>Binary64 arithmetic\<close>

definition round_half_even :: "rat \<Rightarrow> int" where
  "round_half_even x = (let f = \<lfloor>x\<rfloor>; d = x - of_int f in
     if d < 1 / 2 then f else if d > 1 / 2 then f + 1 else if even f then f else f + 1)"

definition pow2 :: "int \<Rightarrow> rat" where
  "pow2 k = (if 0 \<le> k then 2 ^ nat k else 1 / 2 ^ nat (- k))"

text \<open>The binary exponent of a positive rational: \<open>pow2 k \<le> x < pow2 (k + 1)\<close>.\<close>

definition ilog2 :: "rat \<Rightarrow> int" where
  "ilog2 x = (let (p, q) = quotient_of x; k = bitlen p - bitlen q in
     if pow2 k \<le> x then k else k - 1)"

text \<open>
  Rounding of an exact result to binary64: 53 significant bits, ties to even, least exponent
  \<open>-1074\<close>, infinity from \<open>2 ^ 1024\<close> on.
\<close>

definition binary64 :: "rat \<Rightarrow> pyfloat" where
  "binary64 x = (if x = 0 then Fin 0 else
     let e = max (ilog2 \<bar>x\<bar> - 52) (-1074);
         r = of_int (round_half_even (x / pow2 e)) * pow2 e
     in if r \<ge> 2 ^ 1024 then PosInf else if r \<le> - (2 ^ 1024) then NegInf else Fin r)"

text \<open>
  \<open>float(v)\<close> for the values that pass the test \<open>isinstance(v, (int, float))\<close> and are no
  booleans, when the result is finite. A too large integer raises \<open>OverflowError\<close>, which every
  caller turns into the same rejection as a non-finite float.
\<close>

fun finite_number :: "pyval \<Rightarrow> rat option" where
  "finite_number (PInt i) = (case binary64 (of_int i) of Fin q \<Rightarrow> Some q | _ \<Rightarrow> None)"
| "finite_number (PFloat (Fin q)) = Some q"
| "finite_number _ = None"

lemma round_half_even_of_int [simp]: "round_half_even (of_int n) = n"
  by (simp add: round_half_even_def)

lemma round_half_even_dist: "\<bar>of_int (round_half_even x) - x\<bar> \<le> 1 / 2"
  unfolding round_half_even_def Let_def
  by (auto simp: abs_if) (linarith | use of_int_floor_le [of x] in linarith)+

lemma pow2_nonneg_nat: "pow2 (int n) = 2 ^ n"
  by (simp add: pow2_def)

lemma pow2_pos [simp]: "0 < pow2 k"
  by (simp add: pow2_def)

text \<open>Integers of at most 53 bits are exact.\<close>

lemma ilog2_of_int_less:
  assumes "0 < n" "n < 2 ^ m"
  shows "ilog2 (of_int n) < int m"
proof -
  have q: "quotient_of (of_int n) = (n, 1)" by (simp add: quotient_of_int)
  have "bitlen n \<le> int m" using assms by (simp add: bitlen_le_iff_power)
  then show ?thesis by (auto simp: ilog2_def q Let_def bitlen_def floorlog_def)
qed

lemma binary64_of_int:
  assumes "\<bar>n\<bar> < 2 ^ 53"
  shows "binary64 (of_int n) = Fin (of_int n)"
proof (cases "n = 0")
  case False
  define e where "e = max (ilog2 \<bar>of_int n\<bar> - 52) (-1074)"
  have "ilog2 (of_int \<bar>n\<bar>) < int 53" using assms False by (intro ilog2_of_int_less) auto
  then have e: "e \<le> 0" by (simp add: e_def)
  then have "(of_int n :: rat) / pow2 e = of_int (n * 2 ^ nat (- e))" by (simp add: pow2_def)
  then have "of_int (round_half_even (of_int n / pow2 e)) * pow2 e = (of_int n :: rat)"
    using pow2_pos [of e] by (metis round_half_even_of_int nonzero_divide_eq_eq less_numeral_extra(3))
  moreover have "\<bar>of_int n\<bar> < (2 :: rat) ^ 1024"
  proof -
    have "of_int \<bar>n\<bar> < (of_int (2 ^ 53) :: rat)" using assms by (simp only: of_int_less_iff)
    also have "\<dots> = 2 ^ 53" by simp
    also have "\<dots> \<le> (2 :: rat) ^ 1024" by (rule power_increasing) simp_all
    finally show ?thesis by simp
  qed
  then have "of_int n < (2 :: rat) ^ 1024" "- ((2 :: rat) ^ 1024) < of_int n" by linarith+
  ultimately show ?thesis
    using False unfolding binary64_def Let_def e_def [symmetric] by simp
qed (simp add: binary64_def)

end
