(* ===== verification/TraceModels.thy ===== *)
theory TraceModels
  imports PyVal
begin

text \<open>
  The data of the protocol trace, \<open>python/src/dnp3_master/trace.py\<close> lines 23-272: the argument
  checks \<open>_integer\<close>, \<open>_boolean\<close>, \<open>_text\<close> and \<open>_fields\<close>, the validated \<open>TraceConfig\<close>,
  \<open>TraceSummary\<close> and \<open>TraceRecord\<close>, and the records \<open>TraceFrame\<close>, \<open>TraceApplication\<close> and
  \<open>TraceBatch\<close> that the decoder returns.
\<close>

section \<open>Argument checks\<close>

definition integer :: "pyval \<Rightarrow> string \<Rightarrow> int \<Rightarrow> int \<Rightarrow> pyexc + int" where
  "integer v name minimum maximum =
     checked (raise_if (\<not> is_int v \<or> \<not> (minimum \<le> as_int v \<and> as_int v \<le> maximum))
       (ValueError (name @ '' must be an integer in ['' @ str_int minimum @ '', '' @ str_int maximum @ '']'')))
       (as_int v)"

definition max_u64 :: int where "max_u64 = 2 ^ 64 - 1"

definition boolean :: "pyval \<Rightarrow> string \<Rightarrow> pyexc + bool" where
  "boolean v name = checked (raise_if (\<not> is_bool v) (ValueError (name @ '' must be boolean''))) (as_bool v)"

definition text_field :: "pyval \<Rightarrow> string \<Rightarrow> nat \<Rightarrow> pyexc + string" where
  "text_field v name maximum =
     checked (raise_if (\<not> is_str v \<or> length (as_str v) > maximum)
       (ValueError (name @ '' must be a string of at most '' @ dec maximum @ '' UTF-8 bytes'')))
       (as_str v)"

definition strict_fields :: "pyval \<Rightarrow> string list \<Rightarrow> string \<Rightarrow> pyexc + dict" where
  "strict_fields v keys name =
     checked (raise_if (\<not> is_dict v \<or> \<not> same_keys (as_dict v) keys)
       (ValueError (name @ '' has missing or unknown fields'')))
       (as_dict v)"

lemma integer_Inr [simp, check_simps]:
  "integer v name lo hi = Inr i \<longleftrightarrow> v = PInt i \<and> lo \<le> i \<and> i \<le> hi"
  by (auto simp: integer_def is_int_iff)

lemma boolean_Inr [simp, check_simps]: "boolean v name = Inr b \<longleftrightarrow> v = PBool b"
  by (auto simp: boolean_def is_bool_iff)

lemma text_field_Inr [simp, check_simps]:
  "text_field v name n = Inr s \<longleftrightarrow> v = PStr s \<and> length s \<le> n"
  by (auto simp: text_field_def is_str_iff)

lemma strict_fields_Inr [simp, check_simps]:
  "strict_fields v keys name = Inr d \<longleftrightarrow> v = PDict d \<and> same_keys d keys"
  by (auto simp: strict_fields_def is_dict_iff)

section \<open>Configuration and summary\<close>

record trace_config =
  tc_queue_capacity :: int

definition TraceConfig :: "pyval \<Rightarrow> pyexc + trace_config" where
  "TraceConfig queue_capacity =
     bindE (integer queue_capacity ''queue_capacity'' 1 65536) (\<lambda>c. Inr \<lparr>tc_queue_capacity = c\<rparr>)"

definition TraceConfig_to_params :: "trace_config \<Rightarrow> dict" where
  "TraceConfig_to_params c = [(''queue_capacity'', PInt (tc_queue_capacity c))]"

definition SUMMARY_KEYS :: "string list" where
  "SUMMARY_KEYS = [''trace_id'', ''state'', ''scope'', ''queue_capacity'', ''queued_records'',
     ''dropped_records'', ''truncated_records'', ''last_sequence'', ''complete'']"

record trace_summary =
  ts_trace_id :: "string option"
  ts_state :: string
  ts_scope :: string
  ts_queue_capacity :: int
  ts_queued_records :: int
  ts_dropped_records :: int
  ts_truncated_records :: int
  ts_last_sequence :: int
  ts_complete :: bool

definition is_digit :: "char \<Rightarrow> bool" where
  "is_digit c \<longleftrightarrow> (let n = (of_char c :: nat) in 48 \<le> n \<and> n \<le> 57)"

text \<open>\<open>re.fullmatch(r"trace-[1-9][0-9]{0,57}", s)\<close>\<close>

definition trace_id_match :: "string \<Rightarrow> bool" where
  "trace_id_match s \<longleftrightarrow> take 6 s = ''trace-'' \<and>
     (case drop 6 s of [] \<Rightarrow> False
      | c # cs \<Rightarrow> is_digit c \<and> c \<noteq> CHR ''0'' \<and> length cs \<le> 57 \<and> list_all is_digit cs)"

definition TraceSummary_from_dict :: "pyval \<Rightarrow> pyexc + trace_summary" where
  "TraceSummary_from_dict v = bindE (strict_fields v SUMMARY_KEYS ''trace summary'') (\<lambda>data.
     let state = get data ''state''; trace_id = get data ''trace_id'';
         capacity = as_int (get data ''queue_capacity'');
         queued = as_int (get data ''queued_records'');
         dropped = as_int (get data ''dropped_records'');
         truncated = as_int (get data ''truncated_records'');
         last = as_int (get data ''last_sequence'');
         complete = as_bool (get data ''complete'')
     in checked (first_error
       [raise_if (state \<notin> {PStr ''IDLE'', PStr ''ACTIVE'', PStr ''STOPPED''}) (ValueError ''invalid trace state''),
        (if state = PStr ''IDLE''
         then raise_if (trace_id \<noteq> PNone) (ValueError ''IDLE trace_id must be null'')
         else raise_if (\<not> is_str trace_id \<or> \<not> trace_id_match (as_str trace_id)) (ValueError ''invalid trace_id'')),
        raise_if (get data ''scope'' \<noteq> PStr ''opendnp3_stack'') (ValueError ''unsupported trace scope''),
        exc_of (integer (get data ''queue_capacity'') ''queue_capacity'' 1 65536),
        exc_of (integer (get data ''queued_records'') ''queued_records'' 0 capacity),
        exc_of (integer (get data ''dropped_records'') ''dropped_records'' 0 max_u64),
        exc_of (integer (get data ''truncated_records'') ''truncated_records'' 0 max_u64),
        exc_of (integer (get data ''last_sequence'') ''last_sequence'' 0 max_u64),
        exc_of (boolean (get data ''complete'') ''complete''),
        raise_if (complete \<noteq> (dropped = 0 \<and> truncated = 0))
          (ValueError ''trace complete disagrees with loss counters''),
        raise_if (queued > last \<or> dropped > last \<or> truncated > last)
          (ValueError ''trace counters exceed last_sequence''),
        raise_if (state = PStr ''IDLE'' \<and> (queued \<noteq> 0 \<or> dropped \<noteq> 0 \<or> truncated \<noteq> 0 \<or> last \<noteq> 0))
          (ValueError ''IDLE trace counters must be zero''),
        raise_if (state = PStr ''IDLE'' \<and> capacity \<noteq> 16384)
          (ValueError ''IDLE trace capacity must be the default 16384'')])
       \<lparr>ts_trace_id = (if is_str trace_id then Some (as_str trace_id) else None),
        ts_state = as_str state, ts_scope = as_str (get data ''scope''),
        ts_queue_capacity = capacity, ts_queued_records = queued, ts_dropped_records = dropped,
        ts_truncated_records = truncated, ts_last_sequence = last, ts_complete = complete\<rparr>)"

definition TraceSummary_to_dict :: "trace_summary \<Rightarrow> dict" where
  "TraceSummary_to_dict s =
     [(''trace_id'', case ts_trace_id s of None \<Rightarrow> PNone | Some i \<Rightarrow> PStr i),
      (''state'', PStr (ts_state s)), (''scope'', PStr (ts_scope s)),
      (''queue_capacity'', PInt (ts_queue_capacity s)),
      (''queued_records'', PInt (ts_queued_records s)),
      (''dropped_records'', PInt (ts_dropped_records s)),
      (''truncated_records'', PInt (ts_truncated_records s)),
      (''last_sequence'', PInt (ts_last_sequence s)),
      (''complete'', PBool (ts_complete s))]"

text \<open>What an accepted summary guarantees.\<close>

definition summary_ok :: "trace_summary \<Rightarrow> bool" where
  "summary_ok s \<longleftrightarrow>
     ts_state s \<in> {''IDLE'', ''ACTIVE'', ''STOPPED''} \<and> ts_scope s = ''opendnp3_stack'' \<and>
     (if ts_state s = ''IDLE'' then ts_trace_id s = None
      else \<exists>i. ts_trace_id s = Some i \<and> trace_id_match i) \<and>
     1 \<le> ts_queue_capacity s \<and> ts_queue_capacity s \<le> 65536 \<and>
     0 \<le> ts_queued_records s \<and> ts_queued_records s \<le> ts_queue_capacity s \<and>
     0 \<le> ts_dropped_records s \<and> 0 \<le> ts_truncated_records s \<and> ts_last_sequence s \<le> max_u64 \<and>
     ts_queued_records s \<le> ts_last_sequence s \<and> ts_dropped_records s \<le> ts_last_sequence s \<and>
     ts_truncated_records s \<le> ts_last_sequence s \<and>
     ts_complete s = (ts_dropped_records s = 0 \<and> ts_truncated_records s = 0) \<and>
     (ts_state s = ''IDLE'' \<longrightarrow> ts_last_sequence s = 0 \<and> ts_queue_capacity s = 16384)"

lemma summary_from_dict_cases:
  assumes "TraceSummary_from_dict v = Inr s"
  obtains d cap queued dropped truncated lastseq c where
    "v = PDict d" "same_keys d SUMMARY_KEYS"
    "get d ''state'' \<in> {PStr ''IDLE'', PStr ''ACTIVE'', PStr ''STOPPED''}"
    "if get d ''state'' = PStr ''IDLE'' then get d ''trace_id'' = PNone
     else is_str (get d ''trace_id'') \<and> trace_id_match (as_str (get d ''trace_id''))"
    "get d ''scope'' = PStr ''opendnp3_stack''"
    "get d ''queue_capacity'' = PInt cap" "1 \<le> cap" "cap \<le> 65536"
    "get d ''queued_records'' = PInt queued" "0 \<le> queued" "queued \<le> cap"
    "get d ''dropped_records'' = PInt dropped" "0 \<le> dropped"
    "get d ''truncated_records'' = PInt truncated" "0 \<le> truncated"
    "get d ''last_sequence'' = PInt lastseq" "lastseq \<le> max_u64"
    "get d ''complete'' = PBool c" "c = (dropped = 0 \<and> truncated = 0)"
    "queued \<le> lastseq" "dropped \<le> lastseq" "truncated \<le> lastseq"
    "get d ''state'' = PStr ''IDLE'' \<Longrightarrow> lastseq = 0 \<and> cap = 16384"
    "s = \<lparr>ts_trace_id = (if is_str (get d ''trace_id'') then Some (as_str (get d ''trace_id'')) else None),
      ts_state = as_str (get d ''state''), ts_scope = ''opendnp3_stack'', ts_queue_capacity = cap,
      ts_queued_records = queued, ts_dropped_records = dropped, ts_truncated_records = truncated,
      ts_last_sequence = lastseq, ts_complete = c\<rparr>"
  using assms unfolding TraceSummary_from_dict_def Let_def
  apply (simp only: check_simps)
  apply (elim exE conjE)
  subgoal premises p for data cap queued dropped truncated lastseq c
    apply (rule p(1) [of data cap queued dropped truncated lastseq c])
    using p(2-) apply (simp_all split: if_splits)
    done
  done

lemma summary_from_dict_ok:
  assumes "TraceSummary_from_dict v = Inr s"
  shows "summary_ok s"
  by (rule summary_from_dict_cases [OF assms]) (auto simp: summary_ok_def split: if_splits)

lemma summary_roundtrip:
  assumes "summary_ok s"
  shows "TraceSummary_from_dict (PDict (TraceSummary_to_dict s)) = Inr s"
proof -
  have k: "same_keys (TraceSummary_to_dict s) SUMMARY_KEYS"
    by (simp add: same_keys_def TraceSummary_to_dict_def SUMMARY_KEYS_def)
  have g: "get (TraceSummary_to_dict s) ''state'' = PStr (ts_state s)"
    "get (TraceSummary_to_dict s) ''scope'' = PStr (ts_scope s)"
    "get (TraceSummary_to_dict s) ''trace_id'' = (case ts_trace_id s of None \<Rightarrow> PNone | Some i \<Rightarrow> PStr i)"
    "get (TraceSummary_to_dict s) ''queue_capacity'' = PInt (ts_queue_capacity s)"
    "get (TraceSummary_to_dict s) ''queued_records'' = PInt (ts_queued_records s)"
    "get (TraceSummary_to_dict s) ''dropped_records'' = PInt (ts_dropped_records s)"
    "get (TraceSummary_to_dict s) ''truncated_records'' = PInt (ts_truncated_records s)"
    "get (TraceSummary_to_dict s) ''last_sequence'' = PInt (ts_last_sequence s)"
    "get (TraceSummary_to_dict s) ''complete'' = PBool (ts_complete s)"
    by (simp_all add: get_def TraceSummary_to_dict_def)
  show ?thesis
    using assms by (auto simp: TraceSummary_from_dict_def Let_def bindE_eq_Inr k g summary_ok_def)
qed

section \<open>Records of the native log\<close>

definition LEVELS :: "string list" where
  "LEVELS = [''EVENT'', ''ERR'', ''WARN'', ''INFO'', ''DBG'', ''LINK_RX'', ''LINK_RX_HEX'',
     ''LINK_TX'', ''LINK_TX_HEX'', ''TRANSPORT_RX'', ''TRANSPORT_TX'', ''APP_HEADER_RX'',
     ''APP_HEADER_TX'', ''APP_OBJECT_RX'', ''APP_OBJECT_TX'', ''APP_HEX_RX'', ''APP_HEX_TX'',
     ''OTHER'']"

definition RECORD_KEYS :: "string list" where
  "RECORD_KEYS = [''sequence'', ''session_id'', ''monotonic_ns'', ''logger'', ''level'',
     ''message'', ''message_truncated'']"

record trace_record =
  tr_sequence :: int
  tr_session_id :: int
  tr_monotonic_ns :: int
  tr_logger :: string
  tr_level :: string
  tr_message :: string
  tr_message_truncated :: bool

definition TraceRecord_from_dict :: "pyval \<Rightarrow> pyexc + trace_record" where
  "TraceRecord_from_dict v = bindE (strict_fields v RECORD_KEYS ''trace record'') (\<lambda>data.
     let level = get data ''level'' in
     if \<not> is_str level \<or> as_str level \<notin> set LEVELS
     then Inl (ValueError ''unknown trace log level'')
     else bindE (integer (get data ''sequence'') ''sequence'' 1 max_u64) (\<lambda>sequence.
       bindE (integer (get data ''session_id'') ''session_id'' 1 max_u64) (\<lambda>session_id.
       bindE (integer (get data ''monotonic_ns'') ''monotonic_ns'' 0 max_u64) (\<lambda>monotonic_ns.
       bindE (text_field (get data ''logger'') ''logger'' 128) (\<lambda>logger.
       bindE (text_field (get data ''message'') ''message'' 1024) (\<lambda>message.
       bindE (boolean (get data ''message_truncated'') ''message_truncated'') (\<lambda>truncated.
       Inr \<lparr>tr_sequence = sequence, tr_session_id = session_id, tr_monotonic_ns = monotonic_ns,
            tr_logger = logger, tr_level = as_str level, tr_message = message,
            tr_message_truncated = truncated\<rparr>)))))))"

definition TraceRecord_to_dict :: "trace_record \<Rightarrow> dict" where
  "TraceRecord_to_dict r =
     [(''sequence'', PInt (tr_sequence r)), (''session_id'', PInt (tr_session_id r)),
      (''monotonic_ns'', PInt (tr_monotonic_ns r)), (''logger'', PStr (tr_logger r)),
      (''level'', PStr (tr_level r)), (''message'', PStr (tr_message r)),
      (''message_truncated'', PBool (tr_message_truncated r))]"

definition record_ok :: "trace_record \<Rightarrow> bool" where
  "record_ok r \<longleftrightarrow> 1 \<le> tr_sequence r \<and> tr_sequence r \<le> max_u64 \<and>
     1 \<le> tr_session_id r \<and> tr_session_id r \<le> max_u64 \<and>
     0 \<le> tr_monotonic_ns r \<and> tr_monotonic_ns r \<le> max_u64 \<and>
     length (tr_logger r) \<le> 128 \<and> tr_level r \<in> set LEVELS \<and> length (tr_message r) \<le> 1024"

lemma record_from_dict_ok: "TraceRecord_from_dict v = Inr r \<Longrightarrow> record_ok r"
  by (auto simp: TraceRecord_from_dict_def Let_def bindE_eq_Inr record_ok_def split: if_splits)

lemma record_roundtrip:
  assumes "record_ok r"
  shows "TraceRecord_from_dict (PDict (TraceRecord_to_dict r)) = Inr r"
proof -
  have k: "same_keys (TraceRecord_to_dict r) RECORD_KEYS"
    by (simp add: same_keys_def TraceRecord_to_dict_def RECORD_KEYS_def)
  have g: "get (TraceRecord_to_dict r) ''sequence'' = PInt (tr_sequence r)"
    "get (TraceRecord_to_dict r) ''session_id'' = PInt (tr_session_id r)"
    "get (TraceRecord_to_dict r) ''monotonic_ns'' = PInt (tr_monotonic_ns r)"
    "get (TraceRecord_to_dict r) ''logger'' = PStr (tr_logger r)"
    "get (TraceRecord_to_dict r) ''level'' = PStr (tr_level r)"
    "get (TraceRecord_to_dict r) ''message'' = PStr (tr_message r)"
    "get (TraceRecord_to_dict r) ''message_truncated'' = PBool (tr_message_truncated r)"
    by (simp_all add: get_def TraceRecord_to_dict_def)
  show ?thesis
    using assms by (simp add: TraceRecord_from_dict_def Let_def bindE_eq_Inr k g record_ok_def)
qed

text \<open>
  The property \<open>direction\<close>: \<open>"_RX" in level\<close>, then \<open>"_TX" in level\<close>.
\<close>

fun has_infix :: "string \<Rightarrow> string \<Rightarrow> bool" where
  "has_infix p [] = (p = [])"
| "has_infix p (c # cs) = (take (length p) (c # cs) = p \<or> has_infix p cs)"

definition TraceRecord_direction :: "trace_record \<Rightarrow> string option" where
  "TraceRecord_direction r =
     (if has_infix ''_RX'' (tr_level r) then Some ''RX''
      else if has_infix ''_TX'' (tr_level r) then Some ''TX'' else None)"

section \<open>Decoded frames, applications and batches\<close>

record link_header =
  lh_length :: nat
  lh_control_raw :: nat
  lh_dir :: bool
  lh_prm :: bool
  lh_fcb :: bool
  lh_fcv_dfc :: bool
  lh_function_code :: nat
  lh_function_name :: string
  lh_destination :: nat
  lh_source :: nat
  lh_header_crc_hex :: string

record transport_header =
  th_raw :: nat
  th_fir :: bool
  th_fin :: bool
  th_sequence :: nat

record trace_frame =
  tf_session_id :: int
  tf_direction :: string
  tf_first_sequence :: int
  tf_last_sequence :: int
  tf_monotonic_ns :: int
  tf_raw_hex :: string
  tf_payload_hex :: string
  tf_link :: link_header
  tf_transport :: "transport_header option"
  tf_crc_valid :: bool
  tf_decode_error :: "string option"

text \<open>
  The internal indications, the application header (empty when not even two octets were
  there) and one object header with the values decoded under it. Values are dictionaries with
  the keys of the source.
\<close>

record iin_bits =
  iin_raw_hex :: string
  iin_iin1 :: nat
  iin_iin2 :: nat
  iin_edition :: string
  iin_named_bits :: "(string \<times> bool) list"

record app_control =
  ac_control_raw :: nat
  ac_fir :: bool
  ac_fin :: bool
  ac_con :: bool
  ac_uns :: bool
  ac_sequence :: nat
  ac_function_code :: nat
  ac_function_name :: string
  ac_iin :: "iin_bits option"

record app_header =
  ah_control :: "app_control option"
  ah_decoded_bytes :: nat
  ah_remaining_hex :: "string option"

record app_object =
  ao_group :: nat
  ao_variation :: nat
  ao_qualifier :: nat
  ao_qualifier_hex :: string
  ao_start_stop :: "(nat \<times> nat) option"
  ao_count :: "nat option"
  ao_all_objects :: bool
  ao_header_only :: bool
  ao_indices :: "nat list option"
  ao_values :: "dict list"
  ao_raw_hex :: "string option"

record trace_application =
  ta_session_id :: int
  ta_direction :: string
  ta_frame_sequences :: "int list"
  ta_raw_hex :: string
  ta_header :: app_header
  ta_objects :: "app_object list"
  ta_decode_error :: "string option"

record trace_batch =
  tb_summary :: trace_summary
  tb_records :: "trace_record list"
  tb_frames :: "trace_frame list"
  tb_applications :: "trace_application list"
  tb_timed_out :: bool
  tb_issues :: "string list"
  tb_complete :: bool

text \<open>The properties \<open>raw_bytes\<close>; \<open>bytes.fromhex\<close> cannot fail on what \<open>hex\<close> wrote.\<close>

definition TraceFrame_raw_bytes :: "trace_frame \<Rightarrow> byte list option" where
  "TraceFrame_raw_bytes f = bytes_fromhex (tf_raw_hex f)"

definition TraceApplication_raw_bytes :: "trace_application \<Rightarrow> byte list option" where
  "TraceApplication_raw_bytes a = bytes_fromhex (ta_raw_hex a)"

text \<open>\<open>assert_complete\<close> raises \<open>TraceIncompleteError\<close> with the batch unless it is complete.\<close>

definition assert_complete :: "trace_batch \<Rightarrow> trace_batch option" where
  "assert_complete b = (if tb_complete b then None else Some b)"

end
