(* ===== verification/Crc.thy ===== *)
theory Crc
  imports Bytes
begin

unbundle bit_operations_syntax

text \<open>
  The link-layer checksum of \<open>python/src/dnp3_master/trace.py\<close> (\<open>_crc\<close>, a bit-serial loop on
  Python integers) and the table-driven one of the vendored OpenDNP3 stack
  (\<open>third_party/opendnp3/cpp/lib/src/link/CRC.cpp\<close>) that its comment refers to. The integers
  of the Python loop are related to 16-bit words, the two algorithms are shown equal on every
  input, and the checksum is shown to notice every change confined to two adjacent octets.
\<close>

section \<open>The bit-serial loop\<close>

definition crc_bit :: "int \<Rightarrow> int" where
  "crc_bit v = (drop_bit 1 v) XOR (if v AND 1 \<noteq> 0 then 0xA6BC else 0)"

definition crc_octet :: "int \<Rightarrow> byte \<Rightarrow> int" where
  "crc_octet v octet = (crc_bit ^^ 8) (v XOR uint octet)"

definition crc :: "byte list \<Rightarrow> int" where
  "crc data = (NOT (foldl crc_octet 0 data)) AND 0xFFFF"

section \<open>The same loop on a 16-bit register\<close>

definition crc_bit16 :: "16 word \<Rightarrow> 16 word" where
  "crc_bit16 w = (drop_bit 1 w) XOR (if bit w 0 then 0xA6BC else 0)"

definition crc_octet16 :: "16 word \<Rightarrow> byte \<Rightarrow> 16 word" where
  "crc_octet16 w octet = (crc_bit16 ^^ 8) (w XOR ucast octet)"

definition crc16 :: "byte list \<Rightarrow> 16 word" where
  "crc16 data = NOT (foldl crc_octet16 0 data)"

section \<open>The table of the vendored stack\<close>

definition crcTable :: "16 word list" where
  "crcTable = [
    0x0000, 0x365E, 0x6CBC, 0x5AE2, 0xD978, 0xEF26, 0xB5C4, 0x839A, 0xFF89, 0xC9D7, 0x9335, 0xA56B,
    0x26F1, 0x10AF, 0x4A4D, 0x7C13, 0xB26B, 0x8435, 0xDED7, 0xE889, 0x6B13, 0x5D4D, 0x07AF, 0x31F1,
    0x4DE2, 0x7BBC, 0x215E, 0x1700, 0x949A, 0xA2C4, 0xF826, 0xCE78, 0x29AF, 0x1FF1, 0x4513, 0x734D,
    0xF0D7, 0xC689, 0x9C6B, 0xAA35, 0xD626, 0xE078, 0xBA9A, 0x8CC4, 0x0F5E, 0x3900, 0x63E2, 0x55BC,
    0x9BC4, 0xAD9A, 0xF778, 0xC126, 0x42BC, 0x74E2, 0x2E00, 0x185E, 0x644D, 0x5213, 0x08F1, 0x3EAF,
    0xBD35, 0x8B6B, 0xD189, 0xE7D7, 0x535E, 0x6500, 0x3FE2, 0x09BC, 0x8A26, 0xBC78, 0xE69A, 0xD0C4,
    0xACD7, 0x9A89, 0xC06B, 0xF635, 0x75AF, 0x43F1, 0x1913, 0x2F4D, 0xE135, 0xD76B, 0x8D89, 0xBBD7,
    0x384D, 0x0E13, 0x54F1, 0x62AF, 0x1EBC, 0x28E2, 0x7200, 0x445E, 0xC7C4, 0xF19A, 0xAB78, 0x9D26,
    0x7AF1, 0x4CAF, 0x164D, 0x2013, 0xA389, 0x95D7, 0xCF35, 0xF96B, 0x8578, 0xB326, 0xE9C4, 0xDF9A,
    0x5C00, 0x6A5E, 0x30BC, 0x06E2, 0xC89A, 0xFEC4, 0xA426, 0x9278, 0x11E2, 0x27BC, 0x7D5E, 0x4B00,
    0x3713, 0x014D, 0x5BAF, 0x6DF1, 0xEE6B, 0xD835, 0x82D7, 0xB489, 0xA6BC, 0x90E2, 0xCA00, 0xFC5E,
    0x7FC4, 0x499A, 0x1378, 0x2526, 0x5935, 0x6F6B, 0x3589, 0x03D7, 0x804D, 0xB613, 0xECF1, 0xDAAF,
    0x14D7, 0x2289, 0x786B, 0x4E35, 0xCDAF, 0xFBF1, 0xA113, 0x974D, 0xEB5E, 0xDD00, 0x87E2, 0xB1BC,
    0x3226, 0x0478, 0x5E9A, 0x68C4, 0x8F13, 0xB94D, 0xE3AF, 0xD5F1, 0x566B, 0x6035, 0x3AD7, 0x0C89,
    0x709A, 0x46C4, 0x1C26, 0x2A78, 0xA9E2, 0x9FBC, 0xC55E, 0xF300, 0x3D78, 0x0B26, 0x51C4, 0x679A,
    0xE400, 0xD25E, 0x88BC, 0xBEE2, 0xC2F1, 0xF4AF, 0xAE4D, 0x9813, 0x1B89, 0x2DD7, 0x7735, 0x416B,
    0xF5E2, 0xC3BC, 0x995E, 0xAF00, 0x2C9A, 0x1AC4, 0x4026, 0x7678, 0x0A6B, 0x3C35, 0x66D7, 0x5089,
    0xD313, 0xE54D, 0xBFAF, 0x89F1, 0x4789, 0x71D7, 0x2B35, 0x1D6B, 0x9EF1, 0xA8AF, 0xF24D, 0xC413,
    0xB800, 0x8E5E, 0xD4BC, 0xE2E2, 0x6178, 0x5726, 0x0DC4, 0x3B9A, 0xDC4D, 0xEA13, 0xB0F1, 0x86AF,
    0x0535, 0x336B, 0x6989, 0x5FD7, 0x23C4, 0x159A, 0x4F78, 0x7926, 0xFABC, 0xCCE2, 0x9600, 0xA05E,
    0x6E26, 0x5878, 0x029A, 0x34C4, 0xB75E, 0x8100, 0xDBE2, 0xEDBC, 0x91AF, 0xA7F1, 0xFD13, 0xCB4D,
    0x48D7, 0x7E89, 0x246B, 0x1235]"

definition CalcCrc_step :: "16 word \<Rightarrow> byte \<Rightarrow> 16 word" where
  "CalcCrc_step c b = (let index = (ucast (c XOR ucast b) :: byte) in
     (crcTable ! unat index) XOR (drop_bit 8 c))"

definition CalcCrc :: "byte list \<Rightarrow> 16 word" where
  "CalcCrc input = NOT (foldl CalcCrc_step 0 input)"

section \<open>Python integers and the 16-bit register\<close>

lemma funpow8: "(f ^^ 8) x = f (f (f (f (f (f (f (f x)))))))"
  by (simp add: eval_nat_numeral)

lemma even_uint16: "even (uint w) = even w" for w :: "16 word"
  by transfer (simp add: even_take_bit_eq)

lemma take_bit_uint16: "take_bit 16 (uint w) = uint w" for w :: "16 word"
  using uint_lt2p [of w] by (simp add: take_bit_int_eq_self)

lemma xor16_cancel: "a XOR c = b XOR c \<longleftrightarrow> a = b" for a b c :: "16 word"
  by (metis xor.assoc xor_self_eq xor.right_neutral)

lemma xor16_cancel_left: "c XOR a = c XOR b \<longleftrightarrow> a = b" for a b c :: "16 word"
  using xor16_cancel [of a c b] by (simp add: xor.commute)

lemma xor16_move: "x XOR p = y XOR q \<Longrightarrow> x XOR y = p XOR q" for x y p q :: "16 word"
proof -
  assume "x XOR p = y XOR q"
  then have "(x XOR p) XOR (p XOR y) = (y XOR q) XOR (p XOR y)" by simp
  then show ?thesis by (simp add: ac_simps)
qed

lemma uint_crc_bit16: "uint (crc_bit16 w) = crc_bit (uint w)"
proof -
  have odd: "(uint w AND 1 \<noteq> 0) = bit w 0"
    by (simp add: and_one_eq bit_0 even_uint16 flip: odd_iff_mod_2_eq_one)
  show ?thesis
    by (simp add: crc_bit16_def crc_bit_def odd unsigned_xor_eq unsigned_drop_bit_eq
      take_bit_uint16)
qed

lemma uint_crc_octet16: "uint (crc_octet16 w b) = crc_octet (uint w) b"
proof -
  have "uint (ucast b :: 16 word) = uint b"
    using uint_lt2p [of b] by (simp add: unsigned_ucast_eq take_bit_int_eq_self)
  then show ?thesis
    by (simp add: crc_octet16_def crc_octet_def funpow8 uint_crc_bit16 unsigned_xor_eq)
qed

lemma uint_crc_fold: "uint (foldl crc_octet16 w data) = foldl crc_octet (uint w) data"
  by (induction data arbitrary: w) (simp_all flip: uint_crc_octet16)

lemma crc_eq_uint_crc16: "crc data = uint (crc16 data)"
  using uint_crc_fold [of 0 data, symmetric]
  by (simp add: crc_def crc16_def unsigned_not_eq take_bit_eq_mask mask_numeral and.commute)

lemma crc_eq_iff: "crc xs = crc ys \<longleftrightarrow> foldl crc_octet16 0 xs = foldl crc_octet16 0 ys"
  by (metis crc_eq_uint_crc16 crc16_def word_uint_eq_iff bit.double_compl)

section \<open>Linearity, and the table\<close>

lemma crc_bit16_xor: "crc_bit16 (a XOR b) = crc_bit16 a XOR crc_bit16 b"
  by (auto simp: crc_bit16_def bit_xor_iff drop_bit_xor ac_simps)

lemma crc_bit16_pow_xor: "(crc_bit16 ^^ n) (a XOR b) = (crc_bit16 ^^ n) a XOR (crc_bit16 ^^ n) b"
  by (induction n) (simp_all add: crc_bit16_xor)

lemma crc_bit16_pow_high: "(crc_bit16 ^^ 8) (push_bit 8 w) = drop_bit 8 (push_bit 8 w)"
  by (simp add: funpow8 crc_bit16_def bit_simps drop_bit_drop_bit) (simp add: eval_nat_numeral)

lemma crcTable_computed: "map (\<lambda>n. (crc_bit16 ^^ 8) (of_nat n)) [0..<256] = crcTable"
  by (simp add: crcTable_def upt_rec) (simp add: crc_bit16_def funpow8)

lemma crcTable_nth: "n < 256 \<Longrightarrow> crcTable ! n = (crc_bit16 ^^ 8) (of_nat n)"
  by (simp flip: crcTable_computed)

lemma word16_halves: "w = take_bit 8 w XOR push_bit 8 (drop_bit 8 w)" for w :: "16 word"
  by (rule bit_word_eqI) (auto simp: bit_simps)

lemma CalcCrc_step_eq: "CalcCrc_step c b = crc_octet16 c b"
proof -
  define w where "w = c XOR ucast b"
  have low: "take_bit 8 w = of_nat (unat (ucast w :: byte))"
    by (rule bit_word_eqI) (auto simp: bit_simps)
  have "(crc_bit16 ^^ 8) w =
      (crc_bit16 ^^ 8) (take_bit 8 w) XOR (crc_bit16 ^^ 8) (push_bit 8 (drop_bit 8 w))"
    using crc_bit16_pow_xor [of 8 "take_bit 8 w" "push_bit 8 (drop_bit 8 w)"] word16_halves [of w]
    by simp
  also have "(crc_bit16 ^^ 8) (take_bit 8 w) = crcTable ! unat (ucast w :: byte)"
    by (simp add: crcTable_nth low)
  also have "(crc_bit16 ^^ 8) (push_bit 8 (drop_bit 8 w)) = drop_bit 8 c"
    unfolding crc_bit16_pow_high
    by (rule bit_word_eqI) (auto simp: w_def bit_simps dest: bit_imp_le_length)
  finally show ?thesis
    by (simp add: CalcCrc_step_def crc_octet16_def w_def)
qed

section \<open>Distinguishing inputs\<close>

lemma word16_eq_from_drop_bit:
  fixes w v :: "16 word"
  assumes "drop_bit (Suc 0) w = drop_bit (Suc 0) v" "bit w 0 = bit v 0"
  shows "w = v"
proof (rule bit_word_eqI)
  fix n
  show "bit w n = bit v n"
  proof (cases n)
    case 0
    then show ?thesis using assms by simp
  next
    case (Suc m)
    have "bit (drop_bit (Suc 0) w) m = bit (drop_bit (Suc 0) v) m" using assms by simp
    then show ?thesis using Suc by (simp add: bit_drop_bit_eq)
  qed
qed

text \<open>The bit shifted out reappears as the top bit, so a step loses no information.\<close>

lemma crc_bit16_top: "bit (crc_bit16 w) 15 \<longleftrightarrow> bit w 0"
  by (auto simp: crc_bit16_def bit_xor_iff bit_drop_bit_eq dest: bit_imp_le_length)

lemma crc_bit16_inject: "crc_bit16 v = crc_bit16 w \<Longrightarrow> v = w"
proof -
  assume eq: "crc_bit16 v = crc_bit16 w"
  then have b: "bit v 0 = bit w 0" by (metis crc_bit16_top)
  with eq have "drop_bit (Suc 0) v = drop_bit (Suc 0) w"
    by (auto simp: crc_bit16_def xor16_cancel split: if_splits)
  then show "v = w" using b by (rule word16_eq_from_drop_bit)
qed

lemma crc_bit16_pow_inject: "(crc_bit16 ^^ n) v = (crc_bit16 ^^ n) w \<Longrightarrow> v = w"
  by (induction n) (auto dest: crc_bit16_inject)

lemma crc_octet16_inject: "crc_octet16 v b = crc_octet16 w b \<Longrightarrow> v = w"
  using crc_bit16_pow_inject [of 8 "v XOR ucast b" "w XOR ucast b"]
  by (simp add: crc_octet16_def xor16_cancel)

lemma crc_fold_inject: "foldl crc_octet16 v bs = foldl crc_octet16 w bs \<Longrightarrow> v = w"
  by (induction bs arbitrary: v w) (auto dest: crc_octet16_inject)

lemma length_crcTable: "length crcTable = 256"
  by (simp add: crcTable_def)

lemma crcTable_tail_high: "\<forall>x \<in> set (tl crcTable). drop_bit 8 x \<noteq> 0"
  by (simp add: crcTable_def)

lemma crcTable_high: "n < 256 \<Longrightarrow> drop_bit 8 (crcTable ! n) = 0 \<Longrightarrow> n = 0"
proof (cases n)
  case (Suc m)
  assume "n < 256" and z: "drop_bit 8 (crcTable ! n) = 0"
  then have "m < length (tl crcTable)" using Suc by (simp add: length_crcTable)
  then have "tl crcTable ! m \<in> set (tl crcTable)" by (rule nth_mem)
  then have "drop_bit 8 (crcTable ! n) \<noteq> 0"
    using crcTable_tail_high Suc \<open>m < length (tl crcTable)\<close> by (simp add: nth_tl)
  with z show ?thesis by simp
qed simp

text \<open>An octet step moves a difference of the incoming octets out of the low half.\<close>

lemma crc_pow8_low:
  fixes d e :: byte
  assumes "(crc_bit16 ^^ 8) (ucast d) = ucast e"
  shows "d = 0"
proof -
  have "ucast d = (of_nat (unat d) :: 16 word)"
    by (rule bit_word_eqI) (auto simp: bit_simps)
  moreover have "drop_bit 8 (ucast e :: 16 word) = 0"
    by (rule bit_word_eqI) (auto simp: bit_simps dest: bit_imp_le_length)
  ultimately have "unat d = 0"
    using assms crcTable_high [of "unat d"] by (simp add: crcTable_nth)
  then show ?thesis by (simp add: unat_eq_zero)
qed

lemma byte_xor_eq_0: "a XOR b = 0 \<longleftrightarrow> a = b" for a b :: byte
  by (simp add: bit_eq_iff bit_xor_iff)

lemma ucast_byte_inject: "(ucast b :: 16 word) = ucast c \<Longrightarrow> b = c" for b c :: byte
  by (auto simp: bit_eq_iff bit_simps)

lemma crc_octet16_low_diff:
  fixes a a' b b' :: byte
  assumes "crc_octet16 v a XOR ucast b = crc_octet16 v a' XOR ucast b'"
  shows "a = a' \<and> b = b'"
proof -
  have "crc_octet16 v a XOR crc_octet16 v a' = (crc_bit16 ^^ 8) (ucast (a XOR a'))"
    by (simp add: crc_octet16_def crc_bit16_pow_xor unsigned_xor_eq ac_simps)
  with xor16_move [OF assms] have "(crc_bit16 ^^ 8) (ucast (a XOR a')) = ucast (b XOR b')"
    by (simp add: unsigned_xor_eq)
  then have "a XOR a' = 0" by (rule crc_pow8_low)
  then have a: "a = a'" by (simp only: byte_xor_eq_0)
  with assms have "(ucast b :: 16 word) = ucast b'" by (simp add: xor16_cancel_left)
  with a show ?thesis by (simp add: ucast_byte_inject)
qed

lemma crc_octet16_pair_inject:
  "crc_octet16 (crc_octet16 v a) b = crc_octet16 (crc_octet16 v a') b' \<Longrightarrow> a = a' \<and> b = b'"
  using crc_bit16_pow_inject [of 8 "crc_octet16 v a XOR ucast b" "crc_octet16 v a' XOR ucast b'"]
    crc_octet16_low_diff
  by (simp add: crc_octet16_def [of "crc_octet16 v a"] crc_octet16_def [of "crc_octet16 v a'"])

lemma crc_octet16_right_inject: "crc_octet16 v a = crc_octet16 v b \<Longrightarrow> a = b"
  using crc_bit16_pow_inject [of 8 "v XOR ucast a" "v XOR ucast b"]
  by (simp add: crc_octet16_def xor16_cancel_left ucast_byte_inject)

section \<open>Properties\<close>

text \<open>
  The bit-serial checksum that \<open>_crc\<close> computes on unbounded Python integers equals, for
  every input, the 16-bit checksum the vendored stack computes with its 256-entry table.
\<close>

theorem crc_equals_vendored_table: "crc data = uint (CalcCrc data)"
proof -
  have "CalcCrc_step = crc_octet16" by (intro ext) (rule CalcCrc_step_eq)
  then show ?thesis by (simp add: crc_eq_uint_crc16 crc16_def CalcCrc_def)
qed

text \<open>
  The checksum notices every corruption confined to at most two adjacent octets of a
  block: two blocks that agree outside such a window and differ inside have different sums.
\<close>

theorem crc_detects_adjacent_octets:
  assumes "length ys = length ys'" "length ys \<le> 2" "ys \<noteq> ys'"
  shows "crc (xs @ ys @ zs) \<noteq> crc (xs @ ys' @ zs)"
proof
  assume "crc (xs @ ys @ zs) = crc (xs @ ys' @ zs)"
  then have e: "foldl crc_octet16 (foldl crc_octet16 0 xs) ys = foldl crc_octet16 (foldl crc_octet16 0 xs) ys'"
    by (auto simp: crc_eq_iff dest: crc_fold_inject)
  consider "ys = []" "ys' = []" | a a' where "ys = [a]" "ys' = [a']"
    | a b a' b' where "ys = [a, b]" "ys' = [a', b']"
    using assms(1,2) by (auto simp: le_Suc_eq numeral_2_eq_2 length_Suc_conv)
  then show False
    using e assms(3) by cases (auto dest: crc_octet16_right_inject crc_octet16_pair_inject)
qed

theorem crc_detects_adjacent_octets_witness:
  "crc ([5, 100] @ [5, 192] @ [1, 0, 0, 4]) \<noteq> crc ([5, 100] @ [5, 196] @ [1, 0, 0, 4])"
  by (rule crc_detects_adjacent_octets) simp_all

text \<open>The published check value of the link header \<open>05 64 05 C0 01 00 00 04\<close>.\<close>

lemma crc_known_vector: "crc [5, 100, 5, 192, 1, 0, 0, 4] = 0x21E9"
  by (simp add: crc_def crc_octet_def funpow8 crc_bit_def)

end
