(* ===== verification/LinkLayer.thy ===== *)
theory LinkLayer
  imports TraceModels Crc
begin

text \<open>
  Link layer of the trace decoder, \<open>python/src/dnp3_master/trace.py\<close>: the decoder state
  (\<open>TraceDecoder.__init__\<close>, \<open>reset\<close>, \<open>_issue\<close>, \<open>_clear_pending\<close>), and \<open>_consume_link\<close>, which
  collects the hexadecimal lines of one link frame and checks its checksums.
\<close>

unbundle bit_operations_syntax

section \<open>Decoder state\<close>

record link_pending =
  lp_first :: trace_record
  lp_expected :: nat
  lp_data :: "byte list"

record transport_pending =
  tp_next_sequence :: nat
  tp_data :: "byte list"
  tp_frames :: "int list"

type_synonym link_key = "int \<times> string \<times> string"
type_synonym transport_key = "int \<times> string \<times> nat \<times> nat"

record decoder =
  d_trace_id :: "string option"
  d_last_sequence :: int
  d_last_summary :: "trace_summary option"
  d_issues :: "string list"
  d_links :: "(link_key \<times> link_pending) list"
  d_transports :: "(transport_key \<times> transport_pending) list"

definition reset :: decoder where
  "reset = \<lparr>d_trace_id = None, d_last_sequence = 0, d_last_summary = None, d_issues = [],
     d_links = [], d_transports = []\<rparr>"

definition issue :: "string \<Rightarrow> decoder \<Rightarrow> decoder" where
  "issue v d = (if v \<notin> set (d_issues d) then d\<lparr>d_issues := d_issues d @ [v]\<rparr> else d)"

definition clear_pending :: "decoder \<Rightarrow> decoder" where
  "clear_pending d = d\<lparr>d_links := [], d_transports := []\<rparr>"

definition MAX_APDU :: nat where "MAX_APDU = 65536"
definition MAX_ROUTES :: nat where "MAX_ROUTES = 16"
definition MAX_SEGMENTS :: nat where "MAX_SEGMENTS = 1024"

section \<open>Hexadecimal lines\<close>

text \<open>\<open>re.fullmatch(r"[0-9A-Fa-f]{2}(?: [0-9A-Fa-f]{2}){0,17}", text)\<close>\<close>

fun hex_pairs_tail :: "nat \<Rightarrow> string \<Rightarrow> bool" where
  "hex_pairs_tail n [] = True"
| "hex_pairs_tail n (s # a # b # rest) =
     (n > 0 \<and> s = CHR '' '' \<and> is_hex a \<and> is_hex b \<and> hex_pairs_tail (n - 1) rest)"
| "hex_pairs_tail _ _ = False"

fun link_hex_match :: "string \<Rightarrow> bool" where
  "link_hex_match (a # b # rest) = (is_hex a \<and> is_hex b \<and> hex_pairs_tail 17 rest)"
| "link_hex_match _ = False"

text \<open>The line's octets when the pattern matches; \<open>bytes.fromhex\<close> then succeeds.\<close>

definition link_chunk :: "string \<Rightarrow> byte list option" where
  "link_chunk message = (if link_hex_match message then bytes_fromhex message else None)"

section \<open>One link frame\<close>

definition LINK_FUNCTIONS :: "(nat \<times> string) list" where
  "LINK_FUNCTIONS =
     [(0x40, ''RESET_LINK_STATES''), (0x42, ''TEST_LINK_STATES''),
      (0x43, ''CONFIRMED_USER_DATA''), (0x44, ''UNCONFIRMED_USER_DATA''),
      (0x49, ''REQUEST_LINK_STATUS''), (0, ''ACK''), (1, ''NACK''), (11, ''LINK_STATUS''),
      (15, ''NOT_SUPPORTED'')]"

text \<open>
  The octets a frame takes on the wire: ten for the header, then the payload in blocks of at
  most sixteen octets, each followed by its checksum.
\<close>

definition frame_size :: "nat \<Rightarrow> nat" where
  "frame_size payload_size = 10 + payload_size + ((payload_size + 15) div 16) * 2"

text \<open>
  The loop over the blocks behind the header, on the octets not yet visited: whether every
  checksum is right, and the payload.
\<close>

function link_blocks :: "byte list \<Rightarrow> bool \<times> byte list" where
  "link_blocks rest =
     (if rest = [] then (True, [])
      else let size = min 16 (length rest - 2);
               block = take size rest;
               (valid, payload) = link_blocks (drop (size + 2) rest)
           in (crc block = int (from_le (take 2 (drop size rest))) \<and> valid, block @ payload))"
  by pat_completeness auto
termination
  by (relation "measure length") auto

declare link_blocks.simps [simp del]

definition link_header_of :: "byte list \<Rightarrow> link_header" where
  "link_header_of raw = (let control = raw ! 3; function = unat (control AND 0x4F) in
     \<lparr>lh_length = unat (raw ! 2), lh_control_raw = unat control,
      lh_dir = (control AND 0x80 \<noteq> 0), lh_prm = (control AND 0x40 \<noteq> 0),
      lh_fcb = (control AND 0x20 \<noteq> 0), lh_fcv_dfc = (control AND 0x10 \<noteq> 0),
      lh_function_code = unat (control AND 0x0F),
      lh_function_name = (case map_of LINK_FUNCTIONS function of Some n \<Rightarrow> n | None \<Rightarrow> ''UNKNOWN''),
      lh_destination = from_le (take 2 (drop 4 raw)), lh_source = from_le (take 2 (drop 6 raw)),
      lh_header_crc_hex = hex_upper (take 2 (drop 8 raw))\<rparr>)"

definition transport_header_of :: "byte \<Rightarrow> transport_header" where
  "transport_header_of b = \<lparr>th_raw = unat b, th_fir = (b AND 0x40 \<noteq> 0), th_fin = (b AND 0x80 \<noteq> 0),
     th_sequence = unat (b AND 0x3F)\<rparr>"

text \<open>The chain of conditions that classifies a complete frame.\<close>

definition link_classify :: "bool \<Rightarrow> byte \<Rightarrow> byte list \<Rightarrow> transport_header option \<times> string option" where
  "link_classify valid control payload = (let function = unat (control AND 0x4F) in
     if \<not> valid then (None, Some ''CRC_MISMATCH'')
     else if map_of LINK_FUNCTIONS function = None then (None, Some ''UNSUPPORTED_LINK_FUNCTION'')
     else if control AND 0x40 \<noteq> 0 \<and> (control AND 0x10 \<noteq> 0) \<noteq> (function \<in> {0x42, 0x43})
       then (None, Some ''INVALID_LINK_FCV'')
     else if \<not> (control AND 0x40 \<noteq> 0) \<and> control AND 0x20 \<noteq> 0 then (None, Some ''INVALID_LINK_FCB'')
     else if function \<in> {0x43, 0x44} then
       (case payload of [] \<Rightarrow> (None, Some ''MISSING_TRANSPORT_HEADER'')
        | b # _ \<Rightarrow> (Some (transport_header_of b), None))
     else if payload \<noteq> [] then (None, Some ''UNEXPECTED_LINK_PAYLOAD'')
     else (None, None))"

definition link_frame_of :: "trace_record \<Rightarrow> string \<Rightarrow> link_pending \<Rightarrow> trace_frame" where
  "link_frame_of record direction pending =
     (let raw = lp_data pending;
          (blocks_valid, payload) = link_blocks (drop 10 raw);
          valid = (crc (take 8 raw) = int (from_le (take 2 (drop 8 raw))) \<and> blocks_valid);
          (transport, error) = link_classify valid (raw ! 3) payload
      in \<lparr>tf_session_id = tr_session_id record, tf_direction = direction,
          tf_first_sequence = tr_sequence (lp_first pending), tf_last_sequence = tr_sequence record,
          tf_monotonic_ns = tr_monotonic_ns (lp_first pending),
          tf_raw_hex = hex_upper raw, tf_payload_hex = hex_upper payload,
          tf_link = link_header_of raw, tf_transport = transport,
          tf_crc_valid = valid, tf_decode_error = error\<rparr>)"

section \<open>Collecting the lines of a frame\<close>

definition link_direction :: "trace_record \<Rightarrow> string" where
  "link_direction record = (if tr_level record = ''LINK_RX_HEX'' then ''RX'' else ''TX'')"

definition link_key_of :: "trace_record \<Rightarrow> link_key" where
  "link_key_of record = (tr_session_id record, link_direction record, tr_logger record)"

definition link_issue :: "trace_frame \<Rightarrow> decoder \<Rightarrow> decoder" where
  "link_issue frame d = (case tf_decode_error frame of None \<Rightarrow> d | Some e \<Rightarrow> issue e d)"

text \<open>After a chunk was stored: wait for more, or remove the entry and build the frame.\<close>

definition link_advance ::
  "decoder \<Rightarrow> trace_record \<Rightarrow> link_pending \<Rightarrow> decoder \<times> trace_frame option" where
  "link_advance d record pending =
     (let key = link_key_of record in
      if length (lp_data pending) \<noteq> lp_expected pending
      then (d\<lparr>d_links := dict_set key pending (d_links d)\<rparr>, None)
      else let frame = link_frame_of record (link_direction record) pending
           in (link_issue frame (d\<lparr>d_links := dict_del key (d_links d)\<rparr>), Some frame))"

definition consume_link :: "decoder \<Rightarrow> trace_record \<Rightarrow> decoder \<times> trace_frame option" where
  "consume_link d record =
     (let key = link_key_of record in
      case link_chunk (tr_message record) of
        None \<Rightarrow> ((issue ''INVALID_LINK_HEX'' d)\<lparr>d_links := dict_del key (d_links d)\<rparr>, None)
      | Some chunk \<Rightarrow>
          (case dict_get (d_links d) key of
             None \<Rightarrow>
               if length chunk \<noteq> 10 \<or> take 2 chunk \<noteq> [0x05, 0x64] \<or> unat (chunk ! 2) < 5
               then (issue ''ORPHAN_LINK_HEX'' d, None)
               else if length (d_links d) \<ge> MAX_ROUTES
               then (issue ''LINK_ROUTE_LIMIT'' d, None)
               else link_advance d record
                 \<lparr>lp_first = record, lp_expected = frame_size (unat (chunk ! 2) - 5), lp_data = chunk\<rparr>
           | Some pending \<Rightarrow>
               let remaining = lp_expected pending - length (lp_data pending) in
               if length chunk \<noteq> min 18 remaining
               then ((issue ''INVALID_LINK_HEX_LENGTH'' d)\<lparr>d_links := dict_del key (d_links d)\<rparr>, None)
               else link_advance d record (pending\<lparr>lp_data := lp_data pending @ chunk\<rparr>)))"


section \<open>Hexadecimal lines carry their octets\<close>

lemma hex_pairs_tail_hex:
  "length bs \<le> n \<Longrightarrow> hex_pairs_tail n (concat (map (\<lambda>b. CHR '' '' # hex_byte b) bs))"
proof (induction bs arbitrary: n)
  case (Cons b bs)
  then show ?case by (cases n) (auto simp: hex_byte_def)
qed simp

lemma hex_spaced_concat:
  "hex_spaced (b # bs) = hex_byte b @ concat (map (\<lambda>b. CHR '' '' # hex_byte b) bs)"
  by (induction bs arbitrary: b) (simp_all add: hex_spaced_def)

lemma link_chunk_hex_spaced:
  assumes "bs \<noteq> []" "length bs \<le> 18"
  shows "link_chunk (hex_spaced bs) = Some bs"
proof -
  obtain b cs where bs: "bs = b # cs" using assms(1) by (cases bs) auto
  have "link_hex_match (hex_spaced bs)"
    using assms(2) hex_pairs_tail_hex [of cs 17] by (simp add: bs hex_spaced_concat hex_byte_def)
  then show ?thesis by (simp add: link_chunk_def fromhex_hex_spaced)
qed

section \<open>The reference encoding of a link frame\<close>

definition crc_bytes :: "byte list \<Rightarrow> byte list" where
  "crc_bytes data = to_le 2 (nat (crc data))"

fun block_encode :: "byte list \<Rightarrow> byte list" where
  "block_encode payload =
     (if payload = [] then []
      else take 16 payload @ crc_bytes (take 16 payload) @ block_encode (drop 16 payload))"

declare block_encode.simps [simp del]

definition link_encode :: "byte \<Rightarrow> nat \<Rightarrow> nat \<Rightarrow> byte list \<Rightarrow> byte list" where
  "link_encode control destination source payload =
     (let header = [0x05, 0x64, of_nat (5 + length payload), control] @ to_le 2 destination @ to_le 2 source
      in header @ crc_bytes header @ block_encode payload)"

lemma crc_nonneg [simp]: "0 \<le> crc data"
  by (simp add: crc_eq_uint_crc16)

lemma crc_less: "crc data < 65536"
  using uint_lt2p [of "crc16 data"] by (simp add: crc_eq_uint_crc16)

lemma length_crc_bytes [simp]: "length (crc_bytes data) = 2"
  by (simp add: crc_bytes_def)

lemma from_le_crc_bytes [simp]: "int (from_le (crc_bytes data)) = crc data"
  using crc_less [of data] by (simp add: crc_bytes_def from_le_to_le nat_less_iff)

lemma crc_bytes_unique: "length bs = 2 \<Longrightarrow> crc data = int (from_le bs) \<longleftrightarrow> bs = crc_bytes data"
  by (metis from_le_crc_bytes from_le_inject length_crc_bytes of_nat_eq_iff)

lemma block_encode_Nil [simp]: "block_encode [] = []"
  by (simp add: block_encode.simps)

lemma link_blocks_Nil [simp]: "link_blocks [] = (True, [])"
  by (simp add: link_blocks.simps)

lemma link_blocks_step:
  assumes "block \<noteq> []" "length block \<le> 16" "length c = 2" "length block = 16 \<or> rest = []"
  shows "link_blocks (block @ c @ rest) =
    (crc block = int (from_le c) \<and> fst (link_blocks rest), block @ snd (link_blocks rest))"
proof -
  have size: "min 16 (length (block @ c @ rest) - 2) = length block"
    using assms by auto
  have "block @ c @ rest \<noteq> []" using assms by simp
  then show ?thesis
    unfolding link_blocks.simps [of "block @ c @ rest"] Let_def size
    using assms(1,3) by (simp add: case_prod_unfold)
qed

lemma link_blocks_encode: "link_blocks (block_encode payload) = (True, payload)"
proof (induction payload rule: block_encode.induct)
  case (1 payload)
  show ?case
  proof (cases "payload = []")
    case False
    have "length (take 16 payload) = 16 \<or> block_encode (drop 16 payload) = []"
      by (cases "length payload \<le> 16") auto
    then show ?thesis
      using 1 [OF False] False
      by (subst block_encode.simps) (simp add: link_blocks_step)
  qed simp
qed

lemma block_count_step:
  fixes n :: nat
  assumes "0 < n"
  shows "(n + 15) div 16 = Suc ((n - min 16 n + 15) div 16)"
proof (cases "n \<le> 16")
  case False
  then obtain k where "n = 16 + k" by (metis le_add_diff_inverse nat_le_linear)
  then show ?thesis by simp
qed (use assms in auto)

lemma length_block_encode:
  "length (block_encode payload) = length payload + ((length payload + 15) div 16) * 2"
proof (induction payload rule: block_encode.induct)
  case (1 payload)
  show ?case
  proof (cases "length payload \<le> 16")
    case True
    then have "payload = [] \<or> (length payload + 15) div 16 = 1"
      by (cases payload) auto
    with True show ?thesis by (auto simp: block_encode.simps [of payload])
  next
    case False
    then have "payload \<noteq> []" by auto
    with 1 [OF this] False block_count_step [of "length payload"] show ?thesis
      by (simp add: block_encode.simps [of payload])
  qed
qed

text \<open>Conversely, octets of the right number whose checksums are right are an encoding.\<close>

lemma link_blocks_sound:
  assumes "length rest = n + ((n + 15) div 16) * 2" "fst (link_blocks rest)"
  shows "rest = block_encode (snd (link_blocks rest)) \<and> length (snd (link_blocks rest)) = n"
  using assms
proof (induction n arbitrary: rest rule: less_induct)
  case (less n)
  show ?case
  proof (cases "n = 0")
    case True
    with less.prems show ?thesis by simp
  next
    case False
    define m where "m = min 16 n"
    define block where "block = take m rest"
    define c where "c = take 2 (drop m rest)"
    define rest' where "rest' = drop (m + 2) rest"
    have split: "rest = block @ c @ rest'"
      unfolding block_def c_def rest'_def
      by (metis append_take_drop_id drop_drop add.commute)
    have m: "0 < m" "m \<le> 16" "m \<le> n" "m < 16 \<Longrightarrow> n = m" using False by (auto simp: m_def)
    have n16: "(n + 15) div 16 = Suc ((n - m + 15) div 16)"
      using False block_count_step [of n] by (simp add: m_def)
    have len: "length rest' = (n - m) + ((n - m + 15) div 16) * 2" "length block = m" "length c = 2"
      using less.prems(1) m n16 by (auto simp: block_def c_def rest'_def)
    have full: "length block = 16 \<or> rest' = []"
      using m len by (cases "m < 16") auto
    have step: "link_blocks rest = (crc block = int (from_le c) \<and> fst (link_blocks rest'), block @ snd (link_blocks rest'))"
      unfolding split using full len m by (intro link_blocks_step) auto
    then have "rest' = block_encode (snd (link_blocks rest')) \<and> length (snd (link_blocks rest')) = n - m"
      using less.IH [of "n - m" rest'] less.prems(2) len m by simp
    moreover have "c = crc_bytes block"
      using step less.prems(2) len by (simp add: crc_bytes_unique)
    moreover have "take 16 (block @ snd (link_blocks rest')) = block"
      "drop 16 (block @ snd (link_blocks rest')) = snd (link_blocks rest')"
      using full len m calculation by auto
    moreover have "block @ snd (link_blocks rest') \<noteq> []" using m len by auto
    ultimately have "block_encode (block @ snd (link_blocks rest')) = rest"
      by (simp only: block_encode.simps [of "block @ snd (link_blocks rest')"] if_False split)
    then show ?thesis
      using step less.IH [of "n - m" rest'] less.prems(2) len m by simp
  qed
qed

lemma length_link_encode: "length (link_encode c dst src payload) = frame_size (length payload)"
  by (simp add: link_encode_def Let_def length_block_encode frame_size_def)


section \<open>Pending frames\<close>

definition link_pending_ok :: "link_pending \<Rightarrow> bool" where
  "link_pending_ok p \<longleftrightarrow> 10 \<le> length (lp_data p) \<and> length (lp_data p) \<le> lp_expected p \<and>
     take 2 (lp_data p) = [0x05, 0x64] \<and> 5 \<le> unat (lp_data p ! 2) \<and>
     lp_expected p = frame_size (unat (lp_data p ! 2) - 5)"

lemma frame_size_bound: "n \<le> 250 \<Longrightarrow> frame_size n \<le> 292"
proof -
  assume n: "n \<le> 250"
  then have "(n + 15) div 16 \<le> 265 div 16" by (intro div_le_mono) simp
  with n show ?thesis by (simp add: frame_size_def)
qed

lemma link_pending_bound: "link_pending_ok p \<Longrightarrow> length (lp_data p) \<le> 292"
proof -
  assume "link_pending_ok p"
  moreover have "unat (lp_data p ! 2) - 5 \<le> 250"
    using unat_byte_less [of "lp_data p ! 2"] by linarith
  ultimately show ?thesis
    using frame_size_bound [of "unat (lp_data p ! 2) - 5"] by (auto simp: link_pending_ok_def)
qed

lemma list_first10:
  assumes "10 \<le> length xs"
  obtains a b c d e f g h i j ys where "xs = a # b # c # d # e # f # g # h # i # j # ys"
  using assms by (auto simp: numeral_eq_Suc Suc_le_length_iff)

text \<open>A complete pending frame is checksum-correct exactly when it is an encoding.\<close>

lemma link_frame_crc_iff:
  fixes r :: trace_record and dir :: string
  assumes ok: "link_pending_ok p" and full: "length (lp_data p) = lp_expected p"
  defines "f \<equiv> link_frame_of r dir p" and "raw \<equiv> lp_data p" and "payload \<equiv> snd (link_blocks (drop 10 (lp_data p)))"
  shows "tf_raw_hex f = hex_upper raw" "tf_payload_hex f = hex_upper payload"
    "tf_crc_valid f \<longleftrightarrow> raw = link_encode (raw ! 3) (lh_destination (tf_link f)) (lh_source (tf_link f)) payload"
    "tf_crc_valid f \<Longrightarrow> length payload = unat (raw ! 2) - 5"
proof -
  show hex: "tf_raw_hex f = hex_upper raw" "tf_payload_hex f = hex_upper payload"
    by (simp_all add: f_def raw_def payload_def link_frame_of_def Let_def case_prod_unfold)
  have "10 \<le> length raw" using ok by (simp add: link_pending_ok_def raw_def)
  then obtain a b l c d0 d1 s0 s1 k0 k1 rest
    where raw: "raw = a # b # l # c # d0 # d1 # s0 # s1 # k0 # k1 # rest"
    by (rule list_first10)
  have ab: "a = 5" "b = 0x64" and l: "5 \<le> unat l"
    and size: "length raw = frame_size (unat l - 5)"
    using ok full raw by (auto simp: link_pending_ok_def raw_def)
  have rest: "length rest = (unat l - 5) + ((unat l - 5 + 15) div 16) * 2"
    using size by (simp add: raw frame_size_def)
  have pay: "payload = snd (link_blocks rest)" using raw by (simp add: payload_def raw_def)
  have dst: "to_le 2 (lh_destination (tf_link f)) = [d0, d1]" "to_le 2 (lh_source (tf_link f)) = [s0, s1]"
  proof -
    have "lh_destination (tf_link f) = from_le [d0, d1]" "lh_source (tf_link f) = from_le [s0, s1]"
      using raw by (simp_all add: f_def raw_def link_frame_of_def link_header_of_def Let_def
          case_prod_unfold)
    then show "to_le 2 (lh_destination (tf_link f)) = [d0, d1]" "to_le 2 (lh_source (tf_link f)) = [s0, s1]"
      using to_le_from_le [of "[d0, d1]"] to_le_from_le [of "[s0, s1]"]
      by (simp_all only: numeral_2_eq_2 list.size add_0 add_Suc_right add_Suc One_nat_def)
  qed
  have valid: "tf_crc_valid f \<longleftrightarrow> [k0, k1] = crc_bytes [a, b, l, c, d0, d1, s0, s1] \<and> fst (link_blocks rest)"
    using raw crc_bytes_unique [of "[k0, k1]" "[a, b, l, c, d0, d1, s0, s1]"]
    by (simp add: f_def raw_def link_frame_of_def Let_def case_prod_unfold)
  have enc: "link_encode (raw ! 3) (lh_destination (tf_link f)) (lh_source (tf_link f)) payload =
      [5, 0x64, of_nat (5 + length payload), c, d0, d1, s0, s1] @
      crc_bytes [5, 0x64, of_nat (5 + length payload), c, d0, d1, s0, s1] @ block_encode payload"
    by (simp add: link_encode_def Let_def dst raw)
  show len: "length payload = unat (raw ! 2) - 5" if "tf_crc_valid f"
    using that valid link_blocks_sound [OF rest] by (simp add: pay raw)
  show "tf_crc_valid f \<longleftrightarrow> raw = link_encode (raw ! 3) (lh_destination (tf_link f)) (lh_source (tf_link f)) payload"
  proof
    assume v: "tf_crc_valid f"
    have "of_nat (5 + length payload) = l" using len [OF v] l by (simp add: raw)
    moreover have "rest = block_encode payload"
      using v valid link_blocks_sound [OF rest] by (simp add: pay)
    ultimately show "raw = link_encode (raw ! 3) (lh_destination (tf_link f)) (lh_source (tf_link f)) payload"
      using v valid ab by (simp only: enc) (simp add: raw)
  next
    assume "raw = link_encode (raw ! 3) (lh_destination (tf_link f)) (lh_source (tf_link f)) payload"
    then have "raw = [5, 0x64, of_nat (5 + length payload), c, d0, d1, s0, s1] @
      crc_bytes [5, 0x64, of_nat (5 + length payload), c, d0, d1, s0, s1] @ block_encode payload"
      by (simp only: enc)
    then have eq: "l = of_nat (5 + length payload)" "[k0, k1] @ rest = crc_bytes [a, b, l, c, d0, d1, s0, s1] @ block_encode payload"
      by (simp_all add: raw)
    then have "[k0, k1] = crc_bytes [a, b, l, c, d0, d1, s0, s1]" "rest = block_encode payload"
      using append_eq_append_conv [of "[k0, k1]" "crc_bytes [a, b, l, c, d0, d1, s0, s1]" rest
          "block_encode payload"] by (simp_all only: length_crc_bytes list.size) simp_all
    then show "tf_crc_valid f" using valid link_blocks_encode [of payload] by simp
  qed
qed

section \<open>The table of pending frames\<close>

text \<open>Between two records an entry still waits for octets.\<close>

definition link_open :: "link_pending \<Rightarrow> bool" where
  "link_open p \<longleftrightarrow> link_pending_ok p \<and> length (lp_data p) < lp_expected p"

definition links_ok :: "decoder \<Rightarrow> bool" where
  "links_ok d \<longleftrightarrow> alist.bounded MAX_ROUTES link_open (d_links d)"

lemma issue_simps [simp]:
  "d_links (issue v d) = d_links d" "d_transports (issue v d) = d_transports d"
  "d_trace_id (issue v d) = d_trace_id d" "d_last_sequence (issue v d) = d_last_sequence d"
  "d_last_summary (issue v d) = d_last_summary d"
  "set (d_issues (issue v d)) = insert v (set (d_issues d))"
  "distinct (d_issues (issue v d)) = distinct (d_issues d)"
  by (auto simp: issue_def)

lemma issue_update [simp]:
  "issue v (d\<lparr>d_links := l\<rparr>) = (issue v d)\<lparr>d_links := l\<rparr>"
  "issue v (d\<lparr>d_transports := t\<rparr>) = (issue v d)\<lparr>d_transports := t\<rparr>"
  by (simp_all add: issue_def)

lemma link_issue_simps [simp]:
  "d_links (link_issue f d) = d_links d" "d_transports (link_issue f d) = d_transports d"
  "d_trace_id (link_issue f d) = d_trace_id d" "d_last_sequence (link_issue f d) = d_last_sequence d"
  "d_last_summary (link_issue f d) = d_last_summary d"
  "set (d_issues (link_issue f d)) = set_option (tf_decode_error f) \<union> set (d_issues d)"
  "distinct (d_issues (link_issue f d)) = distinct (d_issues d)"
  by (auto simp: link_issue_def split: option.splits)

lemma link_advance_open:
  assumes ok: "link_pending_ok p" and links: "alist.bounded MAX_ROUTES link_open (d_links d)"
    and room: "length (d_links d) < MAX_ROUTES \<or> (\<exists>q. dict_get (d_links d) (link_key_of r) = Some q)"
  shows "links_ok (fst (link_advance d r p))"
proof (cases "length (lp_data p) = lp_expected p")
  case True
  then show ?thesis
    using alist.bounded_remove [OF links]
    by (simp add: link_advance_def links_ok_def Let_def)
next
  case False
  then have "link_open p" using ok by (auto simp: link_open_def link_pending_ok_def)
  then show ?thesis
    using room False alist.bounded_store_new [OF links, of p "link_key_of r"]
      alist.bounded_store_old [OF links, of "link_key_of r" _ p]
    by (auto simp: link_advance_def links_ok_def Let_def)
qed

lemma link_start_ok:
  assumes "length chunk = 10" "take 2 chunk = [0x05, 0x64]" "5 \<le> unat (chunk ! 2)"
  shows "link_pending_ok \<lparr>lp_first = r, lp_expected = frame_size (unat (chunk ! 2) - 5), lp_data = chunk\<rparr>"
  using assms by (simp add: link_pending_ok_def frame_size_def)

lemma link_append_ok:
  assumes "link_open p" "length chunk \<le> lp_expected p - length (lp_data p)"
  shows "link_pending_ok (p\<lparr>lp_data := lp_data p @ chunk\<rparr>)"
  using assms by (auto simp: link_open_def link_pending_ok_def nth_append)

lemma consume_link_cases:
  assumes ok: "links_ok d"
  obtains (rejected) "snd (consume_link d r) = None" "links_ok (fst (consume_link d r))"
  | (advanced) p where "consume_link d r = link_advance d r p" "link_pending_ok p"
      "length (d_links d) < MAX_ROUTES \<or> (\<exists>q. dict_get (d_links d) (link_key_of r) = Some q)"
proof (cases "link_chunk (tr_message r)")
  case None
  then show ?thesis
    using ok rejected by (simp add: consume_link_def Let_def links_ok_def alist.bounded_remove)
next
  case (Some chunk)
  note chunk = Some
  show ?thesis
  proof (cases "dict_get (d_links d) (link_key_of r)")
    case None
    show ?thesis
    proof (cases "length chunk \<noteq> 10 \<or> take 2 chunk \<noteq> [0x05, 0x64] \<or> unat (chunk ! 2) < 5 \<or>
        length (d_links d) \<ge> MAX_ROUTES")
      case True
      then show ?thesis
        using rejected ok chunk None
        by (cases "length (d_links d) \<ge> MAX_ROUTES") (auto simp: consume_link_def Let_def links_ok_def)
    next
      case False
      then show ?thesis
        using advanced [OF _ link_start_ok [of chunk r]] chunk None by (simp add: consume_link_def Let_def)
    qed
  next
    case (Some q)
    have "link_open q" using ok Some by (auto simp: links_ok_def dest: alist.bounded_lookup)
    note append = link_append_ok [OF this, of chunk]
    show ?thesis
    proof (cases "length chunk = min 18 (lp_expected q - length (lp_data q))")
      case True
      then show ?thesis
        using advanced [OF _ append] chunk Some by (simp add: consume_link_def Let_def)
    next
      case False
      then show ?thesis
        using rejected ok chunk Some
        by (simp add: consume_link_def Let_def links_ok_def alist.bounded_remove)
    qed
  qed
qed

lemma consume_link_links_ok: "links_ok d \<Longrightarrow> links_ok (fst (consume_link d r))"
  using consume_link_cases [of d r] by (metis links_ok_def link_advance_open)


text \<open>The frame a record completes is built from a complete pending entry.\<close>

lemma consume_link_frame:
  assumes "links_ok d" "consume_link d r = (d', Some f)"
  obtains p where "link_pending_ok p" "length (lp_data p) = lp_expected p"
    "f = link_frame_of r (link_direction r) p"
    "d' = link_issue f (d\<lparr>d_links := dict_del (link_key_of r) (d_links d)\<rparr>)"
  using assms(1)
proof (cases rule: consume_link_cases [of d r])
  case (advanced p)
  then show ?thesis
    using assms(2) that by (auto simp: link_advance_def Let_def split: if_splits)
qed (use assms(2) in simp)

text \<open>Which issues a link record may raise, and what it leaves alone.\<close>

definition LINK_ISSUES :: "string list" where
  "LINK_ISSUES = [''INVALID_LINK_HEX'', ''ORPHAN_LINK_HEX'', ''LINK_ROUTE_LIMIT'',
     ''INVALID_LINK_HEX_LENGTH'', ''CRC_MISMATCH'', ''UNSUPPORTED_LINK_FUNCTION'',
     ''INVALID_LINK_FCV'', ''INVALID_LINK_FCB'', ''MISSING_TRANSPORT_HEADER'',
     ''UNEXPECTED_LINK_PAYLOAD'']"

lemma link_classify_error: "snd (link_classify v c payload) = Some e \<Longrightarrow> e \<in> set LINK_ISSUES"
  by (auto simp: link_classify_def LINK_ISSUES_def Let_def split: if_splits list.splits)

lemma link_classify_transport:
  "fst (link_classify v c payload) = Some t \<Longrightarrow>
     v \<and> payload \<noteq> [] \<and> t = transport_header_of (hd payload) \<and> snd (link_classify v c payload) = None"
  by (auto simp: link_classify_def Let_def split: if_splits list.splits)

lemma link_frame_of_error: "tf_decode_error (link_frame_of r dir p) = Some e \<Longrightarrow> e \<in> set LINK_ISSUES"
  by (auto simp: link_frame_of_def Let_def case_prod_unfold dest: link_classify_error)

text \<open>
  How a step may change the bookkeeping of the decoder: issues are only added, without
  repetition, from a given list; identity, position and last summary stay.
\<close>

definition issues_grow :: "string list \<Rightarrow> decoder \<Rightarrow> decoder \<Rightarrow> bool" where
  "issues_grow S d d' \<longleftrightarrow> set (d_issues d) \<subseteq> set (d_issues d') \<and>
     set (d_issues d') \<subseteq> set (d_issues d) \<union> set S \<and>
     (distinct (d_issues d) \<longrightarrow> distinct (d_issues d')) \<and>
     d_trace_id d' = d_trace_id d \<and> d_last_sequence d' = d_last_sequence d \<and>
     d_last_summary d' = d_last_summary d"

lemma issues_grow_refl [simp]: "issues_grow S d d"
  by (auto simp: issues_grow_def)

lemma issues_grow_trans [trans]: "issues_grow S d d' \<Longrightarrow> issues_grow S d' d'' \<Longrightarrow> issues_grow S d d''"
  by (auto simp: issues_grow_def)

lemma issues_grow_mono: "issues_grow S d d' \<Longrightarrow> set S \<subseteq> set T \<Longrightarrow> issues_grow T d d'"
  by (auto simp: issues_grow_def)

lemma issues_grow_update [simp]:
  "issues_grow S d (d'\<lparr>d_links := l\<rparr>) = issues_grow S d d'"
  "issues_grow S d (d'\<lparr>d_transports := t\<rparr>) = issues_grow S d d'"
  "issues_grow S (d\<lparr>d_links := l\<rparr>) d' = issues_grow S d d'"
  "issues_grow S (d\<lparr>d_transports := t\<rparr>) d' = issues_grow S d d'"
  by (simp_all add: issues_grow_def)

lemma issues_grow_issue [simp]: "v \<in> set S \<Longrightarrow> issues_grow S d (issue v d)"
  by (auto simp: issues_grow_def)

lemma link_advance_grow: "issues_grow LINK_ISSUES d (fst (link_advance d r p))"
  using link_frame_of_error [of r "link_direction r" p]
  by (auto simp: link_advance_def Let_def link_issue_def split: option.splits)

lemma consume_link_grow: "issues_grow LINK_ISSUES d (fst (consume_link d r))"
  by (auto simp: consume_link_def Let_def link_advance_grow split: option.splits)
    (simp_all add: LINK_ISSUES_def)

lemma consume_link_transports [simp]: "d_transports (fst (consume_link d r)) = d_transports d"
  by (auto simp: consume_link_def Let_def link_advance_def split: option.splits)

section \<open>Round trip: the lines of a frame give the frame\<close>

text \<open>The host logs a frame as its header, then blocks of at most eighteen octets.\<close>

fun link_chunks :: "byte list \<Rightarrow> byte list list" where
  "link_chunks rest = (if rest = [] then [] else take 18 rest # link_chunks (drop 18 rest))"

declare link_chunks.simps [simp del]

definition link_lines :: "byte list \<Rightarrow> string list" where
  "link_lines raw = map hex_spaced (take 10 raw # link_chunks (drop 10 raw))"

text \<open>Consecutive link records, with the frames they give.\<close>

fun consume_links :: "decoder \<Rightarrow> trace_record list \<Rightarrow> decoder \<times> trace_frame list" where
  "consume_links d [] = (d, [])"
| "consume_links d (r # rs) =
     (let (d1, f) = consume_link d r; (d2, fs) = consume_links d1 rs
      in (d2, (case f of None \<Rightarrow> [] | Some f \<Rightarrow> [f]) @ fs))"

definition same_route :: "trace_record \<Rightarrow> trace_record list \<Rightarrow> bool" where
  "same_route r rs \<longleftrightarrow> (\<forall>x \<in> set rs. tr_session_id x = tr_session_id r \<and>
     tr_level x = tr_level r \<and> tr_logger x = tr_logger r)"

lemma same_route_key: "same_route r rs \<Longrightarrow> x \<in> set rs \<Longrightarrow> link_key_of x = link_key_of r"
  by (simp add: same_route_def link_key_of_def link_direction_def)

lemma consume_links_rest:
  assumes "link_open p" "length (lp_data p) + length rest = lp_expected p"
    "dict_get (d_links d) (link_key_of r) = Some p" "same_route r rs"
    "map tr_message rs = map hex_spaced (link_chunks rest)"
  shows "\<exists>f. consume_links d rs = (link_issue f (d\<lparr>d_links := dict_del (link_key_of r) (d_links d)\<rparr>), [f]) \<and>
    f = link_frame_of (last rs) (link_direction r) (p\<lparr>lp_data := lp_data p @ rest\<rparr>)"
  using assms
proof (induction rest arbitrary: d p rs rule: link_chunks.induct)
  case (1 rest)
  have "rest \<noteq> []" using 1(2,3) by (auto simp: link_open_def)
  then obtain x xs where rs: "rs = x # xs" and x: "tr_message x = hex_spaced (take 18 rest)"
    and xs: "map tr_message xs = map hex_spaced (link_chunks (drop 18 rest))"
    using 1(6) by (auto simp: link_chunks.simps [of rest])
  have chunk: "link_chunk (tr_message x) = Some (take 18 rest)"
    using \<open>rest \<noteq> []\<close> by (simp add: x link_chunk_hex_spaced)
  have key: "link_key_of x = link_key_of r" "link_direction x = link_direction r"
    using 1(5) by (auto simp: rs same_route_def link_key_of_def link_direction_def)
  define q where "q = p\<lparr>lp_data := lp_data p @ take 18 rest\<rparr>"
  have remaining: "lp_expected p - length (lp_data p) = length rest" using 1(3) by simp
  have step: "consume_link d x = link_advance d x q"
    using chunk key 1(4) remaining by (simp add: consume_link_def Let_def q_def min.commute)
  show ?case
  proof (cases "drop 18 rest = []")
    case True
    then have "xs = []" "take 18 rest = rest" using xs by (auto simp: link_chunks.simps)
    then show ?thesis
      using step key 1(3) by (simp add: rs q_def link_advance_def Let_def)
  next
    case False
    have q: "link_open q" "length (lp_data q) + length (drop 18 rest) = lp_expected q"
      using 1(2,3) False by (auto simp: q_def link_open_def link_pending_ok_def nth_append)
    have route: "same_route r xs" using 1(5) by (simp add: rs same_route_def)
    have "xs \<noteq> []" using xs False by (auto simp: link_chunks.simps)
    moreover have "consume_link d x = (d\<lparr>d_links := dict_set (link_key_of r) q (d_links d)\<rparr>, None)"
      using step key q by (simp add: link_advance_def Let_def link_open_def)
    ultimately show ?thesis
      using 1(1) [OF \<open>rest \<noteq> []\<close> q _ route xs, of "d\<lparr>d_links := dict_set (link_key_of r) q (d_links d)\<rparr>"]
      by (simp add: rs map_of_dict_set delete_update_same) (simp add: q_def)
  qed
qed

lemma take2_link_encode: "take 2 (link_encode c dst src payload) = [0x05, 0x64]"
  by (simp add: link_encode_def Let_def)

lemma link_encode_length_octet:
  "length payload \<le> 250 \<Longrightarrow> unat (link_encode c dst src payload ! 2) = 5 + length payload"
  by (simp add: link_encode_def Let_def unsigned_of_nat take_bit_nat_eq_self unat_word_ariths)

lemma consume_links_frame:
  assumes size: "length payload \<le> 250" and route: "same_route (hd rs) rs"
    and lines: "map tr_message rs = link_lines raw" and raw: "raw = link_encode c dst src payload"
    and free: "dict_get (d_links d) (link_key_of (hd rs)) = None" "length (d_links d) < MAX_ROUTES"
  shows "consume_links d rs =
    (let f = link_frame_of (last rs) (link_direction (hd rs))
        \<lparr>lp_first = hd rs, lp_expected = length raw, lp_data = raw\<rparr> in (link_issue f d, [f]))"
proof -
  obtain r xs where rs: "rs = r # xs" and r: "tr_message r = hex_spaced (take 10 raw)"
    and xs: "map tr_message xs = map hex_spaced (link_chunks (drop 10 raw))"
    using lines by (auto simp: link_lines_def)
  have len: "length raw = frame_size (length payload)" by (simp add: raw length_link_encode)
  then have len10: "length (take 10 raw) = 10" "take 10 raw \<noteq> []" by (auto simp: frame_size_def)
  have octets: "take 2 (take 10 raw) = [0x05, 0x64]" "unat (take 10 raw ! 2) = 5 + length payload"
    using link_encode_length_octet [OF size] take2_link_encode by (simp_all add: raw)
  define p where "p = \<lparr>lp_first = r, lp_expected = length raw, lp_data = take 10 raw\<rparr>"
  have "link_chunk (tr_message r) = Some (take 10 raw)"
    using len10 by (simp add: r link_chunk_hex_spaced)
  then have step: "consume_link d r = link_advance d r p"
    using free len10 octets len by (simp add: consume_link_def Let_def rs p_def)
  have absent: "dict_del (link_key_of r) (d_links d) = d_links d"
    using free(1) by (simp add: rs delete_idem map_of_eq_None_iff)
  show ?thesis
  proof (cases "drop 10 raw = []")
    case True
    then have "xs = []" "take 10 raw = raw" using xs by (auto simp: link_chunks.simps)
    then show ?thesis
      using step absent by (simp add: rs link_advance_def Let_def p_def)
  next
    case False
    have p: "link_open p" "length (lp_data p) + length (drop 10 raw) = lp_expected p"
      using False len octets len10 by (auto simp: p_def link_open_def link_pending_ok_def frame_size_def)
    have "xs \<noteq> []" using xs False by (auto simp: link_chunks.simps)
    moreover have "consume_link d r = (d\<lparr>d_links := dict_set (link_key_of r) p (d_links d)\<rparr>, None)"
      using step p by (simp add: link_advance_def Let_def link_open_def)
    moreover have "same_route r xs" using route by (simp add: rs same_route_def)
    ultimately show ?thesis
      using consume_links_rest [OF p _ _ xs, of "d\<lparr>d_links := dict_set (link_key_of r) p (d_links d)\<rparr>" r]
      by (simp add: rs Let_def map_of_dict_set delete_update_same absent) (simp add: p_def Let_def)
  qed
qed

lemma drop10_link_encode: "drop 10 (link_encode c dst src payload) = block_encode payload"
  by (simp add: link_encode_def Let_def)

lemma link_header_of_encode:
  assumes "dst < 65536" "src < 65536"
  shows "lh_destination (link_header_of (link_encode c dst src payload)) = dst"
    "lh_source (link_header_of (link_encode c dst src payload)) = src"
    "lh_control_raw (link_header_of (link_encode c dst src payload)) = unat c"
  using assms by (simp_all add: link_header_of_def link_encode_def Let_def from_le_to_le)

lemma link_frame_of_encode:
  fixes c :: byte and r r0 :: trace_record and dir :: string
  assumes "length payload \<le> 250" "dst < 65536" "src < 65536"
  defines "raw \<equiv> link_encode c dst src payload"
  defines "f \<equiv> link_frame_of r dir \<lparr>lp_first = r0, lp_expected = length raw, lp_data = raw\<rparr>"
  shows "tf_crc_valid f" "tf_payload_hex f = hex_upper payload" "tf_raw_hex f = hex_upper raw"
    "tf_link f = link_header_of raw"
proof -
  show "tf_payload_hex f = hex_upper payload" "tf_raw_hex f = hex_upper raw" "tf_link f = link_header_of raw"
    by (simp_all add: f_def raw_def link_frame_of_def Let_def case_prod_unfold drop10_link_encode
        link_blocks_encode)
  have "crc (take 8 raw) = int (from_le (take 2 (drop 8 raw)))"
    by (simp add: raw_def link_encode_def Let_def)
  then show "tf_crc_valid f"
    by (simp add: f_def link_frame_of_def Let_def case_prod_unfold raw_def drop10_link_encode
        link_blocks_encode)
qed

text \<open>
  The lines the host logs for a link frame, fed one record at a time to a decoder that
  has a free route, give back exactly that frame: one frame comes out, its checksums are
  accepted, octets, payload, addresses and control octet are those sent, it spans the
  sequence numbers of the first and last line, and no entry stays pending.
\<close>

theorem link_frame_roundtrip:
  assumes "length payload \<le> 250" "dst < 65536" "src < 65536"
    and "same_route (hd rs) rs" "map tr_message rs = link_lines (link_encode c dst src payload)"
    and "dict_get (d_links d) (link_key_of (hd rs)) = None" "length (d_links d) < MAX_ROUTES"
  shows "\<exists>d' f. consume_links d rs = (d', [f]) \<and> d_links d' = d_links d \<and> tf_crc_valid f \<and>
    tf_raw_hex f = hex_upper (link_encode c dst src payload) \<and> tf_payload_hex f = hex_upper payload \<and>
    lh_destination (tf_link f) = dst \<and> lh_source (tf_link f) = src \<and> lh_control_raw (tf_link f) = unat c \<and>
    tf_first_sequence f = tr_sequence (hd rs) \<and> tf_last_sequence f = tr_sequence (last rs)"
  using assms(2,3) link_frame_of_encode [OF assms(1-3)] link_header_of_encode [OF assms(2,3)]
  by (simp add: consume_links_frame [OF assms(1,4,5) refl assms(6,7)] Let_def)
    (simp add: link_frame_of_def Let_def case_prod_unfold)

definition sample_record :: trace_record where
  "sample_record = \<lparr>tr_sequence = 1, tr_session_id = 1, tr_monotonic_ns = 5, tr_logger = ''tcp'',
     tr_level = ''LINK_RX_HEX'', tr_message = ''05 64 05 C9 0A 00 01 00 FE DA'', tr_message_truncated = False\<rparr>"

theorem link_frame_roundtrip_witness:
  "let rs = map (\<lambda>m. sample_record\<lparr>tr_message := m\<rparr>) (link_lines (link_encode 0x44 1 10 [0xC0, 0xC1, 0x01]));
       (d', fs) = consume_links reset rs
   in length fs = 1 \<and> tf_crc_valid (hd fs) \<and> tf_payload_hex (hd fs) = ''C0C101''"
proof -
  define rs where "rs = map (\<lambda>m. sample_record\<lparr>tr_message := m\<rparr>) (link_lines (link_encode 0x44 1 10 [0xC0, 0xC1, 0x01]))"
  have "same_route (hd rs) rs" by (auto simp: rs_def same_route_def link_lines_def)
  moreover have "map tr_message rs = link_lines (link_encode 0x44 1 10 [0xC0, 0xC1, 0x01])"
    by (simp add: rs_def comp_def)
  moreover have "hex_upper [0xC0, 0xC1, 0x01] = ''C0C101''" by code_simp
  ultimately show ?thesis
    using link_frame_roundtrip [of "[0xC0, 0xC1, 0x01]" 1 10 rs "0x44" reset]
    by (auto simp: rs_def reset_def MAX_ROUTES_def Let_def)
qed

text \<open>
  C16: a frame is reported as checksum-correct exactly when its octets are the link encoding
  of the payload, addresses and control octet it reports; so no other octets pass for a
  frame, and none of its fields is invented.
\<close>

theorem link_frame_crc_sound:
  assumes "links_ok d" "consume_link d r = (d', Some f)"
  shows "\<exists>raw payload. tf_raw_hex f = hex_upper raw \<and> tf_payload_hex f = hex_upper payload \<and>
    length raw \<le> 292 \<and>
    (tf_crc_valid f \<longleftrightarrow> raw = link_encode (of_nat (lh_control_raw (tf_link f)))
       (lh_destination (tf_link f)) (lh_source (tf_link f)) payload) \<and>
    (tf_crc_valid f \<longrightarrow> length payload = lh_length (tf_link f) - 5)"
proof -
  obtain p where p: "link_pending_ok p" "length (lp_data p) = lp_expected p"
    "f = link_frame_of r (link_direction r) p"
    by (rule consume_link_frame [OF assms])
  have "tf_link f = link_header_of (lp_data p)"
    by (simp add: p(3) link_frame_of_def Let_def case_prod_unfold)
  then have "of_nat (lh_control_raw (tf_link f)) = lp_data p ! 3" "lh_length (tf_link f) = unat (lp_data p ! 2)"
    by (simp_all add: link_header_of_def Let_def)
  then show ?thesis
    using link_frame_crc_iff [OF p(1,2), of r "link_direction r"] link_pending_bound [OF p(1)]
    by (auto simp: p(3))
qed


theorem link_frame_crc_sound_witness:
  "let r = sample_record\<lparr>tr_message := hex_spaced (link_encode 0xC9 10 1 [])\<rparr> in
   \<exists>f raw payload. snd (consume_link reset r) = Some f \<and> tf_raw_hex f = hex_upper raw \<and> tf_crc_valid f \<and>
     raw = link_encode (of_nat (lh_control_raw (tf_link f))) (lh_destination (tf_link f))
       (lh_source (tf_link f)) payload"
proof -
  define raw where "raw = link_encode 0xC9 10 1 []"
  define r where "r = sample_record\<lparr>tr_message := hex_spaced raw\<rparr>"
  define f where "f = link_frame_of r (link_direction r) \<lparr>lp_first = r, lp_expected = length raw, lp_data = raw\<rparr>"
  have "length raw = 10" by (simp add: raw_def length_link_encode frame_size_def)
  then have lines: "map tr_message [r] = link_lines raw"
    by (simp add: r_def link_lines_def link_chunks.simps [of "[]"])
  have "consume_links reset [r] = (link_issue f reset, [f])"
    using consume_links_frame [OF _ _ lines raw_def, of reset]
    by (simp add: same_route_def reset_def MAX_ROUTES_def Let_def f_def)
  then obtain d' where step: "consume_link reset r = (d', Some f)"
    by (cases "consume_link reset r") (auto split: option.splits)
  have "tf_crc_valid f" using link_frame_of_encode(1) [of "[]" 10 1] by (simp add: f_def raw_def)
  moreover have "links_ok reset" by (simp add: links_ok_def reset_def alist.bounded_def dict_wf_def)
  ultimately show ?thesis
    using link_frame_crc_sound [OF _ step] step unfolding Let_def raw_def [symmetric] r_def [symmetric]
    by auto
qed

end
