(* ===== verification/AppDecode.thy ===== *)
theory AppDecode
  imports LinkLayer
begin

text \<open>
  Application layer of the trace decoder, \<open>python/src/dnp3_master/trace.py\<close>: the reader
  \<open>_Reader\<close>, \<open>_decode_application\<close>, \<open>_decode_value\<close> and their helpers. A \<open>_DecodeError\<close> is the
  left value of a sum; the reader is returned in both cases, because the caller reports how
  far it came. The theorems show that decoding accounts for every octet, is bounded, and
  loses nothing: the octets can be rebuilt from a result without error.
\<close>

unbundle bit_operations_syntax

section \<open>The reader\<close>

record reader =
  rd_data :: "byte list"
  rd_offset :: nat

type_synonym 'a reading = "reader \<Rightarrow> (string + 'a) \<times> reader"

definition remaining :: "reader \<Rightarrow> nat" where
  "remaining rd = length (rd_data rd) - rd_offset rd"

definition rd_take :: "nat \<Rightarrow> byte list reading" where
  "rd_take n rd =
     (if remaining rd < n then (Inl ''TRUNCATED_APPLICATION_OBJECT'', rd)
      else (Inr (take n (drop (rd_offset rd) (rd_data rd))), rd\<lparr>rd_offset := rd_offset rd + n\<rparr>))"

text \<open>Sequencing of readings: a \<open>_DecodeError\<close> ends the sequence where it is raised.\<close>

definition bindR :: "'a reading \<Rightarrow> ('a \<Rightarrow> 'b reading) \<Rightarrow> 'b reading" where
  "bindR m f rd = (case m rd of (Inl e, rd') \<Rightarrow> (Inl e, rd') | (Inr x, rd') \<Rightarrow> f x rd')"

definition returnR :: "'a \<Rightarrow> 'a reading" where
  "returnR x rd = (Inr x, rd)"

definition raiseR :: "string \<Rightarrow> 'a reading" where
  "raiseR e rd = (Inl e, rd)"

definition rd_integer :: "nat \<Rightarrow> nat reading" where
  "rd_integer n = bindR (rd_take n) (\<lambda>bs. returnR (from_le bs))"

section \<open>Tables\<close>

definition MAX_OBJECTS :: nat where "MAX_OBJECTS = 65536"

definition IIN_NAMES :: "string list" where
  "IIN_NAMES =
     [''BROADCAST'', ''CLASS1_EVENTS'', ''CLASS2_EVENTS'', ''CLASS3_EVENTS'', ''NEED_TIME'',
      ''LOCAL_CONTROL'', ''DEVICE_TROUBLE'', ''DEVICE_RESTART'', ''NO_FUNC_CODE_SUPPORT'',
      ''OBJECT_UNKNOWN'', ''PARAMETER_ERROR'', ''EVENT_BUFFER_OVERFLOW'',
      ''ALREADY_EXECUTING'', ''CONFIG_CORRUPT'', ''RESERVED_2'', ''RESERVED_1'']"

definition FUNCTIONS :: "(nat \<times> string) list" where
  "FUNCTIONS =
     [(0, ''CONFIRM''), (1, ''READ''), (2, ''WRITE''), (3, ''SELECT''), (4, ''OPERATE''),
      (5, ''DIRECT_OPERATE''), (6, ''DIRECT_OPERATE_NR''), (7, ''IMMED_FREEZE''),
      (8, ''IMMED_FREEZE_NR''), (9, ''FREEZE_CLEAR''), (10, ''FREEZE_CLEAR_NR''),
      (11, ''FREEZE_AT_TIME''), (12, ''FREEZE_AT_TIME_NR''), (13, ''COLD_RESTART''),
      (14, ''WARM_RESTART''), (15, ''INITIALIZE_DATA''), (16, ''INITIALIZE_APPLICATION''),
      (17, ''START_APPLICATION''), (18, ''STOP_APPLICATION''), (19, ''SAVE_CONFIGURATION''),
      (20, ''ENABLE_UNSOLICITED''), (21, ''DISABLE_UNSOLICITED''), (22, ''ASSIGN_CLASS''),
      (23, ''DELAY_MEASURE''), (24, ''RECORD_CURRENT_TIME''), (25, ''OPEN_FILE''),
      (26, ''CLOSE_FILE''), (27, ''DELETE_FILE''), (28, ''GET_FILE_INFO''),
      (29, ''AUTHENTICATE_FILE''), (30, ''ABORT_FILE''), (32, ''AUTH_REQUEST''),
      (33, ''AUTH_REQUEST_NO_ACK''), (129, ''RESPONSE''), (130, ''UNSOLICITED_RESPONSE''),
      (131, ''AUTH_RESPONSE'')]"

definition STATUS_NAMES :: "(nat \<times> string) list" where
  "STATUS_NAMES =
     [(0, ''SUCCESS''), (1, ''TIMEOUT''), (2, ''NO_SELECT''), (3, ''FORMAT_ERROR''),
      (4, ''NOT_SUPPORTED''), (5, ''ALREADY_ACTIVE''), (6, ''HARDWARE_ERROR''), (7, ''LOCAL''),
      (8, ''TOO_MANY_OBJS''), (9, ''NOT_AUTHORIZED''), (10, ''AUTOMATION_INHIBIT''),
      (11, ''PROCESSING_LIMITED''), (12, ''OUT_OF_RANGE''), (126, ''NON_PARTICIPATING''),
      (127, ''UNDEFINED'')]"

definition dict_default :: "(nat \<times> string) list \<Rightarrow> nat \<Rightarrow> string \<Rightarrow> string" where
  "dict_default d k v = (case map_of d k of Some s \<Rightarrow> s | None \<Rightarrow> v)"

section \<open>Values of one object\<close>

definition flag_names :: "string \<Rightarrow> (nat \<times> string) list" where
  "flag_names kind =
     (let names = [(0, ''ONLINE''), (1, ''RESTART''), (2, ''COMM_LOST''), (3, ''REMOTE_FORCED''),
                   (4, ''LOCAL_FORCED'')] in
      if kind = ''binary'' then dict_update names [(5, ''CHATTER_FILTER''), (6, ''RESERVED''), (7, ''STATE'')]
      else if kind = ''binary_output'' then dict_update names [(5, ''RESERVED_5''), (6, ''RESERVED_6''), (7, ''STATE'')]
      else if kind = ''double_bit'' then dict_set 5 ''CHATTER_FILTER'' names
      else if kind = ''analog'' then dict_update names [(5, ''OVER_RANGE''), (6, ''REFERENCE_ERR''), (7, ''RESERVED'')]
      else if kind = ''counter'' then dict_update names [(5, ''ROLLOVER''), (6, ''DISCONTINUITY''), (7, ''RESERVED'')]
      else names)"

definition flags_of :: "nat \<Rightarrow> string \<Rightarrow> dict" where
  "flags_of raw kind =
     [(''flags'', PInt (int raw)),
      (''flag_bits'', PDict (map (\<lambda>(b, name). (name, PBool (bit raw b))) (flag_names kind)))]"

definition status_of :: "nat \<Rightarrow> dict" where
  "status_of raw =
     [(''status_wire_raw'', PInt (int raw)), (''status'', PStr (dict_default STATUS_NAMES raw ''RESERVED'')),
      (''status_edition'', PStr ''IEEE1815-2012'')]"

text \<open>
  The \<open>struct\<close> formats used, all little-endian: \<open>h\<close>, \<open>i\<close> are two's complement, \<open>H\<close>, \<open>I\<close>
  unsigned, \<open>f\<close>, \<open>d\<close> the IEEE 754 formats with 8 and 11 exponent bits.
\<close>

datatype fmt = Fmt_h | Fmt_i | Fmt_H | Fmt_I | Fmt_f | Fmt_d

fun calcsize :: "fmt \<Rightarrow> nat" where
  "calcsize Fmt_h = 2"
| "calcsize Fmt_H = 2"
| "calcsize Fmt_i = 4"
| "calcsize Fmt_I = 4"
| "calcsize Fmt_f = 4"
| "calcsize Fmt_d = 8"

definition twos_complement :: "nat \<Rightarrow> nat \<Rightarrow> int" where
  "twos_complement bits n = (if n < 2 ^ (bits - 1) then int n else int n - 2 ^ bits)"

definition ieee754 :: "nat \<Rightarrow> nat \<Rightarrow> nat \<Rightarrow> pyfloat" where
  "ieee754 ebits mbits n =
     (let sign = n div 2 ^ (ebits + mbits) mod 2;
          e = n div 2 ^ mbits mod 2 ^ ebits;
          m = n mod 2 ^ mbits;
          bias = 2 ^ (ebits - 1) - 1;
          s = (if sign = 1 then -1 else 1 :: rat) in
      if e = 2 ^ ebits - 1 then (if m \<noteq> 0 then NaN else if sign = 1 then NegInf else PosInf)
      else if e = 0 then Fin (s * of_nat m * pow2 (1 - bias - int mbits))
      else Fin (s * of_nat (2 ^ mbits + m) * pow2 (int e - bias - int mbits)))"

definition unpack :: "fmt \<Rightarrow> byte list \<Rightarrow> pyval" where
  "unpack f bs =
     (case f of Fmt_h \<Rightarrow> PInt (twos_complement 16 (from_le bs))
      | Fmt_i \<Rightarrow> PInt (twos_complement 32 (from_le bs))
      | Fmt_H \<Rightarrow> PInt (int (from_le bs))
      | Fmt_I \<Rightarrow> PInt (int (from_le bs))
      | Fmt_f \<Rightarrow> PFloat (ieee754 8 23 (from_le bs))
      | Fmt_d \<Rightarrow> PFloat (ieee754 11 52 (from_le bs)))"

definition number :: "fmt \<Rightarrow> dict reading" where
  "number f = bindR (rd_take (calcsize f)) (\<lambda>bs. returnR
     (case unpack f bs of
        PFloat NaN \<Rightarrow> [(''value'', PNone), (''value_non_finite'', PStr ''NaN'')]
      | PFloat PosInf \<Rightarrow> [(''value'', PNone), (''value_non_finite'', PStr ''+Infinity'')]
      | PFloat NegInf \<Rightarrow> [(''value'', PNone), (''value_non_finite'', PStr ''-Infinity'')]
      | v \<Rightarrow> [(''value'', v)]))"

definition nat_field :: "string \<Rightarrow> nat \<Rightarrow> dict \<Rightarrow> dict" where
  "nat_field k n item = dict_set k (PInt (int n)) item"

text \<open>The branches of \<open>_decode_value\<close>, one definition per group of objects.\<close>

definition decode_binary :: "nat \<Rightarrow> nat \<Rightarrow> dict reading" where
  "decode_binary grp variation = bindR (rd_integer 1) (\<lambda>flags.
     let kind = (if grp \<in> {3, 4} then ''double_bit'' else if grp = 10 then ''binary_output'' else ''binary'');
         item = dict_set ''value''
           (if grp \<in> {3, 4} then PInt (int (flags div 2 ^ 6)) else PBool (bit flags 7))
           (flags_of flags kind)
     in if grp \<in> {2, 4} \<and> variation = 2
        then bindR (rd_integer 6) (\<lambda>t. returnR (nat_field ''time_ms'' t item))
        else if grp \<in> {2, 4} \<and> variation = 3
        then bindR (rd_integer 2) (\<lambda>t. returnR (nat_field ''relative_time_ms'' t item))
        else returnR item)"

definition decode_crob :: "dict reading" where
  "decode_crob = bindR (rd_integer 1) (\<lambda>control. bindR (rd_integer 1) (\<lambda>count.
     bindR (rd_integer 4) (\<lambda>on_time. bindR (rd_integer 4) (\<lambda>off_time. bindR (rd_integer 1) (\<lambda>status.
     returnR (dict_update
       [(''control_code'', PInt (int control)), (''operation_raw'', PInt (int (control mod 16))),
        (''operation'', PStr (dict_default [(0, ''NULL''), (1, ''PULSE_ON''), (2, ''PULSE_OFF''),
           (3, ''LATCH_ON''), (4, ''LATCH_OFF'')] (control mod 16) ''RESERVED'')),
        (''trip_close_raw'', PInt (int (control div 64))),
        (''trip_close'', PStr (dict_default [(0, ''NULL''), (1, ''CLOSE''), (2, ''TRIP'')]
           (control div 64) ''RESERVED'')),
        (''queue'', PBool (bit control 4)), (''clear'', PBool (bit control 5)),
        (''count'', PInt (int count)), (''on_time_ms'', PInt (int on_time)),
        (''off_time_ms'', PInt (int off_time))]
       (status_of status)))))))"

text \<open>\<open>_flags(reader.integer(1), kind)\<close> when the variation has flags, else an empty item.\<close>

definition optional_flags :: "bool \<Rightarrow> string \<Rightarrow> dict reading" where
  "optional_flags present kind =
     (if present then bindR (rd_integer 1) (\<lambda>raw. returnR (flags_of raw kind)) else returnR [])"

text \<open>\<open>item["time_ms"] = reader.integer(6)\<close> when the variation carries a time.\<close>

definition optional_time :: "bool \<Rightarrow> dict \<Rightarrow> dict reading" where
  "optional_time present item =
     (if present then bindR (rd_integer 6) (\<lambda>t. returnR (nat_field ''time_ms'' t item)) else returnR item)"

definition analog_format :: "nat \<Rightarrow> fmt" where
  "analog_format variation =
     (if variation \<in> {1, 3} then Fmt_i else if variation \<in> {2, 4} then Fmt_h
      else if variation \<in> {5, 7} then Fmt_f else Fmt_d)"

definition output_format :: "nat \<Rightarrow> fmt" where
  "output_format variation =
     (if variation = 1 then Fmt_i else if variation = 2 then Fmt_h
      else if variation = 3 then Fmt_f else Fmt_d)"

definition unsupported_object :: "nat \<Rightarrow> nat \<Rightarrow> string" where
  "unsupported_object grp variation = ''UNSUPPORTED_OBJECT:G'' @ dec grp @ ''V'' @ dec variation"

definition decode_value :: "nat \<Rightarrow> nat \<Rightarrow> dict reading" where
  "decode_value grp variation =
     (if (grp, variation) \<in> {(1, 2), (2, 1), (2, 2), (2, 3), (3, 2), (4, 1), (4, 2), (4, 3), (10, 2)}
      then decode_binary grp variation
      else if grp = 12 \<and> variation = 1 then decode_crob
      else if grp = 30 \<and> variation \<in> {1..<7} then
        bindR (optional_flags (variation \<notin> {3, 4}) ''analog'') (\<lambda>item.
        bindR (number (analog_format variation)) (\<lambda>n. returnR (dict_update item n)))
      else if grp = 32 \<and> variation \<in> {1..<9} then
        bindR (optional_flags True ''analog'') (\<lambda>item.
        bindR (number (analog_format variation)) (\<lambda>n.
        optional_time (variation \<in> {3, 4, 7, 8}) (dict_update item n)))
      else if grp \<in> {40, 41} \<and> variation \<in> {1..<5} then
        bindR (optional_flags (grp = 40) ''analog'') (\<lambda>item.
        bindR (number (output_format variation)) (\<lambda>n.
        if grp = 41
        then bindR (rd_integer 1) (\<lambda>s. returnR (dict_update (dict_update item n) (status_of s)))
        else returnR (dict_update item n)))
      else if grp \<in> {20, 22} \<and> variation \<in> {1, 2, 5, 6} then
        bindR (optional_flags (grp = 22 \<or> variation \<in> {1, 2}) ''counter'') (\<lambda>item.
        bindR (number (if variation \<in> {1, 5} then Fmt_I else Fmt_H)) (\<lambda>n.
        optional_time (grp = 22 \<and> variation \<in> {5, 6}) (dict_update item n)))
      else if grp = 50 \<and> variation \<in> {1, 3} then
        bindR (rd_integer 6) (\<lambda>t. returnR [(''time_ms'', PInt (int t))])
      else raiseR (unsupported_object grp variation))"

section \<open>Object headers\<close>

text \<open>
  What the qualifier's range field says: an index range, all objects, or a number of
  objects. \<open>count\<close> is \<open>None\<close> in the source exactly in the second case.
\<close>

datatype app_range = Start_Stop nat nat | All_Objects | Object_Count nat

fun range_count :: "app_range \<Rightarrow> nat option" where
  "range_count (Start_Stop start stop) = Some (stop - start + 1)"
| "range_count All_Objects = None"
| "range_count (Object_Count n) = Some n"

fun range_start :: "app_range \<Rightarrow> nat" where
  "range_start (Start_Stop start stop) = start"
| "range_start _ = 0"

definition q_prefix :: "nat \<Rightarrow> nat" where
  "q_prefix qualifier = qualifier div 16 mod 8"

definition q_range_code :: "nat \<Rightarrow> nat" where
  "q_range_code qualifier = qualifier mod 16"

definition unsupported_qualifier :: "nat \<Rightarrow> string" where
  "unsupported_qualifier qualifier = ''UNSUPPORTED_QUALIFIER:'' @ hex_byte (of_nat qualifier)"

definition read_range :: "nat \<Rightarrow> app_range reading" where
  "read_range qualifier =
     (let prefix = q_prefix qualifier; range_code = q_range_code qualifier in
      if bit qualifier 7 \<or> prefix \<notin> {0, 1, 2, 3} then raiseR (unsupported_qualifier qualifier)
      else if range_code \<in> {0, 1, 2} then
        if prefix \<noteq> 0 then raiseR (unsupported_qualifier qualifier)
        else bindR (rd_integer (2 ^ range_code)) (\<lambda>start. bindR (rd_integer (2 ^ range_code)) (\<lambda>stop.
          if stop < start then raiseR ''INVALID_OBJECT_RANGE'' else returnR (Start_Stop start stop)))
      else if range_code = 6 \<and> prefix = 0 then returnR All_Objects
      else if range_code \<in> {7, 8, 9} then
        bindR (rd_integer (2 ^ (range_code - 7))) (\<lambda>count. returnR (Object_Count count))
      else raiseR (unsupported_qualifier qualifier))"

definition new_object :: "nat \<Rightarrow> nat \<Rightarrow> nat \<Rightarrow> app_object" where
  "new_object grp variation qualifier =
     \<lparr>ao_group = grp, ao_variation = variation, ao_qualifier = qualifier,
      ao_qualifier_hex = hex_byte (of_nat qualifier), ao_start_stop = None, ao_count = None, ao_all_objects = False, ao_header_only = False, ao_indices = None,
      ao_values = [], ao_raw_hex = None\<rparr>"

fun set_range :: "app_range \<Rightarrow> app_object \<Rightarrow> app_object" where
  "set_range (Start_Stop start stop) obj =
     obj\<lparr>ao_start_stop := Some (start, stop), ao_count := Some (stop - start + 1)\<rparr>"
| "set_range All_Objects obj = obj\<lparr>ao_all_objects := True\<rparr>"
| "set_range (Object_Count n) obj = obj\<lparr>ao_count := Some n\<rparr>"

text \<open>\<open>[reader.integer(width) for _ in range(count)]\<close>\<close>

primrec rd_integers :: "nat \<Rightarrow> nat \<Rightarrow> nat list reading" where
  "rd_integers 0 width = returnR []"
| "rd_integers (Suc count) width = bindR (rd_integer width) (\<lambda>i.
     bindR (rd_integers count width) (\<lambda>is. returnR (i # is)))"

definition prefix_width :: "nat \<Rightarrow> nat" where
  "prefix_width prefix = 2 ^ (prefix - 1)"

text \<open>The indices of a header-only object: only with a prefix, and checked before reading.\<close>

definition read_indices :: "nat \<Rightarrow> nat option \<Rightarrow> nat list option reading" where
  "read_indices prefix count rd =
     (if prefix = 0 then (Inr None, rd)
      else case count of
        None \<Rightarrow> (Inl ''TRUNCATED_APPLICATION_OBJECT'', rd)
      | Some n \<Rightarrow>
          if n > MAX_OBJECTS \<or> n * prefix_width prefix > remaining rd
          then (Inl ''TRUNCATED_APPLICATION_OBJECT'', rd)
          else bindR (rd_integers n (prefix_width prefix)) (\<lambda>is. returnR (Some is)) rd)"

definition PACKED :: "(nat \<times> nat) set" where
  "PACKED = {(1, 1), (3, 1), (10, 1), (80, 1)}"

definition packed_bits :: "nat \<Rightarrow> nat" where
  "packed_bits grp = (if grp = 3 then 2 else 1)"

text \<open>Value number \<open>ordinal\<close> of a packed object: one or two bits of one octet.\<close>

definition packed_value :: "nat \<Rightarrow> byte list \<Rightarrow> nat \<Rightarrow> nat" where
  "packed_value bits packed ordinal =
     unat (packed ! (ordinal * bits div 8)) div 2 ^ (ordinal * bits mod 8) mod 2 ^ bits"

definition packed_items :: "nat \<Rightarrow> nat \<Rightarrow> nat \<Rightarrow> byte list \<Rightarrow> dict list" where
  "packed_items bits start count packed = map (\<lambda>ordinal.
     [(''index'', PInt (int (start + ordinal))),
      (''value'', let v = packed_value bits packed ordinal in
                  if bits = 1 then PBool (v \<noteq> 0) else PInt (int v))]) [0..<count]"

text \<open>The index of a value: its prefix, its place in the range, or none.\<close>

definition read_index :: "nat \<Rightarrow> app_range \<Rightarrow> nat \<Rightarrow> pyval reading" where
  "read_index prefix r ordinal =
     (if prefix \<noteq> 0 then bindR (rd_integer (prefix_width prefix)) (\<lambda>i. returnR (PInt (int i)))
      else returnR (case r of Start_Stop start _ \<Rightarrow> PInt (int (start + ordinal)) | _ \<Rightarrow> PNone))"

definition octets_between :: "reader \<Rightarrow> reader \<Rightarrow> byte list" where
  "octets_between rd rd' = take (rd_offset rd' - rd_offset rd) (drop (rd_offset rd) (rd_data rd))"

definition read_item :: "app_object \<Rightarrow> app_range \<Rightarrow> nat \<Rightarrow> dict reading" where
  "read_item obj r ordinal = bindR (read_index (q_prefix (ao_qualifier obj)) r ordinal) (\<lambda>index rd.
     bindR (decode_value (ao_group obj) (ao_variation obj)) (\<lambda>item rd'.
       (Inr (dict_update item [(''index'', index), (''raw_hex'', PStr (hex_upper (octets_between rd rd')))]), rd')) rd)"

text \<open>
  The loop over the values, of which \<open>left\<close> are still to come: every decoded value is kept,
  also when a later one fails.
\<close>

primrec read_items :: "nat \<Rightarrow> nat \<Rightarrow> app_range \<Rightarrow> app_object \<Rightarrow> reader \<Rightarrow> string option \<times> app_object \<times> reader" where
  "read_items 0 ordinal r obj rd = (None, obj, rd)"
| "read_items (Suc left) ordinal r obj rd =
     (case read_item obj r ordinal rd of
        (Inl e, rd') \<Rightarrow> (Some e, obj, rd')
      | (Inr item, rd') \<Rightarrow> read_items left (Suc ordinal) r (obj\<lparr>ao_values := ao_values obj @ [item]\<rparr>) rd')"

text \<open>What follows the range of an object header; also the running number of values.\<close>

definition object_body ::
  "bool \<Rightarrow> nat \<Rightarrow> app_range \<Rightarrow> app_object \<Rightarrow> reader \<Rightarrow> string option \<times> app_object \<times> nat \<times> reader" where
  "object_body header_only total_objects r obj rd =
     (let prefix = q_prefix (ao_qualifier obj); grp = ao_group obj in
      if header_only then
        (case read_indices prefix (range_count r) rd of
           (Inl e, rd') \<Rightarrow> (Some e, obj\<lparr>ao_header_only := True\<rparr>, total_objects, rd')
         | (Inr is, rd') \<Rightarrow> (None, obj\<lparr>ao_header_only := True, ao_indices := is\<rparr>, total_objects, rd'))
      else case range_count r of
        None \<Rightarrow> (Some ''UNBOUNDED_OBJECT_VALUES'', obj, total_objects, rd)
      | Some count \<Rightarrow>
          if total_objects + count > MAX_OBJECTS then (Some ''OBJECT_VALUE_LIMIT'', obj, total_objects + count, rd)
          else if (grp, ao_variation obj) \<in> PACKED then
            if prefix \<noteq> 0 then (Some ''UNSUPPORTED_PACKED_INDEX_PREFIX'', obj, total_objects + count, rd)
            else (case rd_take ((count * packed_bits grp + 7) div 8) rd of
                (Inl e, rd') \<Rightarrow> (Some e, obj, total_objects + count, rd')
              | (Inr packed, rd') \<Rightarrow>
                  (None, obj\<lparr>ao_values := packed_items (packed_bits grp) (range_start r) count packed,
                             ao_raw_hex := Some (hex_upper packed)\<rparr>, total_objects + count, rd'))
          else (let (e, obj', rd') = read_items count 0 r obj rd in (e, obj', total_objects + count, rd')))"

text \<open>The octets of one object header, given the three octets that open it.\<close>

definition read_object ::
  "bool \<Rightarrow> nat \<Rightarrow> byte list \<Rightarrow> reader \<Rightarrow> string option \<times> app_object \<times> nat \<times> reader" where
  "read_object header_only total_objects bs rd =
     (let obj = new_object (unat (bs ! 0)) (unat (bs ! 1)) (unat (bs ! 2)) in
      case read_range (ao_qualifier obj) rd of
        (Inl e, rd') \<Rightarrow> (Some e, obj, total_objects, rd')
      | (Inr r, rd') \<Rightarrow> object_body header_only total_objects r (set_range r obj) rd')"

section \<open>Every reading moves forward\<close>

text \<open>The part of a decode error that becomes an issue: \<open>decode_error.split(":", 1)[0]\<close>.\<close>

definition error_category :: "string \<Rightarrow> string" where
  "error_category e = takeWhile (\<lambda>c. c \<noteq> CHR '':'') e"

definition APP_ISSUES :: "string list" where
  "APP_ISSUES =
     [''TRUNCATED_APPLICATION_OBJECT'', ''UNSUPPORTED_APPLICATION_FUNCTION'',
      ''UNEXPECTED_CONFIRM_PAYLOAD'', ''OBJECT_HEADER_LIMIT'', ''UNSUPPORTED_QUALIFIER'',
      ''INVALID_OBJECT_RANGE'', ''UNBOUNDED_OBJECT_VALUES'', ''OBJECT_VALUE_LIMIT'',
      ''UNSUPPORTED_PACKED_INDEX_PREFIX'', ''UNSUPPORTED_OBJECT'']"

definition known_error :: "string \<Rightarrow> bool" where
  "known_error e \<longleftrightarrow> error_category e \<in> set APP_ISSUES"

definition forward :: "reader \<Rightarrow> reader \<Rightarrow> bool" where
  "forward rd rd' \<longleftrightarrow> rd_data rd' = rd_data rd \<and> rd_offset rd \<le> rd_offset rd' \<and>
     (rd_offset rd \<le> length (rd_data rd) \<longrightarrow> rd_offset rd' \<le> length (rd_data rd))"

lemma forward_refl [simp]: "forward rd rd"
  by (simp add: forward_def)

lemma forward_trans [trans]: "forward rd rd' \<Longrightarrow> forward rd' rd'' \<Longrightarrow> forward rd rd''"
  by (auto simp: forward_def)

lemma forward_remaining: "forward rd rd' \<Longrightarrow> remaining rd' \<le> remaining rd"
  by (auto simp: forward_def remaining_def)

text \<open>The contract of a reading: it moves forward and raises only known errors.\<close>

definition reads :: "'a reading \<Rightarrow> bool" where
  "reads m \<longleftrightarrow> (\<forall>rd. forward rd (snd (m rd)) \<and> (\<forall>e. fst (m rd) = Inl e \<longrightarrow> known_error e))"

named_theorems reads_intros \<open>readings that keep their contract\<close>

lemma readsD:
  assumes "reads m" "m rd = (x, rd')"
  shows "forward rd rd'" "x = Inl e \<Longrightarrow> known_error e"
proof -
  have "forward rd (snd (m rd))" "\<And>e. fst (m rd) = Inl e \<Longrightarrow> known_error e"
    using assms(1) unfolding reads_def by blast+
  then show "forward rd rd'" "x = Inl e \<Longrightarrow> known_error e" by (simp_all add: assms(2))
qed

lemma reads_take [reads_intros]: "reads (rd_take n)"
  by (auto simp: reads_def rd_take_def forward_def remaining_def known_error_def error_category_def APP_ISSUES_def)

lemma reads_return [reads_intros]: "reads (returnR x)"
  by (simp add: reads_def returnR_def)

lemma reads_raise: "known_error e \<Longrightarrow> reads (raiseR e)"
  by (simp add: reads_def raiseR_def)

lemma reads_bind [reads_intros]: "reads m \<Longrightarrow> (\<And>x. reads (f x)) \<Longrightarrow> reads (bindR m f)"
  unfolding reads_def bindR_def
  by (auto split: prod.splits sum.splits intro: forward_trans)
    (metis forward_trans fst_conv snd_conv)+

lemma reads_if [reads_intros]: "(b \<Longrightarrow> reads m) \<Longrightarrow> (\<not> b \<Longrightarrow> reads m') \<Longrightarrow> reads (if b then m else m')"
  by simp

lemma reads_let [reads_intros]: "reads (f x) \<Longrightarrow> reads (Let x f)"
  by simp

lemma reads_integer [reads_intros]: "reads (rd_integer n)"
  unfolding rd_integer_def by (intro reads_intros)

lemma reads_number [reads_intros]: "reads (number f)"
  unfolding number_def by (intro reads_intros)

lemma known_errors [simp]:
  "known_error ''TRUNCATED_APPLICATION_OBJECT''" "known_error ''INVALID_OBJECT_RANGE''"
  "known_error ''UNEXPECTED_CONFIRM_PAYLOAD''" "known_error ''OBJECT_HEADER_LIMIT''"
  "known_error ''UNBOUNDED_OBJECT_VALUES''" "known_error ''OBJECT_VALUE_LIMIT''"
  "known_error ''UNSUPPORTED_PACKED_INDEX_PREFIX''"
  "known_error (unsupported_object g v)"
  "known_error (unsupported_qualifier q)"
  by (simp_all add: known_error_def error_category_def APP_ISSUES_def unsupported_qualifier_def
      unsupported_object_def)

lemma reads_decode_value [reads_intros]: "reads (decode_value g v)"
  unfolding decode_value_def decode_binary_def decode_crob_def optional_flags_def optional_time_def
  by (intro reads_intros reads_raise known_errors)

lemma reads_range [reads_intros]: "reads (read_range q)"
  unfolding read_range_def by (intro reads_intros reads_raise known_errors)

lemma reads_integers [reads_intros]: "reads (rd_integers n w)"
  by (induction n) (simp_all add: reads_intros)

lemma reads_indices [reads_intros]: "reads (read_indices p c)"
proof -
  have "reads (bindR (rd_integers n w) (\<lambda>is. returnR (Some is)))" for n w
    by (intro reads_intros)
  then show ?thesis
    by (auto simp: read_indices_def reads_def split: option.splits)
qed

lemma reads_index [reads_intros]: "reads (read_index p r i)"
  unfolding read_index_def by (intro reads_intros)

lemma reads_item [reads_intros]: "reads (read_item obj r i)"
  unfolding read_item_def
proof (rule reads_bind)
  fix index
  show "reads (\<lambda>rd. bindR (decode_value (ao_group obj) (ao_variation obj)) (\<lambda>item rd'.
       (Inr (dict_update item [(''index'', index), (''raw_hex'', PStr (hex_upper (octets_between rd rd')))]), rd')) rd)"
    using reads_decode_value [of "ao_group obj" "ao_variation obj"]
    by (auto simp: reads_def bindR_def split: prod.splits sum.splits) (metis fst_conv snd_conv)+
qed (rule reads_index)

lemma read_items_forward:
  assumes "read_items n i r obj rd = (e, obj', rd')"
  shows "forward rd rd' \<and> (\<forall>x. e = Some x \<longrightarrow> known_error x)"
  using assms
proof (induction n arbitrary: i obj rd)
  case (Suc n)
  obtain x rd1 where x: "read_item obj r i rd = (x, rd1)" by (cases "read_item obj r i rd")
  note item = readsD [OF reads_item x]
  show ?case
  proof (cases x)
    case (Inl err)
    then show ?thesis using Suc.prems x item by auto
  next
    case (Inr item')
    then show ?thesis using Suc.prems x item Suc.IH by (auto intro: forward_trans)
  qed
qed simp

lemma object_body_forward:
  assumes "object_body h t r obj rd = (e, obj', t', rd')"
  shows "forward rd rd' \<and> (\<forall>x. e = Some x \<longrightarrow> known_error x)"
  using assms
  by (auto simp: object_body_def Let_def split: if_splits option.splits prod.splits sum.splits
      dest: readsD [OF reads_indices] readsD [OF reads_take] read_items_forward)

lemma read_object_forward:
  assumes "read_object h t bs rd = (e, obj', t', rd')"
  shows "forward rd rd' \<and> (\<forall>x. e = Some x \<longrightarrow> known_error x)"
  using assms
  by (auto simp: read_object_def Let_def split: prod.splits sum.splits
      dest: readsD [OF reads_range] object_body_forward intro: forward_trans)

section \<open>The loop over the object headers\<close>

function read_objects ::
  "bool \<Rightarrow> nat \<Rightarrow> app_object list \<Rightarrow> reader \<Rightarrow> string option \<times> app_object list \<times> reader" where
  "read_objects header_only total_objects objects rd =
     (if remaining rd = 0 then (None, objects, rd)
      else if length objects \<ge> 4096 then (Some ''OBJECT_HEADER_LIMIT'', objects, rd)
      else case rd_take 3 rd of
        (Inl e, rd') \<Rightarrow> (Some e, objects, rd')
      | (Inr bs, rd') \<Rightarrow>
          (case read_object header_only total_objects bs rd' of
             (Some e, obj, total', rd'') \<Rightarrow> (Some e, objects @ [obj], rd'')
           | (None, obj, total', rd'') \<Rightarrow> read_objects header_only total' (objects @ [obj]) rd''))"
  by pat_completeness auto
termination
proof (relation "measure (\<lambda>(h, t, objs, rd). remaining rd)")
  fix h t objs rd x rd1 bs y e z obj u t' rd2
  assume "remaining rd \<noteq> 0" "(x, rd1) = rd_take 3 rd" "x = Inr bs"
    "(e, z) = read_object h t bs rd1" "(obj, u) = z" "(t', rd2) = u"
  then have "remaining rd1 + 3 = remaining rd" "remaining rd2 \<le> remaining rd1"
    by (auto simp: rd_take_def remaining_def split: if_splits
        dest!: read_object_forward [OF sym] forward_remaining)
  then show "((h, t', objs @ [obj], rd2), h, t, objs, rd) \<in> measure (\<lambda>(h, t, objs, rd). remaining rd)"
    by simp
qed simp

declare read_objects.simps [simp del]

text \<open>The invariant rule of this loop: one premise per way it goes on or ends.\<close>

lemma read_objects_rule:
  assumes run: "read_objects h t objs rd = (e, objs', rd')" and init: "I t objs rd"
    and stop: "\<And>t objs rd. I t objs rd \<Longrightarrow> remaining rd = 0 \<Longrightarrow> Q None objs rd"
    and limit: "\<And>t objs rd. I t objs rd \<Longrightarrow> length objs \<ge> 4096 \<Longrightarrow> Q (Some ''OBJECT_HEADER_LIMIT'') objs rd"
    and short: "\<And>t objs rd err rd1. I t objs rd \<Longrightarrow> rd_take 3 rd = (Inl err, rd1) \<Longrightarrow> Q (Some err) objs rd1"
    and fail: "\<And>t objs rd bs rd1 err obj t' rd2. I t objs rd \<Longrightarrow> length objs < 4096 \<Longrightarrow> rd_take 3 rd = (Inr bs, rd1) \<Longrightarrow>
      read_object h t bs rd1 = (Some err, obj, t', rd2) \<Longrightarrow> Q (Some err) (objs @ [obj]) rd2"
    and step: "\<And>t objs rd bs rd1 obj t' rd2. I t objs rd \<Longrightarrow> length objs < 4096 \<Longrightarrow> rd_take 3 rd = (Inr bs, rd1) \<Longrightarrow>
      read_object h t bs rd1 = (None, obj, t', rd2) \<Longrightarrow> I t' (objs @ [obj]) rd2"
  shows "Q e objs' rd'"
  using assms
proof (induction h t objs rd rule: read_objects.induct)
  case (1 h t objs rd)
  note run = 1(2) [unfolded read_objects.simps [of h t objs rd]]
  consider (ended) "remaining rd = 0" | (full) "remaining rd \<noteq> 0" "4096 \<le> length objs"
    | (short) err rd1 where "remaining rd \<noteq> 0" "\<not> 4096 \<le> length objs" "rd_take 3 rd = (Inl err, rd1)"
    | (more) bs rd1 where "remaining rd \<noteq> 0" "\<not> 4096 \<le> length objs" "rd_take 3 rd = (Inr bs, rd1)"
    by (metis old.sum.exhaust surj_pair)
  then show ?case
  proof cases
    case (more bs rd1)
    obtain e1 obj t' rd2 where obj: "read_object h t bs rd1 = (e1, obj, t', rd2)"
      by (cases "read_object h t bs rd1")
    show ?thesis
    proof (cases e1)
      case None
      then have "read_objects h t' (objs @ [obj]) rd2 = (e, objs', rd')"
        using run more obj by simp
      moreover have "I t' (objs @ [obj]) rd2"
        using 1(8) [OF 1(3) _ more(3)] more obj None by simp
      ultimately show ?thesis
        using 1(1) [OF more(1,2) more(3) [symmetric] refl obj [unfolded None, symmetric] refl refl refl]
          1(4-8) by blast
    qed (use run more obj 1(7) [OF 1(3) _ more(3)] in auto)
  qed (use run 1(4) [OF 1(3)] 1(5) [OF 1(3)] 1(6) [OF 1(3)] in auto)
qed

section \<open>One application fragment\<close>

definition app_control_of :: "byte \<Rightarrow> byte \<Rightarrow> app_control" where
  "app_control_of control function =
     \<lparr>ac_control_raw = unat control, ac_fir = (control AND 0x80 \<noteq> 0), ac_fin = (control AND 0x40 \<noteq> 0),
      ac_con = (control AND 0x20 \<noteq> 0), ac_uns = (control AND 0x10 \<noteq> 0),
      ac_sequence = unat (control AND 0x0F), ac_function_code = unat function,
      ac_function_name = dict_default FUNCTIONS (unat function) ''UNKNOWN'', ac_iin = None\<rparr>"

definition iin_of :: "byte list \<Rightarrow> iin_bits" where
  "iin_of iin =
     \<lparr>iin_raw_hex = hex_upper iin, iin_iin1 = unat (iin ! 0), iin_iin2 = unat (iin ! 1),
      iin_edition = ''IEEE1815-2012'', iin_named_bits = map (\<lambda>(i, name). (name, bit (from_le iin) i)) (enumerate 0 IIN_NAMES)\<rparr>"

definition unsupported_function :: "nat \<Rightarrow> string" where
  "unsupported_function function = ''UNSUPPORTED_APPLICATION_FUNCTION:'' @ dec function"

text \<open>
  The fixed part of a fragment: control, function and, in a response, the internal
  indications. The control dictionary is there as soon as two octets are, also when the
  function turns out to be unknown.
\<close>

definition read_head :: "reader \<Rightarrow> string option \<times> app_control option \<times> reader" where
  "read_head rd =
     (case rd_take 2 rd of
        (Inl e, rd') \<Rightarrow> (Some e, None, rd')
      | (Inr bs, rd') \<Rightarrow>
          let head = app_control_of (bs ! 0) (bs ! 1); function = unat (bs ! 1) in
          if map_of FUNCTIONS function = None
          then (Some (unsupported_function function), Some head, rd')
          else if function \<in> {129, 130, 131} then
            (case rd_take 2 rd' of
               (Inl e, rd'') \<Rightarrow> (Some e, Some head, rd'')
             | (Inr iin, rd'') \<Rightarrow> (None, Some (head\<lparr>ac_iin := Some (iin_of iin)\<rparr>), rd''))
          else (None, Some head, rd'))"

definition header_only_function :: "nat \<Rightarrow> bool" where
  "header_only_function function \<longleftrightarrow> function \<in> {1, 7, 8, 9, 10, 20, 21, 22}"

definition read_application ::
  "reader \<Rightarrow> string option \<times> app_control option \<times> app_object list \<times> reader" where
  "read_application rd =
     (case read_head rd of
        (Some e, head, rd') \<Rightarrow> (Some e, head, [], rd')
      | (None, head, rd') \<Rightarrow>
          let function = (case head of Some h \<Rightarrow> ac_function_code h | None \<Rightarrow> 0) in
          if function = 0 \<and> remaining rd' \<noteq> 0 then (Some ''UNEXPECTED_CONFIRM_PAYLOAD'', head, [], rd')
          else if remaining rd' \<noteq> 0 \<and> \<not> header_only_function function \<and>
              function \<notin> {2, 3, 4, 5, 6, 129, 130}
          then (Some (unsupported_function function), head, [], rd')
          else let (e, objects, rd'') = read_objects (header_only_function function) 0 [] rd'
               in (e, head, objects, rd''))"

definition decode_application :: "byte list \<Rightarrow> int \<Rightarrow> string \<Rightarrow> int list \<Rightarrow> trace_application" where
  "decode_application data session_id direction frames =
     (let (e, head, objects, rd) = read_application \<lparr>rd_data = data, rd_offset = 0\<rparr> in
      \<lparr>ta_session_id = session_id, ta_direction = direction, ta_frame_sequences = frames,
       ta_raw_hex = hex_upper data,
       ta_header = \<lparr>ah_control = head, ah_decoded_bytes = rd_offset rd,
         ah_remaining_hex = (case e of None \<Rightarrow> None | Some _ \<Rightarrow> Some (hex_upper (drop (rd_offset rd) data)))\<rparr>,
       ta_objects = objects, ta_decode_error = e\<rparr>)"

section \<open>Octets consumed\<close>

text \<open>From \<open>rd\<close> to \<open>rd'\<close> exactly the octets \<open>bs\<close> were consumed.\<close>

definition consumes :: "reader \<Rightarrow> byte list \<Rightarrow> reader \<Rightarrow> bool" where
  "consumes rd bs rd' \<longleftrightarrow> rd_offset rd \<le> length (rd_data rd) \<and> rd_data rd' = rd_data rd \<and>
     rd_offset rd' = rd_offset rd + length bs \<and>
     drop (rd_offset rd) (rd_data rd) = bs @ drop (rd_offset rd') (rd_data rd)"

definition rd_ok :: "reader \<Rightarrow> bool" where
  "rd_ok rd \<longleftrightarrow> rd_offset rd \<le> length (rd_data rd)"

lemma consumes_ok: "consumes rd bs rd' \<Longrightarrow> rd_ok rd'"
proof -
  assume c: "consumes rd bs rd'"
  then have "length (drop (rd_offset rd) (rd_data rd)) = length bs + length (drop (rd_offset rd') (rd_data rd))"
    by (metis consumes_def length_append)
  moreover have "rd_offset rd \<le> length (rd_data rd)" "rd_data rd' = rd_data rd"
    "rd_offset rd' = rd_offset rd + length bs" using c by (simp_all add: consumes_def)
  ultimately show ?thesis by (simp add: rd_ok_def)
qed

lemma consumes_Nil: "rd_ok rd \<Longrightarrow> consumes rd [] rd"
  by (simp add: consumes_def rd_ok_def)

lemma consumes_append: "consumes rd bs rd' \<Longrightarrow> consumes rd' cs rd'' \<Longrightarrow> consumes rd (bs @ cs) rd''"
  by (auto simp: consumes_def)

lemma consumes_forward: "forward rd rd' \<Longrightarrow> rd_ok rd \<Longrightarrow> consumes rd (octets_between rd rd') rd'"
  by (auto simp: forward_def rd_ok_def consumes_def octets_between_def)
    (metis append_take_drop_id drop_drop le_add_diff_inverse2)

lemma forward_ok: "forward rd rd' \<Longrightarrow> rd_ok rd \<Longrightarrow> rd_ok rd'"
  by (simp add: forward_def rd_ok_def)

lemma take_consumes:
  assumes "rd_take n rd = (Inr bs, rd')" "rd_ok rd"
  shows "length bs = n" "consumes rd bs rd'"
proof -
  have bs: "bs = take n (drop (rd_offset rd) (rd_data rd))" "rd' = rd\<lparr>rd_offset := rd_offset rd + n\<rparr>"
    "n \<le> length (rd_data rd) - rd_offset rd"
    using assms(1) by (auto simp: rd_take_def remaining_def split: if_splits)
  then show "length bs = n" by simp
  then show "consumes rd bs rd'"
    using bs assms(2) by (simp add: consumes_def rd_ok_def) (metis append_take_drop_id add.commute drop_drop)
qed

lemma integer_consumes:
  "rd_integer n rd = (Inr i, rd') \<Longrightarrow> rd_ok rd \<Longrightarrow> consumes rd (to_le n i) rd'"
  by (auto simp: rd_integer_def bindR_def returnR_def split: prod.splits sum.splits dest: take_consumes)
    (metis take_consumes to_le_from_le)

lemma integers_consume:
  "rd_integers n w rd = (Inr is, rd') \<Longrightarrow> rd_ok rd \<Longrightarrow>
     consumes rd (concat (map (to_le w) is)) rd' \<and> length is = n"
proof (induction n arbitrary: rd "is")
  case (Suc n)
  then obtain i js rd1 where "rd_integer w rd = (Inr i, rd1)" "rd_integers n w rd1 = (Inr js, rd')" "is = i # js"
    by (auto simp: bindR_def returnR_def split: prod.splits sum.splits)
  then show ?case
    using Suc.IH [of rd1 js] Suc.prems integer_consumes [of w rd i rd1]
    by (auto intro: consumes_append dest: consumes_ok)
qed (auto simp: returnR_def consumes_Nil)

section \<open>Rebuilding the octets of a decoded fragment\<close>

definition unhex :: "string \<Rightarrow> byte list" where
  "unhex s = (case bytes_fromhex s of Some bs \<Rightarrow> bs | None \<Rightarrow> [])"

lemma unhex_hex_upper [simp]: "unhex (hex_upper bs) = bs"
  by (simp add: unhex_def fromhex_hex_upper)

definition index_octets :: "nat \<Rightarrow> dict \<Rightarrow> byte list" where
  "index_octets prefix item =
     (if prefix = 0 then [] else to_le (prefix_width prefix) (nat (as_int (get item ''index''))))"

definition item_octets :: "nat \<Rightarrow> dict \<Rightarrow> byte list" where
  "item_octets prefix item = index_octets prefix item @ unhex (as_str (get item ''raw_hex''))"

definition range_octets :: "app_object \<Rightarrow> byte list" where
  "range_octets obj =
     (let code = q_range_code (ao_qualifier obj) in
      case ao_start_stop obj of
        Some (start, stop) \<Rightarrow> to_le (2 ^ code) start @ to_le (2 ^ code) stop
      | None \<Rightarrow> (case ao_count obj of Some n \<Rightarrow> to_le (2 ^ (code - 7)) n | None \<Rightarrow> []))"

definition body_octets :: "app_object \<Rightarrow> byte list" where
  "body_octets obj =
     (let prefix = q_prefix (ao_qualifier obj) in
      (case ao_indices obj of Some is \<Rightarrow> concat (map (to_le (prefix_width prefix)) is) | None \<Rightarrow> []) @
      (case ao_raw_hex obj of Some s \<Rightarrow> unhex s
       | None \<Rightarrow> concat (map (item_octets prefix) (ao_values obj))))"

definition object_octets :: "app_object \<Rightarrow> byte list" where
  "object_octets obj =
     map of_nat [ao_group obj, ao_variation obj, ao_qualifier obj] @ range_octets obj @ body_octets obj"

definition head_octets :: "app_control \<Rightarrow> byte list" where
  "head_octets h = map of_nat [ac_control_raw h, ac_function_code h] @
     (case ac_iin h of Some i \<Rightarrow> unhex (iin_raw_hex i) | None \<Rightarrow> [])"

definition application_octets :: "trace_application \<Rightarrow> byte list" where
  "application_octets a =
     (case ah_control (ta_header a) of Some h \<Rightarrow> head_octets h | None \<Rightarrow> []) @
     concat (map object_octets (ta_objects a))"

lemma range_consumes:
  assumes "read_range q rd = (Inr r, rd')" "rd_ok rd"
  shows "consumes rd (range_octets (set_range r (new_object g v q))) rd'"
  using assms
  by (auto simp: read_range_def Let_def raiseR_def returnR_def bindR_def range_octets_def new_object_def
      consumes_Nil simp del: to_le.simps split: if_splits prod.splits sum.splits
      dest!: integer_consumes dest: consumes_ok intro: consumes_append)

lemma item_consumes:
  assumes "read_item obj r i rd = (Inr item, rd')" "rd_ok rd"
  shows "consumes rd (item_octets (q_prefix (ao_qualifier obj)) item) rd'"
proof -
  let ?p = "q_prefix (ao_qualifier obj)"
  obtain index rd1 where index: "read_index ?p r i rd = (Inr index, rd1)"
    using assms(1) by (auto simp: read_item_def bindR_def split: prod.splits sum.splits)
  obtain item0 where item0: "decode_value (ao_group obj) (ao_variation obj) rd1 = (Inr item0, rd')"
    and item: "item = dict_update item0 [(''index'', index), (''raw_hex'', PStr (hex_upper (octets_between rd1 rd')))]"
    using assms(1) index by (auto simp: read_item_def bindR_def split: prod.splits sum.splits)
  have get: "get item ''index'' = index" "get item ''raw_hex'' = PStr (hex_upper (octets_between rd1 rd'))"
    by (simp_all add: item get_def map_of_dict_set)
  have "consumes rd (index_octets ?p item) rd1"
    using index assms(2)
    by (auto simp: read_index_def index_octets_def get bindR_def returnR_def consumes_Nil
        split: if_splits prod.splits sum.splits dest: integer_consumes)
  moreover have "consumes rd1 (octets_between rd1 rd') rd'"
    using readsD(1) [OF reads_decode_value item0] calculation by (intro consumes_forward) (auto dest: consumes_ok)
  ultimately show ?thesis by (auto simp: item_octets_def get intro: consumes_append)
qed

lemma items_consume:
  assumes "read_items n i r obj rd = (None, obj', rd')" "rd_ok rd"
  shows "\<exists>items. obj' = obj\<lparr>ao_values := ao_values obj @ items\<rparr> \<and> length items = n \<and>
    consumes rd (concat (map (item_octets (q_prefix (ao_qualifier obj))) items)) rd'"
  using assms
proof (induction n arbitrary: i obj rd)
  case 0
  then show ?case by (auto simp: consumes_Nil)
next
  case (Suc n)
  from Suc.prems obtain item rd1 where item: "read_item obj r i rd = (Inr item, rd1)"
    and rest: "read_items n (Suc i) r (obj\<lparr>ao_values := ao_values obj @ [item]\<rparr>) rd1 = (None, obj', rd')"
    by (auto split: prod.splits sum.splits)
  note c = item_consumes [OF item Suc.prems(2)]
  from Suc.IH [OF rest consumes_ok [OF c]] obtain items
    where "obj' = obj\<lparr>ao_values := ao_values obj @ item # items\<rparr>" "length items = n"
      "consumes rd1 (concat (map (item_octets (q_prefix (ao_qualifier obj))) items)) rd'"
    by auto
  then show ?case using consumes_append [OF c] by (intro exI [of _ "item # items"]) simp
qed

lemma read_indices_consume:
  assumes "read_indices p c rd = (Inr is, rd')" "rd_ok rd"
  shows "consumes rd (case is of Some is \<Rightarrow> concat (map (to_le (prefix_width p)) is) | None \<Rightarrow> []) rd'"
  using assms
  by (auto simp: read_indices_def bindR_def returnR_def consumes_Nil
      split: if_splits option.splits prod.splits sum.splits dest: integers_consume)

lemma set_range_simps [simp]:
  "ao_group (set_range r obj) = ao_group obj" "ao_variation (set_range r obj) = ao_variation obj"
  "ao_qualifier (set_range r obj) = ao_qualifier obj" "ao_values (set_range r obj) = ao_values obj"
  "ao_raw_hex (set_range r obj) = ao_raw_hex obj" "ao_indices (set_range r obj) = ao_indices obj"
  by (cases r; simp)+

lemma range_octets_update [simp]:
  "range_octets (obj\<lparr>ao_values := x\<rparr>) = range_octets obj"
  "range_octets (obj\<lparr>ao_raw_hex := y\<rparr>) = range_octets obj"
  "range_octets (obj\<lparr>ao_header_only := b\<rparr>) = range_octets obj"
  "range_octets (obj\<lparr>ao_indices := z\<rparr>) = range_octets obj"
  by (simp_all add: range_octets_def Let_def split: option.splits)

lemma body_consumes:
  assumes "object_body h t r obj rd = (None, obj', t', rd')" "rd_ok rd"
    and new: "ao_values obj = []" "ao_raw_hex obj = None" "ao_indices obj = None"
  shows "consumes rd (body_octets obj') rd'" "range_octets obj' = range_octets obj"
    "ao_group obj' = ao_group obj" "ao_variation obj' = ao_variation obj" "ao_qualifier obj' = ao_qualifier obj"
  using assms
  by (auto simp: object_body_def Let_def body_octets_def
      split: if_splits option.splits prod.splits sum.splits
      dest!: read_indices_consume items_consume)
    (rule take_consumes(2); assumption)

lemma read_object_consumes:
  assumes "read_object h t bs rd = (None, obj, t', rd')" "rd_ok rd" "length bs = 3"
  shows "consumes rd (drop 3 (object_octets obj)) rd'" "take 3 (object_octets obj) = bs"
proof -
  obtain a b c where bs: "bs = [a, b, c]"
    using assms(3) by (auto simp: numeral_3_eq_3 length_Suc_conv)
  define o0 where "o0 = new_object (unat a) (unat b) (unat c)"
  obtain r rd1 where range: "read_range (unat c) rd = (Inr r, rd1)"
    and body: "object_body h t r (set_range r o0) rd1 = (None, obj, t', rd')"
    using assms(1) by (auto simp: read_object_def bs Let_def o0_def new_object_def split: prod.splits sum.splits)
  have c1: "consumes rd (range_octets (set_range r o0)) rd1"
    unfolding o0_def using range assms(2) by (rule range_consumes)
  note body = body_consumes [OF body consumes_ok [OF c1]]
  show "consumes rd (drop 3 (object_octets obj)) rd'" "take 3 (object_octets obj) = bs"
    using consumes_append [OF c1] body by (simp_all add: object_octets_def o0_def new_object_def bs)
qed

lemma read_objects_consume:
  assumes "read_objects h t objs rd = (None, objs', rd')" "rd_ok rd"
  shows "remaining rd' = 0 \<and> (\<exists>new. objs' = objs @ new \<and> consumes rd (concat (map object_octets new)) rd')"
proof -
  define I where "I = (\<lambda>t :: nat. \<lambda>objs1 rd1. \<exists>new. objs1 = objs @ new \<and> consumes rd (concat (map object_octets new)) rd1)"
  have step: "I t' (objs1 @ [obj]) rd3"
    if inv: "I t objs1 rd1" and three: "rd_take 3 rd1 = (Inr bs, rd2)"
      and obj: "read_object h t bs rd2 = (None, obj, t', rd3)"
    for t t' objs1 rd1 rd2 rd3 bs obj
  proof -
    obtain new where new: "objs1 = objs @ new" "consumes rd (concat (map object_octets new)) rd1"
      using inv by (auto simp: I_def)
    note c3 = take_consumes [OF three consumes_ok [OF new(2)]]
    note c = read_object_consumes [OF obj consumes_ok [OF c3(2)] c3(1)]
    have "consumes rd1 (object_octets obj) rd3"
      using consumes_append [OF c3(2) c(1)] c(2) by (metis append_take_drop_id)
    then show ?thesis
      using consumes_append [OF new(2)] new(1) by (auto simp: I_def intro!: exI [of _ "new @ [obj]"])
  qed
  have "(None :: string option) = None \<longrightarrow> remaining rd' = 0 \<and> I t objs' rd'"
    by (rule read_objects_rule [OF assms(1), where I = I and Q = "\<lambda>e objs1 rd1. e = None \<longrightarrow> remaining rd1 = 0 \<and> I t objs1 rd1"])
      (use step assms(2) in \<open>auto simp: I_def consumes_Nil\<close>)
  then show ?thesis by (simp add: I_def)
qed

lemma list_length2: "length bs = 2 \<Longrightarrow> \<exists>a b. bs = [a, b]"
  by (auto simp: numeral_2_eq_2 length_Suc_conv)

lemma head_octets_simps [simp]:
  "head_octets (app_control_of a b) = [a, b]"
  "head_octets ((app_control_of a b)\<lparr>ac_iin := Some (iin_of iin)\<rparr>) = [a, b] @ iin"
  by (simp_all add: head_octets_def app_control_of_def iin_of_def)

lemma read_head_consumes:
  assumes "read_head rd = (None, head, rd')" "rd_ok rd"
  shows "\<exists>h. head = Some h \<and> consumes rd (head_octets h) rd'"
proof -
  obtain bs rd1 where bs: "rd_take 2 rd = (Inr bs, rd1)"
    using assms(1) by (auto simp: read_head_def split: prod.splits sum.splits)
  note c = take_consumes [OF bs assms(2)]
  then obtain a b where ab: "bs = [a, b]" using list_length2 by blast
  show ?thesis
    using assms(1) c(2) bs
    by (auto simp: read_head_def ab Let_def simp del: append_Cons append_Nil
        split: if_splits prod.splits sum.splits
        intro!: consumes_append [OF _ take_consumes(2)] dest: consumes_ok)
qed

lemma known_error_function [simp]: "known_error (unsupported_function n)"
  by (simp add: known_error_def error_category_def APP_ISSUES_def unsupported_function_def)

lemma read_head_forward:
  assumes "read_head rd = (e, head, rd')"
  shows "forward rd rd' \<and> (\<forall>x. e = Some x \<longrightarrow> known_error x)"
  using assms
  by (auto simp: read_head_def Let_def split: if_splits prod.splits sum.splits
      dest: readsD [OF reads_take] intro: forward_trans)

lemma read_objects_forward:
  assumes "read_objects h t objs rd = (e, objs', rd')"
  shows "forward rd rd' \<and> (\<forall>x. e = Some x \<longrightarrow> known_error x) \<and> (length objs \<le> 4096 \<longrightarrow> length objs' \<le> 4096)"
  by (rule read_objects_rule [OF assms, where I = "\<lambda>t objs1 rd1. forward rd rd1 \<and> (length objs \<le> 4096 \<longrightarrow> length objs1 \<le> 4096)"])
    (auto dest: readsD [OF reads_take] read_object_forward intro: forward_trans)

lemma read_application_forward:
  assumes "read_application rd = (e, head, objs, rd')"
  shows "forward rd rd' \<and> (\<forall>x. e = Some x \<longrightarrow> known_error x) \<and> length objs \<le> 4096"
  using assms
  by (auto simp: read_application_def Let_def split: prod.splits option.splits if_splits
      dest!: read_head_forward read_objects_forward intro: forward_trans)

lemma read_application_consumes:
  assumes "read_application rd = (None, head, objs, rd')" "rd_ok rd"
  shows "remaining rd' = 0 \<and> (\<exists>h. head = Some h \<and>
    consumes rd (head_octets h @ concat (map object_octets objs)) rd')"
proof -
  obtain h rd1 where h: "read_head rd = (None, Some h, rd1)" "consumes rd (head_octets h) rd1"
    using assms read_head_consumes [OF _ assms(2)]
    by (cases "read_head rd") (auto simp: read_application_def split: option.splits prod.splits)
  have "head = Some h" "read_objects (header_only_function (ac_function_code h)) 0 [] rd1 = (None, objs, rd')"
    using assms(1) h(1) by (auto simp: read_application_def Let_def split: if_splits prod.splits)
  then show ?thesis
    using read_objects_consume [OF _ consumes_ok [OF h(2)]] consumes_append [OF h(2)] by fastforce
qed

section \<open>Limits and completeness of the values\<close>

definition value_count :: "app_object list \<Rightarrow> nat" where
  "value_count objs = sum_list (map (\<lambda>obj. length (ao_values obj)) objs)"

lemma value_count_append [simp]: "value_count (xs @ ys) = value_count xs + value_count ys"
  by (simp add: value_count_def)

lemma value_count_simps [simp]:
  "value_count [] = 0" "value_count (obj # objs) = length (ao_values obj) + value_count objs"
  by (simp_all add: value_count_def)

lemma read_items_values:
  "read_items n i r obj rd = (e, obj', rd') \<Longrightarrow> length (ao_values obj') \<le> length (ao_values obj) + n"
  by (induction n arbitrary: i obj rd) (fastforce split: prod.splits sum.splits)+

lemma read_object_values:
  assumes "read_object h t bs rd = (e, obj, t', rd')" "t \<le> MAX_OBJECTS"
  shows "t + length (ao_values obj) \<le> MAX_OBJECTS \<and>
    (e = None \<longrightarrow> t + length (ao_values obj) \<le> t' \<and> t' \<le> MAX_OBJECTS)"
  using assms
  by (auto simp: read_object_def object_body_def Let_def new_object_def packed_items_def
      split: if_splits option.splits prod.splits sum.splits dest!: read_items_values)

lemma read_objects_values:
  assumes "read_objects h t objs rd = (e, objs', rd')" "value_count objs \<le> t" "t \<le> MAX_OBJECTS"
  shows "value_count objs' \<le> MAX_OBJECTS"
  by (rule read_objects_rule [OF assms(1), where I = "\<lambda>t objs rd. value_count objs \<le> t \<and> t \<le> MAX_OBJECTS"])
    (use assms(2,3) in \<open>auto dest!: read_object_values\<close>)

lemma read_objects_all:
  assumes run: "read_objects h t objs rd = (None, objs', rd')" and "rd_ok rd" "\<forall>obj \<in> set objs. P obj"
    and obj: "\<And>bs rd1 rd2 t t' obj. read_object h t bs rd1 = (None, obj, t', rd2) \<Longrightarrow> rd_ok rd1 \<Longrightarrow> P obj"
  shows "\<forall>obj \<in> set objs'. P obj"
proof -
  define I where "I = (\<lambda>t :: nat. \<lambda>objs rd. rd_ok rd \<and> (\<forall>obj \<in> set objs. P obj))"
  have step: "I t' (objs @ [x]) rd2" if "I t objs rd" "rd_take 3 rd = (Inr bs, rd1)"
    "read_object h t bs rd1 = (None, x, t', rd2)" for t objs rd bs rd1 x t' rd2
  proof -
    have "rd_ok rd1" "\<forall>obj \<in> set objs. P obj"
      using that(1) forward_ok [OF readsD(1) [OF reads_take that(2)]] by (simp_all add: I_def)
    then show ?thesis
      using obj [OF that(3)] forward_ok [of rd1 rd2] read_object_forward [OF that(3)] by (simp add: I_def)
  qed
  have "(None :: string option) = None \<longrightarrow> (\<forall>obj \<in> set objs'. P obj)"
  proof (rule read_objects_rule [OF run, where I = I and Q = "\<lambda>e objs rd. e = None \<longrightarrow> (\<forall>obj \<in> set objs. P obj)"])
    show "I t objs rd" using assms(2,3) by (simp add: I_def)
  qed ((rule step; assumption) | simp add: I_def)+
  then show ?thesis by simp
qed

text \<open>
  A completely decoded object: as many values as announced, and with an index range one
  value for every index of the range, in order.
\<close>

definition object_complete :: "app_object \<Rightarrow> bool" where
  "object_complete obj \<longleftrightarrow>
     (if ao_header_only obj then ao_values obj = []
      else ao_count obj = Some (length (ao_values obj)) \<and>
        (\<forall>start stop. ao_start_stop obj = Some (start, stop) \<longrightarrow> start \<le> stop \<and>
           map (\<lambda>v. get v ''index'') (ao_values obj) = map (\<lambda>i. PInt (int i)) [start..<stop + 1]))"

lemma read_item_index:
  assumes "read_item obj r i rd = (Inr item, rd')" "q_prefix (ao_qualifier obj) = 0" "r = Start_Stop s t"
  shows "get item ''index'' = PInt (int (s + i))"
  using assms
  by (auto simp: read_item_def read_index_def bindR_def returnR_def get_def map_of_dict_set
      split: prod.splits sum.splits)

lemma read_items_indices:
  assumes "read_items n i r obj rd = (None, obj', rd')" "q_prefix (ao_qualifier obj) = 0" "r = Start_Stop s t"
  shows "map (\<lambda>v. get v ''index'') (ao_values obj') =
    map (\<lambda>v. get v ''index'') (ao_values obj) @ map (\<lambda>k. PInt (int k)) [s + i..<s + i + n]"
  using assms
proof (induction n arbitrary: i obj rd)
  case (Suc n)
  obtain item rd1 where item: "read_item obj r i rd = (Inr item, rd1)"
    and rest: "read_items n (Suc i) r (obj\<lparr>ao_values := ao_values obj @ [item]\<rparr>) rd1 = (None, obj', rd')"
    using Suc.prems(1) by (auto split: prod.splits sum.splits)
  have "[s + i..<s + i + Suc n] = (s + i) # [s + Suc i..<s + Suc i + n]"
    by (simp add: upt_rec)
  then show ?case
    using Suc.IH [OF rest] Suc.prems read_item_index [OF item] by simp
qed simp

lemma read_range_start_stop:
  "read_range q rd = (Inr (Start_Stop s t), rd') \<Longrightarrow> q_prefix q = 0 \<and> s \<le> t"
  by (auto simp: read_range_def Let_def raiseR_def returnR_def bindR_def
      split: if_splits prod.splits sum.splits)

lemma packed_items_indices:
  "map (\<lambda>v. get v ''index'') (packed_items b s n packed) = map (\<lambda>i. PInt (int i)) [s..<s + n]"
  by (simp add: packed_items_def get_def comp_def map_add_upt [symmetric] add.commute)

lemma object_body_complete:
  assumes body: "object_body h t r (set_range r (new_object g v q)) rd = (None, obj, t', rd')"
    and range: "\<And>start stop. r = Start_Stop start stop \<Longrightarrow> q_prefix q = 0 \<and> start \<le> stop" and ok: "rd_ok rd"
  shows "object_complete obj"
proof (cases h)
  case True
  then show ?thesis
    using body by (auto simp: object_body_def Let_def object_complete_def new_object_def
        split: prod.splits sum.splits)
next
  case False
  then obtain n where n: "range_count r = Some n"
    using body by (auto simp: object_body_def Let_def split: option.splits)
  define o0 where "o0 = set_range r (new_object g v q)"
  have o0: "ao_count o0 = Some n" "\<not> ao_header_only o0" "ao_values o0 = []" "ao_qualifier o0 = q"
    "\<And>s1 s2. ao_start_stop o0 = Some (s1, s2) \<Longrightarrow> r = Start_Stop s1 s2"
    using n by (cases r; simp add: o0_def new_object_def)+
  have span: "n = s2 - s1 + 1 \<and> s1 \<le> s2" if "r = Start_Stop s1 s2" for s1 s2
    using n range that by simp
  consider packed where "obj = o0\<lparr>ao_values := packed_items (packed_bits (ao_group o0)) (range_start r) n packed,
        ao_raw_hex := Some (hex_upper packed)\<rparr>"
    | "read_items n 0 r o0 rd = (None, obj, rd')"
    using body False n
    by (auto simp: object_body_def Let_def o0_def [symmetric] split: if_splits prod.splits sum.splits)
  then show ?thesis
  proof cases
    case (1 packed)
    then show ?thesis
      using o0 span packed_items_indices [of "packed_bits (ao_group o0)" "range_start r" n packed]
      by (auto simp: object_complete_def) (simp add: packed_items_def)
  next
    case 2
    obtain items where items: "obj = o0\<lparr>ao_values := items\<rparr>" "length items = n"
      using items_consume [OF 2 ok] o0 by auto
    show ?thesis
      using items o0 span range read_items_indices [OF 2] by (auto simp: object_complete_def)
  qed
qed

lemma read_object_complete:
  assumes "read_object h t bs rd = (None, obj, t', rd')" "rd_ok rd"
  shows "object_complete obj"
proof -
  define q where "q = unat (bs ! 2)"
  obtain r rd1 where r: "read_range q rd = (Inr r, rd1)"
    and body: "object_body h t r (set_range r (new_object (unat (bs ! 0)) (unat (bs ! 1)) q)) rd1 = (None, obj, t', rd')"
    using assms(1) by (auto simp: read_object_def Let_def new_object_def q_def split: prod.splits sum.splits)
  show ?thesis
    using object_body_complete [OF body] read_range_start_stop [of q rd] r
      forward_ok [OF readsD(1) [OF reads_range r] assms(2)] by blast
qed

lemma read_application_complete:
  assumes "read_application rd = (None, head, objs, rd')" "rd_ok rd"
  shows "\<forall>obj \<in> set objs. object_complete obj"
proof -
  obtain h rd1 where h: "read_head rd = (None, h, rd1)"
    using assms by (cases "read_head rd") (auto simp: read_application_def split: option.splits prod.splits)
  then have "\<exists>b. read_objects b 0 [] rd1 = (None, objs, rd')"
    using assms(1) by (auto simp: read_application_def Let_def split: if_splits prod.splits)
  then obtain b where run: "read_objects b 0 [] rd1 = (None, objs, rd')" ..
  have "rd_ok rd1" using forward_ok [OF _ assms(2)] read_head_forward [OF h] by blast
  then show ?thesis
    by (rule read_objects_all [OF run]) (auto intro: read_object_complete)
qed

lemma read_application_values:
  assumes "read_application rd = (e, head, objs, rd')"
  shows "value_count objs \<le> MAX_OBJECTS"
  using assms
  by (auto simp: read_application_def Let_def split: option.splits prod.splits if_splits
      dest!: read_objects_values)

lemma decode_application_run:
  obtains e head objs rd where "read_application \<lparr>rd_data = data, rd_offset = 0\<rparr> = (e, head, objs, rd)"
    "rd_data rd = data" "rd_offset rd \<le> length data"
proof -
  obtain e head objs rd where run: "read_application \<lparr>rd_data = data, rd_offset = 0\<rparr> = (e, head, objs, rd)"
    by (cases "read_application \<lparr>rd_data = data, rd_offset = 0\<rparr>")
  then show ?thesis
    using that [OF run] read_application_forward [OF run] by (simp add: forward_def)
qed

lemma application_issues:
  "ta_decode_error (decode_application data session dir frames) = Some e \<Longrightarrow> error_category e \<in> set APP_ISSUES"
  by (rule decode_application_run [of data])
    (auto simp: decode_application_def known_error_def [symmetric] dest: read_application_forward)

text \<open>
  C15: decoding loses nothing: when a fragment is decoded without error, its octets can be
  rebuilt from the decoded header, indications, object headers, indices and values.
\<close>

theorem application_lossless:
  assumes "ta_decode_error (decode_application data session dir frames) = None"
  shows "application_octets (decode_application data session dir frames) = data"
proof -
  obtain e head objs rd where run: "read_application \<lparr>rd_data = data, rd_offset = 0\<rparr> = (e, head, objs, rd)"
    by (rule decode_application_run)
  have "e = None" using assms run by (simp add: decode_application_def)
  then show ?thesis
    using run read_application_consumes [of "\<lparr>rd_data = data, rd_offset = 0\<rparr>" head objs rd]
    by (auto simp: decode_application_def application_octets_def rd_ok_def consumes_def remaining_def)
qed

definition sample_response :: "byte list" where
  "sample_response = [0xC1, 0x81, 0x80, 0x00, 30, 2, 0, 0, 1, 0x01, 0xE8, 0x03, 0x01, 0x18, 0xFC]"

theorem application_lossless_witness:
  "application_octets (decode_application sample_response 1 ''RX'' [1]) = sample_response"
  by (rule application_lossless) code_simp

text \<open>
  C39: every octet of a fragment is accounted for, whatever it holds: without error all
  octets were decoded; with an error the reported remainder is exactly what follows the
  decoded octets, and the error belongs to a fixed list of categories.
\<close>

theorem application_accounting:
  "let a = decode_application data session dir frames; n = ah_decoded_bytes (ta_header a) in
   ta_raw_hex a = hex_upper data \<and>
   (case ta_decode_error a of
      None \<Rightarrow> n = length data \<and> ah_remaining_hex (ta_header a) = None
    | Some e \<Rightarrow> n \<le> length data \<and> ah_remaining_hex (ta_header a) = Some (hex_upper (drop n data)) \<and>
        error_category e \<in> set APP_ISSUES)"
proof -
  obtain e head objs rd where run: "read_application \<lparr>rd_data = data, rd_offset = 0\<rparr> = (e, head, objs, rd)"
    and rd: "rd_data rd = data" "rd_offset rd \<le> length data"
    by (rule decode_application_run)
  have "e = None \<Longrightarrow> rd_offset rd = length data"
    using read_application_consumes [of "\<lparr>rd_data = data, rd_offset = 0\<rparr>" head objs rd] run rd
    by (auto simp: rd_ok_def remaining_def)
  then show ?thesis
    using read_application_forward [OF run] rd
    by (auto simp: decode_application_def run Let_def known_error_def split: option.splits)
qed

text \<open>
  A decoded fragment is bounded, whatever the octets: at most 4096 object headers and,
  over all of them, at most 65536 values.
\<close>

theorem application_bounded:
  "length (ta_objects (decode_application data session dir frames)) \<le> 4096 \<and>
   value_count (ta_objects (decode_application data session dir frames)) \<le> 65536"
proof -
  obtain e head objs rd where run: "read_application \<lparr>rd_data = data, rd_offset = 0\<rparr> = (e, head, objs, rd)"
    by (rule decode_application_run)
  show ?thesis
    using read_application_forward [OF run] read_application_values [OF run]
    by (simp add: decode_application_def run MAX_OBJECTS_def)
qed

text \<open>
  A fragment decoded without error has in every object exactly the announced number of
  values; with an index range there is one value for each index of the range, in order.
\<close>

theorem application_values_complete:
  assumes "ta_decode_error (decode_application data session dir frames) = None"
  shows "\<forall>obj \<in> set (ta_objects (decode_application data session dir frames)). object_complete obj"
proof -
  obtain e head objs rd where run: "read_application \<lparr>rd_data = data, rd_offset = 0\<rparr> = (e, head, objs, rd)"
    by (rule decode_application_run)
  have "e = None" using assms run by (simp add: decode_application_def)
  then show ?thesis
    using read_application_complete [of "\<lparr>rd_data = data, rd_offset = 0\<rparr>" head objs rd] run
    by (simp add: decode_application_def rd_ok_def)
qed

theorem application_values_complete_witness:
  "list_all object_complete (ta_objects (decode_application sample_response 1 ''RX'' [1]))"
proof -
  have "ta_decode_error (decode_application sample_response 1 ''RX'' [1]) = None" by code_simp
  then show ?thesis using application_values_complete by (simp add: list_all_iff)
qed

section \<open>Meaning of the values\<close>

lemma from_le_div_mod: "j < length bs \<Longrightarrow> from_le bs div 256 ^ j mod 256 = unat (bs ! j)"
proof (induction bs arbitrary: j)
  case (Cons b bs)
  show ?case
  proof (cases j)
    case 0
    then show ?thesis using unat_byte_less [of b] by simp
  next
    case (Suc k)
    have "(unat b + 256 * from_le bs) div 256 = from_le bs"
      using unat_byte_less [of b] by simp
    then show ?thesis
      using Cons Suc by (simp add: div_mult2_eq)
  qed
qed simp

text \<open>
  The values of a packed object are the bits of its octets read as one little-endian
  number: value \<open>i\<close> of width \<open>b\<close> is the \<open>b\<close>-bit field at bit position \<open>i * b\<close>.
\<close>

theorem packed_value_is_bit_field:
  assumes "b \<in> {1, 2}" "i * b div 8 < length packed"
  shows "packed_value b packed i = from_le packed div 2 ^ (i * b) mod 2 ^ b"
proof -
  define j k where "j = i * b div 8" and "k = i * b mod 8"
  have k: "b \<le> 8 - k" using assms(1) unfolding k_def by (elim insertE emptyE) (simp_all, presburger)
  have "from_le packed div 2 ^ (i * b) = drop_bit k (from_le packed div 256 ^ j)"
  proof -
    have "i * b = 8 * j + k" by (simp add: j_def k_def)
    then have "(2 :: nat) ^ (i * b) = 256 ^ j * 2 ^ k" by (simp add: power_add power_mult)
    then show ?thesis by (simp add: div_mult2_eq drop_bit_eq_div)
  qed
  also have "\<dots> mod 2 ^ b = take_bit b (drop_bit k (take_bit 8 (from_le packed div 256 ^ j)))"
    using k by (simp add: take_bit_eq_mod [symmetric] drop_bit_take_bit min_absorb1)
  also have "\<dots> = packed_value b packed i"
    using from_le_div_mod [of j packed] assms(2)
    by (simp add: packed_value_def j_def k_def take_bit_eq_mod drop_bit_eq_div)
  finally show ?thesis by simp
qed

theorem packed_value_is_bit_field_witness:
  "packed_value 2 [0xE4, 0x1B] 5 = from_le [0xE4, 0x1B] div 2 ^ 10 mod 2 ^ 2 \<and> packed_value 2 [0xE4, 0x1B] 5 = 2"
  using packed_value_is_bit_field [of 2 5 "[0xE4, 0x1B]"] by simp

lemma twos_complement_mod:
  assumes "0 < n" "- (2 ^ (n - 1)) \<le> v" "v < 2 ^ (n - 1)"
  shows "twos_complement n (nat (v mod 2 ^ n)) = v"
proof -
  have double: "(2 :: int) ^ n = 2 * 2 ^ (n - 1)" using assms(1) by (cases n) auto
  have m: "v mod 2 ^ n = (if 0 \<le> v then v else v + 2 ^ n)"
  proof (cases "0 \<le> v")
    case False
    then have "(v + 2 ^ n) mod 2 ^ n = v + 2 ^ n" using assms double by (intro mod_pos_pos_trivial) linarith+
    then show ?thesis using False by simp
  qed (use assms double in simp)
  have "(nat (v mod 2 ^ n) < 2 ^ (n - 1)) = (v mod 2 ^ n < 2 ^ (n - 1))"
    by (simp add: nat_less_iff)
  also have "\<dots> = (0 \<le> v)" unfolding m using assms double by auto
  finally show ?thesis using m assms double by (auto simp: twos_complement_def)
qed

text \<open>
  The signed formats are read as two's complement: a number of the format's range, sent
  as its little-endian octets, is the number decoded.
\<close>

theorem signed_number_roundtrip:
  assumes "(f, n) \<in> {(Fmt_h, 16), (Fmt_i, 32)}" "- (2 ^ (n - 1)) \<le> v" "v < 2 ^ (n - 1)"
    and "rd_data rd = pre @ to_le (calcsize f) (nat (v mod 2 ^ n)) @ post" "rd_offset rd = length pre"
  shows "number f rd = (Inr [(''value'', PInt v)], rd\<lparr>rd_offset := length pre + calcsize f\<rparr>)"
proof -
  have "twos_complement n (nat (v mod 2 ^ n)) = v"
    using assms(1-3) by (intro twos_complement_mod) auto
  moreover have "from_le (to_le (calcsize f) (nat (v mod 2 ^ n))) = nat (v mod 2 ^ n)"
    using assms(1) by (auto simp: from_le_to_le)
  ultimately show ?thesis
    using assms(1,4,5)
    by (auto simp: number_def bindR_def returnR_def rd_take_def remaining_def unpack_def simp del: to_le.simps)
qed

theorem signed_number_roundtrip_witness:
  "number Fmt_h \<lparr>rd_data = [0x18, 0xFC], rd_offset = 0\<rparr> =
     (Inr [(''value'', PInt (- 1000))], \<lparr>rd_data = [0x18, 0xFC], rd_offset = 2\<rparr>)"
  using signed_number_roundtrip [of Fmt_h 16 "- 1000" "\<lparr>rd_data = [0x18, 0xFC], rd_offset = 0\<rparr>" "[]" "[]"]
  by (simp add: numeral_2_eq_2)

end
