(* ===== verification/TraceDecoder.thy ===== *)
theory TraceDecoder
  imports AppDecode
begin

text \<open>
  The trace decoder proper, \<open>python/src/dnp3_master/trace.py\<close>: transport reassembly
  (\<open>TraceDecoder._consume_transport\<close>), the loop over the records and \<open>decode_batch\<close> with all its
  checks. The theorems show the bounds the class documents, that issues are sticky, that a
  rejected batch changes nothing, that reassembly inverts segmentation, and that a batch
  without issues ends a run in which every record was seen exactly once and in order.
\<close>

section \<open>Transport reassembly\<close>

definition transport_key_of :: "trace_frame \<Rightarrow> transport_key" where
  "transport_key_of frame = (tf_session_id frame, tf_direction frame,
     lh_source (tf_link frame), lh_destination (tf_link frame))"

definition transport_start :: "transport_header \<Rightarrow> transport_pending" where
  "transport_start header = \<lparr>tp_next_sequence = th_sequence header, tp_data = [], tp_frames = []\<rparr>"

definition app_issue :: "trace_application \<Rightarrow> decoder \<Rightarrow> decoder" where
  "app_issue app d = (case ta_decode_error app of None \<Rightarrow> d | Some e \<Rightarrow> issue (error_category e) d)"

text \<open>
  The part of \<open>_consume_transport\<close> after the entry \<open>pending\<close> was found or stored for the key:
  sequence, limits, append, and at the last segment the decoded application.
\<close>

definition transport_append ::
  "decoder \<Rightarrow> trace_frame \<Rightarrow> transport_header \<Rightarrow> byte list \<Rightarrow> transport_pending \<Rightarrow>
     decoder \<times> trace_application option" where
  "transport_append d frame header payload pending =
     (let key = transport_key_of frame; removed = d\<lparr>d_transports := dict_del key (d_transports d)\<rparr> in
      if tp_next_sequence pending \<noteq> th_sequence header
      then (issue ''TRANSPORT_SEQUENCE_GAP'' removed, None)
      else if length (tp_data pending) + length payload > MAX_APDU \<or> length (tp_frames pending) \<ge> MAX_SEGMENTS
      then (issue ''TRANSPORT_REASSEMBLY_LIMIT'' removed, None)
      else let pending' = pending\<lparr>tp_next_sequence := (th_sequence header + 1) mod 64,
                 tp_data := tp_data pending @ payload, tp_frames := tp_frames pending @ [tf_first_sequence frame]\<rparr> in
        if \<not> th_fin header
        then (d\<lparr>d_transports := dict_set key pending' (d_transports d)\<rparr>, None)
        else let app = decode_application (tp_data pending') (tf_session_id frame) (tf_direction frame) (tp_frames pending')
             in (app_issue app removed, Some app))"

definition consume_transport :: "decoder \<Rightarrow> trace_frame \<Rightarrow> decoder \<times> trace_application option" where
  "consume_transport d frame =
     (let key = transport_key_of frame in
      if tf_decode_error frame \<noteq> None then (d\<lparr>d_transports := dict_del key (d_transports d)\<rparr>, None)
      else case tf_transport frame of
        None \<Rightarrow> (d, None)
      | Some header \<Rightarrow>
          let payload = drop 1 (unhex (tf_payload_hex frame));
              pending = dict_get (d_transports d) key in
          if th_fir header then
            let d1 = (if pending \<noteq> None then issue ''TRANSPORT_RESTART_BEFORE_FIN'' d else d) in
            if pending = None \<and> length (d_transports d) \<ge> MAX_ROUTES
            then (issue ''TRANSPORT_ROUTE_LIMIT'' d1, None)
            else let start = transport_start header in
              transport_append (d1\<lparr>d_transports := dict_set key start (d_transports d1)\<rparr>)
                frame header payload start
          else case pending of
            None \<Rightarrow> (issue ''ORPHAN_TRANSPORT_SEGMENT'' d, None)
          | Some p \<Rightarrow> transport_append d frame header payload p)"

section \<open>One record\<close>

text \<open>A record that does not continue the sequence invalidates everything pending.\<close>

definition note_record :: "trace_record \<Rightarrow> decoder \<Rightarrow> decoder" where
  "note_record record d =
     (if tr_sequence record \<noteq> d_last_sequence d + 1
      then clear_pending (issue ''RECORD_SEQUENCE_GAP'' d) else d)\<lparr>d_last_sequence := tr_sequence record\<rparr>"

text \<open>The body of the loop over the records of a batch.\<close>

definition step_record ::
  "decoder \<Rightarrow> trace_record \<Rightarrow> decoder \<times> trace_frame option \<times> trace_application option" where
  "step_record d record =
     (let d1 = note_record record d in
      if tr_message_truncated record
      then (clear_pending (issue ''TRUNCATED_RECORDS'' d1), None, None)
      else if tr_level record \<notin> {''LINK_RX_HEX'', ''LINK_TX_HEX''} then (d1, None, None)
      else case consume_link d1 record of
        (d2, None) \<Rightarrow> (d2, None, None)
      | (d2, Some frame) \<Rightarrow>
          let (d3, application) = consume_transport d2 frame in (d3, Some frame, application))"

fun step_records ::
  "decoder \<Rightarrow> trace_record list \<Rightarrow> decoder \<times> trace_frame list \<times> trace_application list" where
  "step_records d [] = (d, [], [])"
| "step_records d (r # rs) =
     (let (d1, f, a) = step_record d r; (d2, fs, as) = step_records d1 rs
      in (d2, (case f of None \<Rightarrow> fs | Some f \<Rightarrow> f # fs), (case a of None \<Rightarrow> as | Some a \<Rightarrow> a # as)))"

section \<open>One batch\<close>

text \<open>What a batch is before the decoder looks at its own state.\<close>

definition parse_batch :: "pyval \<Rightarrow> pyexc + trace_summary \<times> trace_record list \<times> bool" where
  "parse_batch value =
     bindE (strict_fields value (SUMMARY_KEYS @ [''records'', ''timed_out'']) ''trace batch'') (\<lambda>data.
     bindE (TraceSummary_from_dict (PDict (map (\<lambda>k. (k, get data k)) SUMMARY_KEYS))) (\<lambda>summary.
     if ts_state summary = ''IDLE'' then Inl (ValueError ''cannot decode an IDLE trace'')
     else let raw_records = get data ''records'' in
       if \<not> is_list raw_records \<or> length (as_list raw_records) > 1024
       then Inl (ValueError ''trace records must be an array of at most 1024 entries'')
       else bindE (mapE TraceRecord_from_dict (as_list raw_records)) (\<lambda>records.
         bindE (boolean (get data ''timed_out'') ''timed_out'') (\<lambda>timed_out.
         checked (first_error
           [raise_if (timed_out \<noteq> (records = [])) (ValueError ''timed_out must equal absence of records''),
            raise_if ((records = [] \<and> ts_queued_records summary \<noteq> 0) \<or>
                int (length records) + ts_queued_records summary > ts_last_sequence summary)
              (ValueError ''trace batch record counts are inconsistent''),
            raise_if (\<exists>r \<in> set records. tr_sequence r > ts_last_sequence summary)
              (ValueError ''record sequence exceeds trace summary''),
            raise_if ((\<exists>r \<in> set records. tr_message_truncated r) \<and> ts_truncated_records summary = 0)
              (ValueError ''record truncation disagrees with summary'')])
           (summary, records, timed_out)))))"

text \<open>The comparison with the trace seen so far.\<close>

definition check_continuation :: "decoder \<Rightarrow> trace_summary \<Rightarrow> pyexc option" where
  "check_continuation d summary = first_error
     (raise_if (d_trace_id d \<noteq> None \<and> d_trace_id d \<noteq> ts_trace_id summary)
        (ValueError ''trace_id changed; reset the decoder for a new trace'') #
      (case d_last_summary d of
         None \<Rightarrow> []
       | Some previous \<Rightarrow>
           [raise_if (ts_queue_capacity summary \<noteq> ts_queue_capacity previous)
              (ValueError ''trace queue_capacity changed''),
            raise_if (ts_dropped_records summary < ts_dropped_records previous)
              (ValueError ''trace dropped_records decreased''),
            raise_if (ts_truncated_records summary < ts_truncated_records previous)
              (ValueError ''trace truncated_records decreased''),
            raise_if (ts_last_sequence summary < ts_last_sequence previous)
              (ValueError ''trace last_sequence decreased''),
            raise_if (ts_state previous = ''STOPPED'' \<and> ts_state summary \<noteq> ''STOPPED'')
              (ValueError ''stopped trace became active'')]))"

text \<open>The loss counters: an issue while non-zero, and pending data is dropped when one moved.\<close>

definition note_losses :: "trace_summary \<Rightarrow> decoder \<Rightarrow> decoder" where
  "note_losses summary d =
     (let previous = d_last_summary d;
          d1 = (if ts_dropped_records summary \<noteq> 0 then
                  let d' = issue ''DROPPED_RECORDS'' d in
                  if (case previous of None \<Rightarrow> True
                      | Some p \<Rightarrow> ts_dropped_records summary \<noteq> ts_dropped_records p)
                  then clear_pending d' else d'
                else d)
      in if ts_truncated_records summary \<noteq> 0 then
           let d' = issue ''TRUNCATED_RECORDS'' d1 in
           if (case previous of None \<Rightarrow> True
               | Some p \<Rightarrow> ts_truncated_records summary \<noteq> ts_truncated_records p)
           then clear_pending d' else d'
         else d1)"

text \<open>The consumed boundary of the snapshot, and the end of a stopped and drained trace.\<close>

definition close_batch :: "trace_summary \<Rightarrow> decoder \<Rightarrow> decoder" where
  "close_batch summary d =
     (let d1 = (if d_last_sequence d \<noteq> ts_last_sequence summary - ts_queued_records summary
                then clear_pending (issue ''RECORD_SEQUENCE_GAP'' d) else d)
      in if ts_state summary = ''STOPPED'' \<and> ts_queued_records summary = 0 then
           let d2 = (if d_links d1 \<noteq> [] then issue ''INCOMPLETE_LINK_FRAME'' d1 else d1);
               d3 = (if d_transports d2 \<noteq> [] then issue ''INCOMPLETE_TRANSPORT_FRAGMENT'' d2 else d2)
           in clear_pending d3
         else d1)"

definition decode_batch :: "decoder \<Rightarrow> pyval \<Rightarrow> (pyexc + trace_batch) \<times> decoder" where
  "decode_batch d value =
     (case parse_batch value of
        Inl e \<Rightarrow> (Inl e, d)
      | Inr (summary, records, timed_out) \<Rightarrow>
          case check_continuation d summary of
            Some e \<Rightarrow> (Inl e, d)
          | None \<Rightarrow>
              let d1 = note_losses summary (d\<lparr>d_trace_id := ts_trace_id summary\<rparr>);
                  (d2, frames, applications) = step_records d1 records;
                  d3 = (close_batch summary d2)\<lparr>d_last_summary := Some summary\<rparr>
              in (Inr \<lparr>tb_summary = summary, tb_records = records, tb_frames = frames,
                       tb_applications = applications, tb_timed_out = timed_out, tb_issues = d_issues d3,
                       tb_complete = (ts_complete summary \<and> d_issues d3 = [])\<rparr>, d3))"

section \<open>Bookkeeping of transport and application issues\<close>

definition TRANSPORT_ISSUES :: "string list" where
  "TRANSPORT_ISSUES = [''TRANSPORT_RESTART_BEFORE_FIN'', ''TRANSPORT_ROUTE_LIMIT'',
     ''ORPHAN_TRANSPORT_SEGMENT'', ''TRANSPORT_SEQUENCE_GAP'', ''TRANSPORT_REASSEMBLY_LIMIT'']"

definition BATCH_ISSUES :: "string list" where
  "BATCH_ISSUES = [''DROPPED_RECORDS'', ''TRUNCATED_RECORDS'', ''RECORD_SEQUENCE_GAP'',
     ''INCOMPLETE_LINK_FRAME'', ''INCOMPLETE_TRANSPORT_FRAGMENT'']"

definition ALL_ISSUES :: "string list" where
  "ALL_ISSUES = BATCH_ISSUES @ LINK_ISSUES @ TRANSPORT_ISSUES @ APP_ISSUES"

lemma issue_in_all [simp]:
  "v \<in> set BATCH_ISSUES \<Longrightarrow> v \<in> set ALL_ISSUES" "v \<in> set TRANSPORT_ISSUES \<Longrightarrow> v \<in> set ALL_ISSUES"
  "v \<in> set LINK_ISSUES \<Longrightarrow> v \<in> set ALL_ISSUES" "v \<in> set APP_ISSUES \<Longrightarrow> v \<in> set ALL_ISSUES"
  by (simp_all add: ALL_ISSUES_def)

lemma named_issues [simp]:
  "''DROPPED_RECORDS'' \<in> set ALL_ISSUES" "''TRUNCATED_RECORDS'' \<in> set ALL_ISSUES"
  "''RECORD_SEQUENCE_GAP'' \<in> set ALL_ISSUES" "''INCOMPLETE_LINK_FRAME'' \<in> set ALL_ISSUES"
  "''INCOMPLETE_TRANSPORT_FRAGMENT'' \<in> set ALL_ISSUES" "''TRANSPORT_RESTART_BEFORE_FIN'' \<in> set ALL_ISSUES"
  "''TRANSPORT_ROUTE_LIMIT'' \<in> set ALL_ISSUES" "''ORPHAN_TRANSPORT_SEGMENT'' \<in> set ALL_ISSUES"
  "''TRANSPORT_SEQUENCE_GAP'' \<in> set ALL_ISSUES" "''TRANSPORT_REASSEMBLY_LIMIT'' \<in> set ALL_ISSUES"
  by (simp_all add: ALL_ISSUES_def BATCH_ISSUES_def TRANSPORT_ISSUES_def)

lemma app_issue_simps [simp]:
  "d_links (app_issue a d) = d_links d" "d_transports (app_issue a d) = d_transports d"
  by (simp_all add: app_issue_def split: option.splits)

lemma app_issue_grow:
  "a = decode_application data s dir fs \<Longrightarrow> issues_grow ALL_ISSUES d (app_issue a d)"
  using application_issues [of data s dir fs] by (auto simp: app_issue_def split: option.splits)

lemma clear_pending_simps [simp]:
  "d_links (clear_pending d) = []" "d_transports (clear_pending d) = []"
  "d_issues (clear_pending d) = d_issues d" "d_last_sequence (clear_pending d) = d_last_sequence d"
  "d_last_summary (clear_pending d) = d_last_summary d" "d_trace_id (clear_pending d) = d_trace_id d"
  by (simp_all add: clear_pending_def)

lemma clear_pending_grow [simp]: "issues_grow S d (clear_pending d') = issues_grow S d d'"
  by (simp add: clear_pending_def)

lemma transport_append_grow: "issues_grow ALL_ISSUES d (fst (transport_append d frame header payload p))"
  by (auto simp: transport_append_def Let_def intro: issues_grow_trans [OF _ app_issue_grow [OF refl]])

lemma consume_transport_grow: "issues_grow ALL_ISSUES d (fst (consume_transport d frame))"
  by (auto simp: consume_transport_def Let_def split: option.splits
      intro: issues_grow_trans [OF _ transport_append_grow])

lemma consume_link_grow_all: "issues_grow ALL_ISSUES d (fst (consume_link d r))"
  by (rule issues_grow_mono [OF consume_link_grow]) (auto simp: ALL_ISSUES_def)

lemma consume_transport_links [simp]: "d_links (fst (consume_transport d frame)) = d_links d"
  by (auto simp: consume_transport_def transport_append_def Let_def split: option.splits)

section \<open>The table of fragments being reassembled\<close>

definition transport_ok :: "transport_pending \<Rightarrow> bool" where
  "transport_ok p \<longleftrightarrow> length (tp_data p) \<le> MAX_APDU \<and> 1 \<le> length (tp_frames p) \<and>
     length (tp_frames p) \<le> MAX_SEGMENTS \<and> tp_next_sequence p < 64"

definition transports_ok :: "decoder \<Rightarrow> bool" where
  "transports_ok d \<longleftrightarrow> alist.bounded MAX_ROUTES transport_ok (d_transports d)"

lemma transport_append_ok:
  assumes wf: "dict_wf (d_transports d)" "length (d_transports d) \<le> MAX_ROUTES"
    and others: "\<And>k p. dict_get (d_transports d) k = Some p \<Longrightarrow> k \<noteq> transport_key_of frame \<Longrightarrow> transport_ok p"
    and present: "dict_get (d_transports d) (transport_key_of frame) = Some q"
    and "length (tp_frames p) \<le> MAX_SEGMENTS" "length (tp_data p) \<le> MAX_APDU"
  shows "transports_ok (fst (transport_append d frame header payload p))"
proof -
  let ?k = "transport_key_of frame"
  have removed: "alist.bounded MAX_ROUTES transport_ok (dict_del ?k (d_transports d))"
    using wf others length_dict_del [of ?k "d_transports d"]
    by (auto simp: alist.bounded_def map_of_dict_del alist.invar_remove split: if_splits)
  have stored: "alist.bounded MAX_ROUTES transport_ok (dict_set ?k x (d_transports d))" if "transport_ok x" for x
    using wf others present that
    by (auto simp: alist.bounded_def map_of_dict_set alist.invar_store length_dict_set split: if_splits)
  show ?thesis
    using removed assms(5,6) by (auto simp: transport_append_def Let_def transports_ok_def transport_ok_def intro!: stored)
qed

lemma transport_append_known:
  assumes ok: "transports_ok d" and present: "dict_get (d_transports d) (transport_key_of frame) = Some p"
  shows "transports_ok (fst (transport_append d frame header payload p))"
proof (rule transport_append_ok [OF _ _ _ present])
  have "transport_ok p" using ok present by (auto simp: transports_ok_def dest: alist.bounded_lookup)
  then show "length (tp_frames p) \<le> MAX_SEGMENTS" "length (tp_data p) \<le> MAX_APDU"
    by (simp_all add: transport_ok_def)
qed (use ok in \<open>auto simp: transports_ok_def alist.bounded_def\<close>)

lemma transport_append_new:
  assumes ok: "transports_ok d" and d': "d_transports d' = d_transports d"
    and room: "dict_get (d_transports d) (transport_key_of frame) \<noteq> None \<or> length (d_transports d) < MAX_ROUTES"
  shows "transports_ok (fst (transport_append
    (d'\<lparr>d_transports := dict_set (transport_key_of frame) (transport_start header) (d_transports d')\<rparr>)
    frame header payload (transport_start header)))"
proof (rule transport_append_ok)
  show "dict_get (d_transports (d'\<lparr>d_transports := dict_set (transport_key_of frame) (transport_start header)
      (d_transports d')\<rparr>)) (transport_key_of frame) = Some (transport_start header)"
    by (simp add: map_of_dict_set)
qed (use ok room in \<open>auto simp: d' transports_ok_def alist.bounded_def alist.invar_store length_dict_set
    map_of_dict_set transport_start_def split: if_splits\<close>)

lemma consume_transport_ok:
  assumes ok: "transports_ok d"
  shows "transports_ok (fst (consume_transport d frame))"
proof -
  let ?k = "transport_key_of frame"
  have "alist.bounded MAX_ROUTES transport_ok (dict_del ?k (d_transports d))"
    using ok by (simp add: transports_ok_def alist.bounded_remove)
  moreover have "transports_ok (issue v d)" for v using ok by (simp add: transports_ok_def)
  ultimately show ?thesis
    using ok transport_append_known [OF ok] transport_append_new [OF ok]
    by (auto simp: consume_transport_def Let_def transports_ok_def [of "d\<lparr>d_transports := x\<rparr>" for x]
        not_le split: option.splits)
qed

section \<open>The invariant of the decoder\<close>

text \<open>
  The bounds of the class comment, with what makes them hold: at most 16 link and 16
  transport routes, at most 292 octets of a link frame, 65536 octets and 1024 segments of a
  fragment, and issues without repetition from a fixed list.
\<close>

definition decoder_ok :: "decoder \<Rightarrow> bool" where
  "decoder_ok d \<longleftrightarrow> links_ok d \<and> transports_ok d \<and> distinct (d_issues d) \<and> set (d_issues d) \<subseteq> set ALL_ISSUES"

lemma decoder_ok_reset: "decoder_ok reset"
  by (simp add: decoder_ok_def links_ok_def transports_ok_def alist.bounded_def dict_wf_def reset_def)

lemma links_ok_cong: "d_links d' = d_links d \<Longrightarrow> links_ok d' = links_ok d"
  by (simp add: links_ok_def)

lemma transports_ok_cong: "d_transports d' = d_transports d \<Longrightarrow> transports_ok d' = transports_ok d"
  by (simp add: transports_ok_def)

lemma decoder_ok_simps [simp]:
  "decoder_ok (d\<lparr>d_last_sequence := n\<rparr>) = decoder_ok d"
  "decoder_ok (d\<lparr>d_trace_id := t\<rparr>) = decoder_ok d"
  "decoder_ok (d\<lparr>d_last_summary := u\<rparr>) = decoder_ok d"
  by (simp_all add: decoder_ok_def links_ok_def transports_ok_def)

lemma decoder_ok_issue [simp]: "decoder_ok d \<Longrightarrow> v \<in> set ALL_ISSUES \<Longrightarrow> decoder_ok (issue v d)"
  by (simp add: decoder_ok_def links_ok_def transports_ok_def)

lemma decoder_ok_clear [simp]: "decoder_ok d \<Longrightarrow> decoder_ok (clear_pending d)"
  by (simp add: decoder_ok_def links_ok_def transports_ok_def alist.bounded_def dict_wf_def)

lemma decoder_ok_link: "decoder_ok d \<Longrightarrow> decoder_ok (fst (consume_link d r))"
  using consume_link_links_ok [of d r] consume_link_grow_all [of d r]
    transports_ok_cong [OF consume_link_transports [of d r]]
  by (auto simp: decoder_ok_def issues_grow_def)

lemma decoder_ok_transport: "decoder_ok d \<Longrightarrow> decoder_ok (fst (consume_transport d f))"
  using consume_transport_ok [of d f] consume_transport_grow [of d f]
    links_ok_cong [OF consume_transport_links [of d f]]
  by (auto simp: decoder_ok_def issues_grow_def)

lemma note_record_ok: "decoder_ok d \<Longrightarrow> decoder_ok (note_record r d)"
  by (simp add: note_record_def)

lemma step_record_cases:
  assumes "step_record d r = (d', f, a)"
  obtains (truncated) "tr_message_truncated r" "d' = clear_pending (issue ''TRUNCATED_RECORDS'' (note_record r d))" "f = None" "a = None"
  | (other) "\<not> tr_message_truncated r" "d' = note_record r d" "f = None" "a = None"
      "tr_level r \<notin> {''LINK_RX_HEX'', ''LINK_TX_HEX''}"
  | (line) "\<not> tr_message_truncated r" "consume_link (note_record r d) r = (d', None)" "f = None" "a = None"
      "tr_level r \<in> {''LINK_RX_HEX'', ''LINK_TX_HEX''}"
  | (frame) d1 x where "\<not> tr_message_truncated r" "consume_link (note_record r d) r = (d1, Some x)"
      "consume_transport d1 x = (d', a)" "f = Some x" "tr_level r \<in> {''LINK_RX_HEX'', ''LINK_TX_HEX''}"
  using assms
  by (auto simp: step_record_def Let_def split: if_splits prod.splits option.splits)

lemma step_record_ok:
  assumes "decoder_ok d"
  shows "decoder_ok (fst (step_record d r))"
proof -
  note ok = note_record_ok [OF assms, of r]
  obtain d' f a where step: "step_record d r = (d', f, a)" by (cases "step_record d r")
  then show ?thesis
    by (cases rule: step_record_cases)
      (use ok decoder_ok_link [OF ok, of r] decoder_ok_transport in \<open>auto simp: step\<close>, (metis fst_conv)+)
qed

lemma step_records_ok: "decoder_ok d \<Longrightarrow> decoder_ok (fst (step_records d rs))"
  by (induction rs arbitrary: d) (auto simp: case_prod_unfold Let_def step_record_ok)

lemma note_losses_ok: "decoder_ok d \<Longrightarrow> decoder_ok (note_losses s d)"
  by (simp add: note_losses_def Let_def)

lemma close_batch_ok: "decoder_ok d \<Longrightarrow> decoder_ok (close_batch s d)"
  by (simp add: close_batch_def Let_def)

lemma decode_batch_ok: "decoder_ok d \<Longrightarrow> decoder_ok (snd (decode_batch d v))"
  using step_records_ok [of "note_losses s (d\<lparr>d_trace_id := ts_trace_id s\<rparr>)" for s]
  by (auto simp: decode_batch_def Let_def close_batch_ok note_losses_ok case_prod_unfold
      split: sum.splits option.splits)

section \<open>Issues are never forgotten\<close>

definition sticky :: "decoder \<Rightarrow> decoder \<Rightarrow> bool" where
  "sticky d d' \<longleftrightarrow> set (d_issues d) \<subseteq> set (d_issues d')"

lemma sticky_refl [simp]: "sticky d d"
  by (simp add: sticky_def)

lemma sticky_trans: "sticky d d' \<Longrightarrow> sticky d' d'' \<Longrightarrow> sticky d d''"
  by (auto simp: sticky_def)

lemma sticky_update [simp]:
  "sticky d (d'\<lparr>d_last_sequence := n\<rparr>) = sticky d d'" "sticky (d\<lparr>d_last_sequence := n\<rparr>) d' = sticky d d'"
  "sticky d (d'\<lparr>d_last_summary := u\<rparr>) = sticky d d'"
  "sticky (d\<lparr>d_trace_id := t\<rparr>) d' = sticky d d'"
  "sticky d (clear_pending d') = sticky d d'" "sticky (clear_pending d) d' = sticky d d'"
  by (simp_all add: sticky_def)

lemma sticky_issue [simp]: "sticky d d' \<Longrightarrow> sticky d (issue v d')"
  by (auto simp: sticky_def)

lemma sticky_grow: "issues_grow S d d' \<Longrightarrow> sticky d d'"
  by (simp add: sticky_def issues_grow_def)

lemmas sticky_link = sticky_grow [OF consume_link_grow]
lemmas sticky_transport = sticky_grow [OF consume_transport_grow]

lemma last_sequence_link [simp]: "d_last_sequence (fst (consume_link d r)) = d_last_sequence d"
  using consume_link_grow [of d r] by (simp add: issues_grow_def)

lemma last_sequence_transport [simp]: "d_last_sequence (fst (consume_transport d f)) = d_last_sequence d"
  using consume_transport_grow [of d f] by (simp add: issues_grow_def)

text \<open>Errors of frames and applications are among the issues.\<close>

lemma consume_link_error:
  "consume_link d r = (d', Some f) \<Longrightarrow> set_option (tf_decode_error f) \<subseteq> set (d_issues d')"
  by (auto simp: consume_link_def link_advance_def Let_def split: option.splits if_splits)

lemma link_frame_crc_error: "\<not> tf_crc_valid (link_frame_of r dir p) \<Longrightarrow> tf_decode_error (link_frame_of r dir p) \<noteq> None"
  by (simp add: link_frame_of_def link_classify_def Let_def case_prod_unfold)

lemma consume_link_crc:
  "consume_link d r = (d', Some f) \<Longrightarrow> tf_decode_error f = None \<Longrightarrow> tf_crc_valid f"
  using link_frame_crc_error
  by (fastforce simp: consume_link_def link_advance_def Let_def split: option.splits if_splits)

lemma transport_append_error:
  "transport_append d f h payload p = (d', Some a) \<Longrightarrow> ta_decode_error a \<noteq> None \<Longrightarrow> d_issues d' \<noteq> []"
  by (auto simp: transport_append_def Let_def app_issue_def split: if_splits option.splits dest: arg_cong [of _ _ set])

lemma consume_transport_error:
  "consume_transport d f = (d', Some a) \<Longrightarrow> d_issues d' = [] \<Longrightarrow> ta_decode_error a = None"
  by (rule ccontr)
    (auto simp: consume_transport_def Let_def split: if_splits option.splits dest: transport_append_error)

section \<open>What a step without issues means\<close>

lemma issue_nonempty [simp]: "d_issues (issue v d) \<noteq> []"
  by (simp add: issue_def) auto

lemma sticky_empty: "sticky d d' \<Longrightarrow> d_issues d' = [] \<Longrightarrow> d_issues d = []"
  by (simp add: sticky_def)

definition frame_good :: "trace_frame \<Rightarrow> bool" where
  "frame_good f \<longleftrightarrow> tf_crc_valid f \<and> tf_decode_error f = None"

lemma note_record_sticky: "sticky d (note_record r d)"
  by (simp add: note_record_def)

lemma step_record_sticky:
  assumes "step_record d r = (d', f, a)"
  shows "sticky d d'"
proof -
  note s = note_record_sticky [of d r]
  from assms show ?thesis
  proof (cases rule: step_record_cases)
    case line
    then show ?thesis using sticky_trans [OF s sticky_link [of "note_record r d" r]] by simp
  next
    case (frame d1 x)
    then show ?thesis
      using sticky_trans [OF sticky_trans [OF s sticky_link [of "note_record r d" r]] sticky_transport [of _ x]]
      by simp
  qed (use s in auto)
qed

lemma note_record_clean:
  "d_issues (note_record r d) = [] \<Longrightarrow> d_issues d = [] \<and> tr_sequence r = d_last_sequence d + 1"
  by (simp add: note_record_def split: if_splits)

lemma step_record_clean:
  assumes "step_record d r = (d', f, a)" "d_issues d' = []"
  shows "d_issues (note_record r d) = []" "d_last_sequence d' = tr_sequence r"
    "\<not> tr_message_truncated r" "\<forall>x \<in> set_option f. frame_good x" "\<forall>x \<in> set_option a. ta_decode_error x = None"
proof -
  have seq: "d_last_sequence (note_record r d) = tr_sequence r" by (simp add: note_record_def)
  from assms(1) have "d_issues (note_record r d) = [] \<and> d_last_sequence d' = tr_sequence r \<and>
    \<not> tr_message_truncated r \<and> (\<forall>x \<in> set_option f. frame_good x) \<and> (\<forall>x \<in> set_option a. ta_decode_error x = None)"
  proof (cases rule: step_record_cases)
    case line
    then show ?thesis
      using sticky_empty [OF sticky_link [of "note_record r d" r]] assms(2) seq
        last_sequence_link [of "note_record r d" r] by simp
  next
    case (frame d1 x)
    have d1: "d_issues d1 = []" "d_last_sequence d' = d_last_sequence d1"
      using sticky_empty [OF sticky_transport [of d1 x]] assms(2) frame(3)
        last_sequence_transport [of d1 x] by simp_all
    then have "tf_decode_error x = None"
      using consume_link_error [OF frame(2)] by (cases "tf_decode_error x") auto
    then show ?thesis
      using d1 frame consume_link_crc [OF frame(2)] sticky_empty [OF sticky_link [of "note_record r d" r]] seq
        last_sequence_link [of "note_record r d" r] consume_transport_error [of d1 x d'] assms(2)
      by (auto simp: frame_good_def)
  qed (use assms(2) seq in auto)
  then show "d_issues (note_record r d) = []" "d_last_sequence d' = tr_sequence r"
    "\<not> tr_message_truncated r" "\<forall>x \<in> set_option f. frame_good x" "\<forall>x \<in> set_option a. ta_decode_error x = None"
    by blast+
qed

lemma step_records_clean:
  assumes "step_records d rs = (d', fs, as)" "d_issues d' = []"
  shows "d_issues d = [] \<and> map tr_sequence rs = [d_last_sequence d + 1..d_last_sequence d'] \<and>
    d_last_sequence d' = d_last_sequence d + int (length rs) \<and>
    (\<forall>r \<in> set rs. \<not> tr_message_truncated r) \<and> (\<forall>f \<in> set fs. frame_good f) \<and> (\<forall>a \<in> set as. ta_decode_error a = None)"
  using assms
proof (induction rs arbitrary: d fs as)
  case (Cons r rs)
  obtain d1 f a fs1 as1 where step: "step_record d r = (d1, f, a)" and rest: "step_records d1 rs = (d', fs1, as1)"
    and out: "fs = (case f of None \<Rightarrow> fs1 | Some f \<Rightarrow> f # fs1)" "as = (case a of None \<Rightarrow> as1 | Some a \<Rightarrow> a # as1)"
    using Cons.prems(1) by (auto simp: Let_def split: prod.splits)
  note IH = Cons.IH [OF rest Cons.prems(2)]
  then have "d_issues d1 = []" by simp
  note c = step_record_clean [OF step this]
  show ?case
    using IH c note_record_clean [OF c(1)]
    by (auto simp: out upto_rec1 split: option.splits)
qed simp

section \<open>Runs of the decoder\<close>

text \<open>
  A run: the batches a fresh decoder accepted, one after the other; a rejected batch leaves
  the run as it is.
\<close>

inductive trace_run :: "trace_batch list \<Rightarrow> decoder \<Rightarrow> bool" where
  start: "trace_run [] reset"
| accepted: "trace_run bs d \<Longrightarrow> decode_batch d v = (Inr b, d') \<Longrightarrow> trace_run (bs @ [b]) d'"
| rejected: "trace_run bs d \<Longrightarrow> decode_batch d v = (Inl e, d') \<Longrightarrow> trace_run bs d'"

lemma decode_batch_rejected: "decode_batch d v = (Inl e, d') \<Longrightarrow> d' = d"
  by (auto simp: decode_batch_def Let_def split: sum.splits option.splits prod.splits)

lemma decode_batch_accepted:
  assumes "decode_batch d v = (Inr b, d')"
  obtains d2 where "parse_batch v = Inr (tb_summary b, tb_records b, tb_timed_out b)"
    "check_continuation d (tb_summary b) = None"
    "step_records (note_losses (tb_summary b) (d\<lparr>d_trace_id := ts_trace_id (tb_summary b)\<rparr>)) (tb_records b) =
       (d2, tb_frames b, tb_applications b)"
    "d' = (close_batch (tb_summary b) d2)\<lparr>d_last_summary := Some (tb_summary b)\<rparr>"
    "tb_issues b = d_issues d'" "tb_complete b \<longleftrightarrow> ts_complete (tb_summary b) \<and> d_issues d' = []"
  using assms
  by (auto simp: decode_batch_def Let_def split: sum.splits option.splits prod.splits)

lemma trace_run_ok: "trace_run bs d \<Longrightarrow> decoder_ok d"
proof (induction rule: trace_run.induct)
  case (accepted bs d v b d')
  then show ?case using decode_batch_ok [of d v] by simp
qed (auto simp: decoder_ok_reset dest: decode_batch_rejected)

lemma note_losses_simps [simp]: "d_last_sequence (note_losses s d) = d_last_sequence d" "sticky d (note_losses s d)"
  by (simp_all add: note_losses_def Let_def)

lemma note_losses_clean:
  "d_issues (note_losses s d) = [] \<Longrightarrow>
     d_issues d = [] \<and> ts_dropped_records s = 0 \<and> ts_truncated_records s = 0"
  by (auto simp: note_losses_def Let_def split: if_splits option.splits)

lemma close_batch_clean:
  "d_issues (close_batch s d) = [] \<Longrightarrow>
     d_issues d = [] \<and> d_last_sequence d = ts_last_sequence s - ts_queued_records s \<and>
     d_last_sequence (close_batch s d) = d_last_sequence d"
  by (auto simp: close_batch_def Let_def split: if_splits)

lemma decode_batch_clean:
  assumes step: "decode_batch d v = (Inr b, d')" and clean: "d_issues d' = []"
  shows "d_issues d = [] \<and> map tr_sequence (tb_records b) = [d_last_sequence d + 1..d_last_sequence d'] \<and>
    d_last_sequence d' = d_last_sequence d + int (length (tb_records b)) \<and>
    d_last_sequence d' = ts_last_sequence (tb_summary b) - ts_queued_records (tb_summary b) \<and>
    ts_dropped_records (tb_summary b) = 0 \<and> (\<forall>r \<in> set (tb_records b). \<not> tr_message_truncated r) \<and>
    (\<forall>f \<in> set (tb_frames b). frame_good f) \<and> (\<forall>a \<in> set (tb_applications b). ta_decode_error a = None)"
proof -
  obtain d2 where run: "step_records (note_losses (tb_summary b) (d\<lparr>d_trace_id := ts_trace_id (tb_summary b)\<rparr>))
      (tb_records b) = (d2, tb_frames b, tb_applications b)"
    and d': "d' = (close_batch (tb_summary b) d2)\<lparr>d_last_summary := Some (tb_summary b)\<rparr>"
    using decode_batch_accepted [OF step] by metis
  have close: "d_issues (close_batch (tb_summary b) d2) = []" using clean d' by simp
  note c = close_batch_clean [OF close]
  note r = step_records_clean [OF run]
  show ?thesis using c r note_losses_clean [of "tb_summary b" "d\<lparr>d_trace_id := ts_trace_id (tb_summary b)\<rparr>"]
    by (simp add: d')
qed

lemma trace_run_last:
  "trace_run bs d \<Longrightarrow> bs \<noteq> [] \<Longrightarrow> tb_complete (last bs) \<Longrightarrow> d_issues d = [] \<and>
     d_last_sequence d = ts_last_sequence (tb_summary (last bs)) - ts_queued_records (tb_summary (last bs))"
proof (induction rule: trace_run.induct)
  case (accepted bs d v b d')
  then show ?case
    by (metis decode_batch_accepted [OF accepted(2)] decode_batch_clean [OF accepted(2)] last_snoc)
qed (auto dest: decode_batch_rejected)

lemma parse_batch_summary: "parse_batch v = Inr (s, rs, t) \<Longrightarrow> summary_ok s"
  by (auto simp: parse_batch_def Let_def bindE_eq_Inr split: if_splits dest: summary_from_dict_ok)

lemma decode_batch_clean_complete:
  assumes "decode_batch d v = (Inr b, d')" "d_issues d' = []"
  shows "tb_complete b"
proof -
  obtain d2 where parse: "parse_batch v = Inr (tb_summary b, tb_records b, tb_timed_out b)"
    and run: "step_records (note_losses (tb_summary b) (d\<lparr>d_trace_id := ts_trace_id (tb_summary b)\<rparr>))
      (tb_records b) = (d2, tb_frames b, tb_applications b)"
    and d': "d' = (close_batch (tb_summary b) d2)\<lparr>d_last_summary := Some (tb_summary b)\<rparr>"
    and complete: "tb_complete b \<longleftrightarrow> ts_complete (tb_summary b) \<and> d_issues d' = []"
    using decode_batch_accepted [OF assms(1)] by metis
  have "d_issues d2 = []" using close_batch_clean [of "tb_summary b" d2] assms(2) d' by simp
  then have "ts_dropped_records (tb_summary b) = 0 \<and> ts_truncated_records (tb_summary b) = 0"
    using step_records_clean [OF run] note_losses_clean by blast
  then show ?thesis using complete parse_batch_summary [OF parse] assms(2) by (simp add: summary_ok_def)
qed

definition batch_clean :: "trace_batch \<Rightarrow> bool" where
  "batch_clean b \<longleftrightarrow> tb_complete b \<and> ts_dropped_records (tb_summary b) = 0 \<and>
     (\<forall>r \<in> set (tb_records b). \<not> tr_message_truncated r) \<and>
     (\<forall>f \<in> set (tb_frames b). tf_crc_valid f \<and> tf_decode_error f = None) \<and>
     (\<forall>a \<in> set (tb_applications b). ta_decode_error a = None)"

lemma upto_from_1: "0 \<le> m \<Longrightarrow> m \<le> n \<Longrightarrow> [1..n] = [1..m] @ [m + 1..n :: int]"
  by (cases "m = 0") (simp_all add: upto_split2)

lemma trace_run_clean:
  "trace_run bs d \<Longrightarrow> d_issues d = [] \<Longrightarrow>
     map tr_sequence (concat (map tb_records bs)) = [1..d_last_sequence d] \<and> 0 \<le> d_last_sequence d \<and>
     (\<forall>b \<in> set bs. batch_clean b)"
proof (induction rule: trace_run.induct)
  case start
  then show ?case by (simp add: reset_def)
next
  case (accepted bs d v b d')
  note c = decode_batch_clean [OF accepted(2,4)]
  have "[1..d_last_sequence d'] = [1..d_last_sequence d] @ [d_last_sequence d + 1..d_last_sequence d']"
    using c accepted.IH by (intro upto_from_1) auto
  then show ?case
    using accepted.IH c decode_batch_clean_complete [OF accepted(2,4)]
    by (auto simp: batch_clean_def frame_good_def)
qed (auto dest: decode_batch_rejected)

text \<open>A batch as the host sends it, and that every consistent one is understood.\<close>

definition batch_dict :: "trace_summary \<Rightarrow> trace_record list \<Rightarrow> dict" where
  "batch_dict s rs = TraceSummary_to_dict s @
     [(''records'', PList (map (\<lambda>r. PDict (TraceRecord_to_dict r)) rs)), (''timed_out'', PBool (rs = []))]"

lemma batch_dict_fields:
  "same_keys (batch_dict s rs) (SUMMARY_KEYS @ [''records'', ''timed_out''])"
  "map (\<lambda>k. (k, get (batch_dict s rs) k)) SUMMARY_KEYS = TraceSummary_to_dict s"
  "get (batch_dict s rs) ''records'' = PList (map (\<lambda>r. PDict (TraceRecord_to_dict r)) rs)"
  "get (batch_dict s rs) ''timed_out'' = PBool (rs = [])"
  by (simp_all add: same_keys_def batch_dict_def TraceSummary_to_dict_def SUMMARY_KEYS_def get_def)

lemma parse_batch_dict:
  assumes "summary_ok s" "ts_state s \<noteq> ''IDLE''" "\<forall>r \<in> set rs. record_ok r" "length rs \<le> 1024"
    and "rs = [] \<longrightarrow> ts_queued_records s = 0" "int (length rs) + ts_queued_records s \<le> ts_last_sequence s"
    and "\<forall>r \<in> set rs. tr_sequence r \<le> ts_last_sequence s"
    and "(\<exists>r \<in> set rs. tr_message_truncated r) \<longrightarrow> ts_truncated_records s \<noteq> 0"
  shows "parse_batch (PDict (batch_dict s rs)) = Inr (s, rs, rs = [])"
proof -
  have "mapE TraceRecord_from_dict (map (\<lambda>r. PDict (TraceRecord_to_dict r)) rs) = Inr rs"
    using assms(3) by (simp add: mapE_Inr_iff list_all2_map1 list.rel_refl_strong record_roundtrip)
  then show ?thesis
    using assms summary_roundtrip [OF assms(1)]
    by (auto simp: parse_batch_def bindE_eq_Inr batch_dict_fields strict_fields_Inr)
qed

text \<open>
  C38: the resources of a decoder stay within the documented bounds whatever batches it is
  given: at most 16 pending link frames of at most 292 octets, at most 16 fragments of at
  most 65536 octets and 1024 segments, and a list of issues without repetition from 30 fixed
  categories.
\<close>

theorem decoder_resources_bounded:
  assumes "trace_run bs d"
  shows "length (d_links d) \<le> 16 \<and> length (d_transports d) \<le> 16 \<and>
    (\<forall>k p. dict_get (d_links d) k = Some p \<longrightarrow> length (lp_data p) \<le> 292) \<and>
    (\<forall>k p. dict_get (d_transports d) k = Some p \<longrightarrow>
       length (tp_data p) \<le> 65536 \<and> length (tp_frames p) \<le> 1024) \<and>
    distinct (d_issues d) \<and> set (d_issues d) \<subseteq> set ALL_ISSUES \<and> length (d_issues d) \<le> 30"
proof -
  have ok: "decoder_ok d" by (rule trace_run_ok [OF assms])
  then have "length (d_issues d) \<le> length ALL_ISSUES"
    unfolding decoder_ok_def by (metis card_length card_mono distinct_card finite_set le_trans)
  also have "\<dots> = 30" by code_simp
  finally show ?thesis
    using ok
    by (auto simp: decoder_ok_def links_ok_def transports_ok_def alist.bounded_def link_open_def
        transport_ok_def MAX_ROUTES_def MAX_APDU_def MAX_SEGMENTS_def intro: link_pending_bound)
qed

section \<open>Reassembly inverts segmentation\<close>

text \<open>The transport octet of a segment, and the frames that carry the chunks of a fragment.\<close>

definition transport_octet :: "bool \<Rightarrow> bool \<Rightarrow> nat \<Rightarrow> byte" where
  "transport_octet fir fin sequence =
     of_nat (sequence + (if fir then 64 else 0) + (if fin then 128 else 0))"

definition is_segment :: "transport_key \<Rightarrow> bool \<Rightarrow> bool \<Rightarrow> nat \<Rightarrow> byte list \<Rightarrow> trace_frame \<Rightarrow> bool" where
  "is_segment key fir fin sequence chunk f \<longleftrightarrow> transport_key_of f = key \<and> tf_decode_error f = None \<and>
     tf_transport f = Some (transport_header_of (transport_octet fir fin sequence)) \<and>
     tf_payload_hex f = hex_upper (transport_octet fir fin sequence # chunk)"

fun is_segments :: "transport_key \<Rightarrow> bool \<Rightarrow> nat \<Rightarrow> byte list list \<Rightarrow> trace_frame list \<Rightarrow> bool" where
  "is_segments key fir sequence (c # cs) (f # fs) \<longleftrightarrow> is_segment key fir (cs = []) sequence c f \<and>
     (if cs = [] then fs = [] else is_segments key False ((sequence + 1) mod 64) cs fs)"
| "is_segments key fir sequence _ _ \<longleftrightarrow> False"

fun consume_transports :: "decoder \<Rightarrow> trace_frame list \<Rightarrow> decoder \<times> trace_application list" where
  "consume_transports d [] = (d, [])"
| "consume_transports d (f # fs) =
     (let (d1, a) = consume_transport d f; (d2, as) = consume_transports d1 fs
      in (d2, (case a of None \<Rightarrow> [] | Some a \<Rightarrow> [a]) @ as))"

lemma transport_header_of_octet:
  assumes "n < 64"
  shows "transport_header_of (transport_octet fir fin n) =
    \<lparr>th_raw = n + (if fir then 64 else 0) + (if fin then 128 else 0), th_fir = fir, th_fin = fin, th_sequence = n\<rparr>"
proof -
  define m where "m = n + (if fir then 64 else 0) + (if fin then 128 else 0)"
  have m: "m < 256" using assms by (simp add: m_def)
  have raw: "unat (of_nat m :: byte) = m" using m by (simp add: unat_of_nat)
  have bit: "bit (of_nat m :: byte) k \<longleftrightarrow> k < 8 \<and> odd (m div 2 ^ k)" for k by (simp only: bit_of_nat_iff [where 'a = "8 word"] possible_bit_word bit_iff_odd [of m]) simp
  have div6: "m div 64 = (if fir then 1 else 0) + (if fin then 2 else 0)" by (rule div_nat_eqI) (use assms in \<open>simp_all add: m_def\<close>)
  have div7: "m div 128 = (if fin then 1 else 0)" by (rule div_nat_eqI) (use assms in \<open>simp_all add: m_def\<close>)
  have six: "bit (of_nat m :: byte) 6 = fir" "bit (of_nat m :: byte) 7 = fin" unfolding bit using div6 div7 by simp_all
  have flags: "((of_nat m :: byte) AND 0x40 \<noteq> 0) = fir" "((of_nat m :: byte) AND 0x80 \<noteq> 0) = fin"
    using six and_exp_eq_0_iff_not_bit [of "of_nat m :: byte" 6] and_exp_eq_0_iff_not_bit [of "of_nat m :: byte" 7] by auto
  have "(of_nat m :: byte) AND 0x3F = take_bit 6 (of_nat m)" by (simp add: take_bit_eq_mask mask_eq_exp_minus_1)
  then have "unat ((of_nat m :: byte) AND 0x3F) = take_bit 6 m" using raw by (simp add: unsigned_take_bit_eq)
  also have "\<dots> = n" using minus_mult_div_eq_mod [of m 64] unfolding div6 by (auto simp: take_bit_eq_mod m_def)
  finally show ?thesis using raw flags unfolding transport_header_of_def transport_octet_def m_def [symmetric] by simp
qed

lemma transport_step:
  assumes seg: "is_segment key fir fin sequence chunk f" and seq: "sequence < 64"
    and state: "if fir then dict_get (d_transports d) key = None \<and> length (d_transports d) < MAX_ROUTES \<and>
          p = \<lparr>tp_next_sequence = sequence, tp_data = [], tp_frames = []\<rparr>
        else dict_get (d_transports d) key = Some p \<and> tp_next_sequence p = sequence"
    and room: "length (tp_data p) + length chunk \<le> MAX_APDU" "length (tp_frames p) < MAX_SEGMENTS"
  defines "q \<equiv> p\<lparr>tp_next_sequence := (sequence + 1) mod 64, tp_data := tp_data p @ chunk,
    tp_frames := tp_frames p @ [tf_first_sequence f]\<rparr>"
  shows "consume_transport d f =
    (if fin then let app = decode_application (tp_data q) (tf_session_id f) (tf_direction f) (tp_frames q)
       in (app_issue app (d\<lparr>d_transports := dict_del key (d_transports d)\<rparr>), Some app)
     else (d\<lparr>d_transports := dict_set key q (d_transports d)\<rparr>, None))"
proof -
  have f: "transport_key_of f = key" "tf_decode_error f = None"
    "tf_transport f = Some \<lparr>th_raw = sequence + (if fir then 64 else 0) + (if fin then 128 else 0), th_fir = fir,
       th_fin = fin, th_sequence = sequence\<rparr>"
    "unhex (tf_payload_hex f) = transport_octet fir fin sequence # chunk"
    using seg transport_header_of_octet [OF seq] by (simp_all add: is_segment_def)
  show ?thesis
    using state room unfolding q_def
    by (cases fir) (auto simp: consume_transport_def f Let_def transport_append_def transport_start_def
        delete_update_same)
qed

lemma is_segments_length: "is_segments key fir s cs fs \<Longrightarrow> length fs = length cs"
  by (induction key fir s cs fs rule: is_segments.induct) (auto split: if_splits)

lemma is_segments_head:
  "is_segments key fir s cs fs \<Longrightarrow> \<exists>c cs' f fs'. cs = c # cs' \<and> fs = f # fs' \<and> is_segment key fir (cs' = []) s c f \<and>
     (if cs' = [] then fs' = [] else is_segments key False ((s + 1) mod 64) cs' fs')"
  by (cases "(key, fir, s, cs, fs)" rule: is_segments.cases) auto

lemma consume_transports_run:
  assumes "is_segments key fir s cs fs" "s < 64"
    and "if fir then dict_get (d_transports d) key = None \<and> length (d_transports d) < MAX_ROUTES \<and>
          p = \<lparr>tp_next_sequence = s, tp_data = [], tp_frames = []\<rparr>
        else dict_get (d_transports d) key = Some p \<and> tp_next_sequence p = s"
    and "length (tp_data p) + length (concat cs) \<le> MAX_APDU" "length (tp_frames p) + length cs \<le> MAX_SEGMENTS"
  shows "consume_transports d fs =
    (let app = decode_application (tp_data p @ concat cs) (fst key) (fst (snd key)) (tp_frames p @ map tf_first_sequence fs)
     in (app_issue app (d\<lparr>d_transports := dict_del key (d_transports d)\<rparr>), [app]))"
  using assms
proof (induction fs arbitrary: fir s cs d p)
  case Nil
  then show ?case using is_segments_head by fastforce
next
  case (Cons f fs)
  obtain c cs' where cs: "cs = c # cs'" and seg: "is_segment key fir (cs' = []) s c f"
    and rest: "if cs' = [] then fs = [] else is_segments key False ((s + 1) mod 64) cs' fs"
    using is_segments_head [OF Cons.prems(1)] by auto
  have key: "fst key = tf_session_id f" "fst (snd key) = tf_direction f"
    using seg by (auto simp: is_segment_def transport_key_of_def)
  have room: "length (tp_data p) + length c \<le> MAX_APDU" "length (tp_frames p) < MAX_SEGMENTS"
    using Cons.prems(4,5) by (auto simp: cs)
  note step = transport_step [OF seg Cons.prems(2,3) room]
  show ?case
  proof (cases "cs' = []")
    case True
    then show ?thesis using step rest by (simp add: cs key Let_def)
  next
    case False
    define q where "q = p\<lparr>tp_next_sequence := (s + 1) mod 64, tp_data := tp_data p @ c,
      tp_frames := tp_frames p @ [tf_first_sequence f]\<rparr>"
    define d1 where "d1 = d\<lparr>d_transports := dict_set key q (d_transports d)\<rparr>"
    have "consume_transports d1 fs =
      (let app = decode_application (tp_data q @ concat cs') (fst key) (fst (snd key)) (tp_frames q @ map tf_first_sequence fs)
       in (app_issue app (d1\<lparr>d_transports := dict_del key (d_transports d1)\<rparr>), [app]))"
      by (rule Cons.IH [of False "(s + 1) mod 64" cs'])
        (use rest False Cons.prems(4,5) in \<open>auto simp: q_def d1_def cs map_of_dict_set\<close>)
    moreover have "consume_transport d f = (d1, None)"
      using step False by (simp add: d1_def q_def)
    ultimately show ?thesis
      by (simp add: Let_def d1_def delete_update_same) (simp add: q_def cs)
  qed
qed


section \<open>From the wire to the application\<close>

lemma issue_last_sequence: "issue v (d\<lparr>d_last_sequence := n\<rparr>) = (issue v d)\<lparr>d_last_sequence := n\<rparr>"
  by (simp add: issue_def)

lemma link_issue_last_sequence: "link_issue f (d\<lparr>d_last_sequence := n\<rparr>) = (link_issue f d)\<lparr>d_last_sequence := n\<rparr>"
  by (simp add: link_issue_def issue_last_sequence split: option.splits)

lemma link_advance_last_sequence:
  "link_advance (d\<lparr>d_last_sequence := n\<rparr>) r p = map_prod (\<lambda>d'. d'\<lparr>d_last_sequence := n\<rparr>) id (link_advance d r p)"
proof -
  have "link_issue f (d\<lparr>d_last_sequence := n, d_links := l\<rparr>) = (link_issue f (d\<lparr>d_links := l\<rparr>))\<lparr>d_last_sequence := n\<rparr>"
    for f l
  proof -
    have "d\<lparr>d_last_sequence := n, d_links := l\<rparr> = d\<lparr>d_links := l, d_last_sequence := n\<rparr>" by simp
    then show ?thesis by (simp only: link_issue_last_sequence)
  qed
  then show ?thesis by (simp add: link_advance_def Let_def)
qed

lemma consume_link_last_sequence:
  "consume_link (d\<lparr>d_last_sequence := n\<rparr>) r = map_prod (\<lambda>d'. d'\<lparr>d_last_sequence := n\<rparr>) id (consume_link d r)"
  by (auto simp: consume_link_def issue_last_sequence link_advance_last_sequence Let_def split: option.splits)

lemma consume_links_set_last:
  "consume_links (d\<lparr>d_last_sequence := n\<rparr>) rs = map_prod (\<lambda>d'. d'\<lparr>d_last_sequence := n\<rparr>) id (consume_links d rs)"
  by (induction rs arbitrary: d) (simp_all add: consume_link_last_sequence Let_def case_prod_unfold)

lemma consume_link_frame_last: "consume_link d r = (d', Some f) \<Longrightarrow> tf_last_sequence f = tr_sequence r"
  by (auto simp: consume_link_def link_advance_def link_frame_of_def Let_def case_prod_unfold
      split: option.splits if_splits)

lemma consume_links_append:
  "consume_links d (xs @ ys) = (let (d1, fs) = consume_links d xs; (d2, gs) = consume_links d1 ys in (d2, fs @ gs))"
  by (induction xs arbitrary: d) (auto simp: Let_def split: prod.splits)

lemma consume_links_last_sequence:
  "consume_links d rs = (d', fs) \<Longrightarrow> f \<in> set fs \<Longrightarrow> tf_last_sequence f \<in> tr_sequence ` set rs"
  by (induction rs arbitrary: d fs)
    (fastforce simp: Let_def dest: consume_link_frame_last split: prod.splits option.splits)+

text \<open>A record that holds a line of a link frame and was not cut.\<close>

definition is_line :: "trace_record \<Rightarrow> bool" where
  "is_line r \<longleftrightarrow> \<not> tr_message_truncated r \<and> tr_level r \<in> {''LINK_RX_HEX'', ''LINK_TX_HEX''}"

lemma step_record_line:
  assumes "is_line r" "tr_sequence r = d_last_sequence d + 1"
  shows "step_record d r = (let (d1, f) = consume_link d r; d2 = d1\<lparr>d_last_sequence := tr_sequence r\<rparr> in
    case f of None \<Rightarrow> (d2, None, None) | Some x \<Rightarrow> let (d3, a) = consume_transport d2 x in (d3, Some x, a))"
  using assms
  by (auto simp: step_record_def note_record_def is_line_def consume_link_last_sequence Let_def split: prod.splits option.splits)

lemma step_records_append:
  "step_records d (xs @ ys) = (let (d1, fs, as) = step_records d xs; (d2, gs, bs) = step_records d1 ys
     in (d2, fs @ gs, as @ bs))"
  by (induction xs arbitrary: d) (auto simp: Let_def split: prod.splits option.splits)

lemma step_records_lines:
  assumes "\<forall>r \<in> set rs. is_line r" "map tr_sequence rs = [d_last_sequence d + 1..d_last_sequence d + int (length rs)]"
    and "consume_links d rs = (d', [])"
  shows "step_records d rs = (d'\<lparr>d_last_sequence := d_last_sequence d + int (length rs)\<rparr>, [], [])"
  using assms
proof (induction rs arbitrary: d d')
  case (Cons r rs)
  obtain d1 where step: "consume_link d r = (d1, None)" and rest: "consume_links d1 rs = (d', [])"
    using Cons.prems(3) by (auto simp: Let_def split: prod.splits option.splits)
  have seq: "tr_sequence r = d_last_sequence d + 1"
    "map tr_sequence rs = [d_last_sequence d + 1 + 1..d_last_sequence d + 1 + int (length rs)]"
    using Cons.prems(2) by (simp_all add: upto_rec1 algebra_simps)
  define d2 where "d2 = d1\<lparr>d_last_sequence := tr_sequence r\<rparr>"
  have r: "step_record d r = (d2, None, None)"
    using step_record_line [of r d] Cons.prems(1) seq step by (simp add: d2_def)
  have links: "consume_links d2 rs = (d'\<lparr>d_last_sequence := tr_sequence r\<rparr>, [])"
    using rest by (simp add: d2_def consume_links_set_last)
  have "step_records d2 rs =
      (d'\<lparr>d_last_sequence := tr_sequence r\<rparr>\<lparr>d_last_sequence := d_last_sequence d2 + int (length rs)\<rparr>, [], [])"
    by (rule Cons.IH [OF _ _ links]) (use Cons.prems(1) seq in \<open>simp_all add: d2_def\<close>)
  then show ?case using r seq(1) by (simp add: d2_def algebra_simps)
qed simp

lemma step_records_frame:
  assumes rs: "rs \<noteq> []" "\<forall>r \<in> set rs. is_line r"
      "map tr_sequence rs = [d_last_sequence d + 1..d_last_sequence d + int (length rs)]"
    and run: "consume_links d rs = (d1, [f])" "tf_last_sequence f = tr_sequence (last rs)"
    and app: "consume_transport (d1\<lparr>d_last_sequence := tr_sequence (last rs)\<rparr>) f = (d2, a)"
  shows "step_records d rs = (d2, [f], case a of None \<Rightarrow> [] | Some a \<Rightarrow> [a])"
proof -
  obtain xs x where split: "rs = xs @ [x]" using rs(1) by (metis append_butlast_last_id)
  let ?n = "d_last_sequence d"
  have "distinct (map tr_sequence rs)" by (simp add: rs(3))
  then have fresh: "tr_sequence x \<notin> tr_sequence ` set xs" by (simp add: split)
  have seqs: "map tr_sequence xs = [?n + 1..?n + int (length xs)]" "tr_sequence x = ?n + int (length xs) + 1"
    using rs(3) upto_rec2 [of "?n + 1" "?n + int (length rs)"] by (simp_all add: split algebra_simps)
  obtain d0 fs where xs: "consume_links d xs = (d0, fs)" by fastforce
  then have "fs = []"
  proof (cases fs)
    case (Cons g gs)
    then have "g = f" using run(1) xs by (auto simp: split consume_links_append Let_def split: prod.splits)
    then show ?thesis
      using consume_links_last_sequence [OF xs, of g] Cons run(2) fresh by (simp add: split)
  qed simp
  with xs run(1) have last: "consume_link d0 x = (d1, Some f)"
    by (auto simp: split consume_links_append Let_def split: prod.splits option.splits)
  define d' where "d' = d0\<lparr>d_last_sequence := ?n + int (length xs)\<rparr>"
  have "step_records d xs = (d', [], [])"
    using step_records_lines [OF _ seqs(1)] rs(2) xs \<open>fs = []\<close> by (simp add: split d'_def)
  moreover have "step_record d' x = (d2, Some f, a)"
    using step_record_line [of x d'] rs(2) seqs(2) last app
    by (simp add: split d'_def consume_link_last_sequence)
  ultimately show ?thesis by (simp add: split step_records_append split: option.splits)
qed

text \<open>The records a host logs for one link frame, from sequence number 1 on.\<close>

definition frame_records :: "byte list \<Rightarrow> trace_record list \<Rightarrow> bool" where
  "frame_records raw rs \<longleftrightarrow> map tr_message rs = link_lines raw \<and> map tr_sequence rs = [1..int (length rs)] \<and>
     same_route (hd rs) rs \<and> (\<forall>r \<in> set rs. record_ok r \<and> is_line r)"

text \<open>The summary of a lossless trace, stopped and read to the end.\<close>

definition drained_summary :: "trace_summary \<Rightarrow> nat \<Rightarrow> bool" where
  "drained_summary s n \<longleftrightarrow> summary_ok s \<and> ts_state s = ''STOPPED'' \<and> ts_queued_records s = 0 \<and>
     ts_dropped_records s = 0 \<and> ts_truncated_records s = 0 \<and> ts_last_sequence s = int n"

lemma length_link_chunks: "length (link_chunks xs) \<le> length xs"
proof (induction xs rule: link_chunks.induct)
  case (1 xs)
  then show ?case by (subst link_chunks.simps) (cases xs, auto)
qed

lemma length_link_lines: "length (link_lines raw) \<le> length raw + 1"
  using length_link_chunks [of "drop 10 raw"] by (simp add: link_lines_def)

text \<open>
  A control octet of user data: from the primary station, function 4 without or function 3
  with the frame count valid; direction and frame count bit are free.
\<close>

lemma classify_user_data:
  assumes "c AND 0x5F \<in> {0x44, 0x53}"
  shows "link_classify True c (t # payload) = (Some (transport_header_of t), None)"
proof -
  have "c AND 0x4F = (c AND 0x5F) AND 0x4F" "c AND 0x40 = (c AND 0x5F) AND 0x40" "c AND 0x10 = (c AND 0x5F) AND 0x10"
    by (simp_all add: and.assoc)
  then show ?thesis using assms by (auto simp: link_classify_def LINK_FUNCTIONS_def)
qed

lemma link_frame_of_segment:
  fixes r r0 :: trace_record and fir fin :: bool and n :: nat and dir :: string
  assumes "length chunk \<le> 249" "dst < 65536" "src < 65536" "c AND 0x5F \<in> {0x44, 0x53}"
  defines "raw \<equiv> link_encode c dst src (transport_octet fir fin n # chunk)"
  defines "f \<equiv> link_frame_of r dir \<lparr>lp_first = r0, lp_expected = length raw, lp_data = raw\<rparr>"
  shows "is_segment (tr_session_id r, dir, src, dst) fir fin n chunk f" "tf_first_sequence f = tr_sequence r0"
    "tf_last_sequence f = tr_sequence r" "tf_session_id f = tr_session_id r" "tf_direction f = dir"
proof -
  have len: "length (transport_octet fir fin n # chunk) \<le> 250" using assms(1) by simp
  have e: "tf_crc_valid f" "tf_payload_hex f = hex_upper (transport_octet fir fin n # chunk)"
    "tf_link f = link_header_of raw"
    unfolding f_def raw_def by (rule link_frame_of_encode [OF len assms(2,3)])+
  note h = link_header_of_encode [OF assms(2,3), of c "transport_octet fir fin n # chunk", folded raw_def]
  have c3: "raw ! 3 = c" by (simp add: raw_def link_encode_def Let_def)
  have "(tf_transport f, tf_decode_error f) = link_classify (tf_crc_valid f) (raw ! 3) (transport_octet fir fin n # chunk)"
    by (simp add: f_def raw_def link_frame_of_def Let_def case_prod_unfold drop10_link_encode link_blocks_encode)
  then have "tf_transport f = Some (transport_header_of (transport_octet fir fin n))" "tf_decode_error f = None"
    using e(1) assms(4) by (simp_all add: c3 classify_user_data)
  moreover show "tf_first_sequence f = tr_sequence r0" "tf_last_sequence f = tr_sequence r"
    "tf_session_id f = tr_session_id r" "tf_direction f = dir"
    by (simp_all add: f_def link_frame_of_def Let_def case_prod_unfold)
  ultimately show "is_segment (tr_session_id r, dir, src, dst) fir fin n chunk f"
    using e h by (simp add: is_segment_def transport_key_of_def)
qed

lemma decode_batch_lossless_summary:
  assumes "parse_batch v = Inr (s, rs, t)" "drained_summary s (length rs)"
    and "step_records (reset\<lparr>d_trace_id := ts_trace_id s\<rparr>) rs = (d, fs, as)" "d_last_sequence d = int (length rs)"
    and "d_links d = []" "d_transports d = []"
  shows "\<exists>b d'. decode_batch reset v = (Inr b, d') \<and> tb_frames b = fs \<and> tb_applications b = as \<and>
    tb_issues b = d_issues d \<and> tb_complete b = (d_issues d = [])"
proof -
  have "check_continuation reset s = None" by (simp add: check_continuation_def reset_def)
  moreover have "note_losses s (reset\<lparr>d_trace_id := ts_trace_id s\<rparr>) = reset\<lparr>d_trace_id := ts_trace_id s\<rparr>"
    "close_batch s d = clear_pending d" "ts_complete s"
    using assms by (auto simp: note_losses_def close_batch_def drained_summary_def summary_ok_def Let_def)
  ultimately show ?thesis using assms(1,3) by (simp add: decode_batch_def Let_def)
qed

lemma consume_transport_single:
  assumes "is_segment key True True n apdu f" "n < 64" "d_transports d = []" "length apdu \<le> MAX_APDU"
  shows "consume_transport d f =
    (let app = decode_application apdu (tf_session_id f) (tf_direction f) [tf_first_sequence f] in (app_issue app d, Some app))"
proof -
  have same: "d\<lparr>d_transports := []\<rparr> = d" using assms(3) by simp
  show ?thesis
    using transport_step [OF assms(1,2), of d "\<lparr>tp_next_sequence = n, tp_data = [], tp_frames = []\<rparr>"] assms(3,4)
    by (simp add: MAX_ROUTES_def MAX_SEGMENTS_def same)
qed

lemma frame_records_last: "frame_records raw rs \<Longrightarrow> rs \<noteq> [] \<and> tr_sequence (last rs) = int (length rs) \<and> tr_sequence (hd rs) = 1"
proof -
  assume f: "frame_records raw rs"
  then have seqs: "map tr_sequence rs = [1..int (length rs)]" and ne: "rs \<noteq> []"
    by (auto simp: frame_records_def link_lines_def)
  then have "1 \<le> int (length rs)" by (cases rs) auto
  then have "last [1..int (length rs)] = int (length rs)" "hd [1..int (length rs)] = 1"
    by (simp add: upto_rec2, simp add: upto_rec1)
  then show ?thesis using seqs ne by (metis hd_map last_map)
qed

lemma parse_frame_batch:
  assumes "frame_records raw rs" "drained_summary s (length rs)" "length rs \<le> 1024"
  shows "parse_batch (PDict (batch_dict s rs)) = Inr (s, rs, rs = [])"
proof (rule parse_batch_dict)
  have "set (map tr_sequence rs) = {1..int (length rs)}" using assms(1) by (simp add: frame_records_def)
  then show "\<forall>r \<in> set rs. tr_sequence r \<le> ts_last_sequence s"
    using assms(2) by (auto simp: drained_summary_def)
qed (use assms in \<open>auto simp: drained_summary_def frame_records_def is_line_def\<close>)

lemma wire_batch:
  assumes apdu: "length apdu \<le> 249" and addr: "dst < 65536" "src < 65536" and n: "n < 64"
    and c: "c AND 0x5F \<in> {0x44, 0x53}"
    and rs: "frame_records (link_encode c dst src (transport_octet True True n # apdu)) rs"
    and s: "drained_summary s (length rs)"
  defines "app \<equiv> decode_application apdu (tr_session_id (hd rs)) (link_direction (hd rs)) [1]"
  shows "\<exists>b d'. decode_batch reset (PDict (batch_dict s rs)) = (Inr b, d') \<and> length (tb_frames b) = 1 \<and>
    tb_applications b = [app] \<and> tb_complete b = (ta_decode_error app = None) \<and>
    tb_issues b = (case ta_decode_error app of None \<Rightarrow> [] | Some e \<Rightarrow> [error_category e])"
proof -
  define raw where "raw = link_encode c dst src (transport_octet True True n # apdu)"
  define d0 where "d0 = reset\<lparr>d_trace_id := ts_trace_id s\<rparr>"
  define f where "f = link_frame_of (last rs) (link_direction (hd rs))
    \<lparr>lp_first = hd rs, lp_expected = length raw, lp_data = raw\<rparr>"
  define key where "key = (tr_session_id (last rs), link_direction (hd rs), src, dst)"
  have rs': "map tr_message rs = link_lines raw" "map tr_sequence rs = [1..int (length rs)]" "same_route (hd rs) rs"
    "\<forall>r \<in> set rs. record_ok r" "\<forall>r \<in> set rs. is_line r" "rs \<noteq> []"
    using rs by (auto simp: frame_records_def raw_def link_lines_def)
  have len: "length (transport_octet True True n # apdu) \<le> 250" using apdu by simp
  have short: "length rs \<le> 1024"
    using length_link_lines [of raw] frame_size_bound [OF len] arg_cong [OF rs'(1), of length]
    by (simp add: raw_def length_link_encode)
  have links: "consume_links d0 rs = (link_issue f d0, [f])"
    using consume_links_frame [OF len rs'(3,1) raw_def, of d0]
    by (simp add: d0_def reset_def MAX_ROUTES_def f_def Let_def)
  have seg: "is_segment key True True n apdu f" "tf_first_sequence f = tr_sequence (hd rs)"
    "tf_last_sequence f = tr_sequence (last rs)" "tf_session_id f = tr_session_id (last rs)"
    "tf_direction f = link_direction (hd rs)"
    unfolding f_def raw_def key_def
    by (rule link_frame_of_segment(1) [OF apdu addr c], rule link_frame_of_segment(2) [OF apdu addr c],
      rule link_frame_of_segment(3) [OF apdu addr c], rule link_frame_of_segment(4) [OF apdu addr c],
      rule link_frame_of_segment(5) [OF apdu addr c])
  have noissue: "link_issue f d0 = d0" using seg(1) by (simp add: link_issue_def is_segment_def)
  define d1 where "d1 = d0\<lparr>d_last_sequence := tr_sequence (last rs)\<rparr>"
  have d1: "d_transports d1 = []" "d_links d1 = []" "d_issues d1 = []" "d_last_sequence d1 = int (length rs)"
    using frame_records_last [OF rs] by (simp_all add: d1_def d0_def reset_def)
  have "tr_session_id (last rs) = tr_session_id (hd rs)"
    using rs'(3) last_in_set [OF rs'(6)] unfolding same_route_def by blast
  then have "consume_transport d1 f = (app_issue app d1, Some app)"
    using consume_transport_single [OF seg(1) n d1(1)] apdu frame_records_last [OF rs] seg
    by (simp add: MAX_APDU_def app_def Let_def)
  then have run: "step_records d0 rs = (app_issue app d1, [f], [app])"
    using step_records_frame [OF rs'(6,5) _ links seg(3)] rs'(2) noissue by (simp add: d0_def reset_def d1_def)
  have final: "d_links (app_issue app d1) = []" "d_transports (app_issue app d1) = []"
    "d_last_sequence (app_issue app d1) = int (length rs)"
    "d_issues (app_issue app d1) = (case ta_decode_error app of None \<Rightarrow> [] | Some e \<Rightarrow> [error_category e])"
    using d1 by (simp_all add: app_issue_def issue_def split: option.splits)
  show ?thesis
    using decode_batch_lossless_summary [OF parse_frame_batch [OF rs s short] s run [unfolded d0_def] final(3,1,2)]
    by (auto simp: final(4) split: option.splits)
qed

text \<open>
  C14: from the wire to the application. The lines that the host logs for a link frame with
  user data, carrying a whole application fragment of at most 249 octets in one transport
  segment, given to a fresh decoder as one drained batch, yield exactly one frame and one
  application, the one decoded from the fragment's octets; the batch is complete exactly when
  that fragment is fully understood, and its only issue is otherwise the category of the
  decode error. The frame may have any control octet of user data: unconfirmed (function 4,
  frame count not valid) or confirmed (function 3, frame count valid), in either direction
  and with either frame count bit.
\<close>

theorem wire_to_application:
  assumes apdu: "length apdu \<le> 249" and addr: "dst < 65536" "src < 65536" and n: "n < 64"
    and c: "c AND 0x5F \<in> {0x44, 0x53}"
    and rs: "frame_records (link_encode c dst src (transport_octet True True n # apdu)) rs"
    and s: "drained_summary s (length rs)"
  defines "app \<equiv> decode_application apdu (tr_session_id (hd rs)) (link_direction (hd rs)) [1]"
  shows "\<exists>b d'. decode_batch reset (PDict (batch_dict s rs)) = (Inr b, d') \<and> length (tb_frames b) = 1 \<and>
    tb_applications b = [app] \<and> tb_complete b = (ta_decode_error app = None) \<and>
    tb_issues b = (case ta_decode_error app of None \<Rightarrow> [] | Some e \<Rightarrow> [error_category e])"
  using wire_batch [OF apdu addr n c rs s] by (simp add: app_def)

section \<open>Instances\<close>

definition sample_summary :: "nat \<Rightarrow> trace_summary" where
  "sample_summary n = \<lparr>ts_trace_id = Some ''trace-1'', ts_state = ''STOPPED'', ts_scope = ''opendnp3_stack'',
     ts_queue_capacity = 16384, ts_queued_records = 0, ts_dropped_records = 0, ts_truncated_records = 0,
     ts_last_sequence = int n, ts_complete = True\<rparr>"

definition sample_lines :: "byte list \<Rightarrow> trace_record list" where
  "sample_lines raw = map (\<lambda>(i, m). sample_record\<lparr>tr_sequence := int i, tr_message := m\<rparr>) (enumerate 1 (link_lines raw))"

lemma sample_summary_ok: "n \<le> 1024 \<Longrightarrow> drained_summary (sample_summary n) n"
proof -
  have "trace_id_match ''trace-1''" by code_simp
  then show "n \<le> 1024 \<Longrightarrow> drained_summary (sample_summary n) n"
    by (simp add: drained_summary_def sample_summary_def summary_ok_def max_u64_def)
qed

lemma length_hex_spaced: "length (hex_spaced bs) \<le> 3 * length bs"
proof (cases bs)
  case (Cons b cs)
  then show ?thesis by (simp add: hex_spaced_concat hex_byte_def length_concat comp_def sum_list_triv)
qed (simp add: hex_spaced_def)

lemma link_chunks_short: "c \<in> set (link_chunks xs) \<Longrightarrow> length c \<le> 18"
  by (induction xs rule: link_chunks.induct) (subst (asm) (2) link_chunks.simps, auto split: if_splits)

lemma sample_lines_records:
  assumes "length raw \<le> 300"
  shows "frame_records raw (sample_lines raw)"
proof -
  have short: "length m \<le> 1024" if m: "m \<in> set (link_lines raw)" for m
  proof -
    obtain bs where "m = hex_spaced bs" "length bs \<le> 18"
      using m by (auto simp: link_lines_def dest: link_chunks_short)
    then show ?thesis using length_hex_spaced [of bs] by simp
  qed
  have n: "length (link_lines raw) \<le> 301" using assms length_link_lines [of raw] by simp
  have upto: "map int [1..<1 + n] = [1..int n]" for n
    by (induction n) (simp_all add: upto_rec2)
  have "map tr_sequence (sample_lines raw) = map int (map fst (enumerate 1 (link_lines raw)))"
    by (simp add: sample_lines_def comp_def case_prod_unfold del: map_fst_enumerate)
  also have "\<dots> = [1..int (length (link_lines raw))]"
    by (simp only: map_fst_enumerate upto)
  finally have seqs: "map tr_sequence (sample_lines raw) = [1..int (length (sample_lines raw))]"
    by (simp add: sample_lines_def)
  have "map tr_message (sample_lines raw) = link_lines raw"
    by (simp add: sample_lines_def comp_def case_prod_unfold)
  moreover have "\<forall>r \<in> set (sample_lines raw). record_ok r \<and> is_line r"
    using short n by (auto simp: sample_lines_def in_set_enumerate_eq record_ok_def is_line_def sample_record_def
        max_u64_def LEVELS_def)
  moreover have "same_route (hd (sample_lines raw)) (sample_lines raw)"
    by (auto simp: same_route_def sample_lines_def link_lines_def)
  ultimately show ?thesis using seqs by (simp add: frame_records_def)
qed

definition sample_wire :: "byte list" where
  "sample_wire = link_encode 0xD3 1024 1 [0xC5, 0xC0, 0x00]"

lemma sample_wire_records:
  "frame_records sample_wire (sample_lines sample_wire)" "length (sample_lines sample_wire) \<le> 1024"
proof -
  have "length sample_wire = 15" by (simp add: sample_wire_def length_link_encode frame_size_def)
  then show "frame_records sample_wire (sample_lines sample_wire)" "length (sample_lines sample_wire) \<le> 1024"
    using length_link_lines [of sample_wire] sample_lines_records [of sample_wire]
    by (simp, simp add: sample_lines_def)
qed

lemma sample_wire_facts:
  "transport_octet True True 5 = 0xC5" "tr_session_id (hd (sample_lines sample_wire)) = 1"
  "link_direction (hd (sample_lines sample_wire)) = ''RX''"
  "ta_decode_error (decode_application [0xC0, 0x00] 1 ''RX'' [1]) = None"
proof -
  show "ta_decode_error (decode_application [0xC0, 0x00] 1 ''RX'' [1]) = None" by code_simp
qed (simp_all add: transport_octet_def sample_lines_def link_lines_def link_direction_def sample_record_def)

lemma sample_wire_run:
  "\<exists>b d. decode_batch reset (PDict (batch_dict (sample_summary (length (sample_lines sample_wire))) (sample_lines sample_wire))) =
     (Inr b, d) \<and> length (tb_frames b) = 1 \<and> tb_complete b"
  using wire_batch [of "[0xC0, 0x00]" 1024 1 5 "0xD3", unfolded sample_wire_facts(1), folded sample_wire_def,
      OF _ _ _ _ _ sample_wire_records(1) sample_summary_ok [OF sample_wire_records(2)]]
  by (auto simp: sample_wire_facts)

theorem wire_to_application_witness:
  "\<exists>b d'. decode_batch reset (PDict (batch_dict (sample_summary (length (sample_lines sample_wire))) (sample_lines sample_wire))) =
     (Inr b, d') \<and> length (tb_frames b) = 1 \<and> tb_complete b \<and>
     tb_applications b = [decode_application [0xC0, 0x00] 1 ''RX'' [1]]"
  using wire_to_application [of "[0xC0, 0x00]" 1024 1 5 "0xD3", unfolded sample_wire_facts(1), folded sample_wire_def,
      OF _ _ _ _ _ sample_wire_records(1) sample_summary_ok [OF sample_wire_records(2)]]
  by (auto simp: sample_wire_facts)

definition event_record :: trace_record where
  "event_record = sample_record\<lparr>tr_level := ''EVENT'', tr_message := ''channel open''\<rparr>"

lemma event_run:
  "\<exists>b d. decode_batch reset (PDict (batch_dict (sample_summary 1) [event_record])) = (Inr b, d) \<and> tb_complete b"
proof -
  have "parse_batch (PDict (batch_dict (sample_summary 1) [event_record])) =
      Inr (sample_summary 1, [event_record], [event_record] = [])"
    using sample_summary_ok [of 1]
    by (intro parse_batch_dict) (auto simp: drained_summary_def sample_summary_def record_ok_def event_record_def
        sample_record_def max_u64_def LEVELS_def)
  from decode_batch_lossless_summary [OF this] sample_summary_ok [of 1] show ?thesis
    by (fastforce simp: step_record_def note_record_def event_record_def sample_record_def reset_def)
qed

theorem decoder_resources_bounded_witness:
  "\<exists>b d. trace_run ([] @ [b]) d \<and> length (d_links d) \<le> 16 \<and> length (d_transports d) \<le> 16 \<and> length (d_issues d) \<le> 30"
proof -
  obtain b d where b: "decode_batch reset (PDict (batch_dict (sample_summary 1) [event_record])) = (Inr b, d)"
    using event_run by blast
  have "trace_run ([] @ [b]) d" by (rule trace_run.accepted [OF trace_run.start b(1)])
  then show ?thesis using decoder_resources_bounded [of "[] @ [b]" d] by blast
qed

definition sample_segment :: "bool \<Rightarrow> bool \<Rightarrow> nat \<Rightarrow> byte list \<Rightarrow> trace_frame" where
  "sample_segment fir fin n chunk = link_frame_of sample_record ''RX''
     (let raw = link_encode 0xC4 1024 1 (transport_octet fir fin n # chunk)
      in \<lparr>lp_first = sample_record, lp_expected = length raw, lp_data = raw\<rparr>)"


end
