(* ===== verification/TraceAccounting.thy ===== *)
theory TraceAccounting
  imports TraceDecoder "HOL-Library.Multiset"
begin

text \<open>
  That a run of the trace decoder without an issue loses nothing. Lines of link frames and
  segments of application fragments are both collected per route in a table, so their
  accounting is one locale, \<open>assembler\<close>, with two interpretations: lines into frames
  (\<open>_consume_link\<close>) and segments into applications (\<open>_consume_transport\<close>) of
  \<open>python/src/dnp3_master/trace.py\<close>. The invariant \<open>reassembled\<close> carries it over
  records, batches and runs.
\<close>

section \<open>Accounting for the items of interleaved groups\<close>

text \<open>
  Items of several routes arrive interleaved and are collected per route in a table. All of
  them are accounted for when the outputs come from groups of items, \<open>whole\<close>, one group per
  output and in the order of the outputs, and the items of each route are, in order, those of
  the route's groups followed by the ones its entry of the table stands for, \<open>part\<close>; a route
  without an entry has none left.
\<close>

definition left_over :: "('i list \<Rightarrow> 'p \<Rightarrow> bool) \<Rightarrow> ('k \<times> 'p) list \<Rightarrow> 'k \<Rightarrow> 'i list \<Rightarrow> bool" where
  "left_over part table k rest = (case map_of table k of None \<Rightarrow> rest = [] | Some p \<Rightarrow> part rest p)"

definition accounted ::
  "('i \<Rightarrow> 'k) \<Rightarrow> ('i list \<Rightarrow> 'o \<Rightarrow> bool) \<Rightarrow> ('i list \<Rightarrow> 'p \<Rightarrow> bool) \<Rightarrow> 'i list \<Rightarrow> 'o list \<Rightarrow> ('k \<times> 'p) list \<Rightarrow> bool" where
  "accounted key whole part items outs table \<longleftrightarrow> (\<exists>groups rest. list_all2 whole groups outs \<and>
     (\<forall>k. filter (\<lambda>i. key i = k) items = concat (filter (\<lambda>g. key (hd g) = k) groups) @ rest k \<and>
        left_over part table k (rest k)))"

text \<open>
  The contract of an assembler: a group has one route and a pending entry stands for at least
  one item.
\<close>

locale assembler =
  fixes key :: "'i \<Rightarrow> 'k" and whole :: "'i list \<Rightarrow> 'o \<Rightarrow> bool" and part :: "'i list \<Rightarrow> 'p \<Rightarrow> bool"
  assumes whole_route: "whole g x \<Longrightarrow> g \<noteq> [] \<and> (\<forall>i \<in> set g. key i = key (hd g))"
    and part_nonempty: "part g p \<Longrightarrow> g \<noteq> []"
begin

lemma nothing: "accounted key whole part [] [] []"
  by (auto simp: accounted_def left_over_def intro!: exI [of _ "[]"] exI [of _ "\<lambda>k. []"])

text \<open>An item that joins, or opens, the entry of its route.\<close>

lemma store:
  assumes acc: "accounted key whole part items outs table"
    and join: "\<And>g. left_over part table (key i) g \<Longrightarrow> (\<forall>j \<in> set g. key j = key i) \<Longrightarrow> part (g @ [i]) q"
  shows "accounted key whole part (items @ [i]) outs (dict_set (key i) q table)"
proof -
  obtain groups rest where g: "list_all2 whole groups outs"
    and k: "\<And>k. filter (\<lambda>i. key i = k) items = concat (filter (\<lambda>g. key (hd g) = k) groups) @ rest k"
    and l: "\<And>k. left_over part table k (rest k)"
    using acc by (auto simp: accounted_def)
  have "\<forall>j \<in> set (rest (key i)). key j = key i"
    using arg_cong [OF k [of "key i"], of set] by auto
  then have "left_over part (dict_set (key i) q table) k ((rest(key i := rest (key i) @ [i])) k)" for k
    using join l [of k] l [of "key i"] by (simp add: left_over_def map_of_dict_set)
  then show ?thesis
    unfolding accounted_def using g k
    by (intro exI [of _ groups] exI [of _ "rest(key i := rest (key i) @ [i])"]) auto
qed

text \<open>An item that completes the group of its route.\<close>

lemma complete:
  assumes acc: "accounted key whole part items outs table"
    and join: "\<And>g. left_over part table (key i) g \<Longrightarrow> (\<forall>j \<in> set g. key j = key i) \<Longrightarrow> whole (g @ [i]) x"
  shows "accounted key whole part (items @ [i]) (outs @ [x]) (dict_del (key i) table)"
proof -
  obtain groups rest where g: "list_all2 whole groups outs"
    and k: "\<And>k. filter (\<lambda>i. key i = k) items = concat (filter (\<lambda>g. key (hd g) = k) groups) @ rest k"
    and l: "\<And>k. left_over part table k (rest k)"
    using acc by (auto simp: accounted_def)
  have same: "\<forall>j \<in> set (rest (key i)). key j = key i"
    using arg_cong [OF k [of "key i"], of set] by auto
  then have "whole (rest (key i) @ [i]) x" using join l by blast
  moreover have "key (hd (rest (key i) @ [i])) = key i" using same by (cases "rest (key i)") auto
  moreover have "left_over part (dict_del (key i) table) k ((rest(key i := [])) k)" for k
    using l [of k] by (simp add: left_over_def map_of_dict_del)
  ultimately show ?thesis
    unfolding accounted_def using g k
    by (intro exI [of _ "groups @ [rest (key i) @ [i]]"] exI [of _ "rest(key i := [])"])
      (auto intro: list_all2_appendI)
qed

text \<open>With an empty table every item belongs to exactly one output.\<close>

lemma drained:
  assumes "accounted key whole part items outs []"
  shows "\<exists>groups. list_all2 whole groups outs \<and> mset (concat groups) = mset items"
proof -
  obtain groups where g: "list_all2 whole groups outs"
    and k: "\<And>k. filter (\<lambda>i. key i = k) items = concat (filter (\<lambda>g. key (hd g) = k) groups)"
    using assms by (auto simp: accounted_def left_over_def)
  have route: "\<forall>g \<in> set groups. \<forall>i \<in> set g. key i = key (hd g)"
    using g whole_route by (fastforce simp: list_all2_conv_all_nth in_set_conv_nth)
  have "filter (\<lambda>i. key i = k) (concat gs) = concat (filter (\<lambda>g. key (hd g) = k) gs)"
    if "\<forall>g \<in> set gs. \<forall>i \<in> set g. key i = key (hd g)" for k gs
    using that by (induction gs) (auto simp: filter_id_conv filter_empty_conv)
  then have same: "filter (\<lambda>i. key i = k) (concat groups) = filter (\<lambda>i. key i = k) items" for k
    using route k by simp
  have "count (mset (concat groups)) i = count (mset items) i" for i
    using arg_cong [OF same [of "key i"], of "\<lambda>l. count (mset l) i"] by simp
  then show ?thesis using g by (auto intro: multiset_eqI)
qed

end

section \<open>The lines of a link frame\<close>

definition line_octets :: "trace_record list \<Rightarrow> byte list" where
  "line_octets rs = concat (map (\<lambda>r. case link_chunk (tr_message r) of Some c \<Rightarrow> c | None \<Rightarrow> []) rs)"

text \<open>Lines of one route that begin with the header of a frame.\<close>

definition link_lines_of :: "link_key \<Rightarrow> trace_record list \<Rightarrow> bool" where
  "link_lines_of key rs \<longleftrightarrow> rs \<noteq> [] \<and> (\<forall>r \<in> set rs. link_key_of r = key \<and> link_chunk (tr_message r) \<noteq> None) \<and>
     10 \<le> length (line_octets rs) \<and> take 2 (line_octets rs) = [0x05, 0x64] \<and> 5 \<le> unat (line_octets rs ! 2)"

text \<open>All the lines of a frame, and the lines a pending frame has so far.\<close>

definition frame_lines :: "trace_record list \<Rightarrow> trace_frame \<Rightarrow> bool" where
  "frame_lines rs f \<longleftrightarrow> (\<exists>key. link_lines_of key rs) \<and> length (line_octets rs) = frame_size (unat (line_octets rs ! 2) - 5) \<and>
     f = link_frame_of (last rs) (link_direction (hd rs))
       \<lparr>lp_first = hd rs, lp_expected = length (line_octets rs), lp_data = line_octets rs\<rparr>"

definition pending_lines :: "trace_record list \<Rightarrow> link_pending \<Rightarrow> bool" where
  "pending_lines rs p \<longleftrightarrow> (\<exists>key. link_lines_of key rs) \<and> length (line_octets rs) < lp_expected p \<and>
     p = \<lparr>lp_first = hd rs, lp_expected = frame_size (unat (line_octets rs ! 2) - 5), lp_data = line_octets rs\<rparr>"

interpretation lines: assembler link_key_of frame_lines pending_lines
  by unfold_locales (auto simp: frame_lines_def pending_lines_def link_lines_of_def)

lemma line_octets_simps [simp]:
  "line_octets [] = []" "line_octets (xs @ ys) = line_octets xs @ line_octets ys"
  "link_chunk (tr_message r) = Some c \<Longrightarrow> line_octets [r] = c"
  by (simp_all add: line_octets_def)

lemma link_lines_of_snoc:
  assumes "link_lines_of (link_key_of r) rs" "link_chunk (tr_message r) = Some c"
  shows "link_lines_of (link_key_of r) (rs @ [r])" "line_octets (rs @ [r]) ! 2 = line_octets rs ! 2"
  using assms by (auto simp: link_lines_of_def nth_append)

text \<open>A line joins the pending lines of its route, or completes their frame.\<close>

definition line_joins :: "decoder \<Rightarrow> trace_record \<Rightarrow> link_pending \<Rightarrow> bool" where
  "line_joins d r p \<longleftrightarrow> (\<forall>g. left_over pending_lines (d_links d) (link_key_of r) g \<longrightarrow>
     (\<forall>j \<in> set g. link_key_of j = link_key_of r) \<longrightarrow>
     link_lines_of (link_key_of r) (g @ [r]) \<and> length (line_octets (g @ [r])) \<le> lp_expected p \<and>
     p = \<lparr>lp_first = hd (g @ [r]), lp_expected = frame_size (unat (line_octets (g @ [r]) ! 2) - 5),
          lp_data = line_octets (g @ [r])\<rparr>)"

lemma link_advance_accounted:
  assumes adv: "link_advance d r p = (d', f)" and joins: "line_joins d r p"
    and acc: "accounted link_key_of frame_lines pending_lines rs fs (d_links d)"
  shows "accounted link_key_of frame_lines pending_lines (rs @ [r])
    (fs @ (case f of None \<Rightarrow> [] | Some x \<Rightarrow> [x])) (d_links d')"
proof (cases "length (lp_data p) = lp_expected p")
  case True
  define x where "x = link_frame_of r (link_direction r) p"
  have "frame_lines (g @ [r]) x"
    if "left_over pending_lines (d_links d) (link_key_of r) g" "\<forall>j \<in> set g. link_key_of j = link_key_of r" for g
  proof -
    have j: "link_lines_of (link_key_of r) (g @ [r])" "p = \<lparr>lp_first = hd (g @ [r]),
        lp_expected = frame_size (unat (line_octets (g @ [r]) ! 2) - 5), lp_data = line_octets (g @ [r])\<rparr>"
      using joins that unfolding line_joins_def by blast+
    have "hd (g @ [r]) \<in> set (g @ [r])" by (rule hd_in_set) simp
    then have "link_key_of (hd (g @ [r])) = link_key_of r" using j(1) unfolding link_lines_of_def by blast
    then have "link_direction (hd (g @ [r])) = link_direction r" by (simp add: link_key_of_def)
    moreover have "lp_data p = line_octets (g @ [r])" "lp_expected p = frame_size (unat (line_octets (g @ [r]) ! 2) - 5)"
      by (subst j(2), simp)+
    moreover have "p = \<lparr>lp_first = hd (g @ [r]), lp_expected = length (line_octets (g @ [r])), lp_data = line_octets (g @ [r])\<rparr>"
      by (subst j(2)) (use True calculation(2,3) in simp)
    ultimately show ?thesis using j(1) True unfolding frame_lines_def x_def last_snoc by metis
  qed
  with acc have "accounted link_key_of frame_lines pending_lines (rs @ [r]) (fs @ [x]) (dict_del (link_key_of r) (d_links d))"
    by (rule lines.complete)
  moreover have "f = Some x" "d_links d' = dict_del (link_key_of r) (d_links d)"
    using adv True by (auto simp: link_advance_def Let_def x_def)
  ultimately show ?thesis by simp
next
  case False
  have "pending_lines (g @ [r]) p"
    if "left_over pending_lines (d_links d) (link_key_of r) g" "\<forall>j \<in> set g. link_key_of j = link_key_of r" for g
  proof -
    have j: "link_lines_of (link_key_of r) (g @ [r])" "length (line_octets (g @ [r])) \<le> lp_expected p" "p = \<lparr>lp_first = hd (g @ [r]),
        lp_expected = frame_size (unat (line_octets (g @ [r]) ! 2) - 5), lp_data = line_octets (g @ [r])\<rparr>"
      using joins that unfolding line_joins_def by blast+
    have "lp_data p = line_octets (g @ [r])" by (subst j(3)) simp
    then have "length (line_octets (g @ [r])) < lp_expected p" using j(2) False by simp
    then show ?thesis unfolding pending_lines_def using j(1,3) by blast
  qed
  with acc have "accounted link_key_of frame_lines pending_lines (rs @ [r]) fs (dict_set (link_key_of r) p (d_links d))"
    by (rule lines.store)
  moreover have "f = None" "d_links d' = dict_set (link_key_of r) p (d_links d)"
    using adv False by (auto simp: link_advance_def Let_def)
  ultimately show ?thesis by simp
qed

lemma line_joins_start:
  assumes "dict_get (d_links d) (link_key_of r) = None" "link_chunk (tr_message r) = Some c"
    and "length c = 10" "take 2 c = [0x05, 0x64]" "5 \<le> unat (c ! 2)"
  shows "line_joins d r \<lparr>lp_first = r, lp_expected = frame_size (unat (c ! 2) - 5), lp_data = c\<rparr>"
  using assms by (auto simp: line_joins_def left_over_def link_lines_of_def frame_size_def)

lemma line_joins_append:
  assumes "dict_get (d_links d) (link_key_of r) = Some p" "link_chunk (tr_message r) = Some c"
    and "length c = min 18 (lp_expected p - length (lp_data p))"
  shows "line_joins d r (p\<lparr>lp_data := lp_data p @ c\<rparr>)"
  unfolding line_joins_def
proof (intro allI impI)
  fix g assume g: "left_over pending_lines (d_links d) (link_key_of r) g" "\<forall>j \<in> set g. link_key_of j = link_key_of r"
  then have p: "pending_lines g p" using assms(1) by (simp add: left_over_def)
  then have ne: "g \<noteq> []" and wf: "link_lines_of (link_key_of r) g" using g(2) by (auto simp: pending_lines_def link_lines_of_def)
  from link_lines_of_snoc [OF wf assms(2)] p ne assms(2,3)
  show "link_lines_of (link_key_of r) (g @ [r]) \<and> length (line_octets (g @ [r])) \<le> lp_expected (p\<lparr>lp_data := lp_data p @ c\<rparr>) \<and>
    p\<lparr>lp_data := lp_data p @ c\<rparr> = \<lparr>lp_first = hd (g @ [r]),
      lp_expected = frame_size (unat (line_octets (g @ [r]) ! 2) - 5), lp_data = line_octets (g @ [r])\<rparr>"
    by (auto simp: pending_lines_def)
qed

lemma consume_link_accounted:
  assumes step: "consume_link d r = (d', f)" and clean: "d_issues d' = []"
    and acc: "accounted link_key_of frame_lines pending_lines rs fs (d_links d)"
  shows "accounted link_key_of frame_lines pending_lines (rs @ [r])
    (fs @ (case f of None \<Rightarrow> [] | Some x \<Rightarrow> [x])) (d_links d')"
proof -
  obtain c where c: "link_chunk (tr_message r) = Some c"
    using step clean by (cases "link_chunk (tr_message r)") (auto simp: consume_link_def)
  show ?thesis
  proof (cases "dict_get (d_links d) (link_key_of r)")
    case None
    then have "length c = 10" "take 2 c = [0x05, 0x64]" "5 \<le> unat (c ! 2)"
      and "link_advance d r \<lparr>lp_first = r, lp_expected = frame_size (unat (c ! 2) - 5), lp_data = c\<rparr> = (d', f)"
      using step clean c by (auto simp: consume_link_def Let_def split: if_splits)
    then show ?thesis using link_advance_accounted line_joins_start [OF None c] acc by blast
  next
    case (Some p)
    then have "length c = min 18 (lp_expected p - length (lp_data p))"
      and "link_advance d r (p\<lparr>lp_data := lp_data p @ c\<rparr>) = (d', f)"
      using step clean c by (auto simp: consume_link_def Let_def split: if_splits)
    then show ?thesis using link_advance_accounted line_joins_append [OF Some c] acc by blast
  qed
qed

section \<open>The segments of an application fragment\<close>

definition user_data :: "trace_frame \<Rightarrow> bool" where
  "user_data f \<longleftrightarrow> lh_function_name (tf_link f) \<in> {''CONFIRMED_USER_DATA'', ''UNCONFIRMED_USER_DATA''}"

abbreviation segment_header :: "trace_frame \<Rightarrow> transport_header" where
  "segment_header f \<equiv> the (tf_transport f)"

definition segment_octets :: "trace_frame \<Rightarrow> byte list" where
  "segment_octets f = drop 1 (unhex (tf_payload_hex f))"

text \<open>
  Segments of one route: only the first is marked as the first, none before the last as the
  last, and the numbers go up by one modulo 64.
\<close>

definition segments_of :: "transport_key \<Rightarrow> trace_frame list \<Rightarrow> bool" where
  "segments_of key fs \<longleftrightarrow> fs \<noteq> [] \<and> (\<forall>f \<in> set fs. transport_key_of f = key \<and> tf_transport f \<noteq> None) \<and>
     th_fir (segment_header (hd fs)) \<and> (\<forall>f \<in> set (tl fs). \<not> th_fir (segment_header f)) \<and>
     (\<forall>f \<in> set (butlast fs). \<not> th_fin (segment_header f)) \<and>
     successively (\<lambda>f g. th_sequence (segment_header g) = (th_sequence (segment_header f) + 1) mod 64) fs"

definition app_segments :: "trace_frame list \<Rightarrow> trace_application \<Rightarrow> bool" where
  "app_segments fs a \<longleftrightarrow> (\<exists>key. segments_of key fs) \<and> th_fin (segment_header (last fs)) \<and>
     a = decode_application (concat (map segment_octets fs)) (tf_session_id (hd fs)) (tf_direction (hd fs))
       (map tf_first_sequence fs)"

definition pending_segments :: "trace_frame list \<Rightarrow> transport_pending \<Rightarrow> bool" where
  "pending_segments fs p \<longleftrightarrow> (\<exists>key. segments_of key fs) \<and> \<not> th_fin (segment_header (last fs)) \<and>
     p = \<lparr>tp_next_sequence = (th_sequence (segment_header (last fs)) + 1) mod 64,
          tp_data = concat (map segment_octets fs), tp_frames = map tf_first_sequence fs\<rparr>"

interpretation segments: assembler transport_key_of app_segments pending_segments
  by unfold_locales (auto simp: app_segments_def pending_segments_def segments_of_def)

lemma segments_of_single:
  "tf_transport f = Some h \<Longrightarrow> th_fir h \<Longrightarrow> segments_of (transport_key_of f) [f]"
  by (simp add: segments_of_def)

lemma segments_of_snoc:
  assumes "segments_of key fs" "\<not> th_fin (segment_header (last fs))" "transport_key_of f = key" "tf_transport f = Some h"
    "\<not> th_fir h" "th_sequence h = (th_sequence (segment_header (last fs)) + 1) mod 64"
  shows "segments_of key (fs @ [f])"
proof -
  have ne: "fs \<noteq> []" using assms(1) by (simp add: segments_of_def)
  have "\<forall>g \<in> set fs. \<not> th_fin (segment_header g)"
    using assms(1,2) append_butlast_last_id [OF ne] unfolding segments_of_def
    by (metis Un_iff empty_iff list.set(1) set_ConsD set_append)
  moreover have "successively (\<lambda>f g. th_sequence (segment_header g) = (th_sequence (segment_header f) + 1) mod 64) (fs @ [f])"
    using assms(1,4,6) by (simp add: segments_of_def successively_append_iff)
  ultimately show ?thesis
    using assms ne unfolding segments_of_def by simp
qed

text \<open>A segment taken without an issue continues, or opens, the entry of its route.\<close>

definition segment_taken :: "decoder \<Rightarrow> trace_frame \<Rightarrow> transport_header \<Rightarrow> transport_pending \<Rightarrow> bool" where
  "segment_taken d f h p \<longleftrightarrow> tp_next_sequence p = th_sequence h \<and>
     (if th_fir h then dict_get (d_transports d) (transport_key_of f) = None \<and> p = transport_start h
      else dict_get (d_transports d) (transport_key_of f) = Some p)"

definition segment_added :: "trace_frame \<Rightarrow> transport_header \<Rightarrow> transport_pending \<Rightarrow> transport_pending" where
  "segment_added f h p = p\<lparr>tp_next_sequence := (th_sequence h + 1) mod 64, tp_data := tp_data p @ segment_octets f,
     tp_frames := tp_frames p @ [tf_first_sequence f]\<rparr>"

lemma transport_append_clean:
  assumes "transport_append d f h (segment_octets f) p = (d', a)" "d_issues d' = []"
  shows "tp_next_sequence p = th_sequence h"
    "d_transports d' = (if th_fin h then dict_del (transport_key_of f) (d_transports d)
       else dict_set (transport_key_of f) (segment_added f h p) (d_transports d))"
    "a = (if th_fin h then Some (decode_application (tp_data (segment_added f h p)) (tf_session_id f) (tf_direction f)
       (tp_frames (segment_added f h p))) else None)"
  using assms by (auto simp: transport_append_def segment_added_def Let_def split: if_splits)

lemma consume_transport_clean:
  assumes step: "consume_transport d f = (d', a)" and clean: "d_issues d' = []"
    and f: "tf_decode_error f = None" "tf_transport f = Some h"
  obtains p where "segment_taken d f h p"
    "map_of (d_transports d') = map_of (if th_fin h then dict_del (transport_key_of f) (d_transports d)
       else dict_set (transport_key_of f) (segment_added f h p) (d_transports d))"
    "a = (if th_fin h then Some (decode_application (tp_data (segment_added f h p)) (tf_session_id f) (tf_direction f)
       (tp_frames (segment_added f h p))) else None)"
proof (cases "th_fir h")
  case True
  define t where "t = d\<lparr>d_transports := dict_set (transport_key_of f) (transport_start h) (d_transports d)\<rparr>"
  have new: "dict_get (d_transports d) (transport_key_of f) = None"
  proof (rule ccontr)
    assume old: "dict_get (d_transports d) (transport_key_of f) \<noteq> None"
    define u where "u = (issue ''TRANSPORT_RESTART_BEFORE_FIN'' d)
      \<lparr>d_transports := dict_set (transport_key_of f) (transport_start h) (d_transports d)\<rparr>"
    have "transport_append u f h (segment_octets f) (transport_start h) = (d', a)"
      using step old f True by (auto simp: consume_transport_def segment_octets_def Let_def u_def)
    then have "d_issues u = []"
      using sticky_empty [OF sticky_grow [OF transport_append_grow [of u f h "segment_octets f" "transport_start h"]]]
        clean by simp
    then show False by (simp add: u_def)
  qed
  have run: "transport_append t f h (segment_octets f) (transport_start h) = (d', a)"
    using step clean new f True by (auto simp: consume_transport_def segment_octets_def Let_def t_def split: if_splits)
  note c = transport_append_clean [OF run clean]
  have "map_of (d_transports d') = map_of (if th_fin h then dict_del (transport_key_of f) (d_transports d)
      else dict_set (transport_key_of f) (segment_added f h (transport_start h)) (d_transports d))"
    by (rule ext) (simp add: c(2) t_def map_of_dict_set map_of_dict_del)
  with c(1,3) new True that [of "transport_start h"] show ?thesis by (simp add: segment_taken_def)
next
  case False
  obtain p where p: "dict_get (d_transports d) (transport_key_of f) = Some p"
    and run: "transport_append d f h (segment_octets f) p = (d', a)"
    using step clean f False
    by (cases "dict_get (d_transports d) (transport_key_of f)") (auto simp: consume_transport_def segment_octets_def Let_def)
  note c = transport_append_clean [OF run clean]
  show ?thesis using that [of p] c p False by (simp add: segment_taken_def)
qed

lemma accounted_cong: "map_of t = map_of t' \<Longrightarrow> accounted key whole part items outs t = accounted key whole part items outs t'"
  by (simp add: accounted_def left_over_def)

lemma segment_joins:
  assumes taken: "segment_taken d f h p" and h: "tf_transport f = Some h"
    and g: "left_over pending_segments (d_transports d) (transport_key_of f) g" "\<forall>j \<in> set g. transport_key_of j = transport_key_of f"
  shows "segments_of (transport_key_of f) (g @ [f]) \<and>
    segment_added f h p = \<lparr>tp_next_sequence = (th_sequence h + 1) mod 64,
      tp_data = concat (map segment_octets (g @ [f])), tp_frames = map tf_first_sequence (g @ [f])\<rparr>"
proof (cases "th_fir h")
  case True
  then have "g = []" "p = transport_start h" using taken g(1) by (auto simp: segment_taken_def left_over_def)
  then show ?thesis using segments_of_single [OF h True] by (simp add: segment_added_def transport_start_def)
next
  case False
  then have "pending_segments g p" using taken g(1) by (simp add: segment_taken_def left_over_def)
  then obtain key where k: "segments_of key g" and fin: "\<not> th_fin (segment_header (last g))"
    and p: "p = \<lparr>tp_next_sequence = (th_sequence (segment_header (last g)) + 1) mod 64,
      tp_data = concat (map segment_octets g), tp_frames = map tf_first_sequence g\<rparr>"
    by (auto simp: pending_segments_def)
  have "key = transport_key_of f" using k g(2) by (metis hd_in_set segments_of_def)
  moreover have "th_sequence h = (th_sequence (segment_header (last g)) + 1) mod 64"
    using taken p by (simp add: segment_taken_def)
  ultimately have "segments_of (transport_key_of f) (g @ [f])"
    using segments_of_snoc [OF k fin _ h False] by simp
  then show ?thesis by (simp add: segment_added_def p)
qed

lemma consume_transport_accounted:
  assumes step: "consume_transport d f = (d', a)" and clean: "d_issues d' = []"
    and f: "tf_decode_error f = None" "tf_transport f = Some h"
    and acc: "accounted transport_key_of app_segments pending_segments fs as (d_transports d)"
  shows "accounted transport_key_of app_segments pending_segments (fs @ [f])
    (as @ (case a of None \<Rightarrow> [] | Some x \<Rightarrow> [x])) (d_transports d')"
proof -
  obtain p where taken: "segment_taken d f h p"
    and table: "map_of (d_transports d') = map_of (if th_fin h then dict_del (transport_key_of f) (d_transports d)
       else dict_set (transport_key_of f) (segment_added f h p) (d_transports d))"
    and a: "a = (if th_fin h then Some (decode_application (tp_data (segment_added f h p)) (tf_session_id f) (tf_direction f)
       (tp_frames (segment_added f h p))) else None)"
    by (rule consume_transport_clean [OF step clean f])
  note joins = segment_joins [OF taken f(2)]
  show ?thesis
  proof (cases "th_fin h")
    case True
    have "app_segments (g @ [f]) (the a)"
      if "left_over pending_segments (d_transports d) (transport_key_of f) g" "\<forall>j \<in> set g. transport_key_of j = transport_key_of f" for g
    proof -
      note j = joins [OF that]
      have "hd (g @ [f]) \<in> set (g @ [f])" by (rule hd_in_set) simp
      then have "transport_key_of (hd (g @ [f])) = transport_key_of f" using j unfolding segments_of_def by blast
      then have "tf_session_id (hd (g @ [f])) = tf_session_id f" "tf_direction (hd (g @ [f])) = tf_direction f"
        by (simp_all add: transport_key_of_def)
      then show ?thesis using j f(2) True unfolding app_segments_def a
        by (intro conjI exI [of _ "transport_key_of f"]) simp_all
    qed
    with acc have "accounted transport_key_of app_segments pending_segments (fs @ [f]) (as @ [the a])
        (dict_del (transport_key_of f) (d_transports d))"
      by (rule segments.complete)
    then show ?thesis using True a accounted_cong [OF table, of transport_key_of app_segments pending_segments "fs @ [f]"] by simp
  next
    case False
    have "pending_segments (g @ [f]) (segment_added f h p)"
      if "left_over pending_segments (d_transports d) (transport_key_of f) g" "\<forall>j \<in> set g. transport_key_of j = transport_key_of f" for g
      using joins [OF that] f(2) False unfolding pending_segments_def
      by (intro conjI exI [of _ "transport_key_of f"]) simp_all
    with acc have "accounted transport_key_of app_segments pending_segments (fs @ [f]) as
        (dict_set (transport_key_of f) (segment_added f h p) (d_transports d))"
      by (rule segments.store)
    then show ?thesis using False a accounted_cong [OF table, of transport_key_of app_segments pending_segments "fs @ [f]"] by simp
  qed
qed

section \<open>Records, batches and runs\<close>

text \<open>A frame without an error carries a transport header exactly when it is user data.\<close>

lemma classify_user_data_iff:
  assumes "link_classify v c payload = (t, None)"
  shows "t \<noteq> None \<longleftrightarrow> unat (c AND 0x4F) \<in> {0x43, 0x44} \<and> map_of LINK_FUNCTIONS (unat (c AND 0x4F)) \<noteq> None"
  using assms by (auto simp: link_classify_def Let_def LINK_FUNCTIONS_def split: if_splits list.splits)

lemma user_data_functions:
  "n \<in> {0x43, 0x44} \<and> map_of LINK_FUNCTIONS n \<noteq> None \<longleftrightarrow>
     (case map_of LINK_FUNCTIONS n of Some m \<Rightarrow> m | None \<Rightarrow> ''UNKNOWN'') \<in> {''CONFIRMED_USER_DATA'', ''UNCONFIRMED_USER_DATA''}"
  by (auto simp: LINK_FUNCTIONS_def split: if_splits)

lemma link_frame_user_data:
  assumes "tf_decode_error (link_frame_of r dir p) = None"
  shows "tf_transport (link_frame_of r dir p) \<noteq> None \<longleftrightarrow> user_data (link_frame_of r dir p)"
proof -
  let ?f = "link_frame_of r dir p"
  have "link_classify (tf_crc_valid ?f) (lp_data p ! 3) (snd (link_blocks (drop 10 (lp_data p)))) = (tf_transport ?f, None)"
    using assms by (simp add: link_frame_of_def Let_def case_prod_unfold prod_eq_iff)
  from classify_user_data_iff [OF this] show ?thesis
    unfolding user_data_functions
    by (simp add: user_data_def link_frame_of_def link_header_of_def Let_def case_prod_unfold)
qed

definition reassembled :: "trace_record list \<Rightarrow> trace_frame list \<Rightarrow> trace_application list \<Rightarrow> decoder \<Rightarrow> bool" where
  "reassembled rs fs as d \<longleftrightarrow>
     accounted link_key_of frame_lines pending_lines (filter is_line rs) fs (d_links d) \<and>
     accounted transport_key_of app_segments pending_segments (filter user_data fs) as (d_transports d)"

lemma reassembled_reset: "reassembled [] [] [] reset"
  by (simp add: reassembled_def reset_def lines.nothing segments.nothing)

lemma reassembled_cong:
  "d_links d = d_links d' \<Longrightarrow> d_transports d = d_transports d' \<Longrightarrow> reassembled rs fs as d = reassembled rs fs as d'"
  by (simp add: reassembled_def)

lemma consume_link_frame_of: "consume_link d r = (d', Some f) \<Longrightarrow> \<exists>p. f = link_frame_of r (link_direction r) p"
  by (auto simp: consume_link_def link_advance_def Let_def split: option.splits if_splits)

lemma note_record_pending:
  assumes "d_issues (note_record r d) = []"
  shows "d_links (note_record r d) = d_links d" "d_transports (note_record r d) = d_transports d"
  using assms by (auto simp: note_record_def split: if_splits)

lemma step_record_reassembled:
  assumes step: "step_record d r = (d', f, a)" and clean: "d_issues d' = []" and re: "reassembled rs fs as d"
  shows "reassembled (rs @ [r]) (fs @ (case f of None \<Rightarrow> [] | Some x \<Rightarrow> [x])) (as @ (case a of None \<Rightarrow> [] | Some x \<Rightarrow> [x])) d'"
proof -
  note c = step_record_clean [OF step clean]
  have re1: "reassembled rs fs as (note_record r d)"
    using re note_record_pending [OF c(1)] reassembled_cong by metis
  from step show ?thesis
  proof (cases rule: step_record_cases)
    case truncated
    then show ?thesis using c(3) by simp
  next
    case other
    then show ?thesis using re1 by (simp add: reassembled_def is_line_def)
  next
    case line
    then show ?thesis
      using consume_link_accounted [OF line(2) clean] re1 consume_link_transports [of "note_record r d" r]
      by (simp add: reassembled_def is_line_def)
  next
    case (frame d1 x)
    have d1: "d_issues d1 = []" using sticky_empty [OF sticky_transport [of d1 x]] frame(3) clean by simp
    have good: "tf_decode_error x = None" using c(4) frame(4) by (simp add: frame_good_def)
    have ud: "tf_transport x \<noteq> None \<longleftrightarrow> user_data x"
      using consume_link_frame_of [OF frame(2)] good link_frame_user_data by metis
    have lines: "accounted link_key_of frame_lines pending_lines (filter is_line (rs @ [r])) (fs @ [x]) (d_links d')"
      using consume_link_accounted [OF frame(2) d1] re1 frame(1,5) consume_transport_links [of d1 x] frame(3)
      by (simp add: reassembled_def is_line_def)
    have tr: "accounted transport_key_of app_segments pending_segments (filter user_data fs) as (d_transports d1)"
      using re1 consume_link_transports [of "note_record r d" r] frame(2) by (simp add: reassembled_def)
    show ?thesis
    proof (cases "tf_transport x")
      case None
      then show ?thesis using lines tr ud frame(3,4) good by (simp add: reassembled_def consume_transport_def Let_def)
    next
      case (Some h)
      then show ?thesis
        using consume_transport_accounted [OF frame(3) clean good Some tr] lines ud frame(4) by (simp add: reassembled_def)
    qed
  qed
qed

lemma step_records_reassembled:
  assumes "step_records d rs = (d', gs, bs)" "d_issues d' = []" "reassembled rs0 fs as d"
  shows "reassembled (rs0 @ rs) (fs @ gs) (as @ bs) d'"
  using assms
proof (induction rs arbitrary: d rs0 fs as gs bs)
  case (Cons r rs)
  obtain d1 f a gs1 bs1 where step: "step_record d r = (d1, f, a)" and rest: "step_records d1 rs = (d', gs1, bs1)"
    and out: "gs = (case f of None \<Rightarrow> gs1 | Some f \<Rightarrow> f # gs1)" "bs = (case a of None \<Rightarrow> bs1 | Some a \<Rightarrow> a # bs1)"
    using Cons.prems(1) by (auto simp: Let_def split: prod.splits)
  have "d_issues d1 = []" using step_records_clean [OF rest Cons.prems(2)] by simp
  from Cons.IH [OF rest Cons.prems(2) step_record_reassembled [OF step this Cons.prems(3)]]
  show ?case by (simp add: out split: option.splits)
qed simp

lemma note_losses_pending:
  assumes "d_issues (note_losses s d) = []"
  shows "d_links (note_losses s d) = d_links d" "d_transports (note_losses s d) = d_transports d"
  using note_losses_clean [OF assms] by (auto simp: note_losses_def)

text \<open>A stopped and drained trace leaves nothing behind; otherwise the tables stay.\<close>

lemma close_batch_pending:
  assumes "d_issues (close_batch s d) = []"
  shows "d_links (close_batch s d) = d_links d" "d_transports (close_batch s d) = d_transports d"
    "ts_state s = ''STOPPED'' \<and> ts_queued_records s = 0 \<longrightarrow> d_links d = [] \<and> d_transports d = []"
  using assms by (auto simp: close_batch_def Let_def split: if_splits)

lemma decode_batch_reassembled:
  assumes step: "decode_batch d v = (Inr b, d')" and clean: "d_issues d' = []" and re: "reassembled rs fs as d"
  shows "reassembled (rs @ tb_records b) (fs @ tb_frames b) (as @ tb_applications b) d'"
    "ts_state (tb_summary b) = ''STOPPED'' \<and> ts_queued_records (tb_summary b) = 0 \<longrightarrow> d_links d' = [] \<and> d_transports d' = []"
proof -
  define d1 where "d1 = note_losses (tb_summary b) (d\<lparr>d_trace_id := ts_trace_id (tb_summary b)\<rparr>)"
  obtain d2 where run: "step_records d1 (tb_records b) = (d2, tb_frames b, tb_applications b)"
    and d': "d' = (close_batch (tb_summary b) d2)\<lparr>d_last_summary := Some (tb_summary b)\<rparr>"
    using decode_batch_accepted [OF step] d1_def by metis
  have close: "d_issues (close_batch (tb_summary b) d2) = []" using clean d' by simp
  note p = close_batch_pending [OF close]
  have d2: "d_issues d2 = []" using close_batch_clean [OF close] by simp
  then have "d_issues d1 = []" using step_records_clean [OF run] by simp
  then have "reassembled rs fs as d1"
    using re note_losses_pending [of "tb_summary b" "d\<lparr>d_trace_id := ts_trace_id (tb_summary b)\<rparr>"]
    by (simp add: d1_def reassembled_def)
  from step_records_reassembled [OF run d2 this]
  show "reassembled (rs @ tb_records b) (fs @ tb_frames b) (as @ tb_applications b) d'"
    using p by (simp add: d' reassembled_def)
  show "ts_state (tb_summary b) = ''STOPPED'' \<and> ts_queued_records (tb_summary b) = 0 \<longrightarrow> d_links d' = [] \<and> d_transports d' = []"
    using p by (simp add: d')
qed

lemma trace_run_reassembled:
  "trace_run bs d \<Longrightarrow> d_issues d = [] \<Longrightarrow>
     reassembled (concat (map tb_records bs)) (concat (map tb_frames bs)) (concat (map tb_applications bs)) d \<and>
     (bs \<noteq> [] \<longrightarrow> ts_state (tb_summary (last bs)) = ''STOPPED'' \<and> ts_queued_records (tb_summary (last bs)) = 0 \<longrightarrow>
       d_links d = [] \<and> d_transports d = [])"
proof (induction rule: trace_run.induct)
  case start
  then show ?case by (simp add: reassembled_reset)
next
  case (accepted bs d v b d')
  have "d_issues d = []" using decode_batch_clean [OF accepted(2,4)] by simp
  with accepted.IH have "reassembled (concat (map tb_records bs)) (concat (map tb_frames bs)) (concat (map tb_applications bs)) d"
    by simp
  then show ?case using decode_batch_reassembled [OF accepted(2,4)] by simp
qed (auto dest: decode_batch_rejected)

section \<open>A complete run is lossless\<close>

lemma drained_run:
  assumes "reassembled rs fs as d" "d_links d = []" "d_transports d = []"
  shows "(\<exists>gs. list_all2 frame_lines gs fs \<and> mset (concat gs) = mset (filter is_line rs)) \<and>
    (\<exists>gs. list_all2 app_segments gs as \<and> mset (concat gs) = mset (filter user_data fs))"
  using assms lines.drained segments.drained unfolding reassembled_def by metis

text \<open>
  C10: when a batch of a run is marked complete, the whole run up to it was lossless. The
  records of all batches together carry the sequence numbers 1, 2, 3 and so on up to the
  consumed boundary of the host's counters, each exactly once and in order; nothing was
  dropped or truncated; every batch was complete, with every frame checksum-correct and every
  frame and application fragment decoded without error. The lines are all accounted for: on
  each route, the records with link octets are, in order, the lines of the frames reported
  for the route followed by those of its pending frame, and each frame is built from the
  octets of its own lines. So are the segments: on each route, the frames with user data are,
  in order, the segments of the applications reported for it followed by those of its pending
  fragment, and each application is decoded from its own segments, numbered consecutively
  from the one marked first to the one marked last. After a stopped and drained trace nothing
  is pending: every line belongs to exactly one frame, and every user data frame to exactly
  one application.
\<close>

theorem complete_run_lossless:
  assumes "trace_run (bs @ [b]) d" "tb_complete b"
  defines "records \<equiv> concat (map tb_records (bs @ [b]))" and "frames \<equiv> concat (map tb_frames (bs @ [b]))"
    and "applications \<equiv> concat (map tb_applications (bs @ [b]))"
  shows "map tr_sequence records = [1..ts_last_sequence (tb_summary b) - ts_queued_records (tb_summary b)] \<and>
    (\<forall>x \<in> set (bs @ [b]). tb_complete x \<and> ts_dropped_records (tb_summary x) = 0 \<and>
       (\<forall>r \<in> set (tb_records x). \<not> tr_message_truncated r) \<and>
       (\<forall>f \<in> set (tb_frames x). tf_crc_valid f \<and> tf_decode_error f = None) \<and>
       (\<forall>a \<in> set (tb_applications x). ta_decode_error a = None)) \<and>
    accounted link_key_of frame_lines pending_lines (filter is_line records) frames (d_links d) \<and>
    accounted transport_key_of app_segments pending_segments (filter user_data frames) applications (d_transports d) \<and>
    (ts_state (tb_summary b) = ''STOPPED'' \<and> ts_queued_records (tb_summary b) = 0 \<longrightarrow>
       d_links d = [] \<and> d_transports d = [] \<and>
       (\<exists>gs. list_all2 frame_lines gs frames \<and> mset (concat gs) = mset (filter is_line records)) \<and>
       (\<exists>gs. list_all2 app_segments gs applications \<and> mset (concat gs) = mset (filter user_data frames)))"
proof -
  have l: "d_issues d = []"
    "d_last_sequence d = ts_last_sequence (tb_summary b) - ts_queued_records (tb_summary b)"
    using trace_run_last [OF assms(1)] assms(2) by simp_all
  have re: "reassembled records frames applications d"
    and last: "ts_state (tb_summary b) = ''STOPPED'' \<and> ts_queued_records (tb_summary b) = 0 \<longrightarrow> d_links d = [] \<and> d_transports d = []"
    using trace_run_reassembled [OF assms(1) l(1)] by (simp_all add: records_def frames_def applications_def)
  show ?thesis
    using trace_run_clean [OF assms(1) l(1)] re last drained_run [OF re]
    unfolding l(2) batch_clean_def records_def reassembled_def by blast
qed

theorem complete_run_lossless_witness:
  "\<exists>b d gs. trace_run ([] @ [b]) d \<and> tb_complete b \<and> length (tb_frames b) = 1 \<and>
     list_all2 frame_lines gs (tb_frames b) \<and> mset (concat gs) = mset (filter is_line (tb_records b))"
proof -
  define s where "s = sample_summary (length (sample_lines sample_wire))"
  obtain b d where b: "decode_batch reset (PDict (batch_dict s (sample_lines sample_wire))) = (Inr b, d)"
    "length (tb_frames b) = 1" "tb_complete b"
    using sample_wire_run unfolding s_def by blast
  have run: "trace_run ([] @ [b]) d" by (rule trace_run.accepted [OF trace_run.start b(1)])
  have "tb_summary b = s"
    using decode_batch_accepted [OF b(1)] parse_frame_batch [OF sample_wire_records(1) sample_summary_ok [OF sample_wire_records(2)] sample_wire_records(2)]
    unfolding s_def by (metis Inr_inject fst_conv)
  then have "ts_state (tb_summary b) = ''STOPPED''" "ts_queued_records (tb_summary b) = 0"
    by (simp_all add: s_def sample_summary_def)
  then show ?thesis using complete_run_lossless [OF run b(3)] run b by auto
qed

end
