(* ===== verification/PyText.thy ===== *)
theory PyText
  imports PyVal
begin

text \<open>
  Text operations of the standard library on UTF-8 encoded strings: code points, white space,
  \<open>strip\<close>, \<open>lower\<close> on ASCII letters, and \<open>re.fullmatch\<close> of the character-class patterns the
  sources use.
\<close>

section \<open>Code points\<close>

definition utf8_width :: "char \<Rightarrow> nat" where
  "utf8_width c = (let n = (of_char c :: nat) in
     if n < 0xC0 then 1 else if n < 0xE0 then 2 else if n < 0xF0 then 3 else 4)"

lemma utf8_width_pos [simp]: "0 < utf8_width c"
  by (simp add: utf8_width_def Let_def)

function code_points :: "string \<Rightarrow> string list" where
  "code_points [] = []"
| "code_points (c # cs) = take (utf8_width c) (c # cs) # code_points (drop (utf8_width c) (c # cs))"
  by pat_completeness auto
termination by (relation "measure length") auto

lemma concat_code_points [simp]: "concat (code_points s) = s"
  by (induction s rule: code_points.induct) simp_all

text \<open>The code points \<open>str.isspace\<close> accepts, in UTF-8.\<close>

definition is_space :: "string \<Rightarrow> bool" where
  "is_space p \<longleftrightarrow> (case map of_char p :: nat list of
      [n] \<Rightarrow> 9 \<le> n \<and> n \<le> 13 \<or> 0x1C \<le> n \<and> n \<le> 0x20
    | [m, n] \<Rightarrow> m = 0xC2 \<and> (n = 0x85 \<or> n = 0xA0)
    | [m, n, k] \<Rightarrow> (m, n, k) = (0xE1, 0x9A, 0x80) \<or>
        m = 0xE2 \<and> n = 0x80 \<and> (0x80 \<le> k \<and> k \<le> 0x8A \<or> k = 0xA8 \<or> k = 0xA9 \<or> k = 0xAF) \<or>
        (m, n, k) = (0xE2, 0x81, 0x9F) \<or> (m, n, k) = (0xE3, 0x80, 0x80)
    | _ \<Rightarrow> False)"

definition strip :: "string \<Rightarrow> string" where
  "strip s = concat (rev (dropWhile is_space (rev (dropWhile is_space (code_points s)))))"

definition str_len :: "string \<Rightarrow> nat" where
  "str_len s = length (code_points s)"

section \<open>ASCII classes\<close>

definition code_in :: "char \<Rightarrow> nat \<Rightarrow> nat \<Rightarrow> bool" where
  "code_in c lo hi \<longleftrightarrow> lo \<le> of_char c \<and> of_char c \<le> hi"

definition is_alnum :: "char \<Rightarrow> bool" where
  "is_alnum c \<longleftrightarrow> code_in c 48 57 \<or> code_in c 65 90 \<or> code_in c 97 122"

definition is_lower_hex :: "char \<Rightarrow> bool" where
  "is_lower_hex c \<longleftrightarrow> code_in c 48 57 \<or> code_in c 97 102"

definition hex_digit_lower :: "nat \<Rightarrow> char" where
  "hex_digit_lower n = (if n < 10 then char_of (48 + n) else char_of (87 + n))"

definition lower_char :: "char \<Rightarrow> char" where
  "lower_char c = (if code_in c 65 90 then char_of (of_char c + (32 :: nat)) else c)"

definition ascii_lower :: "string \<Rightarrow> string" where
  "ascii_lower = map lower_char"

text \<open>\<open>re.fullmatch(r"[class]{lo,hi}", s)\<close> for a class of ASCII characters\<close>

definition class_match :: "(char \<Rightarrow> bool) \<Rightarrow> nat \<Rightarrow> nat \<Rightarrow> string \<Rightarrow> bool" where
  "class_match C lo hi s \<longleftrightarrow> lo \<le> length s \<and> length s \<le> hi \<and> list_all C s"

lemma is_lower_hex_digit [simp]: "n < 16 \<Longrightarrow> is_lower_hex (hex_digit_lower n)"
  by (auto simp: hex_digit_lower_def is_lower_hex_def code_in_def)

lemma is_lower_hex_lower: "is_hex c \<Longrightarrow> is_lower_hex (lower_char c)"
  by (auto simp: lower_char_def is_hex_def hex_value_def is_lower_hex_def code_in_def Let_def split: if_splits)

lemma lower_hex_match: "class_match is_hex n m s \<Longrightarrow> class_match is_lower_hex n m (ascii_lower s)"
  by (simp add: class_match_def ascii_lower_def list_all_iff is_lower_hex_lower)

lemma lower_char_id: "is_lower_hex c \<Longrightarrow> lower_char c = c"
  by (auto simp: lower_char_def is_lower_hex_def code_in_def)

lemma ascii_lower_id: "list_all is_lower_hex s \<Longrightarrow> ascii_lower s = s"
  by (induction s) (simp_all add: ascii_lower_def lower_char_id)

end
