(* ===== verification/Json.thy ===== *)
theory Json
  imports PyText
begin

text \<open>
  JSON as the sources use it through the standard library: \<open>json.dumps\<close> with
  \<open>ensure_ascii=False\<close>, \<open>allow_nan=False\<close>, compact separators and optionally \<open>sort_keys\<close>, and
  \<open>json.loads\<close> with the hooks \<open>_reject_duplicate_keys\<close> and \<open>_reject_non_finite\<close>, which raise at the
  first repeated key of an object and at the constants \<open>NaN\<close>, \<open>Infinity\<close> and \<open>-Infinity\<close>.

  The text of a finite float (\<open>float.__repr__\<close>) is a parameter. A number with fraction or exponent is
  read with correct rounding to binary64, so it may become infinite. Integers of more than 4300
  digits are refused, the default limit of the interpreter. A lone surrogate escape is kept in the
  generalized three-octet form.
\<close>

section \<open>Writing\<close>

definition esc_char :: "char \<Rightarrow> string" where
  "esc_char c = (let n = (of_char c :: nat) in
     if n = 34 then [CHR 0x5C, CHR 0x22]
     else if n = 92 then [CHR 0x5C, CHR 0x5C]
     else if n = 10 then [CHR 0x5C, CHR ''n'']
     else if n = 13 then [CHR 0x5C, CHR ''r'']
     else if n = 9 then [CHR 0x5C, CHR ''t'']
     else if n = 12 then [CHR 0x5C, CHR ''f'']
     else if n = 8 then [CHR 0x5C, CHR ''b'']
     else if n < 32 then [CHR 0x5C, CHR ''u'', CHR ''0'', CHR ''0'', hex_digit_lower (n div 16), hex_digit_lower (n mod 16)]
     else [c])"

definition json_string :: "string \<Rightarrow> string" where
  "json_string s = CHR 0x22 # concat (map esc_char s) @ [CHR 0x22]"

fun json_text :: "(rat \<Rightarrow> string) \<Rightarrow> pyval \<Rightarrow> string"
  and json_texts :: "(rat \<Rightarrow> string) \<Rightarrow> pyval list \<Rightarrow> string list"
  and json_pairs :: "(rat \<Rightarrow> string) \<Rightarrow> (string \<times> pyval) list \<Rightarrow> string list"
where
  "json_text r PNone = ''null''"
| "json_text r (PBool b) = (if b then ''true'' else ''false'')"
| "json_text r (PInt i) = str_int i"
| "json_text r (PFloat f) = (case f of Fin q \<Rightarrow> r q | PosInf \<Rightarrow> ''Infinity'' | NegInf \<Rightarrow> ''-Infinity'' | NaN \<Rightarrow> ''NaN'')"
| "json_text r (PStr s) = json_string s"
| "json_text r (PList vs) = ''['' @ join '','' (json_texts r vs) @ '']''"
| "json_text r (PDict kvs) = ''{'' @ join '','' (json_pairs r kvs) @ ''}''"
| "json_texts r [] = []"
| "json_texts r (v # vs) = json_text r v # json_texts r vs"
| "json_pairs r [] = []"
| "json_pairs r ((k, v) # kvs) = (json_string k @ '':'' @ json_text r v) # json_pairs r kvs"

text \<open>With \<open>allow_nan=False\<close> a value with a non-finite float raises \<open>ValueError\<close>.\<close>

fun json_finite :: "pyval \<Rightarrow> bool" where
  "json_finite (PFloat f) = (case f of Fin q \<Rightarrow> True | _ \<Rightarrow> False)"
| "json_finite (PList vs) = list_all json_finite vs"
| "json_finite (PDict kvs) = list_all (\<lambda>(k, v). json_finite v) kvs"
| "json_finite _ = True"

definition json_dumps :: "(rat \<Rightarrow> string) \<Rightarrow> pyval \<Rightarrow> pyexc + string" where
  "json_dumps r v = (if json_finite v then Inr (json_text r v)
     else Inl (ValueError ''Out of range float values are not JSON compliant''))"

text \<open>\<open>sort_keys=True\<close>\<close>

fun sort_keys :: "pyval \<Rightarrow> pyval" where
  "sort_keys (PList vs) = PList (map sort_keys vs)"
| "sort_keys (PDict kvs) = PDict (sort_key fst (map (\<lambda>(k, v). (k, sort_keys v)) kvs))"
| "sort_keys v = v"

section \<open>Reading\<close>

datatype json_exc = Json_Duplicate string | Json_Constant string | Json_Invalid | Json_Fuel

definition is_json_ws :: "char \<Rightarrow> bool" where
  "is_json_ws c \<longleftrightarrow> (of_char c :: nat) \<in> set [32, 9, 10, 13]"

definition skip_ws :: "string \<Rightarrow> string" where
  "skip_ws = dropWhile is_json_ws"

definition is_dec :: "char \<Rightarrow> bool" where
  "is_dec c \<longleftrightarrow> code_in c 48 57"

definition dec_value :: "string \<Rightarrow> nat" where
  "dec_value ds = foldl (\<lambda>n c. 10 * n + (of_char c - 48)) 0 ds"

definition utf8_encode :: "nat \<Rightarrow> string" where
  "utf8_encode n = map char_of
     (if n < 0x80 then [n]
      else if n < 0x800 then [0xC0 + n div 64, 0x80 + n mod 64]
      else if n < 0x10000 then [0xE0 + n div 4096, 0x80 + n div 64 mod 64, 0x80 + n mod 64]
      else [0xF0 + n div 262144, 0x80 + n div 4096 mod 64, 0x80 + n div 64 mod 64, 0x80 + n mod 64])"

fun hex4 :: "string \<Rightarrow> (nat \<times> string) option" where
  "hex4 (a # b # c # d # r) = (case (hex_value a, hex_value b, hex_value c, hex_value d) of
     (Some i, Some j, Some k, Some l) \<Rightarrow> Some (4096 * i + 256 * j + 16 * k + l, r)
   | _ \<Rightarrow> None)"
| "hex4 _ = None"

text \<open>The four digits after \<open>\u\<close>, and a second escape when the first is a high surrogate.\<close>

fun second_escape :: "string \<Rightarrow> (nat \<times> string) option" where
  "second_escape (a # b # s) = (if a = CHR 0x5C \<and> b = CHR ''u'' then hex4 s else None)"
| "second_escape _ = None"

definition unicode_escape :: "string \<Rightarrow> (nat \<times> string) option" where
  "unicode_escape s = (case hex4 s of None \<Rightarrow> None
    | Some (n, r) \<Rightarrow>
        if 0xD800 \<le> n \<and> n \<le> 0xDBFF
        then (case second_escape r of
            Some (m, r') \<Rightarrow> if 0xDC00 \<le> m \<and> m \<le> 0xDFFF
              then Some (0x10000 + 1024 * (n - 0xD800) + (m - 0xDC00), r') else Some (n, r)
          | None \<Rightarrow> Some (n, r))
        else Some (n, r))"

definition simple_escape :: "char \<Rightarrow> char option" where
  "simple_escape c = map_of [(CHR 0x22, CHR 0x22), (CHR 0x5C, CHR 0x5C), (CHR ''/'', CHR ''/''), (CHR ''b'', CHR 0x08),
     (CHR ''f'', CHR 0x0C), (CHR ''n'', CHR 0x0A), (CHR ''r'', CHR 0x0D), (CHR ''t'', CHR 0x09)] c"

lemma hex4_length: "hex4 s = Some (n, r) \<Longrightarrow> length r < length s"
  by (induction s rule: hex4.induct) (auto split: option.splits)

lemma second_escape_length: "second_escape s = Some (n, r) \<Longrightarrow> length r < length s"
  by (cases s rule: second_escape.cases) (auto split: if_splits dest: hex4_length)

lemma unicode_escape_length: "unicode_escape s = Some (n, r) \<Longrightarrow> length r < length s"
  using hex4_length less_trans [OF second_escape_length hex4_length]
  by (fastforce simp: unicode_escape_def split: option.splits if_splits)

text \<open>The rest of a string after its opening quote: the decoded text and what follows the closing one.\<close>

definition push :: "string \<Rightarrow> (string \<times> string) option \<Rightarrow> (string \<times> string) option" where
  "push p m = map_option (\<lambda>(t, r). (p @ t, r)) m"

function (sequential) json_str :: "string \<Rightarrow> (string \<times> string) option" where
  "json_str [] = None"
| "json_str (c # cs) =
     (if c = CHR 0x22 then Some ([], cs)
      else if c = CHR 0x5C then
        (case cs of [] \<Rightarrow> None
         | e # es \<Rightarrow>
             if e = CHR ''u'' then (case unicode_escape es of None \<Rightarrow> None | Some (n, r) \<Rightarrow> push (utf8_encode n) (json_str r))
             else (case simple_escape e of None \<Rightarrow> None | Some d \<Rightarrow> push [d] (json_str es)))
      else if (of_char c :: nat) < 32 then None
      else push [c] (json_str cs))"
  by pat_completeness auto
termination
  by (relation "measure length") (auto dest: unicode_escape_length)

lemma json_str_length: "json_str s = Some (t, r) \<Longrightarrow> length r < length s"
proof (induction s arbitrary: t r rule: json_str.induct)
  case (2 c cs)
  then show ?case
    by (fastforce simp: push_def split: if_splits list.splits option.splits dest: unicode_escape_length)
qed simp

section \<open>Numbers\<close>

definition json_int :: "string \<Rightarrow> (bool \<times> string \<times> string) option" where
  "json_int s =
     (let neg = (case s of c # _ \<Rightarrow> c = CHR ''-'' | [] \<Rightarrow> False); s' = (if neg then tl s else s) in
      case s' of [] \<Rightarrow> None
      | c # cs \<Rightarrow> if c = CHR ''0'' then Some (neg, [c], cs)
          else if is_dec c then Some (neg, takeWhile is_dec s', dropWhile is_dec s') else None)"

definition json_frac :: "string \<Rightarrow> string \<times> string" where
  "json_frac s = (case s of c # cs \<Rightarrow>
      if c = CHR ''.'' \<and> takeWhile is_dec cs \<noteq> [] then (takeWhile is_dec cs, dropWhile is_dec cs) else ([], s)
    | [] \<Rightarrow> ([], s))"

definition json_exp :: "string \<Rightarrow> (bool \<times> string) \<times> string" where
  "json_exp s = (case s of c # cs \<Rightarrow>
      if c = CHR ''e'' \<or> c = CHR ''E'' then
        (let signed = (case cs of d # _ \<Rightarrow> d = CHR ''-'' \<or> d = CHR ''+'' | [] \<Rightarrow> False);
             neg = (case cs of d # _ \<Rightarrow> d = CHR ''-'' | [] \<Rightarrow> False);
             ds = (if signed then tl cs else cs) in
         if takeWhile is_dec ds \<noteq> [] then ((neg, takeWhile is_dec ds), dropWhile is_dec ds) else ((False, []), s))
      else ((False, []), s)
    | [] \<Rightarrow> ((False, []), s))"

definition MAX_INT_DIGITS :: nat where
  "MAX_INT_DIGITS = 4300"

definition json_number :: "string \<Rightarrow> json_exc + (pyval \<times> string)" where
  "json_number s = (case json_int s of None \<Rightarrow> Inl Json_Invalid
    | Some (neg, ds, r) \<Rightarrow>
        let (fs, r1) = json_frac r; ((eneg, es), r2) = json_exp r1 in
        if fs = [] \<and> es = [] then
          (if length ds > MAX_INT_DIGITS then Inl Json_Invalid
           else Inr (PInt (if neg then - int (dec_value ds) else int (dec_value ds)), r2))
        else
          (let m = (of_nat (dec_value (ds @ fs)) :: rat) / 10 ^ length fs; e = dec_value es;
               q = (if eneg then m / 10 ^ e else m * 10 ^ e) in
           Inr (PFloat (binary64 (if neg then - q else q)), r2)))"

section \<open>Values\<close>

definition starts :: "string \<Rightarrow> string \<Rightarrow> bool" where
  "starts p s \<longleftrightarrow> take (length p) s = p"

text \<open>The loop of the hook: the keys seen so far, and the first one that comes again.\<close>

fun first_duplicate :: "string list \<Rightarrow> string list \<Rightarrow> string option" where
  "first_duplicate seen [] = None"
| "first_duplicate seen (k # ks) = (if k \<in> set seen then Some k else first_duplicate (k # seen) ks)"

definition reject_duplicate_keys :: "(string \<times> pyval) list \<Rightarrow> json_exc + pyval" where
  "reject_duplicate_keys pairs = (case first_duplicate [] (map fst pairs) of
     Some k \<Rightarrow> Inl (Json_Duplicate k) | None \<Rightarrow> Inr (PDict pairs))"

definition json_atom :: "string \<Rightarrow> json_exc + (pyval \<times> string)" where
  "json_atom s =
     (if starts ''null'' s then Inr (PNone, drop 4 s)
      else if starts ''true'' s then Inr (PBool True, drop 4 s)
      else if starts ''false'' s then Inr (PBool False, drop 5 s)
      else if starts ''NaN'' s then Inl (Json_Constant ''NaN'')
      else if starts ''Infinity'' s then Inl (Json_Constant ''Infinity'')
      else if starts ''-Infinity'' s then Inl (Json_Constant ''-Infinity'')
      else json_number s)"

fun json_value :: "nat \<Rightarrow> string \<Rightarrow> json_exc + (pyval \<times> string)"
  and json_elements :: "nat \<Rightarrow> string \<Rightarrow> json_exc + (pyval list \<times> string)"
  and json_members :: "nat \<Rightarrow> string \<Rightarrow> json_exc + ((string \<times> pyval) list \<times> string)"
where
  "json_value 0 s = Inl Json_Fuel"
| "json_value (Suc n) s = (case s of [] \<Rightarrow> Inl Json_Invalid
    | c # cs \<Rightarrow>
        if c = CHR 0x22 then (case json_str cs of None \<Rightarrow> Inl Json_Invalid | Some (t, r) \<Rightarrow> Inr (PStr t, r))
        else if c = CHR ''{'' then
          (case skip_ws cs of [] \<Rightarrow> Inl Json_Invalid
           | d # r \<Rightarrow> if d = CHR ''}'' then Inr (PDict [], r)
               else bindE (json_members n (d # r)) (\<lambda>(kvs, r'). bindE (reject_duplicate_keys kvs) (\<lambda>v. Inr (v, r'))))
        else if c = CHR ''['' then
          (case skip_ws cs of [] \<Rightarrow> Inl Json_Invalid
           | d # r \<Rightarrow> if d = CHR '']'' then Inr (PList [], r)
               else bindE (json_elements n (d # r)) (\<lambda>(vs, r'). Inr (PList vs, r')))
        else json_atom s)"
| "json_elements 0 s = Inl Json_Fuel"
| "json_elements (Suc n) s = bindE (json_value n s) (\<lambda>(v, r). case skip_ws r of [] \<Rightarrow> Inl Json_Invalid
    | d # r' \<Rightarrow> if d = CHR '']'' then Inr ([v], r')
        else if d = CHR '','' then bindE (json_elements n (skip_ws r')) (\<lambda>(vs, r''). Inr (v # vs, r''))
        else Inl Json_Invalid)"
| "json_members 0 s = Inl Json_Fuel"
| "json_members (Suc n) s = (case s of [] \<Rightarrow> Inl Json_Invalid
    | c # cs \<Rightarrow> if c \<noteq> CHR 0x22 then Inl Json_Invalid
        else (case json_str cs of None \<Rightarrow> Inl Json_Invalid
          | Some (k, r) \<Rightarrow> (case skip_ws r of [] \<Rightarrow> Inl Json_Invalid
              | d # r' \<Rightarrow> if d \<noteq> CHR '':'' then Inl Json_Invalid
                  else bindE (json_value n (skip_ws r')) (\<lambda>(v, r2). case skip_ws r2 of [] \<Rightarrow> Inl Json_Invalid
                    | d2 # r3 \<Rightarrow> if d2 = CHR ''}'' then Inr ([(k, v)], r3)
                        else if d2 = CHR '','' then bindE (json_members n (skip_ws r3)) (\<lambda>(kvs, r4). Inr ((k, v) # kvs, r4))
                        else Inl Json_Invalid))))"

text \<open>\<open>json.loads\<close>; the fuel is enough for every text (\<open>json_loads_total\<close> below).\<close>

definition json_loads :: "string \<Rightarrow> json_exc + pyval" where
  "json_loads s = bindE (json_value (2 * length s + 1) (skip_ws s)) (\<lambda>(v, r).
     if skip_ws r = [] then Inr v else Inl Json_Invalid)"

section \<open>Every text is decided\<close>

lemma bindE_eq_Inl: "bindE m f = Inl e \<longleftrightarrow> m = Inl e \<or> (\<exists>x. m = Inr x \<and> f x = Inl e)"
  by (auto simp: bindE_def split: sum.splits)

lemma skip_ws_length: "length (skip_ws s) \<le> length s"
  by (simp add: skip_ws_def length_dropWhile_le)

lemma skip_ws_Cons_length: "skip_ws s = d # r \<Longrightarrow> length r < length s"
  using skip_ws_length [of s] by simp

lemma json_int_length: "json_int s = Some (neg, ds, r) \<Longrightarrow> length r < length s"
  unfolding json_int_def Let_def
  by (auto split: list.splits if_splits intro!: le_imp_less_Suc le_SucI length_dropWhile_le)

lemma json_frac_length: "json_frac s = (fs, r) \<Longrightarrow> length r \<le> length s"
  by (auto simp: json_frac_def split: list.splits if_splits intro: le_SucI length_dropWhile_le)

lemma json_exp_length: "json_exp s = (e, r) \<Longrightarrow> length r \<le> length s"
  by (auto simp: json_exp_def Let_def split: list.splits if_splits intro: le_SucI length_dropWhile_le)

lemma json_number_length: "json_number s = Inr (v, r) \<Longrightarrow> length r < length s"
  by (auto simp: json_number_def Let_def split: option.splits prod.splits if_splits
      dest!: json_int_length json_frac_length json_exp_length)

lemma json_atom_length: "json_atom s = Inr (v, r) \<Longrightarrow> length r < length s"
  by (auto simp: json_atom_def starts_def split: if_splits dest: json_number_length) (cases s; force)+

lemma json_atom_not_fuel: "json_atom s \<noteq> Inl Json_Fuel"
  by (auto simp: json_atom_def json_number_def Let_def split: option.splits prod.splits)

lemma first_duplicate_None: "first_duplicate seen ks = None \<longleftrightarrow> distinct ks \<and> set ks \<inter> set seen = {}"
  by (induction ks arbitrary: seen) auto

lemma reject_duplicate_keys_Inr: "reject_duplicate_keys kvs = Inr v \<longleftrightarrow> distinct (map fst kvs) \<and> v = PDict kvs"
  by (auto simp: reject_duplicate_keys_def first_duplicate_None split: option.splits dest: sym)
    (metis first_duplicate_None option.simps(3) set_empty inf_bot_right empty_set)

lemma json_value_cases:
  assumes "json_value (Suc n) s = Inr (v, r)"
  obtains (str) cs t where "s = CHR 0x22 # cs" "json_str cs = Some (t, r)" "v = PStr t"
  | (no_members) cs where "s = CHR ''{'' # cs" "skip_ws cs = CHR ''}'' # r" "v = PDict []"
  | (members) cs kvs where "s = CHR ''{'' # cs" "json_members n (skip_ws cs) = Inr (kvs, r)" "distinct (map fst kvs)" "v = PDict kvs"
  | (no_elements) cs where "s = CHR ''['' # cs" "skip_ws cs = CHR '']'' # r" "v = PList []"
  | (elements) cs vs where "s = CHR ''['' # cs" "json_elements n (skip_ws cs) = Inr (vs, r)" "v = PList vs"
  | (atom) "json_atom s = Inr (v, r)"
proof (cases s)
  case Nil
  then show thesis using assms by simp
next
  case (Cons c cs)
  consider "c = CHR 0x22" | "c = CHR ''{''" | "c = CHR ''[''" | "c \<noteq> CHR 0x22" "c \<noteq> CHR ''{''" "c \<noteq> CHR ''[''" by blast
  then show thesis
  proof cases
    case 1
    then show thesis using assms Cons str by (auto split: option.splits)
  next
    case 2
    show thesis
    proof (cases "skip_ws cs")
      case (Cons d q)
      then show thesis using assms \<open>s = c # cs\<close> 2 no_members members
        by (auto simp: bindE_eq_Inr reject_duplicate_keys_Inr split: if_splits)
    qed (use assms Cons 2 in simp)
  next
    case 3
    show thesis
    proof (cases "skip_ws cs")
      case (Cons d q)
      then show thesis using assms \<open>s = c # cs\<close> 3 no_elements elements
        by (auto simp: bindE_eq_Inr split: if_splits)
    qed (use assms Cons 3 in simp)
  next
    case 4
    then show thesis using assms Cons atom by simp
  qed
qed

lemma json_elements_cases:
  assumes "json_elements (Suc n) s = Inr (vs, r)"
  obtains (last) v q where "json_value n s = Inr (v, q)" "skip_ws q = CHR '']'' # r" "vs = [v]"
  | (more) v q q' ws where "json_value n s = Inr (v, q)" "skip_ws q = CHR '','' # q'"
      "json_elements n (skip_ws q') = Inr (ws, r)" "vs = v # ws"
proof -
  obtain v q where v: "json_value n s = Inr (v, q)" using assms by (auto simp: bindE_eq_Inr)
  show thesis
    using assms v last more by (cases "skip_ws q") (auto simp: bindE_eq_Inr split: if_splits)
qed

lemma json_members_cases:
  assumes "json_members (Suc n) s = Inr (kvs, r)"
  obtains (last) cs k q q1 v q2 where "s = CHR 0x22 # cs" "json_str cs = Some (k, q)" "skip_ws q = CHR '':'' # q1"
      "json_value n (skip_ws q1) = Inr (v, q2)" "skip_ws q2 = CHR ''}'' # r" "kvs = [(k, v)]"
  | (more) cs k q q1 v q2 q3 ws where "s = CHR 0x22 # cs" "json_str cs = Some (k, q)" "skip_ws q = CHR '':'' # q1"
      "json_value n (skip_ws q1) = Inr (v, q2)" "skip_ws q2 = CHR '','' # q3"
      "json_members n (skip_ws q3) = Inr (ws, r)" "kvs = (k, v) # ws"
proof -
  obtain cs where s: "s = CHR 0x22 # cs" using assms by (auto split: list.splits if_splits)
  obtain k q where k: "json_str cs = Some (k, q)" using assms s by (auto split: option.splits)
  obtain q1 where q1: "skip_ws q = CHR '':'' # q1" using assms s k by (auto split: list.splits if_splits)
  obtain v q2 where v: "json_value n (skip_ws q1) = Inr (v, q2)" using assms s k q1 by (auto simp: bindE_eq_Inr)
  show thesis
    using assms s k q1 v last more by (cases "skip_ws q2") (auto simp: bindE_eq_Inr split: if_splits)
qed

lemma json_length:
  "(json_value n s = Inr (v, r) \<longrightarrow> length r < length s) \<and>
   (json_elements n s = Inr (vs, r) \<longrightarrow> length r < length s) \<and>
   (json_members n s = Inr (kvs, r) \<longrightarrow> length r < length s)"
proof (induction n arbitrary: s v r vs kvs)
  case (Suc n)
  have value_less: "length r < length s" if "json_value n s = Inr (v, r)" for s v r using Suc that by blast
  have elements_less: "length r < length s" if "json_elements n s = Inr (v, r)" for s v r using Suc that by blast
  have members_less: "length r < length s" if "json_members n s = Inr (v, r)" for s v r using Suc that by blast
  have ws: "length (skip_ws s) \<le> length s" for s by (rule skip_ws_length)
  have "length r < length s" if "json_value (Suc n) s = Inr (v, r)"
    using that
  proof (cases rule: json_value_cases)
    case (members cs kvs)
    then show ?thesis using members_less [OF members(2)] ws [of cs] by simp
  next
    case (elements cs vs)
    then show ?thesis using elements_less [OF elements(2)] ws [of cs] by simp
  next
    case (str cs t)
    then show ?thesis using json_str_length [OF str(2)] by simp
  next
    case (atom)
    then show ?thesis by (rule json_atom_length)
  qed (simp_all add: skip_ws_Cons_length less_SucI)
  moreover have "length r < length s" if "json_elements (Suc n) s = Inr (vs, r)"
    using that
  proof (cases rule: json_elements_cases)
    case (last v q)
    then show ?thesis using value_less [OF last(1)] skip_ws_Cons_length [OF last(2)] by simp
  next
    case (more v q q' ws')
    then show ?thesis
      using value_less [OF more(1)] skip_ws_Cons_length [OF more(2)] elements_less [OF more(3)] ws [of q'] by simp
  qed
  moreover have "length r < length s" if "json_members (Suc n) s = Inr (kvs, r)"
    using that
  proof (cases rule: json_members_cases)
    case (last cs k q q1 v q2)
    then show ?thesis using json_str_length [OF last(2)] skip_ws_Cons_length [OF last(3)] value_less [OF last(4)]
      ws [of q1] skip_ws_Cons_length [OF last(5)] by simp
  next
    case (more cs k q q1 v q2 q3 ws')
    then show ?thesis using json_str_length [OF more(2)] skip_ws_Cons_length [OF more(3)] value_less [OF more(4)]
      ws [of q1] skip_ws_Cons_length [OF more(5)] members_less [OF more(6)] ws [of q3] by simp
  qed
  ultimately show ?case by blast
qed simp

lemma json_value_length: "json_value n s = Inr (v, r) \<Longrightarrow> length r < length s"
  using json_length by blast

text \<open>The hook sees every object, nested ones too: no object of a decoded value repeats a key.\<close>

fun unique_keys :: "pyval \<Rightarrow> bool" where
  "unique_keys (PList vs) = (\<forall>v \<in> set vs. unique_keys v)"
| "unique_keys (PDict kvs) = (distinct (map fst kvs) \<and> (\<forall>v \<in> snd ` set kvs. unique_keys v))"
| "unique_keys _ = True"

lemma json_atom_unique: "json_atom s = Inr (v, r) \<Longrightarrow> unique_keys v"
  by (auto simp: json_atom_def json_number_def Let_def split: if_splits option.splits prod.splits)

lemma json_unique:
  "(json_value n s = Inr (v, r) \<longrightarrow> unique_keys v) \<and>
   (json_elements n s = Inr (vs, r) \<longrightarrow> (\<forall>v \<in> set vs. unique_keys v)) \<and>
   (json_members n s = Inr (kvs, r) \<longrightarrow> (\<forall>v \<in> snd ` set kvs. unique_keys v))"
proof (induction n arbitrary: s v r vs kvs)
  case (Suc n)
  have item: "unique_keys v" if "json_value n s = Inr (v, r)" for s v r using Suc that by blast
  have elements: "\<forall>v \<in> set vs. unique_keys v" if "json_elements n s = Inr (vs, r)" for s vs r using Suc that by blast
  have members: "\<forall>v \<in> snd ` set kvs. unique_keys v" if "json_members n s = Inr (kvs, r)" for s kvs r using Suc that by blast
  have "unique_keys v" if "json_value (Suc n) s = Inr (v, r)"
    using that by (cases rule: json_value_cases) (use members elements json_atom_unique in auto)
  moreover have "\<forall>v \<in> set vs. unique_keys v" if "json_elements (Suc n) s = Inr (vs, r)"
    using that by (cases rule: json_elements_cases) (use item elements in auto)
  moreover have "\<forall>v \<in> snd ` set kvs. unique_keys v" if "json_members (Suc n) s = Inr (kvs, r)"
    using that by (cases rule: json_members_cases) (use item members in auto)
  ultimately show ?case by blast
qed simp

lemma loads_unique: "json_loads s = Inr v \<Longrightarrow> unique_keys v"
  by (auto simp: json_loads_def bindE_eq_Inr simp del: json_value.simps split: if_splits dest: json_unique [THEN conjunct1, THEN mp])

text \<open>With fuel for its length every text is decided: the parser never runs out.\<close>

lemma json_fuel:
  "(2 * length s + 1 \<le> n \<longrightarrow> json_value n s \<noteq> Inl Json_Fuel) \<and>
   (2 * length s + 2 \<le> n \<longrightarrow> json_elements n s \<noteq> Inl Json_Fuel \<and> json_members n s \<noteq> Inl Json_Fuel)"
proof (induction n arbitrary: s)
  case (Suc n)
  have value_ok: "json_value n s \<noteq> Inl Json_Fuel" if "2 * length s + 1 \<le> n" for s using Suc that by blast
  have elements_ok: "json_elements n s \<noteq> Inl Json_Fuel" "json_members n s \<noteq> Inl Json_Fuel" if "2 * length s + 2 \<le> n" for s
    using Suc that by blast+
  have dup: "reject_duplicate_keys kvs \<noteq> Inl Json_Fuel" for kvs
    by (auto simp: reject_duplicate_keys_def split: option.splits)
  have "json_value (Suc n) s \<noteq> Inl Json_Fuel" if fuel: "2 * length s + 1 \<le> Suc n"
  proof (cases s)
    case (Cons c cs)
    have len: "2 * length (d # q) + 2 \<le> n" if "skip_ws cs = d # q" for d q
      using that skip_ws_length [of cs] fuel Cons by simp
    show ?thesis
      using Cons elements_ok [OF len] dup
      by (auto split: option.splits list.splits if_splits simp: bindE_eq_Inl json_atom_not_fuel)
  qed simp
  moreover have "json_elements (Suc n) s \<noteq> Inl Json_Fuel" if fuel: "2 * length s + 2 \<le> Suc n"
  proof -
    have rest: "json_elements n (skip_ws q') \<noteq> Inl Json_Fuel" if "json_value n s = Inr (v, q)" "skip_ws q = d # q'" for v q d q'
      using elements_ok(1) [of "skip_ws q'"] skip_ws_length [of q'] json_value_length [OF that(1)] skip_ws_Cons_length [OF that(2)] fuel
      by simp
    show ?thesis
      using value_ok [of s] fuel rest by (auto split: list.splits if_splits simp: bindE_eq_Inl)
  qed
  moreover have "json_members (Suc n) s \<noteq> Inl Json_Fuel" if fuel: "2 * length s + 2 \<le> Suc n"
  proof (cases s)
    case (Cons c cs)
    have val: "json_value n (skip_ws q1) \<noteq> Inl Json_Fuel" if "json_str cs = Some (k, q)" "skip_ws q = d # q1" for k q d q1
      using value_ok [of "skip_ws q1"] skip_ws_length [of q1] json_str_length [OF that(1)] skip_ws_Cons_length [OF that(2)] fuel Cons by auto
    have rest: "json_members n (skip_ws q3) \<noteq> Inl Json_Fuel"
      if "json_str cs = Some (k, q)" "skip_ws q = d # q1" "json_value n (skip_ws q1) = Inr (v, q2)" "skip_ws q2 = d' # q3"
      for k q d q1 v q2 d' q3
      using elements_ok(2) [of "skip_ws q3"] skip_ws_length [of q1] skip_ws_length [of q3] json_str_length [OF that(1)]
        skip_ws_Cons_length [OF that(2)] skip_ws_Cons_length [OF that(4)] json_value_length [OF that(3)] fuel Cons
      by simp
    show ?thesis
      using Cons val rest by (auto split: option.splits list.splits if_splits simp: bindE_eq_Inl)
  qed simp
  ultimately show ?case by blast
qed simp

text \<open>
  The fuel that \<open>json_loads\<close> gives, twice the length of the text, is enough for every text: the
  answer is the value, the first violation a hook raises, or that the text is not JSON.
\<close>

lemma json_loads_total: "json_loads s \<noteq> Inl Json_Fuel"
  using json_fuel [of "skip_ws s" "2 * length s + 1"] skip_ws_length [of s]
  by (auto simp: json_loads_def bindE_def split: sum.splits prod.splits)

section \<open>The depth check\<close>

definition MAX_JSON_DEPTH :: int where
  "MAX_JSON_DEPTH = 64"

text \<open>
  \<open>_validate_json_depth\<close>: the loop over the structural characters, with the nesting depth, whether it
  is inside a string, and whether the character follows a backslash there; all other characters are
  passed over. \<open>False\<close> is the raised violation.
\<close>

fun depth_scan :: "int \<Rightarrow> bool \<Rightarrow> bool \<Rightarrow> string \<Rightarrow> bool" where
  "depth_scan depth inside escaped [] = True"
| "depth_scan depth inside escaped (c # cs) =
     (if escaped then depth_scan depth inside False cs
      else if inside then
        (if c = CHR 0x5C then depth_scan depth True True cs
         else if c = CHR 0x22 then depth_scan depth False False cs
         else depth_scan depth True False cs)
      else if c = CHR 0x22 then depth_scan depth True False cs
      else if c = CHR ''{'' \<or> c = CHR ''['' then
        (if depth + 1 > MAX_JSON_DEPTH then False else depth_scan (depth + 1) False False cs)
      else if c = CHR ''}'' \<or> c = CHR '']'' then depth_scan (depth - 1) False False cs
      else depth_scan depth False False cs)"

definition validate_json_depth :: "string \<Rightarrow> bool" where
  "validate_json_depth text = depth_scan 0 False False text"

text \<open>The nesting of a value: what a recursive consumer of it needs.\<close>

fun nesting :: "pyval \<Rightarrow> int" where
  "nesting (PList vs) = 1 + fold max (map nesting vs) 0"
| "nesting (PDict kvs) = 1 + fold max (map (\<lambda>(k, v). nesting v) kvs) 0"
| "nesting _ = 0"

lemma fold_max_le: "fold max (xs :: int list) a \<le> b \<longleftrightarrow> a \<le> b \<and> (\<forall>x \<in> set xs. x \<le> b)"
  by (induction xs arbitrary: a) auto

definition plain :: "char \<Rightarrow> bool" where
  "plain c \<longleftrightarrow> c \<notin> {CHR 0x22, CHR 0x5C, CHR ''{'', CHR ''['', CHR ''}'', CHR '']''}"

lemma scan_simps [simp]:
  "depth_scan d b True (c # cs) = depth_scan d b False cs"
  "plain c \<Longrightarrow> depth_scan d b False (c # cs) = depth_scan d b False cs"
  "depth_scan d False False (CHR 0x22 # cs) = depth_scan d True False cs"
  "depth_scan d True False (CHR 0x22 # cs) = depth_scan d False False cs"
  "depth_scan d True False (CHR 0x5C # cs) = depth_scan d True True cs"
  "depth_scan d False False (CHR ''{'' # cs) \<longleftrightarrow> d + 1 \<le> MAX_JSON_DEPTH \<and> depth_scan (d + 1) False False cs"
  "depth_scan d False False (CHR ''['' # cs) \<longleftrightarrow> d + 1 \<le> MAX_JSON_DEPTH \<and> depth_scan (d + 1) False False cs"
  "depth_scan d False False (CHR ''}'' # cs) = depth_scan (d - 1) False False cs"
  "depth_scan d False False (CHR '']'' # cs) = depth_scan (d - 1) False False cs"
  by (simp_all add: plain_def)

lemma scan_inside [simp]: "c \<noteq> CHR 0x22 \<Longrightarrow> c \<noteq> CHR 0x5C \<Longrightarrow> depth_scan d True False (c # cs) = depth_scan d True False cs"
  by simp

declare depth_scan.simps(2) [simp del]

lemma plain_ws: "is_json_ws c \<Longrightarrow> plain c" by (auto simp: is_json_ws_def plain_def)
lemma plain_dec: "is_dec c \<Longrightarrow> plain c" by (auto simp: is_dec_def code_in_def plain_def)
lemma plain_hex: "hex_value c = Some n \<Longrightarrow> plain c" by (auto simp: hex_value_def plain_def Let_def split: if_splits)

lemma scan_dropWhile: "(\<And>c. P c \<Longrightarrow> plain c) \<Longrightarrow> depth_scan d False False (dropWhile P s) = depth_scan d False False s"
  by (induction s) auto

lemma scan_skip_ws [simp]: "depth_scan d False False (skip_ws s) = depth_scan d False False s"
  unfolding skip_ws_def by (rule scan_dropWhile) (rule plain_ws)

lemma scan_digits [simp]: "depth_scan d False False (dropWhile is_dec s) = depth_scan d False False s"
  by (rule scan_dropWhile) (rule plain_dec)

lemma plain_chars [simp]: "plain (CHR ''-'')" "plain (CHR ''+'')" "plain (CHR ''.'')" "plain (CHR ''e'')" "plain (CHR ''E'')"
  "plain (CHR '','')" "plain (CHR '':'')" "plain (CHR ''0'')"
  by (simp_all add: plain_def)

lemma scan_hex4: "hex4 s = Some (n, r) \<Longrightarrow> depth_scan d True False s = depth_scan d True False r"
  by (cases s rule: hex4.cases) (auto simp: plain_hex split: option.splits)

lemma scan_second_escape: "second_escape s = Some (n, r) \<Longrightarrow> depth_scan d True False s = depth_scan d True False r"
  by (cases s rule: second_escape.cases) (auto split: if_splits simp: scan_hex4)

lemma unicode_escape_cases:
  assumes "unicode_escape s = Some (n, r)"
  obtains "hex4 s = Some (n, r)" | k q m where "hex4 s = Some (k, q)" "second_escape q = Some (m, r)"
  using assms by (auto simp: unicode_escape_def split: option.splits if_splits)

lemma scan_unicode_escape: "unicode_escape s = Some (n, r) \<Longrightarrow> depth_scan d True False s = depth_scan d True False r"
  by (erule unicode_escape_cases) (simp_all add: scan_hex4 scan_second_escape)

lemma scan_json_str: "json_str s = Some (t, r) \<Longrightarrow> depth_scan d True False s = depth_scan d False False r"
proof (induction s arbitrary: t r rule: json_str.induct)
  case (2 c cs)
  consider "c = CHR 0x22" | e es where "c = CHR 0x5C" "cs = e # es" | "c \<noteq> CHR 0x22" "c \<noteq> CHR 0x5C"
    using "2.prems" by (cases cs; cases "c = CHR 0x22"; cases "c = CHR 0x5C") simp_all
  then show ?case
  proof cases
    case 2
    show ?thesis
    proof (cases "e = CHR ''u''")
      case True
      then obtain n q where u: "unicode_escape es = Some (n, q)" using 2 "2.prems" by (auto split: option.splits)
      then obtain t' where "json_str q = Some (t', r)" using 2 "2.prems" True by (auto simp: push_def)
      then show ?thesis using "2.IH"(1) 2 True u scan_unicode_escape [OF u] by simp
    next
      case False
      then obtain x t' where "simple_escape e = Some x" "json_str es = Some (t', r)"
        using 2 "2.prems" by (auto simp: push_def split: option.splits)
      then show ?thesis using "2.IH"(2) 2 False by simp
    qed
  next
    case 3
    then show ?thesis using "2.prems" "2.IH"(3) by (auto simp: push_def split: if_splits)
  qed (use "2.prems" in simp)
qed simp

lemma scan_json_int: "json_int s = Some (neg, ds, r) \<Longrightarrow> depth_scan d False False s = depth_scan d False False r"
  unfolding json_int_def Let_def by (auto split: list.splits if_splits simp: plain_dec)

lemma scan_json_frac: "json_frac s = (fs, r) \<Longrightarrow> depth_scan d False False s = depth_scan d False False r"
  by (auto simp: json_frac_def plain_dec split: list.splits if_splits)

lemma scan_json_exp: "json_exp s = (e, r) \<Longrightarrow> depth_scan d False False s = depth_scan d False False r"
  by (auto simp: json_exp_def Let_def plain_dec split: list.splits if_splits)

lemma scan_json_number:
  "json_number s = Inr (v, r) \<Longrightarrow> nesting v = 0 \<and> depth_scan d False False s = depth_scan d False False r"
  by (auto simp: json_number_def Let_def scan_json_int scan_json_frac scan_json_exp
      split: option.splits prod.splits if_splits)

lemma starts_append: "starts p s \<longleftrightarrow> (\<exists>r. s = p @ r)"
  by (auto simp: starts_def) (metis append_take_drop_id)

lemma scan_word: "list_all plain p \<Longrightarrow> depth_scan d False False (p @ r) = depth_scan d False False r"
  by (induction p) simp_all

lemma scan_json_atom:
  assumes "json_atom s = Inr (v, r)"
  shows "nesting v = 0 \<and> depth_scan d False False s = depth_scan d False False r"
proof -
  have words: "list_all plain ''null''" "list_all plain ''true''" "list_all plain ''false''" by (simp_all add: plain_def)
  consider "s = ''null'' @ r" "v = PNone" | "s = ''true'' @ r" "v = PBool True" | "s = ''false'' @ r" "v = PBool False"
    | "json_number s = Inr (v, r)"
    using assms by (auto simp: json_atom_def starts_append split: if_splits)
  then show ?thesis by cases (use words in \<open>simp_all only: scan_word nesting.simps simp_thms scan_json_number\<close>)
qed

lemma fold_max_shift: "d + (1 + fold max xs 0) \<le> m \<longleftrightarrow> d + 1 \<le> m \<and> (\<forall>x \<in> set xs. d + 1 + x \<le> (m :: int))"
proof -
  have "d + (1 + fold max xs 0) \<le> m \<longleftrightarrow> fold max xs 0 \<le> m - d - 1" by linarith
  also have "\<dots> \<longleftrightarrow> 0 \<le> m - d - 1 \<and> (\<forall>x \<in> set xs. x \<le> m - d - 1)" by (rule fold_max_le)
  also have "\<dots> \<longleftrightarrow> d + 1 \<le> m \<and> (\<forall>x \<in> set xs. d + 1 + x \<le> m)" by (auto simp: algebra_simps)
  finally show ?thesis .
qed

lemma nesting_list: "d + nesting (PList vs) \<le> m \<longleftrightarrow> d + 1 \<le> m \<and> (\<forall>v \<in> set vs. d + 1 + nesting v \<le> m)"
  unfolding nesting.simps fold_max_shift by auto

lemma nesting_dict: "d + nesting (PDict kvs) \<le> m \<longleftrightarrow> d + 1 \<le> m \<and> (\<forall>v \<in> snd ` set kvs. d + 1 + nesting v \<le> m)"
  unfolding nesting.simps fold_max_shift by auto

declare nesting.simps(1,2) [simp del]

lemma scan_step: "skip_ws q = c # r \<Longrightarrow> depth_scan d False False q = depth_scan d False False (c # r)"
  using scan_skip_ws [of d q] by simp

lemma scan_parse:
  "(json_value n s = Inr (v, r) \<longrightarrow> d \<le> MAX_JSON_DEPTH \<longrightarrow>
      depth_scan d False False s = (d + nesting v \<le> MAX_JSON_DEPTH \<and> depth_scan d False False r)) \<and>
   (json_elements n s = Inr (vs, r) \<longrightarrow> d \<le> MAX_JSON_DEPTH \<longrightarrow>
      depth_scan d False False s = ((\<forall>v \<in> set vs. d + nesting v \<le> MAX_JSON_DEPTH) \<and> depth_scan (d - 1) False False r)) \<and>
   (json_members n s = Inr (kvs, r) \<longrightarrow> d \<le> MAX_JSON_DEPTH \<longrightarrow>
      depth_scan d False False s = ((\<forall>v \<in> snd ` set kvs. d + nesting v \<le> MAX_JSON_DEPTH) \<and> depth_scan (d - 1) False False r))"
proof (induction n arbitrary: s v r vs kvs d)
  case (Suc n)
  have val: "depth_scan d False False s = (d + nesting v \<le> MAX_JSON_DEPTH \<and> depth_scan d False False r)"
    if "json_value n s = Inr (v, r)" "d \<le> MAX_JSON_DEPTH" for s v r d using Suc that by blast
  have els: "depth_scan d False False s = ((\<forall>v \<in> set vs. d + nesting v \<le> MAX_JSON_DEPTH) \<and> depth_scan (d - 1) False False r)"
    if "json_elements n s = Inr (vs, r)" "d \<le> MAX_JSON_DEPTH" for s vs r d using Suc that by blast
  have mems: "depth_scan d False False s = ((\<forall>v \<in> snd ` set kvs. d + nesting v \<le> MAX_JSON_DEPTH) \<and> depth_scan (d - 1) False False r)"
    if "json_members n s = Inr (kvs, r)" "d \<le> MAX_JSON_DEPTH" for s kvs r d using Suc that by blast
  have "depth_scan d False False s = (d + nesting v \<le> MAX_JSON_DEPTH \<and> depth_scan d False False r)"
    if "json_value (Suc n) s = Inr (v, r)" and d: "d \<le> MAX_JSON_DEPTH"
    using that(1)
  proof (cases rule: json_value_cases)
    case (str cs t)
    then show ?thesis using d by (simp add: scan_json_str)
  next
    case (no_members cs)
    then show ?thesis using scan_step [OF no_members(2)] by (auto simp: nesting_dict)
  next
    case (members cs kvs)
    then show ?thesis
      using mems [OF members(2), of "d + 1"] by (auto simp: nesting_dict)
  next
    case (no_elements cs)
    then show ?thesis using scan_step [OF no_elements(2)] by (auto simp: nesting_list)
  next
    case (elements cs vs)
    then show ?thesis using els [OF elements(2), of "d + 1"] by (auto simp: nesting_list)
  next
    case atom
    then show ?thesis using scan_json_atom [OF atom] d by auto
  qed
  moreover have "depth_scan d False False s = ((\<forall>v \<in> set vs. d + nesting v \<le> MAX_JSON_DEPTH) \<and> depth_scan (d - 1) False False r)"
    if "json_elements (Suc n) s = Inr (vs, r)" and d: "d \<le> MAX_JSON_DEPTH"
    using that(1)
  proof (cases rule: json_elements_cases)
    case (last v q)
    then show ?thesis using val [OF last(1) d] scan_step [OF last(2)] by simp
  next
    case (more v q q' ws)
    then show ?thesis using val [OF more(1) d] scan_step [OF more(2)] els [OF more(3) d] by simp
  qed
  moreover have "depth_scan d False False s = ((\<forall>v \<in> snd ` set kvs. d + nesting v \<le> MAX_JSON_DEPTH) \<and> depth_scan (d - 1) False False r)"
    if "json_members (Suc n) s = Inr (kvs, r)" and d: "d \<le> MAX_JSON_DEPTH"
    using that(1)
  proof (cases rule: json_members_cases)
    case (last cs k q q1 v q2)
    then show ?thesis
      using scan_json_str [OF last(2)] scan_step [OF last(3)] val [OF last(4) d] scan_step [OF last(5)] by simp
  next
    case (more cs k q q1 v q2 q3 ws)
    then show ?thesis
      using scan_json_str [OF more(2)] scan_step [OF more(3)] val [OF more(4) d] scan_step [OF more(5)] mems [OF more(6) d] by simp
  qed
  ultimately show ?case by blast
qed simp

lemma loads_depth:
  assumes "json_loads text = Inr v"
  shows "validate_json_depth text \<longleftrightarrow> nesting v \<le> 64"
proof -
  obtain r where v: "json_value (2 * length text + 1) (skip_ws text) = Inr (v, r)" and r: "skip_ws r = []"
    using assms by (auto simp: json_loads_def bindE_eq_Inr split: if_splits)
  have "depth_scan 0 False False r" using scan_skip_ws [of 0 r] r by simp
  moreover have "depth_scan 0 False False (skip_ws text) = (0 + nesting v \<le> MAX_JSON_DEPTH \<and> depth_scan 0 False False r)"
    by (rule scan_parse [THEN conjunct1, rule_format, OF v]) (simp add: MAX_JSON_DEPTH_def)
  ultimately show ?thesis by (simp add: validate_json_depth_def MAX_JSON_DEPTH_def)
qed

text \<open>
  C21: the check that bounds the recursion of the JSON decoder is exact on well-formed text: a text
  that decodes passes it if and only if the decoded value nests at most 64 deep, whatever braces,
  brackets, quotes and backslashes its strings contain.
\<close>

theorem json_depth_exact:
  assumes "json_loads text = Inr v"
  shows "validate_json_depth text \<longleftrightarrow> nesting v \<le> 64"
  using assms by (rule loads_depth)

definition sample_nested :: string where
  "sample_nested = ''{'' @ json_string ''a]}'' @ '': [1, [2, {}]]}''"

theorem json_depth_exact_witness:
  "\<exists>v. json_loads sample_nested = Inr v \<and> validate_json_depth sample_nested \<and> nesting v \<le> 64"
proof -
  have "case json_loads sample_nested of Inr r \<Rightarrow> True | Inl e \<Rightarrow> False" by code_simp
  then obtain v where v: "json_loads sample_nested = Inr v" by (cases "json_loads sample_nested") auto
  have "validate_json_depth sample_nested" by code_simp
  then show ?thesis using v json_depth_exact [OF v] by blast
qed

section \<open>Reading what was written\<close>

lemma control_chars:
  "char_of (8 :: nat) = CHR 0x08" "char_of (9 :: nat) = CHR 0x09" "char_of (10 :: nat) = CHR 0x0A" "char_of (12 :: nat) = CHR 0x0C"
  "char_of (13 :: nat) = CHR 0x0D" "char_of (34 :: nat) = CHR 0x22" "char_of (92 :: nat) = CHR 0x5C"
  by code_simp+

lemma json_str_esc_char: "json_str (esc_char c @ t) = push [c] (json_str t)"
proof -
  define n where "n = (of_char c :: nat)"
  have c: "c = char_of n" by (simp add: n_def)
  have lower: "hex_value (hex_digit_lower k) = Some k" if "k < 16" for k
    using that by (auto simp: hex_digit_lower_def hex_value_def Let_def)
  show ?thesis
  proof (cases "n < 32 \<and> n \<notin> {8, 9, 10, 12, 13}")
    case True
    then have "esc_char c @ t = CHR 0x5C # CHR ''u'' # CHR ''0'' # CHR ''0'' # hex_digit_lower (n div 16) # hex_digit_lower (n mod 16) # t"
      by (simp add: esc_char_def n_def [symmetric])
    moreover have "hex_value (CHR ''0'') = Some 0" by (simp add: hex_value_def)
    then have "unicode_escape (CHR ''0'' # CHR ''0'' # hex_digit_lower (n div 16) # hex_digit_lower (n mod 16) # t) = Some (n, t)"
      using True lower [of "n div 16"] lower [of "n mod 16"] by (simp add: unicode_escape_def div_less_iff_less_mult)
    moreover have "utf8_encode n = [c]" using True by (simp add: utf8_encode_def c)
    ultimately show ?thesis by simp
  next
    case False
    have special: "c = CHR 0x22 \<longleftrightarrow> n = 34" "c = CHR 0x5C \<longleftrightarrow> n = 92"
      using of_char_eq_iff [where ?'a = nat, of c "CHR 0x22"] of_char_eq_iff [where ?'a = nat, of c "CHR 0x5C"]
      by (simp_all add: n_def)
    show ?thesis
    proof (cases "n \<in> {8, 9, 10, 12, 13, 34, 92}")
      case True
      then show ?thesis
        by (auto simp: esc_char_def n_def [symmetric] simple_escape_def c control_chars)
    next
      case False
      then show ?thesis using \<open>\<not> (n < 32 \<and> n \<notin> {8, 9, 10, 12, 13})\<close> special
        by (auto simp: esc_char_def n_def [symmetric])
    qed
  qed
qed

lemma json_str_text: "json_str (concat (map esc_char s) @ CHR 0x22 # r) = Some (s, r)"
  by (induction s) (simp_all add: json_str_esc_char push_def)

lemma json_string_read: "json_str (tl (json_string s @ r)) = Some (s, r)"
  using json_str_text [of s r] by (simp add: json_string_def)

text \<open>What may follow a number: nothing that would continue it.\<close>

definition ends_number :: "string \<Rightarrow> bool" where
  "ends_number r \<longleftrightarrow> (case r of [] \<Rightarrow> True | c # _ \<Rightarrow> \<not> is_dec c \<and> c \<notin> {CHR ''.'', CHR ''e'', CHR ''E''})"

lemma ends_number_simps [simp]: "ends_number []" "ends_number (CHR '','' # r)" "ends_number (CHR '']'' # r)" "ends_number (CHR ''}'' # r)"
  by (simp_all add: ends_number_def is_dec_def code_in_def)

lemma ends_number_ws: "list_all is_json_ws r \<Longrightarrow> ends_number r"
  by (cases r) (auto simp: ends_number_def is_json_ws_def is_dec_def code_in_def)

text \<open>Decimal digits.\<close>

lemma is_dec_digit_char: "n < 10 \<Longrightarrow> is_dec (digit_char n)"
  by (simp add: is_dec_def digit_char_def code_in_def)

lemma dec_all: "list_all is_dec (dec n)"
  by (induction n rule: dec.induct) (subst dec.simps, simp add: is_dec_digit_char)

lemma dec_nonempty [simp]: "dec n \<noteq> []"
  by (subst dec.simps) simp

lemma dec_value_snoc: "dec_value (ds @ [c]) = 10 * dec_value ds + (of_char c - 48)"
  by (simp add: dec_value_def)

lemma of_char_digit_char: "n < 10 \<Longrightarrow> (of_char (digit_char n) :: nat) = 48 + n"
  by (simp add: digit_char_def)

lemma dec_value_dec [simp]: "dec_value (dec n) = n"
proof (induction n rule: dec.induct)
  case (1 n)
  show ?case
  proof (cases "n < 10")
    case True
    then show ?thesis by (subst dec.simps) (simp add: dec_value_def of_char_digit_char)
  next
    case False
    have "dec n = dec (n div 10) @ [digit_char (n mod 10)]" using False by (subst dec.simps) simp
    then show ?thesis using False 1 by (simp add: dec_value_snoc of_char_digit_char)
  qed
qed

lemma digit_char_0: "digit_char 0 = CHR ''0''"
  by code_simp

lemma hd_dec: "hd (dec n) = CHR ''0'' \<longleftrightarrow> n = 0"
proof (induction n rule: dec.induct)
  case (1 n)
  show ?case
  proof (cases "n < 10")
    case True
    have "digit_char n = CHR ''0'' \<longleftrightarrow> n = 0" using True digit_char_0 by (auto simp: of_char_digit_char dest: arg_cong [of _ _ "of_char :: char \<Rightarrow> nat"])
    then show ?thesis using True by (subst dec.simps) simp
  next
    case False
    have "dec n = dec (n div 10) @ [digit_char (n mod 10)]" using False by (subst dec.simps) simp
    then show ?thesis using False 1 by (simp add: hd_append) 
  qed
qed

lemma dec_0: "dec 0 = ''0''"
  by (simp add: dec.simps digit_char_0)

lemma length_dec: "0 < k \<Longrightarrow> n < 10 ^ k \<Longrightarrow> length (dec n) \<le> k"
proof (induction k arbitrary: n)
  case (Suc k)
  show ?case
  proof (cases "n < 10")
    case False
    then have "0 < k" using Suc.prems by (cases k) auto
    moreover have "n div 10 < 10 ^ k" using Suc.prems(2) by (simp add: div_less_iff_less_mult mult.commute)
    moreover have "dec n = dec (n div 10) @ [digit_char (n mod 10)]" using False by (subst dec.simps) simp
    ultimately show ?thesis using Suc.IH by simp
  qed (simp add: dec.simps)
qed simp

lemma takeWhile_digits:
  assumes "list_all is_dec ds" "ends_number r"
  shows "takeWhile is_dec (ds @ r) = ds" "dropWhile is_dec (ds @ r) = r"
proof -
  have "takeWhile is_dec r = []" "dropWhile is_dec r = r"
    using assms(2) by (auto simp: ends_number_def split: list.splits)
  then show "takeWhile is_dec (ds @ r) = ds" "dropWhile is_dec (ds @ r) = r"
    using assms(1) by (induction ds) auto
qed

lemma json_int_dec:
  assumes "ends_number r"
  shows "json_int (dec n @ r) = Some (False, dec n, r)" "json_int (CHR ''-'' # dec n @ r) = Some (True, dec n, r)"
proof -
  obtain c cs where d: "dec n = c # cs" by (cases "dec n") auto
  have c: "is_dec c" and cs: "list_all is_dec cs" using dec_all [of n] d by auto
  have "c \<noteq> CHR ''-''" using c by (auto simp: is_dec_def code_in_def)
  moreover have "c = CHR ''0'' \<Longrightarrow> cs = []" using hd_dec [of n] d dec_0 by auto
  ultimately show "json_int (dec n @ r) = Some (False, dec n, r)" "json_int (CHR ''-'' # dec n @ r) = Some (True, dec n, r)"
    using c takeWhile_digits [OF cs assms] by (auto simp: json_int_def d Let_def)
qed

lemma json_number_dec:
  assumes "ends_number r" "\<bar>i\<bar> < 10 ^ MAX_INT_DIGITS"
  shows "json_number (str_int i @ r) = Inr (PInt i, r)"
proof -
  have rest: "json_frac r = ([], r)" "json_exp r = ((False, []), r)"
    using assms(1) by (auto simp: json_frac_def json_exp_def ends_number_def split: list.splits)
  have small: "nat \<bar>i\<bar> < 10 ^ MAX_INT_DIGITS" using assms(2) by (simp add: nat_less_iff)
  have "0 < MAX_INT_DIGITS" by (simp add: MAX_INT_DIGITS_def)
  then have "length (dec (nat \<bar>i\<bar>)) \<le> MAX_INT_DIGITS" using small by (rule length_dec)
  then show ?thesis
    using json_int_dec [OF assms(1), of "nat \<bar>i\<bar>"] rest
    by (cases "i < 0") (simp_all add: json_number_def str_int_def Let_def abs_if)
qed

lemma json_number_start:
  assumes "json_number s = Inr x"
  shows "json_value (Suc n) s = json_number s" "\<not> is_json_ws (hd s)" "s \<noteq> []" "hd s \<noteq> CHR ''}''" "hd s \<noteq> CHR '']''"
proof -
  obtain c cs where s: "s = c # cs" and c: "is_dec c \<or> c = CHR ''-'' \<and> (\<exists>d ds. cs = d # ds \<and> is_dec d)"
  proof -
    obtain neg ds r where i: "json_int s = Some (neg, ds, r)"
      using assms by (auto simp: json_number_def split: option.splits)
    have zero: "is_dec (CHR ''0'')" by (simp add: is_dec_def code_in_def)
    show thesis
      using i zero that unfolding json_int_def Let_def by (auto split: list.splits if_splits)
  qed
  have cases: "c \<noteq> CHR 0x22" "c \<noteq> CHR ''{''" "c \<noteq> CHR ''[''" "c \<noteq> CHR ''}''" "c \<noteq> CHR '']''" "c \<noteq> CHR ''n''"
    "c \<noteq> CHR ''t''" "c \<noteq> CHR ''f''" "c \<noteq> CHR ''N''" "c \<noteq> CHR ''I''" "\<not> is_json_ws c"
    using c by (auto simp: is_dec_def code_in_def is_json_ws_def)
  have "\<not> starts ''null'' s" "\<not> starts ''true'' s" "\<not> starts ''false'' s" "\<not> starts ''NaN'' s" "\<not> starts ''Infinity'' s"
    using s cases by (simp_all add: starts_append)
  moreover have "\<not> starts ''-Infinity'' s" using s c by (auto simp: starts_append is_dec_def code_in_def)
  ultimately have "json_atom s = json_number s" by (simp add: json_atom_def)
  then show "json_value (Suc n) s = json_number s" using s cases by simp
  show "\<not> is_json_ws (hd s)" "s \<noteq> []" "hd s \<noteq> CHR ''}''" "hd s \<noteq> CHR '']''" using s cases by simp_all
qed

text \<open>
  The values that survive: integers within the limit, floats whose text reads back, and no repeated
  key in a dictionary.
\<close>

definition repr_reads :: "(rat \<Rightarrow> string) \<Rightarrow> rat \<Rightarrow> bool" where
  "repr_reads repr q \<longleftrightarrow> (\<forall>r. ends_number r \<longrightarrow> json_number (repr q @ r) = Inr (PFloat (Fin q), r))"

fun json_ok :: "(rat \<Rightarrow> string) \<Rightarrow> pyval \<Rightarrow> bool" where
  "json_ok repr (PInt i) = (\<bar>i\<bar> < 10 ^ MAX_INT_DIGITS)"
| "json_ok repr (PFloat f) = (case f of Fin q \<Rightarrow> repr_reads repr q | _ \<Rightarrow> False)"
| "json_ok repr (PList vs) = (\<forall>v \<in> set vs. json_ok repr v)"
| "json_ok repr (PDict kvs) = (distinct (map fst kvs) \<and> (\<forall>v \<in> snd ` set kvs. json_ok repr v))"
| "json_ok repr _ = True"

lemma join_Cons: "join sep (x # xs) = x @ (if xs = [] then [] else sep @ join sep xs)"
  by (cases xs) auto

lemma json_texts_Nil [simp]: "json_texts repr vs = [] \<longleftrightarrow> vs = []"
  by (cases vs) auto

lemma json_pairs_Nil [simp]: "json_pairs repr kvs = [] \<longleftrightarrow> kvs = []"
  by (cases kvs) auto

lemma skip_ws_nonws: "\<not> is_json_ws c \<Longrightarrow> skip_ws (c # s) = c # s"
  by (simp add: skip_ws_def)

lemma not_ws [simp]: "\<not> is_json_ws (CHR 0x22)" "\<not> is_json_ws (CHR ''{'')" "\<not> is_json_ws (CHR ''['')" "\<not> is_json_ws (CHR ''}'')"
  "\<not> is_json_ws (CHR '']'')" "\<not> is_json_ws (CHR '','')" "\<not> is_json_ws (CHR '':'')" "\<not> is_json_ws (CHR ''n'')"
  "\<not> is_json_ws (CHR ''t'')" "\<not> is_json_ws (CHR ''f'')"
  by (simp_all add: is_json_ws_def)

definition starts_value :: "string \<Rightarrow> bool" where
  "starts_value s \<longleftrightarrow> s \<noteq> [] \<and> \<not> is_json_ws (hd s) \<and> hd s \<noteq> CHR '']'' \<and> hd s \<noteq> CHR ''}''"

lemma starts_value_skip: "starts_value s \<Longrightarrow> skip_ws (s @ r) = s @ r"
  by (cases s) (auto simp: starts_value_def skip_ws_def)

lemma json_number_starts_value: "json_number s = Inr x \<Longrightarrow> starts_value s"
  using json_number_start [of s x] by (simp add: starts_value_def)

lemma starts_value_text: "json_ok repr v \<Longrightarrow> starts_value (json_text repr v)"
proof (cases v)
  case (PInt i)
  assume "json_ok repr v"
  then show ?thesis using json_number_starts_value [OF json_number_dec [of "[]" i]] PInt by simp
next
  case (PFloat f)
  assume "json_ok repr v"
  then obtain q where "f = Fin q" "repr_reads repr q" using PFloat by (auto split: pyfloat.splits)
  moreover from this have "json_number (repr q @ []) = Inr (PFloat (Fin q), [])"
    unfolding repr_reads_def by (metis ends_number_simps(1))
  ultimately show ?thesis using json_number_starts_value PFloat by simp
qed (simp_all add: starts_value_def json_string_def)

lemma json_text_pos: "json_ok repr v \<Longrightarrow> 0 < length (json_text repr v)"
  using starts_value_text [of repr v] by (simp add: starts_value_def)

lemma json_value_Cons:
  "json_value (Suc n) (CHR 0x22 # cs) = (case json_str cs of None \<Rightarrow> Inl Json_Invalid | Some (t, r) \<Rightarrow> Inr (PStr t, r))"
  "json_value (Suc n) (CHR ''['' # CHR '']'' # cs) = Inr (PList [], cs)"
  "json_value (Suc n) (CHR ''{'' # CHR ''}'' # cs) = Inr (PDict [], cs)"
  "starts_value s \<Longrightarrow> json_value (Suc n) (CHR ''['' # s @ cs) = bindE (json_elements n (s @ cs)) (\<lambda>(vs, r'). Inr (PList vs, r'))"
  "starts_value s \<Longrightarrow> json_value (Suc n) (CHR ''{'' # s @ cs) = bindE (json_members n (s @ cs)) (\<lambda>(kvs, r'). bindE (reject_duplicate_keys kvs) (\<lambda>v. Inr (v, r')))"
proof -
  show "json_value (Suc n) (CHR 0x22 # cs) = (case json_str cs of None \<Rightarrow> Inl Json_Invalid | Some (t, r) \<Rightarrow> Inr (PStr t, r))"
    "json_value (Suc n) (CHR ''['' # CHR '']'' # cs) = Inr (PList [], cs)"
    "json_value (Suc n) (CHR ''{'' # CHR ''}'' # cs) = Inr (PDict [], cs)"
    by (simp_all add: skip_ws_nonws)
  assume "starts_value s"
  then obtain d ds where "s = d # ds" "\<not> is_json_ws d" "d \<noteq> CHR '']''" "d \<noteq> CHR ''}''" by (cases s) (auto simp: starts_value_def)
  then show "json_value (Suc n) (CHR ''['' # s @ cs) = bindE (json_elements n (s @ cs)) (\<lambda>(vs, r'). Inr (PList vs, r'))"
    "json_value (Suc n) (CHR ''{'' # s @ cs) = bindE (json_members n (s @ cs)) (\<lambda>(kvs, r'). bindE (reject_duplicate_keys kvs) (\<lambda>v. Inr (v, r')))"
    by (simp_all add: skip_ws_nonws)
qed

lemma json_value_words:
  "json_value (Suc n) (''null'' @ r) = Inr (PNone, r)" "json_value (Suc n) (''true'' @ r) = Inr (PBool True, r)"
  "json_value (Suc n) (''false'' @ r) = Inr (PBool False, r)"
  by (simp_all add: json_atom_def starts_def)

fun is_scalar :: "pyval \<Rightarrow> bool" where
  "is_scalar (PList _) = False"
| "is_scalar (PDict _) = False"
| "is_scalar _ = True"

lemma json_read_scalar:
  assumes "json_ok repr v" "ends_number r" "is_scalar v" "1 \<le> n"
  shows "json_value n (json_text repr v @ r) = Inr (v, r)"
proof -
  obtain m where n: "n = Suc m" using assms(4) by (cases n) auto
  show ?thesis
  proof (cases v)
    case (PInt i)
    then have "json_number (str_int i @ r) = Inr (PInt i, r)" using assms by (simp add: json_number_dec)
    then show ?thesis using json_number_start(1) PInt n by (metis json_text.simps(3))
  next
    case (PFloat f)
    then obtain q where q: "f = Fin q" "json_number (repr q @ r) = Inr (PFloat (Fin q), r)"
      using assms(1,2) by (auto simp: repr_reads_def split: pyfloat.splits)
    then show ?thesis using json_number_start(1) [OF q(2)] PFloat n by (simp del: json_value.simps)
  next
    case (PStr s)
    then show ?thesis using json_str_text [of s r] n by (simp add: json_string_def)
  qed (use assms n json_value_words in \<open>simp_all del: json_value.simps\<close>)
qed

lemma json_read_text:
  shows "json_ok repr v \<Longrightarrow> ends_number r \<Longrightarrow> 2 * length (json_text repr v) + 1 \<le> n \<Longrightarrow> json_value n (json_text repr v @ r) = Inr (v, r)"
    and "\<forall>v \<in> set vs. json_ok repr v \<Longrightarrow> vs \<noteq> [] \<Longrightarrow> 2 * length (join '','' (json_texts repr vs)) + 2 \<le> n \<Longrightarrow>
      json_elements n (join '','' (json_texts repr vs) @ CHR '']'' # r) = Inr (vs, r)"
    and "\<forall>v \<in> snd ` set kvs. json_ok repr v \<Longrightarrow> kvs \<noteq> [] \<Longrightarrow> 2 * length (join '','' (json_pairs repr kvs)) + 2 \<le> n \<Longrightarrow>
      json_members n (join '','' (json_pairs repr kvs) @ CHR ''}'' # r) = Inr (kvs, r)"
proof (induction repr v and repr vs and repr kvs arbitrary: n r and n r and n r rule: json_text_json_texts_json_pairs.induct)
  case (6 repr vs)
  then obtain m where m: "n = Suc m" by (cases n) auto
  show ?case
  proof (cases vs)
    case (Cons v ws)
    have "starts_value (join '','' (json_texts repr vs))"
      using starts_value_text [of repr v] 6(2) Cons by (auto simp: starts_value_def join_Cons hd_append)
    then show ?thesis
      using 6(1) [of m r] 6(2,4) m Cons json_value_Cons(4) [of "join '','' (json_texts repr vs)" m "CHR '']'' # r"] by simp
  qed (use m in \<open>simp add: json_value_Cons del: json_value.simps\<close>)
next
  case (7 repr kvs)
  then obtain m where m: "n = Suc m" by (cases n) auto
  show ?case
  proof (cases kvs)
    case (Cons kv ws)
    have "starts_value (join '','' (json_pairs repr kvs))"
      using Cons by (cases kv) (auto simp: starts_value_def join_Cons json_string_def)
    moreover have "reject_duplicate_keys kvs = Inr (PDict kvs)" using 7(2) by (simp add: reject_duplicate_keys_Inr)
    ultimately show ?thesis
      using 7(1) [of m r] 7(2,4) m Cons json_value_Cons(5) [of "join '','' (json_pairs repr kvs)" m "CHR ''}'' # r"] by simp
  qed (use m in \<open>simp add: json_value_Cons del: json_value.simps\<close>)
next
  case (9 repr v vs)
  then obtain m where m: "n = Suc m" by (cases n) auto
  show ?case
  proof (cases "vs = []")
    case True
    then show ?thesis using 9 m by (simp add: skip_ws_nonws)
  next
    case False
    then have "starts_value (join '','' (json_texts repr vs))"
      using starts_value_text 9(3) by (cases vs) (auto simp: starts_value_def join_Cons hd_append)
    then show ?thesis
      using 9 m False by (simp add: join_Cons skip_ws_nonws starts_value_skip)
  qed
next
  case (11 repr k v kvs)
  then obtain m where m: "n = Suc m" by (cases n) auto
  have v: "starts_value (json_text repr v)" using 11(3) by (simp add: starts_value_text)
  show ?case
  proof (cases "kvs = []")
    case True
    then show ?thesis using 11 m v json_str_text [of k] by (simp add: json_string_def skip_ws_nonws starts_value_skip)
  next
    case False
    then have "starts_value (join '','' (json_pairs repr kvs))"
      by (cases kvs) (auto simp: starts_value_def join_Cons json_string_def)
    then show ?thesis
      using 11 m False v json_str_text [of k] by (simp add: join_Cons json_string_def skip_ws_nonws starts_value_skip)
  qed
qed (use json_read_scalar in \<open>simp_all del: json_value.simps json_text.simps\<close>)

lemma json_read_back:
  assumes "json_ok repr v" "list_all is_json_ws tail"
  shows "json_loads (json_text repr v @ tail) = Inr v"
proof -
  have "json_value (2 * length (json_text repr v @ tail) + 1) (json_text repr v @ tail) = Inr (v, tail)"
    using assms by (intro json_read_text(1)) (simp_all add: ends_number_ws)
  moreover have "skip_ws tail = []" using assms(2) by (simp add: skip_ws_def dropWhile_eq_Nil_conv list_all_iff)
  ultimately show ?thesis
    using starts_value_skip [OF starts_value_text [OF assms(1)], of tail] by (simp add: json_loads_def)
qed

section \<open>Numbers beyond the range\<close>

lemma round_half_even_ge: "of_int n \<le> x \<Longrightarrow> n \<le> round_half_even x"
proof -
  assume "of_int n \<le> x"
  then have "n \<le> \<lfloor>x\<rfloor>" by (simp add: le_floor_iff)
  then show ?thesis by (auto simp: round_half_even_def Let_def)
qed

lemma pow2_powi: "pow2 k = 2 powi k"
  by (simp add: pow2_def power_int_def field_simps)

lemma pow2_add: "pow2 (a + b) = pow2 a * pow2 b"
  by (simp add: pow2_powi power_int_add)

lemma pow2_mono: "a \<le> b \<Longrightarrow> pow2 a \<le> pow2 b"
  by (simp add: pow2_powi power_int_increasing)

lemma ilog2_bounds:
  assumes "0 < x"
  shows "pow2 (ilog2 x) \<le> x" "x < pow2 (ilog2 x + 1)"
proof -
  obtain p q where pq: "quotient_of x = (p, q)" by (cases "quotient_of x")
  have q: "0 < q" using quotient_of_denom_pos [OF pq] .
  have x: "x = of_int p / of_int q" using quotient_of_div [OF pq] .
  have p: "0 < p" using assms q x by (simp add: zero_less_divide_iff)
  define a b where "a = bitlen p" and "b = bitlen q"
  have ab: "0 < a" "0 < b" using p q bitlen_le_iff_power [of p 0] bitlen_le_iff_power [of q 0] by (auto simp: a_def b_def not_le [symmetric])
  have pb: "2 ^ nat (a - 1) \<le> p" "p < 2 ^ nat a" using bitlen_bounds [OF p] p by (simp_all add: a_def)
  have qb: "2 ^ nat (b - 1) \<le> q" "q < 2 ^ nat b" using bitlen_bounds [OF q] q by (simp_all add: b_def)
  have pw: "pow2 k = of_int (2 ^ nat k)" if "0 \<le> k" for k using that by (simp add: pow2_def)
  have rp: "pow2 (a - 1) \<le> of_int p" "of_int p < pow2 a" using pb ab by (simp_all add: pw del: of_int_power)
  have rq: "pow2 (b - 1) \<le> of_int q" "of_int q < pow2 b" using qb ab by (simp_all add: pw del: of_int_power)
  have lower: "pow2 (a - b - 1) \<le> x"
  proof -
    have "pow2 (a - b - 1) * of_int q \<le> pow2 (a - b - 1) * pow2 b" using rq(2) by (intro mult_left_mono) (simp_all add: less_imp_le)
    also have "\<dots> = pow2 (a - 1)" by (simp add: pow2_add [symmetric])
    also have "\<dots> \<le> of_int p" by (rule rp)
    finally show ?thesis using q by (simp add: x pos_le_divide_eq)
  qed
  have upper: "x < pow2 (a - b + 1)"
  proof -
    have "of_int p < pow2 a" by (rule rp)
    also have "\<dots> = pow2 (a - b + 1) * pow2 (b - 1)" by (simp add: pow2_add [symmetric])
    also have "\<dots> \<le> pow2 (a - b + 1) * of_int q" using rq(1) by (intro mult_left_mono) (simp_all add: less_imp_le)
    finally show ?thesis using q by (simp add: x pos_divide_less_eq)
  qed
  show "pow2 (ilog2 x) \<le> x" "x < pow2 (ilog2 x + 1)"
    using lower upper by (auto simp: ilog2_def pq Let_def a_def [symmetric] b_def [symmetric] algebra_simps)
qed

lemma binary64_overflow:
  assumes "2 ^ 1024 \<le> x"
  shows "binary64 x = PosInf"
proof -
  have x: "0 < x" using assms by (rule less_le_trans [rotated]) simp
  define k where "k = ilog2 x"
  have k: "pow2 k \<le> x" "x < pow2 (k + 1)" using ilog2_bounds [OF x] by (simp_all add: k_def)
  have "\<not> k < 1024"
  proof
    assume "k < 1024"
    then have "pow2 (k + 1) \<le> pow2 (int 1024)" by (intro pow2_mono) simp
    then show False using k(2) assms unfolding pow2_nonneg_nat by linarith
  qed
  then have k1024: "1024 \<le> k" by simp
  have e: "max (ilog2 \<bar>x\<bar> - 52) (-1074) = k - 52" using x k1024 by (simp add: k_def)
  have split: "2 ^ 52 * pow2 (k - 52) = pow2 k" using pow2_add [of 52 "k - 52"] by (simp add: pow2_def [of 52])
  have "of_int (2 ^ 52) * pow2 (k - 52) \<le> x" using k(1) split by simp
  then have "of_int (2 ^ 52) \<le> x / pow2 (k - 52)" by (simp only: pos_le_divide_eq [OF pow2_pos])
  then have "2 ^ 52 \<le> round_half_even (x / pow2 (k - 52))" by (rule round_half_even_ge)
  then have "(2 ^ 52 :: rat) * pow2 (k - 52) \<le> of_int (round_half_even (x / pow2 (k - 52))) * pow2 (k - 52)"
    by (intro mult_right_mono) (simp_all add: less_imp_le)
  moreover note split
  moreover have "(2 :: rat) ^ 1024 \<le> pow2 k" using pow2_mono [of "int 1024" k] k1024 unfolding pow2_nonneg_nat by simp
  ultimately have "2 ^ 1024 \<le> of_int (round_half_even (x / pow2 (k - 52))) * pow2 (k - 52)" by linarith
  then show ?thesis using x unfolding binary64_def Let_def e by (simp only: if_True if_False less_imp_neq [symmetric])
qed

text \<open>
  A number that is written finitely can still become an infinite float, which the hook for
  non-finite constants never sees: the text \<open>1e400\<close> is accepted and decodes to infinity.
\<close>

theorem json_infinity_accepted: "json_loads ''1e400'' = Inr (PFloat PosInf)"
proof -
  have parts: "json_int ''1e400'' = Some (False, ''1'', ''e400'')" "json_frac ''e400'' = ([], ''e400'')"
    "json_exp ''e400'' = ((False, ''400''), [])" "dec_value ''1'' = 1" "dec_value ''400'' = 400"
    by code_simp+
  have "(2 :: rat) ^ 1024 \<le> 8 ^ 400" using power_increasing [of 1024 1200 "2 :: rat"] power_mult [of "2 :: rat" 3 400] by simp
  also have "\<dots> \<le> 10 ^ 400" by (rule power_mono) simp_all
  finally have "binary64 (10 ^ 400) = PosInf" by (rule binary64_overflow)
  then have number: "json_number ''1e400'' = Inr (PFloat PosInf, [])" by (simp add: json_number_def parts)
  have "json_value (Suc 10) ''1e400'' = Inr (PFloat PosInf, [])" using json_number_start(1) [OF number, of 10] number by (simp only:)
  then show ?thesis using json_number_start(2) [OF number] by (simp add: json_loads_def skip_ws_def del: json_value.simps)
qed

end
