(* ===== verification/Unicode.thy ===== *)
theory Unicode
  imports Json
begin

text \<open>
  Strict UTF-8, as \<open>bytes.decode("utf-8")\<close> checks it, the decimal digits that \<open>\d\<close> matches in a text
  pattern (category \<open>Nd\<close> of Unicode 14), matching of fixed patterns, and that JSON text of valid
  strings is valid UTF-8.
\<close>

section \<open>Strict UTF-8\<close>

definition is_cont :: "nat \<Rightarrow> bool" where
  "is_cont n \<longleftrightarrow> 0x80 \<le> n \<and> n \<le> 0xBF"

definition valid_point :: "string \<Rightarrow> bool" where
  "valid_point p \<longleftrightarrow> (case map of_char p :: nat list of
      [a] \<Rightarrow> a < 0x80
    | [a, b] \<Rightarrow> 0xC2 \<le> a \<and> a \<le> 0xDF \<and> is_cont b
    | [a, b, c] \<Rightarrow> 0xE0 \<le> a \<and> a \<le> 0xEF \<and> is_cont b \<and> is_cont c \<and> (a = 0xE0 \<longrightarrow> 0xA0 \<le> b) \<and> (a = 0xED \<longrightarrow> b \<le> 0x9F)
    | [a, b, c, d] \<Rightarrow> 0xF0 \<le> a \<and> a \<le> 0xF4 \<and> is_cont b \<and> is_cont c \<and> is_cont d \<and> (a = 0xF0 \<longrightarrow> 0x90 \<le> b) \<and> (a = 0xF4 \<longrightarrow> b \<le> 0x8F)
    | _ \<Rightarrow> False)"

definition utf8_valid :: "string \<Rightarrow> bool" where
  "utf8_valid s \<longleftrightarrow> list_all valid_point (code_points s)"

definition point_value :: "string \<Rightarrow> nat" where
  "point_value p = (case map of_char p :: nat list of
      [a] \<Rightarrow> a
    | [a, b] \<Rightarrow> (a mod 32) * 64 + b mod 64
    | [a, b, c] \<Rightarrow> (a mod 16) * 4096 + (b mod 64) * 64 + c mod 64
    | [a, b, c, d] \<Rightarrow> (a mod 8) * 262144 + (b mod 64) * 4096 + (c mod 64) * 64 + d mod 64
    | _ \<Rightarrow> 0)"

definition DECIMAL_DIGITS :: "(nat \<times> nat) list" where
  "DECIMAL_DIGITS =
     [(0x30, 0x39), (0x660, 0x669), (0x6F0, 0x6F9), (0x7C0, 0x7C9), (0x966, 0x96F), (0x9E6, 0x9EF), (0xA66, 0xA6F),
      (0xAE6, 0xAEF), (0xB66, 0xB6F), (0xBE6, 0xBEF), (0xC66, 0xC6F), (0xCE6, 0xCEF), (0xD66, 0xD6F), (0xDE6, 0xDEF),
      (0xE50, 0xE59), (0xED0, 0xED9), (0xF20, 0xF29), (0x1040, 0x1049), (0x1090, 0x1099), (0x17E0, 0x17E9), (0x1810, 0x1819),
      (0x1946, 0x194F), (0x19D0, 0x19D9), (0x1A80, 0x1A89), (0x1A90, 0x1A99), (0x1B50, 0x1B59), (0x1BB0, 0x1BB9), (0x1C40, 0x1C49),
      (0x1C50, 0x1C59), (0xA620, 0xA629), (0xA8D0, 0xA8D9), (0xA900, 0xA909), (0xA9D0, 0xA9D9), (0xA9F0, 0xA9F9), (0xAA50, 0xAA59),
      (0xABF0, 0xABF9), (0xFF10, 0xFF19), (0x104A0, 0x104A9), (0x10D30, 0x10D39), (0x11066, 0x1106F), (0x110F0, 0x110F9), (0x11136, 0x1113F),
      (0x111D0, 0x111D9), (0x112F0, 0x112F9), (0x11450, 0x11459), (0x114D0, 0x114D9), (0x11650, 0x11659), (0x116C0, 0x116C9), (0x11730, 0x11739),
      (0x118E0, 0x118E9), (0x11950, 0x11959), (0x11C50, 0x11C59), (0x11D50, 0x11D59), (0x11DA0, 0x11DA9), (0x16A60, 0x16A69), (0x16AC0, 0x16AC9),
      (0x16B50, 0x16B59), (0x1D7CE, 0x1D7FF), (0x1E140, 0x1E149), (0x1E2F0, 0x1E2F9), (0x1E950, 0x1E959), (0x1FBF0, 0x1FBF9)]"

definition is_decimal :: "string \<Rightarrow> bool" where
  "is_decimal p \<longleftrightarrow> (let n = point_value p in list_ex (\<lambda>(a, b). a \<le> n \<and> n \<le> b) DECIMAL_DIGITS)"

lemma valid_point_width:
  assumes "valid_point p"
  shows "p \<noteq> []" "utf8_width (hd p) = length p"
  using assms by (auto simp: valid_point_def utf8_width_def Let_def split: list.splits)

lemma code_points_append: "valid_point p \<Longrightarrow> code_points (p @ s) = p # code_points s"
  using valid_point_width [of p] by (cases p) simp_all

lemma utf8_valid_point: "valid_point p \<Longrightarrow> utf8_valid (p @ s) = utf8_valid s"
  by (simp add: utf8_valid_def code_points_append)

lemma utf8_valid_Nil [simp]: "utf8_valid []"
  by (simp add: utf8_valid_def)

lemma utf8_valid_concat: "list_all valid_point ps \<Longrightarrow> utf8_valid (concat ps @ s) = utf8_valid s"
  by (induction ps) (simp_all add: utf8_valid_point)

lemma utf8_valid_append: "utf8_valid a \<Longrightarrow> utf8_valid (a @ s) = utf8_valid s"
  using utf8_valid_concat [of "code_points a" s] by (simp add: utf8_valid_def)

definition ascii :: "string \<Rightarrow> bool" where
  "ascii s \<longleftrightarrow> list_all (\<lambda>c. (of_char c :: nat) < 128) s"

lemma utf8_valid_ascii: "ascii s \<Longrightarrow> utf8_valid s"
proof (induction s)
  case (Cons c s)
  then have "valid_point [c]" by (simp add: ascii_def valid_point_def)
  then show ?case using Cons utf8_valid_point [of "[c]" s] by (simp add: ascii_def)
qed simp

section \<open>JSON text is valid\<close>

lemma esc_char_high: "(of_char c :: nat) \<ge> 128 \<Longrightarrow> esc_char c = [c]"
  by (simp add: esc_char_def)

lemma ascii_esc_char: "(of_char c :: nat) < 128 \<Longrightarrow> ascii (esc_char c)"
  by (auto simp: esc_char_def ascii_def Let_def hex_digit_lower_def)

lemma valid_point_cases:
  assumes "valid_point p"
  obtains c where "p = [c]" "(of_char c :: nat) < 128" | "list_all (\<lambda>c. (of_char c :: nat) \<ge> 128) p"
  using assms by (auto simp: valid_point_def is_cont_def split: list.splits)

lemma esc_point:
  assumes "valid_point p"
  shows "utf8_valid (concat (map esc_char p))"
  using assms
proof (cases rule: valid_point_cases)
  case 2
  then have "concat (map esc_char p) = p" by (induction p) (simp_all add: esc_char_high)
  then show ?thesis using utf8_valid_point [OF assms, of "[]"] by simp
qed (simp add: ascii_esc_char utf8_valid_ascii)

lemma esc_points: "list_all valid_point ps \<Longrightarrow> utf8_valid (concat (map esc_char (concat ps)))"
  by (induction ps) (simp_all add: esc_point utf8_valid_append)

lemma json_string_valid: "utf8_valid s \<Longrightarrow> utf8_valid (json_string s)"
proof -
  assume "utf8_valid s"
  then have "utf8_valid (concat (map esc_char s))" using esc_points [of "code_points s"] by (simp add: utf8_valid_def)
  then show ?thesis
    using utf8_valid_append [of "[CHR 0x22]" "concat (map esc_char s) @ [CHR 0x22]"]
    by (simp add: json_string_def utf8_valid_append utf8_valid_ascii ascii_def)
qed

text \<open>Every text in a value is valid; floats are written in ASCII.\<close>

fun texts_valid :: "(rat \<Rightarrow> string) \<Rightarrow> pyval \<Rightarrow> bool" where
  "texts_valid repr (PStr s) = utf8_valid s"
| "texts_valid repr (PFloat f) = (case f of Fin q \<Rightarrow> ascii (repr q) | _ \<Rightarrow> True)"
| "texts_valid repr (PList vs) = (\<forall>v \<in> set vs. texts_valid repr v)"
| "texts_valid repr (PDict kvs) = (\<forall>kv \<in> set kvs. utf8_valid (fst kv) \<and> texts_valid repr (snd kv))"
| "texts_valid repr _ = True"

lemma ascii_dec: "ascii (dec n)"
  using dec_all [of n] by (auto simp: ascii_def list_all_iff is_dec_def code_in_def)

lemma ascii_str_int: "ascii (str_int i)"
  using ascii_dec by (auto simp: str_int_def ascii_def)

lemma utf8_valid_join: "list_all utf8_valid ss \<Longrightarrow> utf8_valid (join '','' ss)"
proof (induction ss)
  case (Cons s ss)
  then show ?case
    using utf8_valid_append [of "'',''" "join '','' ss"]
    by (auto simp: join_Cons utf8_valid_append utf8_valid_ascii ascii_def)
qed simp

lemma utf8_valid_Cons: "(of_char c :: nat) < 128 \<Longrightarrow> utf8_valid (c # s) = utf8_valid s"
  using utf8_valid_append [of "[c]" s] by (simp add: utf8_valid_ascii ascii_def)

lemma json_text_valid:
  "texts_valid repr v \<Longrightarrow> utf8_valid (json_text repr v)"
  "\<forall>v \<in> set vs. texts_valid repr v \<Longrightarrow> list_all utf8_valid (json_texts repr vs)"
  "\<forall>kv \<in> set kvs. utf8_valid (fst kv) \<and> texts_valid repr (snd kv) \<Longrightarrow> list_all utf8_valid (json_pairs repr kvs)"
  by (induction repr v and repr vs and repr kvs rule: json_text_json_texts_json_pairs.induct)
    (auto simp: utf8_valid_Cons utf8_valid_append utf8_valid_join json_string_valid utf8_valid_ascii [OF ascii_str_int] utf8_valid_ascii ascii_def
      split: pyfloat.splits)

section \<open>Fixed patterns\<close>

text \<open>
  \<open>fullmatch\<close> of a pattern of fixed length: the letter \<open>d\<close> stands for \<open>\d\<close>, the letter \<open>h\<close> for
  \<open>[0-9a-f]\<close>, every other character for itself.
\<close>

definition pattern_char :: "char \<Rightarrow> string \<Rightarrow> bool" where
  "pattern_char k p \<longleftrightarrow> (if k = CHR ''d'' then is_decimal p
     else if k = CHR ''h'' then (case p of [c] \<Rightarrow> is_lower_hex c | _ \<Rightarrow> False) else p = [k])"

definition pattern_match :: "string \<Rightarrow> string list \<Rightarrow> bool" where
  "pattern_match pat ps \<longleftrightarrow> length pat = length ps \<and> list_all (\<lambda>(k, p). pattern_char k p) (zip pat ps)"

end
