(* ===== verification/TailBuffer.thy ===== *)
theory TailBuffer
  imports Unicode
begin

text \<open>
  The bounded diagnostic buffers of \<open>python/src/dnp3_master/client.py\<close> (\<open>_TailBuffer\<close>): the last octets
  of an output stream in chunks, and the text that diagnostics show of it, in which a field of the shape of a
  safety token is replaced. The locking of the buffer makes every \<open>append\<close> one step.
\<close>

section \<open>The buffer\<close>

record tail_buffer =
  tb_capacity :: nat
  tb_chunks :: "string list"
  tb_size :: nat

definition tail_new :: "nat \<Rightarrow> tail_buffer" where
  "tail_new capacity = \<lparr>tb_capacity = capacity, tb_chunks = [], tb_size = 0\<rparr>"

text \<open>The loop that drops octets from the front: whole chunks, or a part of the first one.\<close>

function tail_trim :: "nat \<Rightarrow> string list \<Rightarrow> nat \<Rightarrow> string list \<times> nat" where
  "tail_trim capacity [] n = ([], n)"
| "tail_trim capacity (first # chunks) n =
     (if n > capacity then
        let overflow = n - capacity in
        if length first \<le> overflow then tail_trim capacity chunks (n - length first)
        else tail_trim capacity (drop overflow first # chunks) (n - overflow)
      else (first # chunks, n))"
  by pat_completeness auto
termination
  by (relation "measure (\<lambda>(capacity, chunks, n). 2 * length chunks + (if n > capacity then 1 else 0))") (auto split: if_splits)

definition tail_append :: "tail_buffer \<Rightarrow> string \<Rightarrow> tail_buffer" where
  "tail_append t chunk =
     (if chunk = [] then t
      else let (chunks, n) = tail_trim (tb_capacity t) (tb_chunks t @ [chunk]) (tb_size t + length chunk) in
        t\<lparr>tb_chunks := chunks, tb_size := n\<rparr>)"

section \<open>The text\<close>

text \<open>
  \<open>bytes.decode("utf-8", errors="replace")\<close>: the octet ranges that may follow a leading octet; the longest
  part of an ill-formed sequence that could have been continued is replaced by one U+FFFD.
\<close>

definition follow_ranges :: "char \<Rightarrow> (nat \<times> nat) list option" where
  "follow_ranges c = (let n = of_char c :: nat; any = (0x80, 0xBF) in
     if n < 0x80 then Some []
     else if n < 0xC2 then None
     else if n < 0xE0 then Some [any]
     else if n < 0xF0 then Some [if n = 0xE0 then (0xA0, 0xBF) else if n = 0xED then (0x80, 0x9F) else any, any]
     else if n < 0xF5 then Some [if n = 0xF0 then (0x90, 0xBF) else if n = 0xF4 then (0x80, 0x8F) else any, any, any]
     else None)"

definition followed :: "(nat \<times> nat) list \<Rightarrow> string \<Rightarrow> nat" where
  "followed rs s = length (takeWhile (\<lambda>((lo, hi), c). lo \<le> of_char c \<and> of_char c \<le> hi) (zip rs s))"

definition REPLACEMENT :: string where
  "REPLACEMENT = [CHR 0xEF, CHR 0xBF, CHR 0xBD]"

function decode_replace :: "string \<Rightarrow> string list" where
  "decode_replace [] = []"
| "decode_replace (c # s) = (case follow_ranges c of
     None \<Rightarrow> REPLACEMENT # decode_replace s
   | Some rs \<Rightarrow> let k = followed rs s in
       (if k = length rs then c # take k s else REPLACEMENT) # decode_replace (drop k s))"
  by pat_completeness auto
termination by (relation "measure length") (auto simp: less_Suc_eq_le)

text \<open>
  One match of the pattern for a token field: the first group, which ends with the opening quote of the
  value, and what follows the closing quote. The matches are found from left to right.
\<close>

definition TOKEN_FIELD :: "string list" where
  "TOKEN_FIELD = map (\<lambda>c. [c]) ([CHR 0x22] @ ''safety_token'' @ [CHR 0x22])"

definition is_hex_point :: "string \<Rightarrow> bool" where
  "is_hex_point p \<longleftrightarrow> (case p of [c] \<Rightarrow> is_hex c | _ \<Rightarrow> False)"

definition match_token :: "string list \<Rightarrow> (string list \<times> string list) option" where
  "match_token ps =
     (if take (length TOKEN_FIELD) ps \<noteq> TOKEN_FIELD then None
      else let r1 = dropWhile is_space (drop (length TOKEN_FIELD) ps) in
      if take 1 r1 \<noteq> ['':''] then None
      else let r2 = dropWhile is_space (drop 1 r1) in
      if take 1 r2 \<noteq> [[CHR 0x22]] then None
      else let value = take 32 (drop 1 r2); rest = drop 33 r2 in
      if length value = 32 \<and> list_all is_hex_point value \<and> take 1 rest = [[CHR 0x22]]
      then Some (take (length ps - length r2 + 1) ps, drop 1 rest) else None)"

lemma match_token_shorter:
  assumes "match_token ps = Some (g, rest)"
  shows "length rest < length ps"
proof -
  define r1 where "r1 = dropWhile is_space (drop (length TOKEN_FIELD) ps)"
  define r2 where "r2 = dropWhile is_space (drop 1 r1)"
  have len: "length r1 \<le> length ps" "length r2 \<le> length r1"
    using length_dropWhile_le [of is_space "drop (length TOKEN_FIELD) ps"] length_dropWhile_le [of is_space "drop 1 r1"]
    by (simp_all add: r1_def r2_def)
  have "rest = drop 1 (drop 33 r2)" "take 1 r2 = [[CHR 0x22]]"
    using assms unfolding match_token_def Let_def r1_def [symmetric] r2_def [symmetric] by (simp_all split: if_splits)
  then show ?thesis using len by (cases r2) auto
qed

function redact :: "string list \<Rightarrow> string list" where
  "redact [] = []"
| "redact (p # ps) = (case match_token (p # ps) of
     Some (prefix, rest) \<Rightarrow> prefix @ map (\<lambda>c. [c]) ''<redacted>'' @ [[CHR 0x22]] @ redact rest
   | None \<Rightarrow> p # redact ps)"
  by pat_completeness auto
termination by (relation "measure length") (auto dest: match_token_shorter)

definition tail_text :: "tail_buffer \<Rightarrow> string" where
  "tail_text t = concat (redact (decode_replace (concat (tb_chunks t))))"

section \<open>What is kept\<close>

definition last_octets :: "nat \<Rightarrow> string \<Rightarrow> string" where
  "last_octets n s = drop (length s - n) s"

lemma tail_trim_exact:
  "n = length (concat chunks) \<Longrightarrow> tail_trim capacity chunks n = (chunks', n') \<Longrightarrow>
     concat chunks' = last_octets capacity (concat chunks) \<and> n' = length (concat chunks')"
proof (induction capacity chunks n arbitrary: chunks' n' rule: tail_trim.induct)
  case (2 capacity first chunks n)
  show ?case
  proof (cases "n > capacity")
    case True
    show ?thesis
    proof (cases "length first \<le> n - capacity")
      case small: True
      have "concat chunks' = last_octets capacity (concat chunks) \<and> n' = length (concat chunks')"
      proof (rule 2(1) [OF True refl small])
        show "n - length first = length (concat chunks)" using 2(3) by simp
        show "tail_trim capacity chunks (n - length first) = (chunks', n')"
          using 2(4) unfolding tail_trim.simps(2) [of capacity first chunks n] by (simp only: Let_def True small if_True)
      qed
      moreover have "last_octets capacity (concat chunks) = last_octets capacity (concat (first # chunks))"
        using True small 2(3) by (simp add: last_octets_def)
      ultimately show ?thesis by simp
    next
      case False
      have "concat chunks' = last_octets capacity (concat (drop (n - capacity) first # chunks)) \<and> n' = length (concat chunks')"
      proof (rule 2(2) [OF True refl False])
        show "n - (n - capacity) = length (concat (drop (n - capacity) first # chunks))" using 2(3) True False by simp
        show "tail_trim capacity (drop (n - capacity) first # chunks) (n - (n - capacity)) = (chunks', n')"
          using 2(4) unfolding tail_trim.simps(2) [of capacity first chunks n] by (simp only: Let_def True False if_True if_False)
      qed
      moreover have "last_octets capacity (concat (drop (n - capacity) first # chunks)) = last_octets capacity (concat (first # chunks))"
        using True False 2(3) by (simp add: last_octets_def)
      ultimately show ?thesis by simp
    qed
  next
    case False
    then show ?thesis using 2(3,4) by (auto simp: last_octets_def)
  qed
qed (simp add: last_octets_def)

definition tail_ok :: "tail_buffer \<Rightarrow> bool" where
  "tail_ok t \<longleftrightarrow> tb_size t = length (concat (tb_chunks t)) \<and> tb_size t \<le> tb_capacity t"

lemma tail_append_exact:
  assumes "tail_ok t"
  shows "tail_ok (tail_append t chunk)" "tb_capacity (tail_append t chunk) = tb_capacity t"
    "concat (tb_chunks (tail_append t chunk)) = last_octets (tb_capacity t) (concat (tb_chunks t) @ chunk)"
proof -
  obtain chunks n where run: "tail_trim (tb_capacity t) (tb_chunks t @ [chunk]) (tb_size t + length chunk) = (chunks, n)" by fastforce
  have "tb_size t + length chunk = length (concat (tb_chunks t @ [chunk]))" using assms by (simp add: tail_ok_def)
  from tail_trim_exact [OF this run]
  have chunks: "concat chunks = last_octets (tb_capacity t) (concat (tb_chunks t) @ chunk)" "n = length (concat chunks)" by simp_all
  show "tb_capacity (tail_append t chunk) = tb_capacity t" by (simp add: tail_append_def run)
  show kept: "concat (tb_chunks (tail_append t chunk)) = last_octets (tb_capacity t) (concat (tb_chunks t) @ chunk)"
  proof (cases "chunk = []")
    case True
    then show ?thesis using assms by (simp add: tail_append_def tail_ok_def last_octets_def)
  qed (simp add: tail_append_def run chunks)
  show "tail_ok (tail_append t chunk)"
  proof (cases "chunk = []")
    case False
    then show ?thesis using chunks by (simp add: tail_append_def run tail_ok_def last_octets_def)
  qed (use assms in \<open>simp add: tail_append_def\<close>)
qed

lemma last_octets_append: "last_octets n (last_octets n a @ b) = last_octets n (a @ b)"
proof (cases "length a \<le> n")
  case False
  then have "length a + length b - (length a - n + n) + (length a - n) = length a + length b - n" by simp
  then show ?thesis using False by (simp add: last_octets_def)
qed (simp add: last_octets_def)

text \<open>
  C26: the buffer keeps exactly the last octets. After any sequence of appends to a new buffer the
  chunks together are the last \<open>capacity\<close> octets of everything that was appended, and the size that is
  kept beside them is their length.
\<close>

theorem tail_exact:
  "concat (tb_chunks (foldl tail_append (tail_new capacity) chunks)) = last_octets capacity (concat chunks) \<and>
   tb_size (foldl tail_append (tail_new capacity) chunks) = length (last_octets capacity (concat chunks)) \<and>
   length (last_octets capacity (concat chunks)) \<le> capacity"
proof -
  let ?t = "foldl tail_append (tail_new capacity) chunks"
  have "tail_ok ?t \<and> tb_capacity ?t = capacity \<and> concat (tb_chunks ?t) = last_octets capacity (concat chunks)"
  proof (induction chunks rule: rev_induct)
    case Nil
    then show ?case by (simp add: tail_ok_def tail_new_def last_octets_def)
  next
    case (snoc chunk chunks)
    then show ?case using tail_append_exact [of "foldl tail_append (tail_new capacity) chunks" chunk]
      by (simp add: last_octets_append)
  qed
  then show ?thesis by (simp add: tail_ok_def last_octets_def)
qed

section \<open>What is shown\<close>

lemma decode_replace_ascii: "ascii s \<Longrightarrow> decode_replace s = map (\<lambda>c. [c]) s"
  by (induction s) (simp_all add: ascii_def follow_ranges_def followed_def)

lemma redact_no_field: "''s'' \<notin> set ps \<Longrightarrow> redact ps = ps"
proof (induction ps)
  case (Cons p ps)
  have "take (length TOKEN_FIELD) (p # ps) \<noteq> TOKEN_FIELD"
  proof
    assume "take (length TOKEN_FIELD) (p # ps) = TOKEN_FIELD"
    moreover have "''s'' \<in> set TOKEN_FIELD" by (simp add: TOKEN_FIELD_def)
    ultimately show False using Cons.prems by (metis in_set_takeD)
  qed
  then show ?case using Cons by (simp add: match_token_def)
qed simp

text \<open>
  Truncation can defeat the redaction. For every capacity and every token there is a malformed
  response line with a complete token field of which the buffer keeps the token but not the name of the
  field; the diagnostics then show the token.
\<close>

theorem tail_shows_token:
  assumes "class_match is_hex 32 32 tok" "36 \<le> capacity"
  shows "\<exists>p q. \<exists>shown rest. tail_text (tail_append (tail_new capacity)
      (p @ [CHR 0x22] @ ''safety_token'' @ [CHR 0x22] @ '':'' @ [CHR 0x22] @ tok @ [CHR 0x22] @ q)) = shown @ tok @ rest"
proof -
  have hex: "list_all is_hex tok" "length tok = 32" using assms(1) by (simp_all add: class_match_def)
  let ?q = "replicate (capacity - 36) (CHR ''x'')"
  let ?line = "''{'' @ [CHR 0x22] @ ''safety_token'' @ [CHR 0x22] @ '':'' @ [CHR 0x22] @ tok @ [CHR 0x22] @ ?q"
  let ?tail = "[CHR 0x22] @ '':'' @ [CHR 0x22] @ tok @ [CHR 0x22] @ ?q"
  have "last_octets (length b) (a @ b) = b" for a b by (simp add: last_octets_def)
  moreover have "length ?tail = capacity" using assms(2) hex(2) by simp
  moreover have "?line = (''{'' @ [CHR 0x22] @ ''safety_token'') @ ?tail" by simp
  ultimately have "last_octets capacity ?line = ?tail" by metis
  then have kept: "concat (tb_chunks (tail_append (tail_new capacity) ?line)) = ?tail"
    using tail_append_exact(3) [of "tail_new capacity" ?line] by (simp add: tail_new_def tail_ok_def)
  have "is_hex c \<Longrightarrow> (of_char c :: nat) < 128 \<and> c \<noteq> CHR ''s''" for c
    by (auto simp: is_hex_def hex_value_def Let_def split: if_splits)
  then have chars: "ascii tok" "CHR ''s'' \<notin> set tok" using hex(1) by (auto simp: ascii_def list_all_iff)
  then have plain: "ascii ?tail" "CHR ''s'' \<notin> set ?tail" by (auto simp: ascii_def list_all_iff)
  have "tail_text (tail_append (tail_new capacity) ?line) = ?tail"
  proof -
    have "''s'' \<notin> set (map (\<lambda>c. [c]) ?tail)" using plain(2) by auto
    moreover have "concat (map (\<lambda>c. [c]) s) = s" for s :: string by (induction s) simp_all
    ultimately show ?thesis
      using redact_no_field [of "map (\<lambda>c. [c]) ?tail"] unfolding tail_text_def kept decode_replace_ascii [OF plain(1)] by metis
  qed
  then show ?thesis by (intro exI [of _ "''{''"] exI [of _ ?q] exI [of _ "[CHR 0x22] @ '':'' @ [CHR 0x22]"] exI [of _ "[CHR 0x22] @ ?q"]) simp
qed

theorem tail_shows_token_witness:
  "\<exists>p q. \<exists>shown rest. tail_text (tail_append (tail_new 256)
      (p @ [CHR 0x22] @ ''safety_token'' @ [CHR 0x22] @ '':'' @ [CHR 0x22] @ ''0123456789abcdef0123456789ABCDEF'' @ [CHR 0x22] @ q)) =
        shown @ ''0123456789abcdef0123456789ABCDEF'' @ rest"
proof -
  have "class_match is_hex 32 32 ''0123456789abcdef0123456789ABCDEF''" by code_simp
  then show ?thesis by (rule tail_shows_token) simp
qed

end
