(* ===== verification/HostPipe.thy ===== *)
theory HostPipe
  imports TailBuffer
begin

text \<open>
  The pipes to the native host, \<open>python/src/dnp3_master/client.py\<close>: the reader thread that cuts the
  standard output of the host into response lines (\<open>_read_stdout\<close>), the bounded queue it fills
  (\<open>_enqueue_stdout\<close>) and the writer thread that sends one request (\<open>_write_stdin\<close>).

  What the host writes until it closes the pipe is one text; after it reading finds the end of the stream or
  raises an error. The pipe is unbuffered, \<open>readline(n)\<close> returns at most \<open>n\<close> octets and stops
  after a line feed.
\<close>

section \<open>The reader\<close>

datatype stdout_item = Stdout_EOF | Stream_Failure string | Line string | Unknown_Item

abbreviation LF :: char where
  "LF \<equiv> CHR 0x0A"

definition through_lf :: "string \<Rightarrow> string" where
  "through_lf s = (let l = takeWhile (\<lambda>c. c \<noteq> LF) s in if LF \<in> set s then l @ [LF] else l)"

text \<open>\<open>None\<close>: the error is raised, since the line is neither complete nor long enough.\<close>

definition readline :: "string option \<Rightarrow> nat \<Rightarrow> string \<Rightarrow> (string \<times> string) option" where
  "readline broken n s =
     (if broken \<noteq> None \<and> LF \<notin> set s \<and> length s < n then None
      else let raw = take n (through_lf s) in Some (raw, drop (length raw) s))"

definition ends_lf :: "string \<Rightarrow> bool" where
  "ends_lf s \<longleftrightarrow> s \<noteq> [] \<and> last s = LF"

definition strip_cr :: "string \<Rightarrow> string" where
  "strip_cr s = (if s \<noteq> [] \<and> last s = CHR 0x0D then butlast s else s)"

lemma through_lf_length: "length (through_lf s) \<le> length s"
  by (induction s) (auto simp: through_lf_def Let_def)

lemma readline_shorter:
  assumes "readline broken n s = Some (raw, rest)"
  shows "s = raw @ rest" "length rest \<le> length s" "raw \<noteq> [] \<Longrightarrow> length rest < length s"
proof -
  have "through_lf s @ drop (length (through_lf s)) s = s"
    by (induction s) (auto simp: through_lf_def Let_def)
  then have "take n (through_lf s) = take (length (take n (through_lf s))) s"
    by (metis append_eq_conv_conj length_take min.commute take_take)
  moreover have "raw = take n (through_lf s)" "rest = drop (length raw) s"
    using assms by (auto simp: readline_def Let_def split: if_splits)
  ultimately show s: "s = raw @ rest" by (metis append_take_drop_id)
  then show "length rest \<le> length s" "raw \<noteq> [] \<Longrightarrow> length rest < length s" by simp_all
qed

text \<open>The loop that skips the rest of a line that is too long; \<open>None\<close> when reading raises.\<close>

function discard_line :: "string option \<Rightarrow> string \<Rightarrow> string \<Rightarrow> string option" where
  "discard_line broken raw s =
     (if raw = [] \<or> ends_lf raw then Some s
      else case readline broken 4096 s of None \<Rightarrow> None | Some (raw', s') \<Rightarrow> discard_line broken raw' s')"
  by pat_completeness auto
termination
proof (relation "measure (\<lambda>(broken, raw, s). 2 * length s + (if raw = [] then 0 else 1))")
  fix broken :: "string option" and raw s x raw' s'
  assume "\<not> (raw = [] \<or> ends_lf raw)" "readline broken 4096 s = Some x" "(raw', s') = x"
  then show "((broken, raw', s'), broken, raw, s) \<in> measure (\<lambda>(broken, raw, s). 2 * length s + (if raw = [] then 0 else 1))"
    using readline_shorter [of broken 4096 s raw' s'] by auto
qed simp

declare discard_line.simps [simp del]

lemma discard_line_shorter: "discard_line broken raw s = Some s' \<Longrightarrow> length s' \<le> length s"
proof (induction broken raw s rule: discard_line.induct)
  case (1 broken raw s)
  show ?case
  proof (cases "raw = [] \<or> ends_lf raw")
    case True
    then show ?thesis using 1(2) by (simp add: discard_line.simps)
  next
    case False
    then obtain raw' t where r: "readline broken 4096 s = Some (raw', t)" "discard_line broken raw' t = Some s'"
      using 1(2) by (auto simp: discard_line.simps [of broken raw s] split: option.splits)
    then show ?thesis using 1(1) [OF False r(1) refl r(2)] readline_shorter(2) [OF r(1)] by simp
  qed
qed

definition TOO_LONG :: stdout_item where
  "TOO_LONG = Stream_Failure ''response line exceeds max_response_bytes''"

definition reader_failed :: "string option \<Rightarrow> stdout_item list" where
  "reader_failed broken = [Stream_Failure (''stdout reader failed: '' @ (case broken of None \<Rightarrow> [] | Some m \<Rightarrow> m)), Stdout_EOF]"

text \<open>\<open>_read_stdout\<close>: everything the reader puts into the queue.\<close>

function read_stdout :: "nat \<Rightarrow> string option \<Rightarrow> string \<Rightarrow> stdout_item list" where
  "read_stdout limit broken s =
     (case readline broken (limit + 2) s of
        None \<Rightarrow> reader_failed broken
      | Some (raw, rest) \<Rightarrow>
          if raw = [] then [Stdout_EOF]
          else if ends_lf raw
          then (if length (strip_cr (butlast raw)) > limit then TOO_LONG else Line raw) # read_stdout limit broken rest
          else if length raw > limit
          then (case discard_line broken raw rest of
              None \<Rightarrow> reader_failed broken
            | Some rest' \<Rightarrow> TOO_LONG # read_stdout limit broken rest')
          else Line raw # read_stdout limit broken rest)"
  by pat_completeness auto
termination
  by (relation "measure (\<lambda>(limit, broken, s). length s)")
    (auto dest: readline_shorter(3) discard_line_shorter intro: le_less_trans)

declare read_stdout.simps [simp del]

section \<open>The reader cuts the stream at line feeds\<close>

text \<open>What is to be queued for one complete line, and for a last line without line feed.\<close>

definition line_item :: "nat \<Rightarrow> string \<Rightarrow> stdout_item" where
  "line_item limit l = (if length (strip_cr l) \<le> limit then Line (l @ [LF]) else TOO_LONG)"

definition last_items :: "nat \<Rightarrow> string \<Rightarrow> stdout_item list" where
  "last_items limit p = (if p = [] then [] else if length p \<le> limit then [Line p] else [TOO_LONG])"

lemma through_lf_line: "LF \<notin> set l \<Longrightarrow> through_lf (l @ LF # s) = l @ [LF]"
  by (simp add: through_lf_def Let_def takeWhile_append)

lemma through_lf_none: "LF \<notin> set p \<Longrightarrow> through_lf p = p"
  by (simp add: through_lf_def Let_def takeWhile_eq_all_conv) (metis takeWhile_eq_all_conv)

lemma not_ends_lf: "LF \<notin> set l \<Longrightarrow> \<not> ends_lf l"
  unfolding ends_lf_def using last_in_set [of l] by metis

lemma drop_min: "drop (min (length p) n) p = drop n p"
  by (simp add: min_def)

lemma discard_line_exact:
  "LF \<notin> set raw \<Longrightarrow> LF \<notin> set l \<Longrightarrow> raw \<noteq> [] \<Longrightarrow> discard_line None raw (l @ LF # s) = Some s"
proof (induction l arbitrary: raw rule: length_induct)
  case (1 l)
  show ?case
  proof (cases "length l < 4096")
    case True
    then have "readline None 4096 (l @ LF # s) = Some (l @ [LF], s)"
      using 1(3) by (simp add: readline_def through_lf_line)
    then show ?thesis
      using 1(2,4) not_ends_lf [of raw] by (simp add: discard_line.simps [of None raw] discard_line.simps [of None "l @ [LF]"] ends_lf_def)
  next
    case False
    then have "readline None 4096 (l @ LF # s) = Some (take 4096 l, drop 4096 l @ LF # s)"
      using 1(3) by (simp add: readline_def through_lf_line)
    moreover have "discard_line None (take 4096 l) (drop 4096 l @ LF # s) = Some s"
    proof -
      have "length (drop 4096 l) < length l" "LF \<notin> set (take 4096 l)" "LF \<notin> set (drop 4096 l)" "take 4096 l \<noteq> []"
        using False 1(3) by (auto dest: in_set_takeD in_set_dropD)
      then show ?thesis using 1(1) by blast
    qed
    ultimately show ?thesis using 1(2,4) not_ends_lf [of raw] by (simp add: discard_line.simps [of None raw])
  qed
qed

lemma discard_line_end:
  "LF \<notin> set raw \<Longrightarrow> LF \<notin> set p \<Longrightarrow> discard_line None raw p = Some []
     \<or> (raw = [] \<and> discard_line None raw p = Some p)"
proof (induction p arbitrary: raw rule: length_induct)
  case (1 p)
  show ?case
  proof (cases "raw = []")
    case False
    have r: "readline None 4096 p = Some (take 4096 p, drop 4096 p)"
      using 1(3) by (simp add: readline_def through_lf_none drop_min)
    have unfold: "discard_line None raw p = discard_line None (take 4096 p) (drop 4096 p)"
      using False 1(2) not_ends_lf [of raw] r by (simp add: discard_line.simps [of None raw])
    show ?thesis
    proof (cases "p = []")
      case True
      then show ?thesis using unfold by (simp add: discard_line.simps [of None "[]"])
    next
      case nonempty: False
      then have "discard_line None (take 4096 p) (drop 4096 p) = Some [] \<or>
          take 4096 p = [] \<and> discard_line None (take 4096 p) (drop 4096 p) = Some (drop 4096 p)"
      proof -
        have "length (drop 4096 p) < length p" "LF \<notin> set (take 4096 p)" "LF \<notin> set (drop 4096 p)"
          using nonempty 1(3) by (auto dest: in_set_takeD in_set_dropD)
        then show ?thesis using 1(1) by blast
      qed
      then show ?thesis using unfold nonempty by simp
    qed
  qed (simp add: discard_line.simps [of None "[]"])
qed

lemma read_stdout_line:
  assumes "LF \<notin> set l"
  shows "read_stdout limit None (l @ LF # s) = line_item limit l # read_stdout limit None s"
proof (cases "length l \<le> limit + 1")
  case True
  then have "readline None (limit + 2) (l @ LF # s) = Some (l @ [LF], s)"
    using assms by (simp add: readline_def through_lf_line)
  then show ?thesis by (subst read_stdout.simps) (simp add: ends_lf_def line_item_def)
next
  case False
  then have r: "readline None (limit + 2) (l @ LF # s) = Some (take (limit + 2) l, drop (limit + 2) l @ LF # s)"
    using assms by (simp add: readline_def through_lf_line)
  have free: "LF \<notin> set (take (limit + 2) l)" "LF \<notin> set (drop (limit + 2) l)" using assms by (auto dest: in_set_takeD in_set_dropD)
  have nonempty: "take (limit + 2) l \<noteq> []" using False by (cases l) simp_all
  then have "discard_line None (take (limit + 2) l) (drop (limit + 2) l @ LF # s) = Some s"
    using free by (intro discard_line_exact)
  moreover have "line_item limit l = TOO_LONG" using False by (auto simp: line_item_def strip_cr_def)
  ultimately show ?thesis
    using r False nonempty not_ends_lf [OF free(1)] by (subst read_stdout.simps) (auto simp: TOO_LONG_def)
qed

lemma read_stdout_end:
  assumes "LF \<notin> set p"
  shows "read_stdout limit None p = last_items limit p @ [Stdout_EOF]"
proof -
  have nil: "read_stdout limit None [] = [Stdout_EOF]"
    by (subst read_stdout.simps) (simp add: readline_def through_lf_def)
  have r: "readline None (limit + 2) p = Some (take (limit + 2) p, drop (limit + 2) p)"
    using assms by (simp add: readline_def through_lf_none drop_min)
  have free: "LF \<notin> set (take (limit + 2) p)" "LF \<notin> set (drop (limit + 2) p)" using assms by (auto dest: in_set_takeD in_set_dropD)
  show ?thesis
  proof (cases "p = []")
    case False
    then have nonempty: "take (limit + 2) p \<noteq> []" by (cases p) simp_all
    then have discard: "discard_line None (take (limit + 2) p) (drop (limit + 2) p) = Some []"
      using discard_line_end [OF free] by simp
    show ?thesis
    proof (cases "length p \<le> limit")
      case True
      then show ?thesis using r nil False not_ends_lf [OF assms] by (subst read_stdout.simps) (simp add: last_items_def)
    next
      case long: False
      then show ?thesis
        using r nil False nonempty not_ends_lf [OF free(1)] discard by (subst read_stdout.simps) (auto simp: last_items_def min_def)
    qed
  qed (simp add: nil last_items_def)
qed

text \<open>
  C24: the reader delivers exactly the lines of the host. Whatever the host writes, each complete line of
  at most the configured length arrives unchanged and in order, each longer line as one failure, after
  which the reader is again at the start of the next line, then a last line without line feed, then the
  end of the stream.
\<close>

theorem stdout_lines_exact:
  assumes "list_all (\<lambda>l. LF \<notin> set l) lines" "LF \<notin> set p"
  shows "read_stdout limit None (concat (map (\<lambda>l. l @ [LF]) lines) @ p) = map (line_item limit) lines @ last_items limit p @ [Stdout_EOF]"
  using assms
proof (induction lines)
  case Nil
  then show ?case by (simp add: read_stdout_end)
next
  case (Cons l lines)
  then show ?case using read_stdout_line [of l limit "concat (map (\<lambda>l. l @ [LF]) lines) @ p"] by simp
qed

theorem stdout_lines_exact_witness:
  "read_stdout 4 None (concat (map (\<lambda>l. l @ [LF]) [''ab'', ''abcdefg'', ''{}'']) @ ''x'') =
     [Line (''ab'' @ [LF]), TOO_LONG, Line (''{}'' @ [LF]), Line ''x'', Stdout_EOF]"
proof -
  have "list_all (\<lambda>l. LF \<notin> set l) [''ab'', ''abcdefg'', ''{}'']" "LF \<notin> set ''x''" by simp_all
  from stdout_lines_exact [OF this, of 4] show ?thesis by (simp add: line_item_def last_items_def strip_cr_def)
qed

section \<open>The queue\<close>

record stdout_pipe =
  sp_queue :: "stdout_item list"
  sp_overflow :: bool
  sp_tail :: tail_buffer

definition enqueue_stdout :: "stdout_pipe \<Rightarrow> stdout_item \<Rightarrow> stdout_pipe" where
  "enqueue_stdout p item =
     (if length (sp_queue p) < 16 then p\<lparr>sp_queue := sp_queue p @ [item]\<rparr>
      else p\<lparr>sp_overflow := True, sp_tail := tail_append (sp_tail p) (''[stdout response queue overflow]'' @ [LF])\<rparr>)"

text \<open>
  Nothing is lost silently. The queue never holds more than sixteen items, and while the overflow
  flag is not set it holds everything that was put into it, in order.
\<close>

theorem stdout_queue_lossless:
  assumes "length (sp_queue p) \<le> 16"
  shows "length (sp_queue (foldl enqueue_stdout p items)) \<le> 16 \<and>
    (sp_overflow (foldl enqueue_stdout p items) \<or> sp_queue (foldl enqueue_stdout p items) = sp_queue p @ items)"
  using assms
proof (induction items arbitrary: p)
  case (Cons i items)
  have keep: "sp_overflow (foldl enqueue_stdout q js)" if "sp_overflow q" for q js
    using that by (induction js arbitrary: q) (simp_all add: enqueue_stdout_def)
  have "length (sp_queue (enqueue_stdout p i)) \<le> 16" using Cons.prems by (simp add: enqueue_stdout_def)
  note IH = Cons.IH [OF this]
  have "sp_overflow (enqueue_stdout p i) \<or> sp_queue (enqueue_stdout p i) = sp_queue p @ [i]" by (simp add: enqueue_stdout_def)
  then show ?case using IH keep [of "enqueue_stdout p i" items] by auto
qed simp

theorem stdout_queue_lossless_witness:
  "sp_queue (foldl enqueue_stdout \<lparr>sp_queue = [], sp_overflow = False, sp_tail = tail_new 256\<rparr> [Line ''a'', Stdout_EOF]) = [Line ''a'', Stdout_EOF]"
  using stdout_queue_lossless [of "\<lparr>sp_queue = [], sp_overflow = False, sp_tail = tail_new 256\<rparr>" "[Line ''a'', Stdout_EOF]"]
  by (simp add: enqueue_stdout_def)

section \<open>The writer\<close>

text \<open>
  What \<open>stream.write\<close> returns each time: a count, \<open>None\<close>, or an exception. When no further return comes
  the writer is blocked. The result is what reached the pipe and how the request ended.
\<close>

datatype write_return = Wrote int | Wrote_None | Write_Raises string

datatype write_end = Write_Completed | Write_Broken string | Write_Blocked

fun write_request :: "write_return list \<Rightarrow> string \<Rightarrow> string \<times> write_end" where
  "write_request rs [] = ([], Write_Completed)"
| "write_request [] remaining = ([], Write_Blocked)"
| "write_request (r # rs) remaining = (case r of
     Write_Raises m \<Rightarrow> ([], Write_Broken m)
   | Wrote_None \<Rightarrow> ([], Write_Broken ''stdin write made no progress'')
   | Wrote n \<Rightarrow> if n \<le> 0 then ([], Write_Broken ''stdin write made no progress'')
       else let (written, e) = write_request rs (drop (nat n) remaining) in (take (nat n) remaining @ written, e))"

text \<open>
  C25: a request is written completely or the exchange is told. Whatever partial counts the pipe
  accepts, what reaches it is a prefix of the request, and all of it when the writer reports completion;
  as many positive counts as the request has octets always complete it.
\<close>

theorem write_request_exact:
  "(\<exists>rest. remaining = fst (write_request rs remaining) @ rest) \<and>
   (snd (write_request rs remaining) = Write_Completed \<longrightarrow> fst (write_request rs remaining) = remaining) \<and>
   (list_all (\<lambda>r. \<exists>n. r = Wrote n \<and> n > 0) rs \<and> length remaining \<le> length rs \<longrightarrow> snd (write_request rs remaining) = Write_Completed)"
proof (induction rs remaining rule: write_request.induct)
  case (3 r rs c s)
  show ?case
  proof (cases r)
    case (Wrote n)
    show ?thesis
    proof (cases "n \<le> 0")
      case False
      obtain w e where w: "write_request rs (drop (nat n) (c # s)) = (w, e)" by fastforce
      have IH: "\<exists>rest. drop (nat n) (c # s) = w @ rest" "e = Write_Completed \<longrightarrow> w = drop (nat n) (c # s)"
        "list_all (\<lambda>r. \<exists>n. r = Wrote n \<and> n > 0) rs \<and> length (drop (nat n) (c # s)) \<le> length rs \<longrightarrow> e = Write_Completed"
        using 3 [OF Wrote False] w by simp_all
      have run: "write_request (r # rs) (c # s) = (take (nat n) (c # s) @ w, e)" using Wrote False w by simp
      obtain rest where "drop (nat n) (c # s) = w @ rest" using IH(1) by blast
      then have "c # s = (take (nat n) (c # s) @ w) @ rest" by (metis append.assoc append_take_drop_id)
      moreover have "e = Write_Completed \<longrightarrow> take (nat n) (c # s) @ w = c # s" using IH(2) by auto
      moreover have "0 < nat n" using False by simp
      then have "length (c # s) \<le> length (r # rs) \<longrightarrow> length (drop (nat n) (c # s)) \<le> length rs" by auto
      ultimately show ?thesis using IH(3) unfolding run by auto
    qed (use Wrote in auto)
  qed auto
qed auto

theorem write_request_exact_witness:
  "write_request [Wrote 2, Wrote 3, Wrote 1] ''abc'' = (''abc'', Write_Completed)"
  using write_request_exact [of "''abc''" "[Wrote 2, Wrote 3, Wrote 1]"] by simp

end
