(* ===== verification/ConfigModels.thy ===== *)
theory ConfigModels
  imports TraceModels
begin

text \<open>
  Configuration models of \<open>python/src/dnp3_master/models.py\<close>: the shared argument checks
  (\<open>_milliseconds\<close>, \<open>_endpoint_text\<close>, \<open>_unsigned_integer\<close>), \<open>LabSafetyConfig\<close>,
  \<open>TcpConnectionConfig\<close> and \<open>ReadHeader\<close> with their \<open>to_params\<close>. A constructor takes the dynamic values
  of its arguments and returns the object or the exception of \<open>__post_init__\<close>.
\<close>

section \<open>Shared checks\<close>

fun is_float :: "pyval \<Rightarrow> bool" where
  "is_float (PFloat _) = True"
| "is_float _ = False"

definition unsigned_integer :: "pyval \<Rightarrow> string \<Rightarrow> int \<Rightarrow> int \<Rightarrow> pyexc + int" where
  "unsigned_integer v field minimum maximum =
     checked (raise_if (\<not> is_int v \<or> \<not> (minimum \<le> as_int v \<and> as_int v \<le> maximum))
       (ValueError (field @ '' must be an integer between '' @ str_int minimum @ '' and '' @ str_int maximum)))
       (as_int v)"

text \<open>
  \<open>f"{ms / 1000:g}"\<close> for the limits that occur in the sources: whole seconds below a million,
  or a fraction with trailing zeros removed.
\<close>

definition seconds_text :: "int \<Rightarrow> string" where
  "seconds_text ms = (let frac = nat (ms mod 1000) in
     str_int (ms div 1000) @
     (if frac = 0 then [] else ''.'' @
       (if frac mod 100 = 0 then dec (frac div 100)
        else if frac mod 10 = 0 then (if frac < 100 then ''0'' else []) @ dec (frac div 10)
        else (if frac < 10 then ''00'' else if frac < 100 then ''0'' else []) @ dec frac)))"

text \<open>
  \<open>round(normalized * 1000)\<close>: the product is rounded to binary64 first, and \<open>round\<close> of an
  infinite product raises \<open>OverflowError\<close>.
\<close>

definition milliseconds :: "pyval \<Rightarrow> string \<Rightarrow> int \<Rightarrow> int \<Rightarrow> pyexc + int" where
  "milliseconds v field minimum maximum =
     (if \<not> (is_int v \<or> is_float v) then Inl (ValueError (field @ '' must be a finite number of seconds''))
      else case finite_number v of
        None \<Rightarrow> Inl (ValueError (field @ '' must be a finite number of seconds''))
      | Some normalized \<Rightarrow>
          (case binary64 (normalized * 1000) of
             Fin product \<Rightarrow>
               let ms = round_half_even product in
               checked (raise_if (ms < minimum \<or> ms > maximum)
                 (ValueError (field @ '' must be between '' @ seconds_text minimum @ '' and '' @
                   seconds_text maximum @ '' seconds''))) ms
           | _ \<Rightarrow> Inl (OverflowError ''cannot convert float infinity to integer'')))"

definition is_ascii :: "char \<Rightarrow> bool" where
  "is_ascii c \<longleftrightarrow> of_char c < (128 :: nat)"

definition is_printable :: "char \<Rightarrow> bool" where
  "is_printable c \<longleftrightarrow> 0x21 \<le> (of_char c :: nat) \<and> (of_char c :: nat) \<le> 0x7E"

definition endpoint_text :: "pyval \<Rightarrow> string \<Rightarrow> nat \<Rightarrow> pyexc + string" where
  "endpoint_text v field maximum_bytes = checked (first_error
     [raise_if (\<not> is_str v) (ValueError (field @ '' must be a string'')),
      raise_if (as_str v = [] \<or> length (as_str v) > maximum_bytes)
        (ValueError (field @ '' must contain between 1 and '' @ dec maximum_bytes @ '' bytes'')),
      raise_if (\<not> list_all is_ascii (as_str v) \<or> \<not> list_all is_printable (as_str v))
        (ValueError (field @ '' must contain printable non-space ASCII''))])
     (as_str v)"

lemma unsigned_integer_Inr [simp, check_simps]:
  "unsigned_integer v f lo hi = Inr i \<longleftrightarrow> v = PInt i \<and> lo \<le> i \<and> i \<le> hi"
  by (auto simp: unsigned_integer_def is_int_iff)

lemma endpoint_text_Inr [simp, check_simps]:
  "endpoint_text v f n = Inr s \<longleftrightarrow> v = PStr s \<and> s \<noteq> [] \<and> length s \<le> n \<and> list_all is_printable s"
  by (fastforce simp: endpoint_text_def is_str_iff list_all_iff is_ascii_def is_printable_def)

section \<open>LabSafetyConfig\<close>

record lab_safety =
  ls_operator_id :: string
  ls_dut_id :: string
  ls_allow_state_change :: bool

definition LabSafetyConfig :: "pyval \<Rightarrow> pyval \<Rightarrow> pyval \<Rightarrow> pyexc + lab_safety" where
  "LabSafetyConfig operator_id dut_id allow_state_change =
     bindE (endpoint_text operator_id ''operator_id'' 128) (\<lambda>op.
     bindE (endpoint_text dut_id ''dut_id'' 128) (\<lambda>dut.
     checked (raise_if (\<not> is_bool allow_state_change) (ValueError ''allow_state_change must be boolean''))
       \<lparr>ls_operator_id = op, ls_dut_id = dut, ls_allow_state_change = as_bool allow_state_change\<rparr>))"

definition LabSafetyConfig_to_params :: "lab_safety \<Rightarrow> dict" where
  "LabSafetyConfig_to_params s =
     [(''environment'', PStr ''LAB''), (''allow_state_change'', PBool (ls_allow_state_change s)),
      (''operator_id'', PStr (ls_operator_id s)), (''dut_id'', PStr (ls_dut_id s))]"

section \<open>TcpConnectionConfig\<close>

text \<open>The argument \<open>safety\<close>: absent, a \<open>LabSafetyConfig\<close>, or any other object.\<close>

datatype safety_arg = No_Safety | Lab_Safety lab_safety | Other_Safety

record tcp_config =
  tcp_host :: string
  tcp_port :: int
  tcp_local_adapter :: string
  tcp_connect_timeout :: pyval
  tcp_retry_min :: pyval
  tcp_retry_max :: pyval
  tcp_master_address :: int
  tcp_outstation_address :: int
  tcp_keep_alive_timeout :: pyval
  tcp_safety :: "lab_safety option"
  tcp_simulator :: bool

record tcp_args =
  ta_host :: pyval
  ta_port :: pyval
  ta_local_adapter :: pyval
  ta_connect_timeout :: pyval
  ta_retry_min :: pyval
  ta_retry_max :: pyval
  ta_master_address :: pyval
  ta_outstation_address :: pyval
  ta_keep_alive_timeout :: pyval
  ta_safety :: safety_arg
  ta_simulator :: pyval

text \<open>The defaults of the dataclass, around the one argument that has none.\<close>

definition tcp_defaults :: "pyval \<Rightarrow> tcp_args" where
  "tcp_defaults host =
     \<lparr>ta_host = host, ta_port = PInt 20000, ta_local_adapter = PStr ''0.0.0.0'',
      ta_connect_timeout = PFloat (Fin 5), ta_retry_min = PFloat (Fin 1), ta_retry_max = PFloat (Fin 60),
      ta_master_address = PInt 1, ta_outstation_address = PInt 1024,
      ta_keep_alive_timeout = PFloat (Fin 60), ta_safety = No_Safety, ta_simulator = PBool False\<rparr>"

definition dnp3_address :: "pyval \<Rightarrow> string \<Rightarrow> pyexc option" where
  "dnp3_address v field =
     raise_if (\<not> is_int v \<or> \<not> (0 \<le> as_int v \<and> as_int v \<le> 65519))
       (ValueError (field @ '' must be an individually assignable DNP3 address between 0 and 65519''))"

definition TcpConnectionConfig :: "tcp_args \<Rightarrow> pyexc + tcp_config" where
  "TcpConnectionConfig a = checked (first_error
     [exc_of (endpoint_text (ta_host a) ''host'' 253),
      exc_of (endpoint_text (ta_local_adapter a) ''local_adapter'' 64),
      raise_if (\<not> is_int (ta_port a) \<or> \<not> (1 \<le> as_int (ta_port a) \<and> as_int (ta_port a) \<le> 65535))
        (ValueError ''port must be an integer between 1 and 65535''),
      dnp3_address (ta_master_address a) ''master_address'',
      dnp3_address (ta_outstation_address a) ''outstation_address'',
      raise_if (as_int (ta_master_address a) = as_int (ta_outstation_address a))
        (ValueError ''master_address and outstation_address must differ''),
      raise_if (ta_safety a = Other_Safety) (ValueError ''safety must be a LabSafetyConfig or None''),
      raise_if (\<not> is_bool (ta_simulator a)) (ValueError ''simulator must be boolean''),
      raise_if (as_bool (ta_simulator a) \<and> ta_safety a \<noteq> No_Safety)
        (ValueError ''simulator and LabSafetyConfig are mutually exclusive''),
      exc_of (milliseconds (ta_connect_timeout a) ''connect_timeout'' 50 300000),
      exc_of (bindE (milliseconds (ta_retry_min a) ''retry_min'' 10 300000) (\<lambda>retry_min_ms.
        bindE (milliseconds (ta_retry_max a) ''retry_max'' 10 300000) (\<lambda>retry_max_ms.
        checked (raise_if (retry_min_ms > retry_max_ms) (ValueError ''retry_min must not exceed retry_max'')) ()))),
      exc_of (milliseconds (ta_keep_alive_timeout a) ''keep_alive_timeout'' 1000 86400000)])
     \<lparr>tcp_host = as_str (ta_host a), tcp_port = as_int (ta_port a), tcp_local_adapter = as_str (ta_local_adapter a),
      tcp_connect_timeout = ta_connect_timeout a, tcp_retry_min = ta_retry_min a, tcp_retry_max = ta_retry_max a,
      tcp_master_address = as_int (ta_master_address a), tcp_outstation_address = as_int (ta_outstation_address a),
      tcp_keep_alive_timeout = ta_keep_alive_timeout a,
      tcp_safety = (case ta_safety a of Lab_Safety s \<Rightarrow> Some s | _ \<Rightarrow> None),
      tcp_simulator = as_bool (ta_simulator a)\<rparr>"

definition connect_timeout_ms :: "tcp_config \<Rightarrow> pyexc + int" where
  "connect_timeout_ms c = milliseconds (tcp_connect_timeout c) ''connect_timeout'' 50 300000"

definition TcpConnectionConfig_to_params :: "tcp_config \<Rightarrow> pyexc + dict" where
  "TcpConnectionConfig_to_params c =
     bindE (connect_timeout_ms c) (\<lambda>connect_ms.
     bindE (milliseconds (tcp_retry_min c) ''retry_min'' 10 300000) (\<lambda>min_ms.
     bindE (milliseconds (tcp_retry_max c) ''retry_max'' 10 300000) (\<lambda>max_ms.
     bindE (milliseconds (tcp_keep_alive_timeout c) ''keep_alive_timeout'' 1000 86400000) (\<lambda>keep_alive_ms.
     Inr ([(''host'', PStr (tcp_host c)), (''port'', PInt (tcp_port c)),
           (''local_adapter'', PStr (tcp_local_adapter c)), (''connect_timeout_ms'', PInt connect_ms),
           (''retry'', PDict [(''min_ms'', PInt min_ms), (''max_ms'', PInt max_ms)]),
           (''link'', PDict [(''master_address'', PInt (tcp_master_address c)),
              (''outstation_address'', PInt (tcp_outstation_address c)),
              (''keep_alive_timeout_ms'', PInt keep_alive_ms)])] @
          (case tcp_safety c of
             Some s \<Rightarrow> [(''safety'', PDict (LabSafetyConfig_to_params s))]
           | None \<Rightarrow> if tcp_simulator c then [(''safety'', PDict [(''environment'', PStr ''SIMULATOR'')])] else []))))))"

section \<open>ReadHeader\<close>

definition READ_QUALIFIERS :: "string list" where
  "READ_QUALIFIERS = [''all_objects'', ''range8'', ''range16'', ''count8'', ''count16'']"

text \<open>The optional fields are \<open>None\<close> or a non-negative integer once the checks have passed.\<close>

record read_header =
  rh_group :: int
  rh_variation :: int
  rh_qualifier :: string
  rh_start :: "int option"
  rh_stop :: "int option"
  rh_count :: "int option"

definition opt_int :: "pyval \<Rightarrow> int option" where
  "opt_int v = (if is_int v then Some (as_int v) else None)"

definition read_header_range :: "string \<Rightarrow> pyval \<Rightarrow> pyval \<Rightarrow> pyval \<Rightarrow> pyexc option" where
  "read_header_range qualifier start stop count =
     (let maximum = (if qualifier = ''range8'' then 255 else 65535) in first_error
       [raise_if (count \<noteq> PNone) (ValueError (qualifier @ '' does not accept count'')),
        raise_if (start = PNone \<or> stop = PNone) (ValueError (qualifier @ '' requires start and stop'')),
        exc_of (unsigned_integer start ''start'' 0 maximum),
        exc_of (unsigned_integer stop ''stop'' 0 maximum),
        raise_if (as_int start > as_int stop) (ValueError ''start must not exceed stop'')])"

definition read_header_count :: "string \<Rightarrow> pyval \<Rightarrow> pyval \<Rightarrow> pyval \<Rightarrow> pyexc option" where
  "read_header_count qualifier start stop count =
     (let maximum = (if qualifier = ''count8'' then 255 else 65535) in first_error
       [raise_if (start \<noteq> PNone \<or> stop \<noteq> PNone) (ValueError (qualifier @ '' does not accept start or stop'')),
        raise_if (count = PNone) (ValueError (qualifier @ '' requires count'')),
        exc_of (unsigned_integer count ''count'' 1 maximum)])"

definition ReadHeader :: "pyval \<Rightarrow> pyval \<Rightarrow> pyval \<Rightarrow> pyval \<Rightarrow> pyval \<Rightarrow> pyval \<Rightarrow> pyexc + read_header" where
  "ReadHeader grp variation qualifier start stop count =
     (let q = as_str qualifier in checked (first_error
       [exc_of (unsigned_integer grp ''group'' 0 255),
        exc_of (unsigned_integer variation ''variation'' 0 255),
        check_member qualifier READ_QUALIFIERS
          (ValueError (''qualifier must be one of: '' @ join '', '' (sort READ_QUALIFIERS))),
        (if q = ''all_objects''
         then raise_if (start \<noteq> PNone \<or> stop \<noteq> PNone \<or> count \<noteq> PNone)
           (ValueError ''all_objects does not accept start, stop, or count'')
         else if q \<in> {''range8'', ''range16''} then read_header_range q start stop count
         else read_header_count q start stop count),
        raise_if (as_int grp = 60 \<and> 1 \<le> as_int variation \<and> as_int variation \<le> 4 \<and> q \<in> {''range8'', ''range16''})
          (ValueError ''DNP3 class data requests do not use range qualifiers'')])
       \<lparr>rh_group = as_int grp, rh_variation = as_int variation, rh_qualifier = q,
        rh_start = opt_int start, rh_stop = opt_int stop, rh_count = opt_int count\<rparr>)"

text \<open>The class methods \<open>all_objects\<close>, \<open>range8\<close>, \<open>range16\<close>, \<open>count8\<close> and \<open>count16\<close>.\<close>

definition ReadHeader_all_objects :: "pyval \<Rightarrow> pyval \<Rightarrow> pyexc + read_header" where
  "ReadHeader_all_objects grp variation = ReadHeader grp variation (PStr ''all_objects'') PNone PNone PNone"

definition ReadHeader_range8 :: "pyval \<Rightarrow> pyval \<Rightarrow> pyval \<Rightarrow> pyval \<Rightarrow> pyexc + read_header" where
  "ReadHeader_range8 grp variation start stop = ReadHeader grp variation (PStr ''range8'') start stop PNone"

definition ReadHeader_range16 :: "pyval \<Rightarrow> pyval \<Rightarrow> pyval \<Rightarrow> pyval \<Rightarrow> pyexc + read_header" where
  "ReadHeader_range16 grp variation start stop = ReadHeader grp variation (PStr ''range16'') start stop PNone"

definition ReadHeader_count8 :: "pyval \<Rightarrow> pyval \<Rightarrow> pyval \<Rightarrow> pyexc + read_header" where
  "ReadHeader_count8 grp variation count = ReadHeader grp variation (PStr ''count8'') PNone PNone count"

definition ReadHeader_count16 :: "pyval \<Rightarrow> pyval \<Rightarrow> pyval \<Rightarrow> pyexc + read_header" where
  "ReadHeader_count16 grp variation count = ReadHeader grp variation (PStr ''count16'') PNone PNone count"

definition opt_field :: "string \<Rightarrow> int option \<Rightarrow> dict" where
  "opt_field k v = (case v of None \<Rightarrow> [] | Some i \<Rightarrow> [(k, PInt i)])"

definition ReadHeader_to_params :: "read_header \<Rightarrow> dict" where
  "ReadHeader_to_params h =
     [(''group'', PInt (rh_group h)), (''variation'', PInt (rh_variation h)),
      (''qualifier'', PStr (rh_qualifier h))] @
     opt_field ''start'' (rh_start h) @ opt_field ''stop'' (rh_stop h) @ opt_field ''count'' (rh_count h)"

section \<open>Durations\<close>

lemma milliseconds_bounds: "milliseconds v f lo hi = Inr ms \<Longrightarrow> lo \<le> ms \<and> ms \<le> hi"
  by (auto simp: milliseconds_def Let_def split: if_splits option.splits pyfloat.splits)

lemma milliseconds_int:
  assumes "\<bar>n\<bar> < 2 ^ 43"
  shows "milliseconds (PInt n) f lo hi =
    (if lo \<le> 1000 * n \<and> 1000 * n \<le> hi then Inr (1000 * n)
     else Inl (ValueError (f @ '' must be between '' @ seconds_text lo @ '' and '' @ seconds_text hi @ '' seconds'')))"
proof -
  have "binary64 (of_int n) = Fin (of_int n)" using assms by (intro binary64_of_int) simp
  moreover have "binary64 (of_int (n * 1000)) = Fin (of_int (n * 1000))"
    using assms by (intro binary64_of_int) auto
  then have "binary64 (of_int n * 1000) = Fin (of_int (n * 1000))" by simp
  moreover have "round_half_even (of_int (n * 1000)) = n * 1000" by (rule round_half_even_of_int)
  ultimately show ?thesis
    by (auto simp: milliseconds_def Let_def checked_def raise_if_def mult.commute)
qed

text \<open>
  A whole number of seconds becomes exactly that many milliseconds: below 2 to the 43 the
  detour over binary64 loses nothing, and the limits decide alone.
\<close>

theorem milliseconds_exact:
  assumes "\<bar>n\<bar> < 2 ^ 43"
  shows "milliseconds (PInt n) f lo hi =
    (if lo \<le> 1000 * n \<and> 1000 * n \<le> hi then Inr (1000 * n)
     else Inl (ValueError (f @ '' must be between '' @ seconds_text lo @ '' and '' @ seconds_text hi @ '' seconds'')))"
  by (rule milliseconds_int [OF assms])

theorem milliseconds_exact_witness:
  "milliseconds (PInt 300) ''connect_timeout'' 50 300000 = Inr 300000"
  using milliseconds_exact [of 300 "''connect_timeout''" 50 300000] by simp

text \<open>Exact results of at most 53 significant bits are kept, or overflow to infinity.\<close>

lemma binary64_scaled:
  assumes "0 < m" "m < 2 ^ 53"
  shows "binary64 (of_int m * 2 ^ k) = (if of_int m * 2 ^ k \<ge> (2 :: rat) ^ 1024 then PosInf else Fin (of_int m * 2 ^ k))"
proof -
  define x :: rat where "x = of_int m * 2 ^ k"
  have x: "x = of_int (m * 2 ^ k)" "0 < x" using assms(1) by (simp_all add: x_def)
  define e where "e = max (ilog2 x - 52) (-1074)"
  have "m * 2 ^ k < 2 ^ (53 + k)" using assms by (simp add: power_add)
  then have "ilog2 x < int (53 + k)" unfolding x(1) using assms(1) by (intro ilog2_of_int_less) simp_all
  then have e: "e \<le> int k" by (simp add: e_def)
  have split: "x / pow2 e = of_int (m * 2 ^ nat (int k - e))"
  proof (cases "0 \<le> e")
    case True
    then have "(2 :: rat) ^ k = 2 ^ nat (int k - e) * 2 ^ nat e"
      using e by (simp add: power_add [symmetric] nat_add_distrib [symmetric])
    then show ?thesis using True by (simp add: x_def pow2_def)
  next
    case False
    then have "nat (int k - e) = k + nat (- e)" by linarith
    then show ?thesis using False by (simp add: x_def pow2_def power_add)
  qed
  have "of_int (round_half_even (x / pow2 e)) * pow2 e = x"
    unfolding split round_half_even_of_int unfolding split [symmetric] using less_imp_neq [OF pow2_pos [of e]] by simp
  moreover have "\<not> x \<le> - (2 ^ 1024)" using x(2) by (simp add: not_le less_trans [of _ 0])
  ultimately show ?thesis
    using x(2) unfolding binary64_def Let_def x_def [symmetric] e_def [symmetric] abs_of_pos [OF x(2)] by simp
qed

text \<open>
  A finite but huge number of seconds is not rejected the way the function rejects every
  other bad duration: the product with 1000 is infinite and \<open>round\<close> raises \<open>OverflowError\<close>.
\<close>

theorem milliseconds_overflow:
  "binary64 (2 ^ 1017) = Fin (2 ^ 1017) \<and>
   milliseconds (PFloat (Fin (2 ^ 1017))) f lo hi = Inl (OverflowError ''cannot convert float infinity to integer'')"
proof -
  have "\<not> (2 :: rat) ^ 1024 \<le> 2 ^ 1017" by simp
  then have "binary64 (2 ^ 1017) = Fin (2 ^ 1017)" using binary64_scaled [of 1 1017] by simp
  moreover have "(2 :: rat) ^ 1024 \<le> 1000 * 2 ^ 1017"
  proof -
    have "(2 :: rat) ^ 1024 = 2 ^ 7 * 2 ^ 1017" by simp
    also have "\<dots> \<le> 1000 * 2 ^ 1017" by (rule mult_right_mono) simp_all
    finally show ?thesis .
  qed
  then have "binary64 (2 ^ 1017 * 1000) = PosInf"
    using binary64_scaled [of 1000 1017] by (simp only: mult.commute) simp
  ultimately show ?thesis by (simp add: milliseconds_def)
qed

section \<open>Accepted connection settings\<close>

lemma tcp_config_cases:
  assumes "TcpConnectionConfig a = Inr c"
  obtains host local_adapter port m o1 t rmin rmax k sim
  where "ta_host a = PStr host" "ta_local_adapter a = PStr local_adapter"
    "ta_port a = PInt port" "1 \<le> port" "port \<le> 65535"
    "ta_master_address a = PInt m" "0 \<le> m" "m \<le> 65519"
    "ta_outstation_address a = PInt o1" "0 \<le> o1" "o1 \<le> 65519" "m \<noteq> o1"
    "ta_safety a \<noteq> Other_Safety" "ta_simulator a = PBool sim" "sim \<Longrightarrow> ta_safety a = No_Safety"
    "milliseconds (ta_connect_timeout a) ''connect_timeout'' 50 300000 = Inr t"
    "milliseconds (ta_retry_min a) ''retry_min'' 10 300000 = Inr rmin"
    "milliseconds (ta_retry_max a) ''retry_max'' 10 300000 = Inr rmax" "rmin \<le> rmax"
    "milliseconds (ta_keep_alive_timeout a) ''keep_alive_timeout'' 1000 86400000 = Inr k"
    "c = \<lparr>tcp_host = host, tcp_port = port, tcp_local_adapter = local_adapter,
      tcp_connect_timeout = ta_connect_timeout a, tcp_retry_min = ta_retry_min a, tcp_retry_max = ta_retry_max a,
      tcp_master_address = m, tcp_outstation_address = o1, tcp_keep_alive_timeout = ta_keep_alive_timeout a,
      tcp_safety = (case ta_safety a of Lab_Safety s \<Rightarrow> Some s | _ \<Rightarrow> None), tcp_simulator = sim\<rparr>"
  using assms unfolding TcpConnectionConfig_def dnp3_address_def
  apply (simp only: check_simps)
  apply (elim exE conjE)
  subgoal premises p for host local_adapter t u rmin k rmax
    apply (rule p(1) [of host local_adapter "as_int (ta_port a)" "as_int (ta_master_address a)"
          "as_int (ta_outstation_address a)" "as_bool (ta_simulator a)" t rmin rmax k])
    using p(2-) by (auto simp: is_iffs not_less)
  done

text \<open>
  An accepted connection configuration always yields parameters for the host, and they
  say what was configured: distinct individual link addresses, ordered retry times within
  their limits, and a safety block that is exactly the lab authorization given, the
  simulator marker, or absent.
\<close>

theorem tcp_params_sound:
  assumes "TcpConnectionConfig a = Inr c"
  shows "\<exists>p t rmin rmax k. TcpConnectionConfig_to_params c = Inr p \<and>
    get p ''connect_timeout_ms'' = PInt t \<and> 50 \<le> t \<and> t \<le> 300000 \<and>
    get p ''retry'' = PDict [(''min_ms'', PInt rmin), (''max_ms'', PInt rmax)] \<and>
    10 \<le> rmin \<and> rmin \<le> rmax \<and> rmax \<le> 300000 \<and>
    get p ''link'' = PDict [(''master_address'', ta_master_address a),
      (''outstation_address'', ta_outstation_address a), (''keep_alive_timeout_ms'', PInt k)] \<and>
    as_int (ta_master_address a) \<in> {0..65519} \<and> as_int (ta_outstation_address a) \<in> {0..65519} \<and>
    ta_master_address a \<noteq> ta_outstation_address a \<and>
    map_of p ''safety'' = (case ta_safety a of
        Lab_Safety s \<Rightarrow> Some (PDict (LabSafetyConfig_to_params s))
      | _ \<Rightarrow> if ta_simulator a = PBool True then Some (PDict [(''environment'', PStr ''SIMULATOR'')]) else None)"
  using assms
  by (elim tcp_config_cases)
    (auto simp: TcpConnectionConfig_to_params_def connect_timeout_ms_def get_def
      split: safety_arg.splits dest: milliseconds_bounds)

definition sample_tcp :: tcp_args where
  "sample_tcp = (tcp_defaults (PStr ''192.0.2.7''))\<lparr>ta_connect_timeout := PInt 5, ta_retry_min := PInt 1,
     ta_retry_max := PInt 60, ta_keep_alive_timeout := PInt 60, ta_simulator := PBool True\<rparr>"

lemma sample_tcp_accepted: "\<exists>c. TcpConnectionConfig sample_tcp = Inr c"
proof -
  have "list_all is_printable ''192.0.2.7''" "list_all is_printable ''0.0.0.0''" by code_simp+
  then show ?thesis
    unfolding TcpConnectionConfig_def dnp3_address_def
    by (simp add: sample_tcp_def tcp_defaults_def milliseconds_int)
qed

theorem tcp_params_sound_witness:
  "\<exists>c p. TcpConnectionConfig sample_tcp = Inr c \<and> TcpConnectionConfig_to_params c = Inr p \<and>
     map_of p ''safety'' = Some (PDict [(''environment'', PStr ''SIMULATOR'')])"
proof -
  obtain c where c: "TcpConnectionConfig sample_tcp = Inr c" using sample_tcp_accepted by blast
  show ?thesis using tcp_params_sound [OF c] c by (auto simp: sample_tcp_def tcp_defaults_def)
qed

section \<open>Accepted read headers\<close>

text \<open>What a read header may look like, as a predicate on the object.\<close>

definition read_header_ok :: "read_header \<Rightarrow> bool" where
  "read_header_ok h \<longleftrightarrow> rh_group h \<in> {0..255} \<and> rh_variation h \<in> {0..255} \<and>
     (let maximum = (if rh_qualifier h \<in> {''range8'', ''count8''} then 255 else 65535) in
      (rh_qualifier h = ''all_objects'' \<and> rh_start h = None \<and> rh_stop h = None \<and> rh_count h = None) \<or>
      (rh_qualifier h \<in> {''range8'', ''range16''} \<and> rh_count h = None \<and>
         \<not> (rh_group h = 60 \<and> rh_variation h \<in> {1..4}) \<and>
         (\<exists>a b. rh_start h = Some a \<and> rh_stop h = Some b \<and> 0 \<le> a \<and> a \<le> b \<and> b \<le> maximum)) \<or>
      (rh_qualifier h \<in> {''count8'', ''count16''} \<and> rh_start h = None \<and> rh_stop h = None \<and>
         (\<exists>n. rh_count h = Some n \<and> 1 \<le> n \<and> n \<le> maximum)))"

definition opt_val :: "int option \<Rightarrow> pyval" where
  "opt_val v = (case v of None \<Rightarrow> PNone | Some i \<Rightarrow> PInt i)"

lemma opt_val_simps [simp]: "opt_val None = PNone" "opt_val (Some i) = PInt i" "opt_int (opt_val v) = v"
  by (simp_all add: opt_val_def opt_int_def split: option.splits)

lemma read_header_range_None:
  "read_header_range q s t c = None \<longleftrightarrow> c = PNone \<and>
     (\<exists>a b. s = PInt a \<and> t = PInt b \<and> 0 \<le> a \<and> a \<le> b \<and> b \<le> (if q = ''range8'' then 255 else 65535))"
  unfolding read_header_range_def Let_def by (simp only: check_simps) auto

lemma read_header_count_None:
  "read_header_count q s t c = None \<longleftrightarrow> s = PNone \<and> t = PNone \<and>
     (\<exists>n. c = PInt n \<and> 1 \<le> n \<and> n \<le> (if q = ''count8'' then 255 else 65535))"
  unfolding read_header_count_def Let_def by (simp only: check_simps) auto

lemma ReadHeader_Inr:
  "ReadHeader g v q s t c = Inr h \<longleftrightarrow> (\<exists>gi vi qs. g = PInt gi \<and> 0 \<le> gi \<and> gi \<le> 255 \<and> v = PInt vi \<and> 0 \<le> vi \<and> vi \<le> 255 \<and>
     q = PStr qs \<and> qs \<in> set READ_QUALIFIERS \<and>
     (if qs = ''all_objects'' then s = PNone \<and> t = PNone \<and> c = PNone
      else if qs \<in> {''range8'', ''range16''} then read_header_range qs s t c = None
      else read_header_count qs s t c = None) \<and>
     \<not> (gi = 60 \<and> 1 \<le> vi \<and> vi \<le> 4 \<and> qs \<in> {''range8'', ''range16''}) \<and>
     h = \<lparr>rh_group = gi, rh_variation = vi, rh_qualifier = qs, rh_start = opt_int s, rh_stop = opt_int t, rh_count = opt_int c\<rparr>)"
proof (cases "is_int g \<and> is_int v \<and> is_str q")
  case True
  then obtain gi vi qs where args: "g = PInt gi" "v = PInt vi" "q = PStr qs" by (auto simp: is_iffs)
  show ?thesis
    unfolding ReadHeader_def Let_def args
    by (simp only: check_simps as_int.simps as_str.simps pyval.inject if_split_eq1 cong: conj_cong)
      (simp, blast)
next
  case False
  have "is_int g \<and> is_int v \<and> is_str q" if "ReadHeader g v q s t c = Inr h"
    using that unfolding ReadHeader_def Let_def
    by (simp only: check_simps) (elim exE conjE bexE, simp)
  with False show ?thesis by (metis is_int.simps(1) is_str.simps(1))
qed

lemma READ_QUALIFIERS_cases:
  "qs \<in> set READ_QUALIFIERS \<Longrightarrow> (qs = ''all_objects'' \<Longrightarrow> P) \<Longrightarrow> (qs = ''range8'' \<Longrightarrow> P) \<Longrightarrow>
     (qs = ''range16'' \<Longrightarrow> P) \<Longrightarrow> (qs = ''count8'' \<Longrightarrow> P) \<Longrightarrow> (qs = ''count16'' \<Longrightarrow> P) \<Longrightarrow> P"
  by (auto simp: READ_QUALIFIERS_def)

lemma opt_val_None [simp]: "opt_val v = PNone \<longleftrightarrow> v = None"
  by (cases v) simp_all

lemma opt_val_Int [simp]: "opt_val v = PInt i \<longleftrightarrow> v = Some i"
  by (cases v) simp_all

lemma read_header_sound:
  assumes "ReadHeader g v q s t c = Inr h"
  shows "read_header_ok h \<and> g = PInt (rh_group h) \<and> v = PInt (rh_variation h) \<and> q = PStr (rh_qualifier h) \<and>
    s = opt_val (rh_start h) \<and> t = opt_val (rh_stop h) \<and> c = opt_val (rh_count h)"
proof -
  obtain gi vi qs where h: "g = PInt gi" "0 \<le> gi" "gi \<le> 255" "v = PInt vi" "0 \<le> vi" "vi \<le> 255" "q = PStr qs"
    "\<not> (gi = 60 \<and> 1 \<le> vi \<and> vi \<le> 4 \<and> qs \<in> {''range8'', ''range16''})"
    "h = \<lparr>rh_group = gi, rh_variation = vi, rh_qualifier = qs, rh_start = opt_int s, rh_stop = opt_int t, rh_count = opt_int c\<rparr>"
    and qs: "qs \<in> set READ_QUALIFIERS"
    and body: "if qs = ''all_objects'' then s = PNone \<and> t = PNone \<and> c = PNone
      else if qs \<in> {''range8'', ''range16''} then read_header_range qs s t c = None
      else read_header_count qs s t c = None"
    using assms unfolding ReadHeader_Inr by blast
  show ?thesis
    by (rule READ_QUALIFIERS_cases [OF qs]; insert h body)
      (auto simp: read_header_ok_def read_header_range_None read_header_count_None opt_int_def)
qed

lemma read_header_complete:
  assumes "read_header_ok h"
  shows "ReadHeader (PInt (rh_group h)) (PInt (rh_variation h)) (PStr (rh_qualifier h))
     (opt_val (rh_start h)) (opt_val (rh_stop h)) (opt_val (rh_count h)) = Inr h"
proof -
  have "rh_qualifier h \<in> set READ_QUALIFIERS"
    using assms by (auto simp: read_header_ok_def READ_QUALIFIERS_def Let_def)
  then show ?thesis
    by (rule READ_QUALIFIERS_cases; insert assms, unfold ReadHeader_Inr, cases h)
      (auto simp: read_header_ok_def read_header_range_None read_header_count_None READ_QUALIFIERS_def opt_int_def)
qed

text \<open>
  The constructor accepts exactly the well-formed read headers: whatever the arguments,
  an accepted header is well-formed and carries those arguments; every well-formed header is
  accepted, in particular when it is built again from its own parameters.
\<close>

theorem read_header_exact:
  "(ReadHeader g v q s t c = Inr h \<longleftrightarrow>
      read_header_ok h \<and> g = PInt (rh_group h) \<and> v = PInt (rh_variation h) \<and> q = PStr (rh_qualifier h) \<and>
      s = opt_val (rh_start h) \<and> t = opt_val (rh_stop h) \<and> c = opt_val (rh_count h)) \<and>
   (let p = ReadHeader_to_params h in
    (ReadHeader (get p ''group'') (get p ''variation'') (get p ''qualifier'') (get p ''start'') (get p ''stop'')
       (get p ''count'') = Inr h) = read_header_ok h)"
proof -
  let ?p = "ReadHeader_to_params h"
  have "get ?p ''group'' = PInt (rh_group h)" "get ?p ''variation'' = PInt (rh_variation h)"
    "get ?p ''qualifier'' = PStr (rh_qualifier h)" "get ?p ''start'' = opt_val (rh_start h)"
    "get ?p ''stop'' = opt_val (rh_stop h)" "get ?p ''count'' = opt_val (rh_count h)"
    by (simp_all add: get_def ReadHeader_to_params_def opt_field_def opt_val_def split: option.splits)
  then show ?thesis
    using read_header_sound [of g v q s t c h] read_header_complete [of h]
      read_header_sound [of "PInt (rh_group h)" "PInt (rh_variation h)" "PStr (rh_qualifier h)"
        "opt_val (rh_start h)" "opt_val (rh_stop h)" "opt_val (rh_count h)" h]
    by (simp only: Let_def) blast
qed

end
