(* ===== verification/ReadModels.thy ===== *)
theory ReadModels
  imports ConfigModels
begin

text \<open>
  Results of read and unsolicited operations, \<open>python/src/dnp3_master/models.py\<close>:
  \<open>MeasurementRecord\<close>, \<open>ReadTaskResult\<close>, \<open>UnsolicitedControlResult\<close> and
  \<open>UnsolicitedBatchResult\<close>. Each \<open>from_mapping\<close> is the list of its checks in order, then
  the object; \<open>deepcopy\<close> is the identity on values.
\<close>

section \<open>Shared checks of results\<close>

definition quoted :: "string \<Rightarrow> string" where
  "quoted s = [CHR 0x27] @ s @ [CHR 0x27]"

definition check_missing :: "string \<Rightarrow> string list \<Rightarrow> dict \<Rightarrow> pyexc option" where
  "check_missing message required value =
     (let missing = missing_keys required value in
      raise_if (missing \<noteq> []) (ValueError (message @ join '', '' (sort missing))))"

definition nonneg :: "pyval \<Rightarrow> bool" where
  "nonneg v \<longleftrightarrow> is_int v \<and> 0 \<le> as_int v"

definition positive :: "pyval \<Rightarrow> bool" where
  "positive v \<longleftrightarrow> is_int v \<and> 0 < as_int v"

definition nonempty_str :: "pyval \<Rightarrow> bool" where
  "nonempty_str v \<longleftrightarrow> is_str v \<and> as_str v \<noteq> []"

definition opt_nonneg :: "pyval \<Rightarrow> bool" where
  "opt_nonneg v \<longleftrightarrow> v = PNone \<or> nonneg v"

definition check_field :: "(pyval \<Rightarrow> bool) \<Rightarrow> dict \<Rightarrow> (string \<Rightarrow> string) \<Rightarrow> string \<Rightarrow> pyexc option" where
  "check_field P d message f = raise_if (\<not> P (get d f)) (ValueError (message f))"

lemma check_missing_None [simp, check_simps]:
  "check_missing m required d = None \<longleftrightarrow> (\<forall>k \<in> set required. map_of d k \<noteq> None)"
  by (simp add: check_missing_def Let_def)

lemma check_field_None [simp, check_simps]: "check_field P d m f = None \<longleftrightarrow> P (get d f)"
  by (simp add: check_field_def)

lemma nonneg_iff: "nonneg v \<longleftrightarrow> (\<exists>i. v = PInt i \<and> 0 \<le> i)"
  by (auto simp: nonneg_def is_int_iff)

lemma positive_iff: "positive v \<longleftrightarrow> (\<exists>i. v = PInt i \<and> 0 < i)"
  by (auto simp: positive_def is_int_iff)

lemma nonempty_str_iff: "nonempty_str v \<longleftrightarrow> (\<exists>s. v = PStr s \<and> s \<noteq> [])"
  by (cases v) (simp_all add: nonempty_str_def)

lemma opt_nonneg_iff: "opt_nonneg v \<longleftrightarrow> v = PNone \<or> (\<exists>i. v = PInt i \<and> 0 \<le> i)"
  by (simp add: opt_nonneg_def nonneg_iff)

lemmas field_iffs = nonneg_iff positive_iff nonempty_str_iff opt_nonneg_iff

section \<open>MeasurementRecord\<close>

record measurement =
  me_receive_seq :: int
  me_received_monotonic_ns :: int
  me_kind :: string
  me_group :: int
  me_variation :: int
  me_qualifier :: string
  me_qualifier_raw :: int
  me_index :: "int option"
  me_value :: pyval
  me_flags_raw :: "int option"
  me_flags_valid :: bool
  me_dnp3_timestamp_ms :: "int option"
  me_timestamp_quality :: string
  me_is_event :: bool
  me_header_index :: int
  me_source :: string
  me_fragment_index :: int
  me_session_id :: "int option"
  me_raw :: dict

definition MEASUREMENT_FIELDS :: "string list" where
  "MEASUREMENT_FIELDS =
     [''receive_seq'', ''received_monotonic_ns'', ''kind'', ''group'', ''variation'', ''qualifier'',
      ''qualifier_raw'', ''index'', ''value'', ''flags_raw'', ''flags_valid'', ''dnp3_timestamp_ms'',
      ''timestamp_quality'', ''is_event'', ''header_index'', ''source'', ''fragment_index'']"

definition MeasurementRecord_from_mapping :: "dict \<Rightarrow> pyexc + measurement" where
  "MeasurementRecord_from_mapping d =
     (let session_id = get d ''session_id'' in checked (first_error
       [check_missing ''measurement result is missing fields: '' MEASUREMENT_FIELDS d,
        for_each (check_field nonneg d (\<lambda>f. ''measurement field '' @ quoted f @ '' must be non-negative''))
          [''receive_seq'', ''received_monotonic_ns'', ''group'', ''variation'', ''qualifier_raw'',
           ''header_index'', ''fragment_index''],
        for_each (check_field nonempty_str d (\<lambda>f. ''measurement field '' @ quoted f @ '' must be a string''))
          [''kind'', ''qualifier'', ''timestamp_quality'', ''source''],
        for_each (check_field is_bool d (\<lambda>f. ''measurement field '' @ quoted f @ '' must be boolean''))
          [''flags_valid'', ''is_event''],
        for_each (check_field opt_nonneg d (\<lambda>f. ''measurement field '' @ quoted f @ '' must be null or non-negative''))
          [''index'', ''flags_raw'', ''dnp3_timestamp_ms''],
        raise_if (session_id \<noteq> PNone \<and> \<not> positive session_id)
          (ValueError ''measurement field 'session_id' must be null or a positive integer'')])
       \<lparr>me_receive_seq = as_int (get d ''receive_seq''),
        me_received_monotonic_ns = as_int (get d ''received_monotonic_ns''),
        me_kind = as_str (get d ''kind''), me_group = as_int (get d ''group''),
        me_variation = as_int (get d ''variation''), me_qualifier = as_str (get d ''qualifier''),
        me_qualifier_raw = as_int (get d ''qualifier_raw''), me_index = opt_int (get d ''index''),
        me_value = get d ''value'', me_flags_raw = opt_int (get d ''flags_raw''),
        me_flags_valid = as_bool (get d ''flags_valid''),
        me_dnp3_timestamp_ms = opt_int (get d ''dnp3_timestamp_ms''),
        me_timestamp_quality = as_str (get d ''timestamp_quality''), me_is_event = as_bool (get d ''is_event''),
        me_header_index = as_int (get d ''header_index''), me_source = as_str (get d ''source''),
        me_fragment_index = as_int (get d ''fragment_index''), me_session_id = opt_int session_id, me_raw = d\<rparr>)"

text \<open>
  The tuple of the measurements that are objects; the callers then compare its length with
  the list, so an entry that is no object is an error only after the others were read.
\<close>

definition parse_objects :: "(dict \<Rightarrow> pyexc + 'a) \<Rightarrow> pyval \<Rightarrow> pyexc + 'a list" where
  "parse_objects f v = mapE (\<lambda>item. f (as_dict item)) (filter is_dict (as_list v))"

section \<open>ReadTaskResult\<close>

record read_result =
  rr_task_id :: int
  rr_task_status :: string
  rr_task_started :: bool
  rr_task_destroyed :: bool
  rr_return_mode :: string
  rr_measurements :: "measurement list"
  rr_summary :: dict
  rr_fragments :: "dict list"
  rr_iin :: dict
  rr_timings :: dict
  rr_raw :: dict

definition read_envelope_checks :: "dict \<Rightarrow> pyexc option" where
  "read_envelope_checks d = first_error
     [check_missing ''read result is missing fields: ''
        [''task_id'', ''task_status'', ''task_started'', ''task_destroyed'', ''return_mode'', ''measurements'',
         ''summary'', ''fragments'', ''iin'', ''timings''] d,
      raise_if (\<not> positive (get d ''task_id'')) (ValueError ''read result task_id must be a positive integer''),
      raise_if (\<not> nonempty_str (get d ''task_status'')) (ValueError ''read result task_status must be a string''),
      raise_if (\<not> is_bool (get d ''task_started'') \<or> \<not> is_bool (get d ''task_destroyed''))
        (ValueError ''read result task flags must be boolean''),
      raise_if (get d ''task_status'' \<noteq> PStr ''SUCCESS'' \<or> get d ''task_started'' \<noteq> PBool True)
        (ValueError ''successful read envelope must report a started SUCCESS task''),
      check_member (get d ''return_mode'') [''detail'', ''summary''] (ValueError ''read result return_mode is invalid''),
      raise_if (\<not> is_list (get d ''measurements'')) (ValueError ''read result measurements must be an array''),
      raise_if (\<not> is_list (get d ''fragments'')) (ValueError ''read result fragments must be an array''),
      raise_if (\<not> list_all is_dict (as_list (get d ''fragments'')))
        (ValueError ''read result fragments must contain only objects''),
      for_each (check_field is_dict d (\<lambda>f. ''read result '' @ f @ '' must be an object''))
        [''summary'', ''iin'', ''timings'']]"

definition read_summary_checks :: "dict \<Rightarrow> measurement list \<Rightarrow> pyexc option" where
  "read_summary_checks d measurements =
     (let summary = as_dict (get d ''summary''); num = (\<lambda>f. as_int (get summary f));
          detail = (get d ''return_mode'' = PStr ''detail'') in first_error
       [raise_if (length measurements \<noteq> length (as_list (get d ''measurements'')))
          (ValueError ''read result contains a non-object measurement''),
        raise_if (get d ''return_mode'' = PStr ''summary'' \<and> measurements \<noteq> [])
          (ValueError ''summary read result must not contain measurement details''),
        for_each (check_field nonneg summary (\<lambda>f. ''read summary field '' @ quoted f @ '' must be non-negative''))
          [''received_total'', ''stored_detail'', ''overflow'', ''fragments_received'', ''fragments_stored'',
           ''fragment_overflow'', ''max_fragments'', ''max_measurements''],
        raise_if (num ''stored_detail'' \<noteq> int (length measurements))
          (ValueError ''read summary stored_detail does not match measurements''),
        raise_if (detail \<and> num ''stored_detail'' \<noteq> num ''received_total'')
          (ValueError ''complete detail read did not retain every measurement''),
        raise_if (num ''overflow'' \<noteq> 0 \<or> num ''fragment_overflow'' \<noteq> 0)
          (ValueError ''successful read result reports bounded-storage overflow''),
        raise_if (num ''fragments_stored'' > num ''max_fragments'')
          (ValueError ''read summary fragments_stored exceeds max_fragments''),
        raise_if (num ''fragments_stored'' \<noteq> int (length (as_list (get d ''fragments''))))
          (ValueError ''read summary fragments_stored does not match fragments''),
        raise_if (num ''fragments_received'' < num ''fragments_stored'')
          (ValueError ''read summary fragment counts are inconsistent''),
        raise_if (num ''received_total'' > num ''max_measurements'')
          (ValueError ''successful read received_total exceeds max_measurements'')])"

definition octet :: "pyval \<Rightarrow> bool" where
  "octet v \<longleftrightarrow> is_int v \<and> 0 \<le> as_int v \<and> as_int v \<le> 255"

definition read_iin_checks :: "dict \<Rightarrow> pyexc option" where
  "read_iin_checks iin =
     (let num = (\<lambda>f. as_int (get iin f)) in first_error
       [check_missing ''read result IIN is missing fields: ''
          [''lsb'', ''msb'', ''raw_hex'', ''bits'', ''observations'', ''observation_store_dropped_total'',
           ''observation_window_dropped'', ''observation_store_capacity''] iin,
        for_each (check_field octet iin (\<lambda>f. ''read IIN '' @ f @ '' must be an octet'')) [''lsb'', ''msb''],
        raise_if (get iin ''raw_hex'' \<noteq> PStr (hex_byte (of_int (num ''lsb'')) @ hex_byte (of_int (num ''msb''))))
          (ValueError ''read IIN raw_hex is inconsistent with lsb/msb''),
        raise_if (\<not> is_list (get iin ''bits'') \<or> \<not> list_all nonempty_str (as_list (get iin ''bits'')))
          (ValueError ''read IIN bits must be a string array''),
        raise_if (\<not> is_list (get iin ''observations'') \<or> \<not> list_all is_dict (as_list (get iin ''observations'')))
          (ValueError ''read IIN observations must be an object array''),
        for_each (check_field nonneg iin (\<lambda>f. ''read IIN '' @ f @ '' must be non-negative''))
          [''observation_store_dropped_total'', ''observation_window_dropped'', ''observation_store_capacity''],
        raise_if (num ''observation_store_capacity'' < 1)
          (ValueError ''read IIN observation_store_capacity must be positive''),
        raise_if (int (length (as_list (get iin ''observations''))) > num ''observation_store_capacity'')
          (ValueError ''read IIN observations exceed their bounded capacity''),
        raise_if (num ''observation_window_dropped'' \<noteq> 0)
          (ValueError ''successful read result reports lost IIN observations'')])"

definition ReadTaskResult_from_mapping :: "dict \<Rightarrow> pyexc + read_result" where
  "ReadTaskResult_from_mapping d =
     bindE (checked (read_envelope_checks d) ()) (\<lambda>_.
     bindE (parse_objects MeasurementRecord_from_mapping (get d ''measurements'')) (\<lambda>measurements.
     checked (first_error [read_summary_checks d measurements, read_iin_checks (as_dict (get d ''iin''))])
       \<lparr>rr_task_id = as_int (get d ''task_id''), rr_task_status = as_str (get d ''task_status''),
        rr_task_started = as_bool (get d ''task_started''), rr_task_destroyed = as_bool (get d ''task_destroyed''),
        rr_return_mode = as_str (get d ''return_mode''), rr_measurements = measurements,
        rr_summary = as_dict (get d ''summary''), rr_fragments = map as_dict (as_list (get d ''fragments'')),
        rr_iin = as_dict (get d ''iin''), rr_timings = as_dict (get d ''timings''), rr_raw = d\<rparr>))"

definition measurements_of_kind :: "string \<Rightarrow> measurement list \<Rightarrow> measurement list" where
  "measurements_of_kind kind ms = filter (\<lambda>m. me_kind m = kind) ms"

section \<open>Unsolicited operations\<close>

text \<open>Classes: integers out of 1, 2, 3 without repetition.\<close>

definition classes_ok :: "pyval \<Rightarrow> bool" where
  "classes_ok v \<longleftrightarrow> is_list v \<and> length (as_list v) \<le> 3 \<and>
     list_all (\<lambda>c. is_int c \<and> as_int c \<in> {1, 2, 3}) (as_list v) \<and> distinct (map as_int (as_list v))"

record control_result =
  uc_task_id :: int
  uc_task_status :: string
  uc_task_started :: bool
  uc_task_destroyed :: bool
  uc_action :: string
  uc_classes :: "int list"
  uc_timings :: dict
  uc_raw :: dict

definition UnsolicitedControlResult_from_mapping :: "dict \<Rightarrow> pyexc + control_result" where
  "UnsolicitedControlResult_from_mapping d = checked (first_error
     [check_missing ''unsolicited control result is missing fields: ''
        [''task_id'', ''task_status'', ''task_started'', ''task_destroyed'', ''action'', ''classes'', ''timings''] d,
      raise_if (\<not> positive (get d ''task_id''))
        (ValueError ''unsolicited control result task_id must be a positive integer''),
      raise_if (\<not> nonempty_str (get d ''task_status''))
        (ValueError ''unsolicited control result task_status must be a string''),
      raise_if (\<not> is_bool (get d ''task_started'') \<or> \<not> is_bool (get d ''task_destroyed''))
        (ValueError ''unsolicited control result task flags must be boolean''),
      check_member (get d ''action'') [''enable'', ''disable'']
        (ValueError ''unsolicited control result action is invalid''),
      raise_if (\<not> classes_ok (get d ''classes'') \<or> as_list (get d ''classes'') = [])
        (ValueError ''unsolicited control result classes are invalid''),
      raise_if (\<not> is_dict (get d ''timings''))
        (ValueError ''unsolicited control result timings must be an object'')])
     \<lparr>uc_task_id = as_int (get d ''task_id''), uc_task_status = as_str (get d ''task_status''),
      uc_task_started = as_bool (get d ''task_started''), uc_task_destroyed = as_bool (get d ''task_destroyed''),
      uc_action = as_str (get d ''action''), uc_classes = map as_int (as_list (get d ''classes'')),
      uc_timings = as_dict (get d ''timings''), uc_raw = d\<rparr>"

record unsolicited_batch =
  ub_session_id :: int
  ub_enabled :: bool
  ub_classes :: "int list"
  ub_measurements :: "measurement list"
  ub_timed_out :: bool
  ub_summary :: dict
  ub_raw :: dict

definition batch_envelope_checks :: "dict \<Rightarrow> pyexc option" where
  "batch_envelope_checks d = first_error
     [check_missing ''unsolicited batch result is missing fields: ''
        [''session_id'', ''enabled'', ''classes'', ''measurements'', ''timed_out'', ''summary''] d,
      raise_if (\<not> positive (get d ''session_id''))
        (ValueError ''unsolicited batch session_id must be a positive integer''),
      raise_if (\<not> is_bool (get d ''enabled'') \<or> \<not> is_bool (get d ''timed_out''))
        (ValueError ''unsolicited batch state flags must be boolean''),
      raise_if (\<not> classes_ok (get d ''classes'')) (ValueError ''unsolicited batch classes are invalid''),
      raise_if (as_bool (get d ''enabled'') \<noteq> (as_list (get d ''classes'') \<noteq> []))
        (ValueError ''unsolicited batch enabled/classes state is inconsistent''),
      raise_if (\<not> is_list (get d ''measurements''))
        (ValueError ''unsolicited batch measurements must be an array'')]"

definition UnsolicitedBatchResult_from_mapping :: "dict \<Rightarrow> pyexc + unsolicited_batch" where
  "UnsolicitedBatchResult_from_mapping d =
     bindE (checked (batch_envelope_checks d) ()) (\<lambda>_.
     bindE (parse_objects MeasurementRecord_from_mapping (get d ''measurements'')) (\<lambda>measurements.
     checked (first_error
       [raise_if (length measurements \<noteq> length (as_list (get d ''measurements'')))
          (ValueError ''unsolicited batch contains a non-object measurement''),
        raise_if (\<exists>m \<in> set measurements. me_source m \<noteq> ''unsolicited'' \<or>
            me_session_id m \<noteq> Some (as_int (get d ''session_id'')))
          (ValueError ''unsolicited batch measurement source/session is inconsistent''),
        raise_if (\<not> is_dict (get d ''summary'')) (ValueError ''unsolicited batch summary must be an object'')])
       \<lparr>ub_session_id = as_int (get d ''session_id''), ub_enabled = as_bool (get d ''enabled''),
        ub_classes = map as_int (as_list (get d ''classes'')), ub_measurements = measurements,
        ub_timed_out = as_bool (get d ''timed_out''), ub_summary = as_dict (get d ''summary''), ub_raw = d\<rparr>))"

section \<open>What an accepted result guarantees\<close>

lemma parse_objects_all:
  assumes "parse_objects f v = Inr ys" "length ys = length (as_list v)"
  shows "list_all2 (\<lambda>x y. is_dict x \<and> f (as_dict x) = Inr y) (as_list v) ys"
proof -
  have all: "list_all2 (\<lambda>x y. f (as_dict x) = Inr y) (filter is_dict (as_list v)) ys"
    using assms(1) by (simp add: parse_objects_def mapE_Inr_iff)
  then have "length (filter is_dict (as_list v)) = length (as_list v)"
    using assms(2) by (auto dest: list_all2_lengthD)
  then have dicts: "\<forall>x \<in> set (as_list v). is_dict x" by (metis length_filter_less less_irrefl)
  then have "filter is_dict (as_list v) = as_list v" by (simp add: filter_id_conv)
  with all dicts show ?thesis by (simp add: list_all2_conv_all_nth)
qed

lemma measurement_raw: "MeasurementRecord_from_mapping d = Inr m \<Longrightarrow> me_raw m = d"
  unfolding MeasurementRecord_from_mapping_def Let_def by (simp only: check_simps) simp

lemma measurements_faithful:
  assumes "list_all2 (\<lambda>x y. is_dict x \<and> MeasurementRecord_from_mapping (as_dict x) = Inr y) xs ms"
  shows "xs = map (\<lambda>m. PDict (me_raw m)) ms"
  using assms by (induction rule: list_all2_induct) (auto simp: is_dict_iff dest: measurement_raw)

text \<open>
  C28: a read result that is accepted reports a started and successful task and has lost
  nothing: every entry of the received measurement array is kept, in order and with its
  original fields; the summary counters agree with what is kept, none of the bounded stores
  overflowed; and with full detail the number received is the number kept.
\<close>

theorem read_result_lossless:
  assumes "ReadTaskResult_from_mapping d = Inr r"
  shows "rr_task_status r = ''SUCCESS'' \<and> rr_task_started r \<and> rr_raw r = d \<and>
    get d ''measurements'' = PList (map (\<lambda>m. PDict (me_raw m)) (rr_measurements r)) \<and>
    get (rr_summary r) ''stored_detail'' = PInt (int (length (rr_measurements r))) \<and>
    get (rr_summary r) ''overflow'' = PInt 0 \<and> get (rr_summary r) ''fragment_overflow'' = PInt 0 \<and>
    get (rr_summary r) ''fragments_stored'' = PInt (int (length (rr_fragments r))) \<and>
    get (rr_iin r) ''observation_window_dropped'' = PInt 0 \<and>
    (if rr_return_mode r = ''detail'' then get (rr_summary r) ''received_total'' = PInt (int (length (rr_measurements r)))
     else rr_return_mode r = ''summary'' \<and> rr_measurements r = [])"
proof -
  obtain ms where env: "read_envelope_checks d = None"
    and ms: "parse_objects MeasurementRecord_from_mapping (get d ''measurements'') = Inr ms"
    and sum: "read_summary_checks d ms = None" and iin: "read_iin_checks (as_dict (get d ''iin'')) = None"
    and r: "r = \<lparr>rr_task_id = as_int (get d ''task_id''), rr_task_status = as_str (get d ''task_status''),
        rr_task_started = as_bool (get d ''task_started''), rr_task_destroyed = as_bool (get d ''task_destroyed''),
        rr_return_mode = as_str (get d ''return_mode''), rr_measurements = ms,
        rr_summary = as_dict (get d ''summary''), rr_fragments = map as_dict (as_list (get d ''fragments'')),
        rr_iin = as_dict (get d ''iin''), rr_timings = as_dict (get d ''timings''), rr_raw = d\<rparr>"
    using assms unfolding ReadTaskResult_from_mapping_def by (auto simp only: check_simps)
  have e: "get d ''task_status'' = PStr ''SUCCESS''" "get d ''task_started'' = PBool True"
    "is_list (get d ''measurements'')" "\<exists>s \<in> set [''detail'', ''summary'']. get d ''return_mode'' = PStr s"
    using env unfolding read_envelope_checks_def by (simp_all only: check_simps) simp_all
  define summary where "summary = as_dict (get d ''summary'')"
  have n: "nonneg (get summary ''received_total'')" "nonneg (get summary ''stored_detail'')"
    "nonneg (get summary ''overflow'')" "nonneg (get summary ''fragments_stored'')" "nonneg (get summary ''fragment_overflow'')"
    "length ms = length (as_list (get d ''measurements''))"
    "get d ''return_mode'' = PStr ''summary'' \<Longrightarrow> ms = []"
    "as_int (get summary ''stored_detail'') = int (length ms)"
    "get d ''return_mode'' = PStr ''detail'' \<Longrightarrow>
       as_int (get summary ''stored_detail'') = as_int (get summary ''received_total'')"
    "as_int (get summary ''overflow'') = 0" "as_int (get summary ''fragment_overflow'') = 0"
    "as_int (get summary ''fragments_stored'') = int (length (as_list (get d ''fragments'')))"
    using sum unfolding read_summary_checks_def Let_def summary_def [symmetric]
    by (simp_all only: check_simps) simp_all
  have i: "nonneg (get (as_dict (get d ''iin'')) ''observation_window_dropped'')"
    "as_int (get (as_dict (get d ''iin'')) ''observation_window_dropped'') = 0"
    using iin unfolding read_iin_checks_def Let_def by (simp_all only: check_simps) simp_all
  have "get d ''measurements'' = PList (map (\<lambda>m. PDict (me_raw m)) ms)"
    using measurements_faithful [OF parse_objects_all [OF ms n(6)]] e(3) by (auto simp: is_list_iff)
  moreover have "get d ''return_mode'' = PStr ''detail'' \<or> get d ''return_mode'' = PStr ''summary''"
    using e(4) by auto
  ultimately show ?thesis
    using e(1,2) n i unfolding r summary_def [symmetric] by (auto simp: nonneg_iff)
qed

text \<open>
  An accepted unsolicited batch holds only measurements of its own session that arrived
  unsolicited, again none dropped or reordered; its classes are distinct numbers out of 1, 2
  and 3, and unsolicited reporting is marked enabled exactly when there is a class.
\<close>

theorem unsolicited_batch_sound:
  assumes "UnsolicitedBatchResult_from_mapping d = Inr b"
  shows "get d ''measurements'' = PList (map (\<lambda>m. PDict (me_raw m)) (ub_measurements b)) \<and>
    (\<forall>m \<in> set (ub_measurements b). me_source m = ''unsolicited'' \<and> me_session_id m = Some (ub_session_id b)) \<and>
    distinct (ub_classes b) \<and> set (ub_classes b) \<subseteq> {1, 2, 3} \<and> ub_enabled b = (ub_classes b \<noteq> []) \<and> 0 < ub_session_id b"
proof -
  obtain ms where env: "batch_envelope_checks d = None"
    and ms: "parse_objects MeasurementRecord_from_mapping (get d ''measurements'') = Inr ms"
    and rest: "length ms = length (as_list (get d ''measurements''))"
      "\<forall>m \<in> set ms. me_source m = ''unsolicited'' \<and> me_session_id m = Some (as_int (get d ''session_id''))"
    and b: "b = \<lparr>ub_session_id = as_int (get d ''session_id''), ub_enabled = as_bool (get d ''enabled''),
        ub_classes = map as_int (as_list (get d ''classes'')), ub_measurements = ms,
        ub_timed_out = as_bool (get d ''timed_out''), ub_summary = as_dict (get d ''summary''), ub_raw = d\<rparr>"
    using assms unfolding UnsolicitedBatchResult_from_mapping_def by (auto simp only: check_simps)
  have e: "positive (get d ''session_id'')" "is_bool (get d ''enabled'')" "classes_ok (get d ''classes'')"
    "as_bool (get d ''enabled'') = (as_list (get d ''classes'') \<noteq> [])" "is_list (get d ''measurements'')"
    using env unfolding batch_envelope_checks_def by (simp_all only: check_simps) simp_all
  have "get d ''measurements'' = PList (map (\<lambda>m. PDict (me_raw m)) ms)"
    using measurements_faithful [OF parse_objects_all [OF ms rest(1)]] e(5) by (auto simp: is_list_iff)
  then show ?thesis
    using rest(2) e unfolding b by (auto simp: classes_ok_def list_all_iff positive_iff)
qed

section \<open>Instances\<close>

definition sample_measurement :: dict where
  "sample_measurement =
     [(''receive_seq'', PInt 1), (''received_monotonic_ns'', PInt 5), (''kind'', PStr ''binary_input''),
      (''group'', PInt 1), (''variation'', PInt 2), (''qualifier'', PStr ''range8''), (''qualifier_raw'', PInt 0),
      (''index'', PInt 3), (''value'', PBool True), (''flags_raw'', PInt 129), (''flags_valid'', PBool True),
      (''dnp3_timestamp_ms'', PNone), (''timestamp_quality'', PStr ''INVALID''), (''is_event'', PBool False),
      (''header_index'', PInt 0), (''source'', PStr ''unsolicited''), (''fragment_index'', PInt 0),
      (''session_id'', PInt 7)]"

definition sample_read_result :: dict where
  "sample_read_result =
     [(''task_id'', PInt 4), (''task_status'', PStr ''SUCCESS''), (''task_started'', PBool True),
      (''task_destroyed'', PBool True), (''return_mode'', PStr ''detail''),
      (''measurements'', PList [PDict sample_measurement]),
      (''summary'', PDict [(''received_total'', PInt 1), (''stored_detail'', PInt 1), (''overflow'', PInt 0),
         (''fragments_received'', PInt 1), (''fragments_stored'', PInt 1), (''fragment_overflow'', PInt 0),
         (''max_fragments'', PInt 16), (''max_measurements'', PInt 100)]),
      (''fragments'', PList [PDict []]),
      (''iin'', PDict [(''lsb'', PInt 128), (''msb'', PInt 0), (''raw_hex'', PStr ''8000''), (''bits'', PList []),
         (''observations'', PList []), (''observation_store_dropped_total'', PInt 0),
         (''observation_window_dropped'', PInt 0), (''observation_store_capacity'', PInt 8)]),
      (''timings'', PDict [])]"

definition sample_unsolicited :: dict where
  "sample_unsolicited =
     [(''session_id'', PInt 7), (''enabled'', PBool True), (''classes'', PList [PInt 2, PInt 1]),
      (''measurements'', PList [PDict sample_measurement]), (''timed_out'', PBool False), (''summary'', PDict [])]"

lemma accepted_cases: "(case x of Inr r \<Rightarrow> True | Inl e \<Rightarrow> False) \<Longrightarrow> \<exists>r. x = Inr r"
  by (cases x) auto

theorem read_result_lossless_witness:
  "\<exists>r. ReadTaskResult_from_mapping sample_read_result = Inr r \<and>
     get sample_read_result ''measurements'' = PList (map (\<lambda>m. PDict (me_raw m)) (rr_measurements r)) \<and>
     rr_task_status r = ''SUCCESS''"
proof -
  have "case ReadTaskResult_from_mapping sample_read_result of Inr r \<Rightarrow> True | Inl e \<Rightarrow> False" by code_simp
  then obtain r where r: "ReadTaskResult_from_mapping sample_read_result = Inr r" using accepted_cases by blast
  show ?thesis using r read_result_lossless [OF r] by blast
qed

theorem unsolicited_batch_sound_witness:
  "\<exists>b. UnsolicitedBatchResult_from_mapping sample_unsolicited = Inr b \<and>
     list_all (\<lambda>m. me_source m = ''unsolicited'' \<and> me_session_id m = Some (ub_session_id b)) (ub_measurements b) \<and>
     get sample_unsolicited ''measurements'' = PList (map (\<lambda>m. PDict (me_raw m)) (ub_measurements b))"
proof -
  have "case UnsolicitedBatchResult_from_mapping sample_unsolicited of Inr r \<Rightarrow> True | Inl e \<Rightarrow> False" by code_simp
  then obtain b where b: "UnsolicitedBatchResult_from_mapping sample_unsolicited = Inr b" using accepted_cases by blast
  show ?thesis using b unsolicited_batch_sound [OF b] by (auto simp: list_all_iff)
qed

end
