(* ===== verification/HostConfig.thy ===== *)
theory HostConfig
  imports PyText ReadModels
begin

text \<open>
  \<open>HostProcessConfig\<close> of \<open>python/src/dnp3_master/models.py\<close>: the settings of the native host process.
  Path normalization (\<open>Path(p).expanduser().resolve(strict=False)\<close>) depends on the file system and is the
  parameter \<open>resolve\<close>; \<open>str(x)\<close> of an arbitrary object is the parameter \<open>text_of\<close>.
\<close>

record host_args =
  ha_executable :: string
  ha_arguments :: "pyval list"
  ha_working_directory :: "string option"
  ha_environment :: "dict option"
  ha_safety_incident_directory :: "string option"
  ha_startup_timeout :: pyval
  ha_request_timeout :: pyval
  ha_shutdown_timeout :: pyval
  ha_diagnostic_tail_bytes :: pyval
  ha_max_response_bytes :: pyval
  ha_expected_host_version :: pyval
  ha_expected_capability_matrix_sha256 :: pyval
  ha_max_request_bytes :: pyval

definition host_defaults :: "string \<Rightarrow> host_args" where
  "host_defaults executable =
     \<lparr>ha_executable = executable, ha_arguments = [], ha_working_directory = None, ha_environment = None,
      ha_safety_incident_directory = None, ha_startup_timeout = PFloat (Fin 5), ha_request_timeout = PFloat (Fin 10),
      ha_shutdown_timeout = PFloat (Fin 2), ha_diagnostic_tail_bytes = PInt 65536, ha_max_response_bytes = PInt 16777216,
      ha_expected_host_version = PStr ''0.6.1'', ha_expected_capability_matrix_sha256 = PNone,
      ha_max_request_bytes = PInt 1048576\<rparr>"

text \<open>The object has the normalized arguments; texts and numbers keep the representation they came with.\<close>

type_synonym host_config = host_args

definition timeout_check :: "pyval \<Rightarrow> string \<Rightarrow> pyexc option" where
  "timeout_check v f = raise_if (\<not> (\<exists>q \<in> set_option (finite_number v). q > 0))
     (ValueError (f @ '' must be a positive finite number''))"

definition blank :: "string \<Rightarrow> bool" where
  "blank s \<longleftrightarrow> strip s = []"

definition sha256_arg :: "pyval \<Rightarrow> pyval" where
  "sha256_arg v = (if is_str v then PStr (ascii_lower (as_str v)) else v)"

definition HostProcessConfig :: "(string \<Rightarrow> string) \<Rightarrow> (pyval \<Rightarrow> string) \<Rightarrow> host_args \<Rightarrow> pyexc + host_config" where
  "HostProcessConfig resolve text_of a =
     (let tail = ha_diagnostic_tail_bytes a; response = ha_max_response_bytes a; request = ha_max_request_bytes a;
          version = ha_expected_host_version a; digest = ha_expected_capability_matrix_sha256 a in checked (first_error
       [timeout_check (ha_startup_timeout a) ''startup_timeout'',
        timeout_check (ha_request_timeout a) ''request_timeout'',
        timeout_check (ha_shutdown_timeout a) ''shutdown_timeout'',
        raise_if (\<not> is_int tail \<or> as_int tail < 256) (ValueError ''diagnostic_tail_bytes must be at least 256''),
        raise_if (\<not> is_int response \<or> as_int response < 64) (ValueError ''max_response_bytes must be at least 64''),
        raise_if (version \<noteq> PNone \<and> (\<not> is_str version \<or> blank (as_str version)))
          (ValueError ''expected_host_version must be a non-empty string or None''),
        raise_if (\<not> is_int request \<or> \<not> (64 \<le> as_int request \<and> as_int request \<le> 16777216))
          (ValueError ''max_request_bytes must be between 64 and 16777216''),
        raise_if (digest \<noteq> PNone \<and> (\<not> is_str digest \<or> \<not> class_match is_hex 64 64 (as_str digest)))
          (ValueError ''expected_capability_matrix_sha256 must be 64 hexadecimal characters or None'')])
       (a\<lparr>ha_executable := resolve (ha_executable a), ha_arguments := map (PStr \<circ> text_of) (ha_arguments a),
          ha_working_directory := map_option resolve (ha_working_directory a),
          ha_environment := map_option (map (\<lambda>(k, v). (k, PStr (text_of v)))) (ha_environment a),
          ha_safety_incident_directory := map_option resolve (ha_safety_incident_directory a),
          ha_expected_capability_matrix_sha256 := sha256_arg digest\<rparr>))"

section \<open>Normalization\<close>

lemma lower_char_hex: "is_hex c \<Longrightarrow> is_hex (lower_char c)"
  by (auto simp: is_hex_def hex_value_def lower_char_def code_in_def Let_def split: if_splits)

lemma class_match_lower: "class_match is_hex n m s \<Longrightarrow> class_match is_hex n m (ascii_lower s)"
  by (simp add: class_match_def ascii_lower_def list_all_iff lower_char_hex)

lemma ascii_lower_idem: "class_match is_hex n m s \<Longrightarrow> ascii_lower (ascii_lower s) = ascii_lower s"
  by (rule ascii_lower_id) (drule lower_hex_match, simp add: class_match_def)

text \<open>
  The settings of a host process are normalized once and for all: whatever is accepted has
  positive finite timeouts, at least the minimal buffers and a capability digest in lower case, and
  building the configuration again from its own fields changes nothing, given that resolving a
  path twice is resolving it once and the text of a text is the text.
\<close>

theorem host_config_normalized:
  assumes "HostProcessConfig resolve text_of a = Inr c"
    and "\<And>p. resolve (resolve p) = resolve p" and "\<And>s. text_of (PStr s) = s"
  shows "HostProcessConfig resolve text_of c = Inr c \<and>
    (\<exists>q. finite_number (ha_request_timeout c) = Some q \<and> 0 < q) \<and>
    256 \<le> as_int (ha_diagnostic_tail_bytes c) \<and> 64 \<le> as_int (ha_max_response_bytes c) \<and>
    as_int (ha_max_request_bytes c) \<in> {64..16777216} \<and>
    (ha_expected_capability_matrix_sha256 c = PNone \<or>
      (\<exists>s. ha_expected_capability_matrix_sha256 c = PStr s \<and> class_match is_lower_hex 64 64 s))"
proof -
  let ?g = "ha_expected_capability_matrix_sha256 a"
  have c: "c = a\<lparr>ha_executable := resolve (ha_executable a), ha_arguments := map (PStr \<circ> text_of) (ha_arguments a),
          ha_working_directory := map_option resolve (ha_working_directory a),
          ha_environment := map_option (map (\<lambda>(k, v). (k, PStr (text_of v)))) (ha_environment a),
          ha_safety_incident_directory := map_option resolve (ha_safety_incident_directory a),
          ha_expected_capability_matrix_sha256 := sha256_arg ?g\<rparr>"
    using assms(1) unfolding HostProcessConfig_def Let_def by (simp only: check_simps)
  have checks: "timeout_check (ha_startup_timeout a) ''startup_timeout'' = None"
    "timeout_check (ha_request_timeout a) ''request_timeout'' = None" "timeout_check (ha_shutdown_timeout a) ''shutdown_timeout'' = None"
    "is_int (ha_diagnostic_tail_bytes a)" "256 \<le> as_int (ha_diagnostic_tail_bytes a)"
    "is_int (ha_max_response_bytes a)" "64 \<le> as_int (ha_max_response_bytes a)"
    "is_int (ha_max_request_bytes a)" "64 \<le> as_int (ha_max_request_bytes a)" "as_int (ha_max_request_bytes a) \<le> 16777216"
    "ha_expected_host_version a = PNone \<or> is_str (ha_expected_host_version a) \<and> \<not> blank (as_str (ha_expected_host_version a))"
    "?g = PNone \<or> is_str ?g \<and> class_match is_hex 64 64 (as_str ?g)"
    using assms(1) unfolding HostProcessConfig_def Let_def by (simp_all only: check_simps) auto
  have digest: "sha256_arg ?g = PNone \<or> is_str (sha256_arg ?g) \<and> class_match is_hex 64 64 (as_str (sha256_arg ?g))"
    "sha256_arg (sha256_arg ?g) = sha256_arg ?g"
    "sha256_arg ?g = PNone \<or> (\<exists>s. sha256_arg ?g = PStr s \<and> class_match is_lower_hex 64 64 s)"
    using checks(12) by (auto simp: sha256_arg_def is_str_iff ascii_lower_idem class_match_lower lower_hex_match)
  have env: "map_option (map (\<lambda>(k, v). (k, PStr (text_of v)))) (map_option (map (\<lambda>(k, v). (k, PStr (text_of v)))) e) =
      map_option (map (\<lambda>(k, v). (k, PStr (text_of v)))) e" for e :: "dict option"
    by (cases e) (auto simp: assms(3))
  have "HostProcessConfig resolve text_of c = Inr c"
    unfolding HostProcessConfig_def Let_def checked_Inr
    using checks digest env by (simp add: c assms(2,3) option.map_comp comp_def)
  moreover have "\<exists>q. finite_number (ha_request_timeout c) = Some q \<and> 0 < q"
    using checks(2) by (auto simp: c timeout_check_def)
  ultimately show ?thesis using checks digest(3) by (simp add: c)
qed

theorem host_config_normalized_witness:
  "\<exists>c. HostProcessConfig id as_str (host_defaults ''host.exe'') = Inr c \<and> HostProcessConfig id as_str c = Inr c"
proof -
  have "case HostProcessConfig id as_str (host_defaults ''host.exe'') of Inr r \<Rightarrow> True | Inl e \<Rightarrow> False" by code_simp
  then obtain c where c: "HostProcessConfig id as_str (host_defaults ''host.exe'') = Inr c" using accepted_cases by blast
  show ?thesis using c host_config_normalized [OF c] by simp
qed

end
