(* ===== verification/Sha256.thy ===== *)
theory Sha256
  imports PyText
begin

text \<open>
  SHA-256 (FIPS 180-4), which the sources use through \<open>hashlib.sha256(...).hexdigest()\<close>: the
  identity of a DUT on disk and the digests of command and read-back payloads.
\<close>

unbundle bit_operations_syntax

type_synonym w32 = "32 word"

text \<open>
  The constants of the standard: the first 32 bits of the fractional parts of the cube roots of the
  first 64 primes, and of the square roots of the first eight. The integer root is found bit by bit.
\<close>

definition sha_primes :: "nat list" where
  "sha_primes =
     [2, 3, 5, 7, 11, 13, 17, 19, 23, 29, 31, 37, 41, 43, 47, 53, 59, 61, 67, 71, 73, 79,
      83, 89, 97, 101, 103, 107, 109, 113, 127, 131, 137, 139, 149, 151, 157, 163, 167, 173, 179, 181, 191, 193,
      197, 199, 211, 223, 227, 229, 233, 239, 241, 251, 257, 263, 269, 271, 277, 281, 283, 293, 307, 311]"

definition integer_root :: "nat \<Rightarrow> nat \<Rightarrow> nat" where
  "integer_root k x = fold (\<lambda>i r. if (r + 2 ^ i) ^ k \<le> x then r + 2 ^ i else r) (rev [0..<36]) 0"

definition sha_k :: "w32 list" where
  "sha_k = map (\<lambda>p. of_nat (integer_root 3 (p * 2 ^ 96))) sha_primes"

definition sha_init :: "w32 list" where
  "sha_init = map (\<lambda>p. of_nat (integer_root 2 (p * 2 ^ 64))) (take 8 sha_primes)"

definition rotr :: "nat \<Rightarrow> w32 \<Rightarrow> w32" where
  "rotr n x = drop_bit n x OR push_bit (32 - n) x"

definition be32 :: "byte list \<Rightarrow> w32" where
  "be32 bs = fold (\<lambda>b acc. acc * 256 + ucast b) bs 0"

fun chunks :: "nat \<Rightarrow> nat \<Rightarrow> 'a list \<Rightarrow> 'a list list" where
  "chunks 0 n xs = []"
| "chunks (Suc k) n xs = (if xs = [] then [] else take n xs # chunks k n (drop n xs))"

definition sha_pad :: "byte list \<Rightarrow> byte list" where
  "sha_pad m = m @ [0x80] @ replicate ((119 - length m mod 64) mod 64) 0 @ rev (to_le 8 (8 * length m))"

fun schedule :: "nat \<Rightarrow> w32 list \<Rightarrow> w32 list" where
  "schedule 0 w = w"
| "schedule (Suc k) w = (let n = length w; x = w ! (n - 15); y = w ! (n - 2) in
     schedule k (w @ [w ! (n - 16) + (rotr 7 x XOR rotr 18 x XOR drop_bit 3 x) + w ! (n - 7) +
       (rotr 17 y XOR rotr 19 y XOR drop_bit 10 y)]))"

fun sha_round :: "w32 \<times> w32 \<Rightarrow> w32 list \<Rightarrow> w32 list" where
  "sha_round (k, w) [a, b, c, d, e, f, g, h] =
     (let t1 = h + (rotr 6 e XOR rotr 11 e XOR rotr 25 e) + ((e AND f) XOR (NOT e AND g)) + k + w;
          t2 = (rotr 2 a XOR rotr 13 a XOR rotr 22 a) + ((a AND b) XOR (a AND c) XOR (b AND c)) in
      [t1 + t2, a, b, c, d + t1, e, f, g])"
| "sha_round _ s = s"

definition sha_block :: "byte list \<Rightarrow> w32 list \<Rightarrow> w32 list" where
  "sha_block block h =
     map2 (+) h (fold sha_round (zip sha_k (schedule 48 (map be32 (chunks 16 4 block)))) h)"

definition sha_digest :: "byte list \<Rightarrow> w32 list" where
  "sha_digest m = (let p = sha_pad m in fold sha_block (chunks (length p) 64 p) sha_init)"

definition hex32 :: "w32 \<Rightarrow> string" where
  "hex32 w = map (\<lambda>i. hex_digit_lower (unat (drop_bit (28 - 4 * i) w AND 15))) [0..<8]"

text \<open>\<open>hashlib.sha256(data).hexdigest()\<close> of the UTF-8 octets of a text\<close>

definition sha256 :: "string \<Rightarrow> string" where
  "sha256 s = concat (map hex32 (sha_digest (map of_char s)))"

section \<open>The shape of a digest\<close>

lemma length_sha_round [simp]: "length s = 8 \<Longrightarrow> length (sha_round kw s) = 8"
  by (cases "(kw, s)" rule: sha_round.cases) (auto simp: Let_def)

lemma length_sha_rounds: "length s = 8 \<Longrightarrow> length (fold sha_round kws s) = 8"
  by (induction kws arbitrary: s) simp_all

lemma length_sha_blocks: "length h = 8 \<Longrightarrow> length (fold sha_block bs h) = 8"
  by (induction bs arbitrary: h) (simp_all add: sha_block_def length_sha_rounds)

lemma length_sha_digest: "length (sha_digest m) = 8"
  by (simp add: sha_digest_def Let_def length_sha_blocks sha_init_def sha_primes_def)

lemma hex32_lower: "length (hex32 w) = 8 \<and> list_all is_lower_hex (hex32 w)"
proof -
  have "unat (drop_bit n w AND 15) < 16" for n
    by (rule le_less_trans [of _ 15]) (use word_and_le1 [of "drop_bit n w" 15] in \<open>simp_all add: word_le_nat_alt\<close>)
  then show ?thesis by (simp add: hex32_def list_all_iff)
qed

lemma sha256_hex: "class_match is_lower_hex 64 64 (sha256 s)"
proof -
  have "length (concat (map hex32 ws)) = 8 * length ws \<and> list_all is_lower_hex (concat (map hex32 ws))" for ws
    by (induction ws) (simp_all add: hex32_lower)
  then show ?thesis by (simp add: sha256_def class_match_def length_sha_digest)
qed

end
