(* ===== verification/CommandModels.thy ===== *)
theory CommandModels
  imports ReadModels
begin

text \<open>
  Control commands and their results, \<open>python/src/dnp3_master/models.py\<close>: \<open>CrobCommand\<close>,
  \<open>AnalogOutputCommand\<close>, \<open>CommandPointResult\<close> with the safety decision
  \<open>requires_manual_readback\<close>, and \<open>CommandTaskResult\<close>.
\<close>

section \<open>Requests\<close>

definition CROB_OPERATIONS :: "string list" where
  "CROB_OPERATIONS = [''null'', ''pulse_on'', ''pulse_off'', ''latch_on'', ''latch_off'']"

definition TRIP_CLOSE_SELECTIONS :: "string list" where
  "TRIP_CLOSE_SELECTIONS = [''null'', ''close'', ''trip'']"

definition ANALOG_COMMAND_TYPES :: "string list" where
  "ANALOG_COMMAND_TYPES =
     [''analog_output_int16'', ''analog_output_int32'', ''analog_output_float32'', ''analog_output_double64'']"

record crob_command =
  cc_index :: int
  cc_operation :: string
  cc_trip_close :: string
  cc_clear :: bool
  cc_count :: int
  cc_on_time_ms :: int
  cc_off_time_ms :: int

definition CrobCommand :: "pyval \<Rightarrow> pyval \<Rightarrow> pyval \<Rightarrow> pyval \<Rightarrow> pyval \<Rightarrow> pyval \<Rightarrow> pyval \<Rightarrow> pyexc + crob_command" where
  "CrobCommand index operation trip_close clear count on_time_ms off_time_ms = checked (first_error
     [exc_of (unsigned_integer index ''index'' 0 65535),
      check_member operation CROB_OPERATIONS
        (ValueError (''operation must be one of: '' @ join '', '' (sort CROB_OPERATIONS))),
      check_member trip_close TRIP_CLOSE_SELECTIONS
        (ValueError (''trip_close must be one of: '' @ join '', '' (sort TRIP_CLOSE_SELECTIONS))),
      raise_if (\<not> is_bool clear) (ValueError ''clear must be boolean''),
      exc_of (unsigned_integer count ''count'' 1 255),
      exc_of (unsigned_integer on_time_ms ''on_time_ms'' 0 0xFFFFFFFF),
      exc_of (unsigned_integer off_time_ms ''off_time_ms'' 0 0xFFFFFFFF)])
     \<lparr>cc_index = as_int index, cc_operation = as_str operation, cc_trip_close = as_str trip_close,
      cc_clear = as_bool clear, cc_count = as_int count, cc_on_time_ms = as_int on_time_ms,
      cc_off_time_ms = as_int off_time_ms\<rparr>"

definition CrobCommand_to_params :: "crob_command \<Rightarrow> dict" where
  "CrobCommand_to_params c =
     [(''type'', PStr ''crob''), (''index'', PInt (cc_index c)), (''operation'', PStr (cc_operation c)),
      (''trip_close'', PStr (cc_trip_close c)), (''clear'', PBool (cc_clear c)), (''count'', PInt (cc_count c)),
      (''on_time_ms'', PInt (cc_on_time_ms c)), (''off_time_ms'', PInt (cc_off_time_ms c))]"

record analog_command =
  an_index :: int
  an_value :: pyval
  an_command_type :: string

text \<open>The largest binary32 number, which the literal \<open>3.4028234663852886e38\<close> denotes.\<close>

definition FLOAT32_MAX :: rat where
  "FLOAT32_MAX = (2 ^ 24 - 1) * 2 ^ 104"

definition analog_value_check :: "string \<Rightarrow> pyval \<Rightarrow> pyexc option" where
  "analog_value_check command_type v =
     (if command_type = ''analog_output_int16''
      then raise_if (\<not> is_int v \<or> \<not> (- (2 ^ 15) \<le> as_int v \<and> as_int v \<le> 2 ^ 15 - 1))
        (ValueError ''int16 analog output value is out of range'')
      else if command_type = ''analog_output_int32''
      then raise_if (\<not> is_int v \<or> \<not> (- (2 ^ 31) \<le> as_int v \<and> as_int v \<le> 2 ^ 31 - 1))
        (ValueError ''int32 analog output value is out of range'')
      else case finite_number v of
        None \<Rightarrow> Some (ValueError ''floating analog output value must be finite'')
      | Some q \<Rightarrow> raise_if (command_type = ''analog_output_float32'' \<and> \<bar>q\<bar> > FLOAT32_MAX)
          (ValueError ''float32 analog output value is out of range''))"

definition AnalogOutputCommand :: "pyval \<Rightarrow> pyval \<Rightarrow> pyval \<Rightarrow> pyexc + analog_command" where
  "AnalogOutputCommand index v command_type = checked (first_error
     [exc_of (unsigned_integer index ''index'' 0 65535),
      check_member command_type ANALOG_COMMAND_TYPES
        (ValueError (''command_type must be one of: '' @ join '', '' (sort ANALOG_COMMAND_TYPES))),
      analog_value_check (as_str command_type) v])
     \<lparr>an_index = as_int index, an_value = v, an_command_type = as_str command_type\<rparr>"

text \<open>The class methods \<open>int16\<close>, \<open>int32\<close>, \<open>float32\<close> and \<open>double64\<close>.\<close>

definition AnalogOutputCommand_int16 :: "pyval \<Rightarrow> pyval \<Rightarrow> pyexc + analog_command" where
  "AnalogOutputCommand_int16 index v = AnalogOutputCommand index v (PStr ''analog_output_int16'')"

definition AnalogOutputCommand_int32 :: "pyval \<Rightarrow> pyval \<Rightarrow> pyexc + analog_command" where
  "AnalogOutputCommand_int32 index v = AnalogOutputCommand index v (PStr ''analog_output_int32'')"

definition AnalogOutputCommand_float32 :: "pyval \<Rightarrow> pyval \<Rightarrow> pyexc + analog_command" where
  "AnalogOutputCommand_float32 index v = AnalogOutputCommand index v (PStr ''analog_output_float32'')"

definition AnalogOutputCommand_double64 :: "pyval \<Rightarrow> pyval \<Rightarrow> pyexc + analog_command" where
  "AnalogOutputCommand_double64 index v = AnalogOutputCommand index v (PStr ''analog_output_double64'')"

definition AnalogOutputCommand_to_params :: "analog_command \<Rightarrow> dict" where
  "AnalogOutputCommand_to_params c =
     [(''type'', PStr (an_command_type c)), (''index'', PInt (an_index c)), (''value'', an_value c)]"

section \<open>Results of one point\<close>

definition COMMAND_STATUS_2012_NAMES :: "(int \<times> string) list" where
  "COMMAND_STATUS_2012_NAMES =
     [(0, ''SUCCESS''), (1, ''TIMEOUT''), (2, ''NO_SELECT''), (3, ''FORMAT_ERROR''), (4, ''NOT_SUPPORTED''),
      (5, ''ALREADY_ACTIVE''), (6, ''HARDWARE_ERROR''), (7, ''LOCAL''), (8, ''TOO_MANY_OBJS''),
      (9, ''NOT_AUTHORIZED''), (10, ''AUTOMATION_INHIBIT''), (11, ''PROCESSING_LIMITED''),
      (12, ''OUT_OF_RANGE''), (126, ''NON_PARTICIPATING''), (127, ''UNDEFINED'')]"

definition command_status_name_2012 :: "int \<Rightarrow> string" where
  "command_status_name_2012 raw = (case map_of COMMAND_STATUS_2012_NAMES raw of Some s \<Rightarrow> s | None \<Rightarrow> ''RESERVED'')"

record point_result =
  cp_header_index :: int
  cp_index :: int
  cp_state :: string
  cp_state_raw :: int
  cp_status :: string
  cp_status_raw :: int
  cp_requested :: "dict option"
  cp_raw :: dict

definition status_reserved_2012 :: "point_result \<Rightarrow> bool" where
  "status_reserved_2012 p \<longleftrightarrow> 13 \<le> cp_status_raw p \<and> cp_status_raw p \<le> 125"

text \<open>\<open>bool(self.raw.get("status_wire_raw_unambiguous", self.status_raw != 127))\<close>\<close>

definition status_wire_raw_unambiguous :: "point_result \<Rightarrow> bool" where
  "status_wire_raw_unambiguous p =
     (case map_of (cp_raw p) ''status_wire_raw_unambiguous'' of
        Some v \<Rightarrow> truthy v | None \<Rightarrow> cp_status_raw p \<noteq> 127)"

definition requires_manual_readback :: "point_result \<Rightarrow> bool" where
  "requires_manual_readback p \<longleftrightarrow> cp_status_raw p = 1 \<or> status_reserved_2012 p \<or> \<not> status_wire_raw_unambiguous p"

definition POINT_RESULT_FIELDS :: "string list" where
  "POINT_RESULT_FIELDS =
     [''header_index'', ''index'', ''state'', ''state_raw'', ''status'', ''status_raw'', ''status_edition'',
      ''status_backend'', ''status_reserved_2012'', ''status_wire_raw_unambiguous'', ''requested'']"

definition CommandPointResult_from_mapping :: "dict \<Rightarrow> pyexc + point_result" where
  "CommandPointResult_from_mapping d =
     (let raw = as_int (get d ''status_raw''); expected_status = command_status_name_2012 raw;
          requested = get d ''requested'' in checked (first_error
       [check_missing ''command point result is missing fields: '' POINT_RESULT_FIELDS d,
        for_each (check_field nonneg d (\<lambda>f. ''command point field '' @ quoted f @ '' must be non-negative''))
          [''header_index'', ''index'', ''state_raw'', ''status_raw''],
        for_each (check_field nonempty_str d (\<lambda>f. ''command point field '' @ quoted f @ '' must be a string''))
          [''state'', ''status''],
        raise_if (raw > 127) (ValueError ''command point status_raw must be between 0 and 127''),
        raise_if (get d ''status'' \<noteq> PStr expected_status)
          (ValueError (''command point status does not match IEEE 1815-2012: raw='' @ str_int raw @
            '', expected='' @ quoted expected_status)),
        raise_if (get d ''status_edition'' \<noteq> PStr ''IEEE1815-2012'')
          (ValueError ''command point status_edition must be IEEE1815-2012''),
        raise_if (\<not> nonempty_str (get d ''status_backend''))
          (ValueError ''command point status_backend must be a string''),
        raise_if (get d ''status_reserved_2012'' \<noteq> PBool (13 \<le> raw \<and> raw \<le> 125))
          (ValueError ''command point status_reserved_2012 is inconsistent with status_raw''),
        raise_if (get d ''status_wire_raw_unambiguous'' \<noteq> PBool (raw \<noteq> 127))
          (ValueError ''command point status_wire_raw_unambiguous is inconsistent with the OpenDNP3 3.1.2 decoded status''),
        raise_if (requested \<noteq> PNone \<and> \<not> is_dict requested)
          (ValueError ''command point requested field must be an object or null'')])
       \<lparr>cp_header_index = as_int (get d ''header_index''), cp_index = as_int (get d ''index''),
        cp_state = as_str (get d ''state''), cp_state_raw = as_int (get d ''state_raw''),
        cp_status = as_str (get d ''status''), cp_status_raw = raw,
        cp_requested = (if is_dict requested then Some (as_dict requested) else None), cp_raw = d\<rparr>)"

section \<open>Results of one task\<close>

record task_result =
  ct_task_id :: int
  ct_mode :: string
  ct_task_status :: string
  ct_task_started :: bool
  ct_task_destroyed :: bool
  ct_all_success :: bool
  ct_execution_uncertain :: bool
  ct_point_results :: "point_result list"
  ct_summary :: dict
  ct_timings :: dict
  ct_raw :: dict

definition task_envelope_checks :: "dict \<Rightarrow> pyexc option" where
  "task_envelope_checks d = first_error
     [check_missing ''command result is missing fields: ''
        [''task_id'', ''mode'', ''response_mode'', ''task_status'', ''task_started'', ''task_destroyed'',
         ''all_success'', ''execution_uncertain'', ''point_results'', ''summary'', ''timings''] d,
      raise_if (\<not> positive (get d ''task_id'')) (ValueError ''command task_id must be a positive integer''),
      for_each (check_field nonempty_str d (\<lambda>f. ''command field '' @ quoted f @ '' must be a string''))
        [''mode'', ''task_status''],
      raise_if (get d ''response_mode'' \<noteq> PStr ''response'') (ValueError (''command response_mode must be '' @ quoted ''response'')),
      for_each (check_field is_bool d (\<lambda>f. ''command field '' @ quoted f @ '' must be boolean''))
        [''task_started'', ''task_destroyed'', ''all_success'', ''execution_uncertain''],
      raise_if (\<not> is_list (get d ''point_results'')) (ValueError ''command point_results must be an array''),
      for_each (check_field is_dict d (\<lambda>f. ''command '' @ f @ '' must be an object'')) [''summary'', ''timings'']]"

definition point_success :: "point_result \<Rightarrow> bool" where
  "point_success p \<longleftrightarrow> cp_state p = ''SUCCESS'' \<and> cp_status_raw p = 0"

definition task_point_checks :: "dict \<Rightarrow> point_result list \<Rightarrow> pyexc option" where
  "task_point_checks d points =
     (let summary = as_dict (get d ''summary''); num = (\<lambda>f. as_int (get summary f));
          successful_points = int (length (filter point_success points));
          expected_all_success = (get d ''task_status'' = PStr ''SUCCESS'' \<and> get d ''task_started'' = PBool True \<and>
            num ''requested_points'' = int (length points) \<and> successful_points = int (length points)) in first_error
       [raise_if (length points \<noteq> length (as_list (get d ''point_results'')))
          (ValueError ''command result contains a non-object point result''),
        for_each (check_field nonneg summary (\<lambda>f. ''command summary field '' @ quoted f @ '' must be non-negative''))
          [''requested_points'', ''returned_points'', ''successful_points'', ''failed_points''],
        raise_if (num ''returned_points'' \<noteq> int (length points))
          (ValueError ''command summary returned_points does not match point_results''),
        raise_if (num ''successful_points'' + num ''failed_points'' \<noteq> num ''returned_points'')
          (ValueError ''command summary successful/failed counts are inconsistent''),
        raise_if (successful_points \<noteq> num ''successful_points'')
          (ValueError ''command summary successful_points does not match point_results''),
        raise_if (as_bool (get d ''all_success'') \<noteq> expected_all_success)
          (ValueError ''command all_success is inconsistent with task/point results''),
        raise_if (\<not> distinct (map (\<lambda>p. (cp_header_index p, cp_index p)) points))
          (ValueError ''command result repeats a header/index point result'')])"

definition CommandTaskResult_from_mapping :: "dict \<Rightarrow> pyexc + task_result" where
  "CommandTaskResult_from_mapping d =
     bindE (checked (task_envelope_checks d) ()) (\<lambda>_.
     bindE (parse_objects CommandPointResult_from_mapping (get d ''point_results'')) (\<lambda>points.
     checked (task_point_checks d points)
       \<lparr>ct_task_id = as_int (get d ''task_id''), ct_mode = as_str (get d ''mode''),
        ct_task_status = as_str (get d ''task_status''), ct_task_started = as_bool (get d ''task_started''),
        ct_task_destroyed = as_bool (get d ''task_destroyed''), ct_all_success = as_bool (get d ''all_success''),
        ct_execution_uncertain = as_bool (get d ''execution_uncertain''), ct_point_results = points,
        ct_summary = as_dict (get d ''summary''), ct_timings = as_dict (get d ''timings''), ct_raw = d\<rparr>))"

section \<open>What an accepted command or result guarantees\<close>

lemma analog_value_checks:
  "analog_value_check ''analog_output_int16'' v = None \<longleftrightarrow> (\<exists>n. v = PInt n \<and> - 32768 \<le> n \<and> n < 32768)"
  "analog_value_check ''analog_output_int32'' v = None \<longleftrightarrow> (\<exists>n. v = PInt n \<and> - 2147483648 \<le> n \<and> n < 2147483648)"
  "analog_value_check ''analog_output_float32'' v = None \<longleftrightarrow> (\<exists>q. finite_number v = Some q \<and> \<bar>q\<bar> \<le> FLOAT32_MAX)"
  "analog_value_check ''analog_output_double64'' v = None \<longleftrightarrow> (\<exists>q. finite_number v = Some q)"
  by (auto simp: analog_value_check_def is_int_iff not_less split: option.splits)

text \<open>
  An analog command is accepted exactly for a point index of 16 bits, a known command type and a
  value that type can carry: a true integer in the range of the type, or a number whose binary64
  value is finite and, for the single precision type, not beyond the largest binary32 number.
\<close>

theorem analog_command_exact:
  "(\<exists>c. AnalogOutputCommand index v command_type = Inr c) \<longleftrightarrow>
     (\<exists>i. index = PInt i \<and> 0 \<le> i \<and> i \<le> 65535) \<and>
     (command_type = PStr ''analog_output_int16'' \<and> (\<exists>n. v = PInt n \<and> - 32768 \<le> n \<and> n < 32768) \<or>
      command_type = PStr ''analog_output_int32'' \<and> (\<exists>n. v = PInt n \<and> - 2147483648 \<le> n \<and> n < 2147483648) \<or>
      command_type = PStr ''analog_output_float32'' \<and> (\<exists>q. finite_number v = Some q \<and> \<bar>q\<bar> \<le> FLOAT32_MAX) \<or>
      command_type = PStr ''analog_output_double64'' \<and> (\<exists>q. finite_number v = Some q))"
proof -
  have "(\<exists>c. AnalogOutputCommand index v command_type = Inr c) \<longleftrightarrow>
      (\<exists>i. index = PInt i \<and> 0 \<le> i \<and> i \<le> 65535) \<and>
      (\<exists>t \<in> set ANALOG_COMMAND_TYPES. command_type = PStr t \<and> analog_value_check t v = None)"
    unfolding AnalogOutputCommand_def by (simp only: check_simps) auto
  then show ?thesis
    unfolding ANALOG_COMMAND_TYPES_def list.set bex_simps bex_empty analog_value_checks by (simp only: disj_assoc simp_thms)
qed

lemma point_result_facts:
  assumes "CommandPointResult_from_mapping d = Inr p"
  shows "cp_raw p = d" "0 \<le> cp_status_raw p" "cp_status_raw p \<le> 127"
    "cp_status p = command_status_name_2012 (cp_status_raw p)"
    "get d ''status_wire_raw_unambiguous'' = PBool (cp_status_raw p \<noteq> 127)"
    "get d ''status_raw'' = PInt (cp_status_raw p)" "get d ''index'' = PInt (cp_index p)"
    "get d ''header_index'' = PInt (cp_header_index p)"
  using assms unfolding CommandPointResult_from_mapping_def Let_def
  by (simp_all only: check_simps) (auto simp: nonneg_iff)

lemma unambiguous_iff:
  "CommandPointResult_from_mapping d = Inr p \<Longrightarrow> status_wire_raw_unambiguous p \<longleftrightarrow> cp_status_raw p \<noteq> 127"
  using point_result_facts(1,5) [of d p] unfolding status_wire_raw_unambiguous_def
  by (cases "map_of d ''status_wire_raw_unambiguous''") (auto simp: get_def)

lemma reserved_name:
  assumes "0 \<le> n" "n \<le> 127"
  shows "command_status_name_2012 n = ''RESERVED'' \<longleftrightarrow> 13 \<le> n \<and> n \<le> 125"
proof -
  have "list_all (\<lambda>n. (command_status_name_2012 n = ''RESERVED'') = (13 \<le> n \<and> n \<le> 125)) [0..127]" by code_simp
  then show ?thesis using assms by (simp add: list_all_iff)
qed

text \<open>
  C19: the fail-closed decision for an accepted point result is determined by the status code
  alone: a manual read-back is demanded exactly for TIMEOUT, for every code the 2012 edition
  reserves and for the ambiguous code 127; the reported name is that edition's name of the code.
\<close>

theorem manual_readback_exact:
  assumes "CommandPointResult_from_mapping d = Inr p"
  shows "(requires_manual_readback p \<longleftrightarrow> cp_status_raw p \<in> {1, 127} \<union> {13..125}) \<and>
    (cp_status p = ''RESERVED'' \<longleftrightarrow> cp_status_raw p \<in> {13..125})"
  using point_result_facts(2-4) [OF assms] unambiguous_iff [OF assms]
  by (auto simp: requires_manual_readback_def status_reserved_2012_def reserved_name)

lemma point_results_faithful:
  assumes "list_all2 (\<lambda>x y. is_dict x \<and> CommandPointResult_from_mapping (as_dict x) = Inr y) xs ps"
  shows "xs = map (\<lambda>p. PDict (cp_raw p)) ps"
  using assms by (induction rule: list_all2_induct) (auto simp: is_dict_iff dest: point_result_facts(1))

lemma filter_all_length: "length (filter P xs) = length xs \<longleftrightarrow> (\<forall>x \<in> set xs. P x)"
  using length_filter_less [of _ xs P] by (fastforce simp: filter_id_conv)

text \<open>
  C18: an accepted command result keeps every point result it was sent, in order and with its
  original fields, one per header and index; and it claims overall success exactly when the task
  started and succeeded, as many points were requested as are reported, and each of them
  succeeded. So a result that claims overall success has no point that demands a manual read-back.
\<close>

theorem command_result_sound:
  assumes "CommandTaskResult_from_mapping d = Inr r"
  shows "get d ''point_results'' = PList (map (\<lambda>p. PDict (cp_raw p)) (ct_point_results r)) \<and>
    distinct (map (\<lambda>p. (cp_header_index p, cp_index p)) (ct_point_results r)) \<and>
    (ct_all_success r \<longleftrightarrow> ct_task_status r = ''SUCCESS'' \<and> ct_task_started r \<and>
       get (ct_summary r) ''requested_points'' = PInt (int (length (ct_point_results r))) \<and>
       (\<forall>p \<in> set (ct_point_results r). cp_state p = ''SUCCESS'' \<and> cp_status_raw p = 0)) \<and>
    (ct_all_success r \<longrightarrow> (\<forall>p \<in> set (ct_point_results r). \<not> requires_manual_readback p))"
proof -
  obtain ps where env: "task_envelope_checks d = None"
    and ps: "parse_objects CommandPointResult_from_mapping (get d ''point_results'') = Inr ps"
    and pts: "task_point_checks d ps = None"
    and r: "r = \<lparr>ct_task_id = as_int (get d ''task_id''), ct_mode = as_str (get d ''mode''),
        ct_task_status = as_str (get d ''task_status''), ct_task_started = as_bool (get d ''task_started''),
        ct_task_destroyed = as_bool (get d ''task_destroyed''), ct_all_success = as_bool (get d ''all_success''),
        ct_execution_uncertain = as_bool (get d ''execution_uncertain''), ct_point_results = ps,
        ct_summary = as_dict (get d ''summary''), ct_timings = as_dict (get d ''timings''), ct_raw = d\<rparr>"
    using assms unfolding CommandTaskResult_from_mapping_def by (auto simp only: check_simps)
  have e: "nonempty_str (get d ''task_status'')" "is_bool (get d ''task_started'')" "is_list (get d ''point_results'')"
    using env unfolding task_envelope_checks_def by (simp_all only: check_simps) simp_all
  define summary where "summary = as_dict (get d ''summary'')"
  have n: "length ps = length (as_list (get d ''point_results''))" "nonneg (get summary ''requested_points'')"
    "as_bool (get d ''all_success'') \<longleftrightarrow> get d ''task_status'' = PStr ''SUCCESS'' \<and> get d ''task_started'' = PBool True \<and>
       as_int (get summary ''requested_points'') = int (length ps) \<and> length (filter point_success ps) = length ps"
    "distinct (map (\<lambda>p. (cp_header_index p, cp_index p)) ps)"
    using pts unfolding task_point_checks_def Let_def summary_def [symmetric] by (simp_all only: check_simps) (simp_all, blast)
  have pts2: "list_all2 (\<lambda>x y. is_dict x \<and> CommandPointResult_from_mapping (as_dict x) = Inr y)
      (as_list (get d ''point_results'')) ps"
    by (rule parse_objects_all [OF ps n(1)])
  have faithful: "get d ''point_results'' = PList (map (\<lambda>p. PDict (cp_raw p)) ps)"
    using point_results_faithful [OF pts2] e(3) by (auto simp: is_list_iff)
  have all: "length (filter point_success ps) = length ps \<longleftrightarrow> (\<forall>p \<in> set ps. cp_state p = ''SUCCESS'' \<and> cp_status_raw p = 0)"
    by (simp add: filter_all_length point_success_def)
  have safe: "\<not> requires_manual_readback p" if mem: "p \<in> set ps" and zero: "cp_status_raw p = 0" for p
  proof -
    obtain x where "CommandPointResult_from_mapping x = Inr p"
      using pts2 mem by (auto simp: list_all2_conv_all_nth in_set_conv_nth)
    then show ?thesis
      using unambiguous_iff zero by (simp add: requires_manual_readback_def status_reserved_2012_def)
  qed
  obtain s b k where vals: "get d ''task_status'' = PStr s" "get d ''task_started'' = PBool b"
      "get summary ''requested_points'' = PInt k"
    using e n(2) by (auto simp: nonempty_str_iff is_bool_iff nonneg_iff)
  have flag: "as_bool (get d ''all_success'') \<longleftrightarrow> s = ''SUCCESS'' \<and> b \<and> k = int (length ps) \<and>
      (\<forall>p \<in> set ps. cp_state p = ''SUCCESS'' \<and> cp_status_raw p = 0)"
    unfolding n(3) all vals by simp
  show ?thesis
    unfolding r summary_def [symmetric] task_result.simps vals as_str.simps as_bool.simps pyval.inject
    using faithful n(4) flag safe by blast
qed

section \<open>Instances\<close>

definition sample_point :: "int \<Rightarrow> string \<Rightarrow> int \<Rightarrow> dict" where
  "sample_point i status raw =
     [(''header_index'', PInt 0), (''index'', PInt i), (''state'', PStr ''SUCCESS''), (''state_raw'', PInt 4),
      (''status'', PStr status), (''status_raw'', PInt raw), (''status_edition'', PStr ''IEEE1815-2012''),
      (''status_backend'', PStr status), (''status_reserved_2012'', PBool (13 \<le> raw \<and> raw \<le> 125)),
      (''status_wire_raw_unambiguous'', PBool (raw \<noteq> 127)), (''requested'', PNone)]"

definition sample_command_result :: dict where
  "sample_command_result =
     [(''task_id'', PInt 9), (''mode'', PStr ''select_and_operate''), (''response_mode'', PStr ''response''),
      (''task_status'', PStr ''SUCCESS''), (''task_started'', PBool True), (''task_destroyed'', PBool True),
      (''all_success'', PBool True), (''execution_uncertain'', PBool False),
      (''point_results'', PList [PDict (sample_point 3 ''SUCCESS'' 0), PDict (sample_point 4 ''SUCCESS'' 0)]),
      (''summary'', PDict [(''requested_points'', PInt 2), (''returned_points'', PInt 2),
         (''successful_points'', PInt 2), (''failed_points'', PInt 0)]),
      (''timings'', PDict [])]"

theorem manual_readback_exact_witness:
  "\<exists>p. CommandPointResult_from_mapping (sample_point 3 ''RESERVED'' 20) = Inr p \<and>
     (requires_manual_readback p \<longleftrightarrow> cp_status_raw p \<in> {1, 127} \<union> {13..125})"
proof -
  have "case CommandPointResult_from_mapping (sample_point 3 ''RESERVED'' 20) of Inr r \<Rightarrow> True | Inl e \<Rightarrow> False"
    by code_simp
  then obtain p where p: "CommandPointResult_from_mapping (sample_point 3 ''RESERVED'' 20) = Inr p"
    using accepted_cases by blast
  show ?thesis using p manual_readback_exact [OF p] by blast
qed

theorem command_result_sound_witness:
  "\<exists>r. CommandTaskResult_from_mapping sample_command_result = Inr r \<and>
     get sample_command_result ''point_results'' = PList (map (\<lambda>p. PDict (cp_raw p)) (ct_point_results r)) \<and>
     ct_all_success r \<and> list_all (\<lambda>p. \<not> requires_manual_readback p) (ct_point_results r)"
proof -
  have "case CommandTaskResult_from_mapping sample_command_result of Inr r \<Rightarrow> ct_all_success r | Inl e \<Rightarrow> False" by code_simp
  then obtain r where r: "CommandTaskResult_from_mapping sample_command_result = Inr r" "ct_all_success r"
    by (auto split: sum.splits)
  show ?thesis using r command_result_sound [OF r(1)] by (auto simp only: list_all_iff)
qed

end
