(* ===== verification/Incidents.thy ===== *)
theory Incidents
  imports Unicode Sha256 CommandModels
begin

text \<open>
  The persistent safety lock, \<open>python/src/dnp3_master/safety_incidents.py\<close>: validation of incident
  documents and the file-backed \<open>SafetyIncidentStore\<close>.

  The two directories of the store are tables from file names to entries. An entry is a file with
  its octets, or something that cannot be opened or read (a dangling link, a directory, a file without
  permission). What the operating system and other processes contribute to one call is its
  environment: the time, the fresh identifier, which system calls fail and how, and what other
  processes do to the directories between the check for an existing lock and its exclusive creation.
  The text of an operating system error is left out of messages. Temporary files of a replacement
  have fresh names and are not kept in the table.
\<close>

section \<open>Errors\<close>

datatype store_exc =
    Store_Python pyexc
  | Unresolved string pyval dict
  | Persistence string
  | Acknowledgment string pyval dict

section \<open>Documents\<close>

definition MAX_INCIDENT_BYTES :: nat where
  "MAX_INCIDENT_BYTES = 131072"

definition sha_match :: "pyval \<Rightarrow> bool" where
  "sha_match v \<longleftrightarrow> is_str v \<and> class_match is_lower_hex 64 64 (as_str v)"

definition incident_id_match :: "pyval \<Rightarrow> bool" where
  "incident_id_match v \<longleftrightarrow> is_str v \<and> pattern_match ''INC-hhhhhhhh-hhhh-hhhh-hhhh-hhhhhhhhhhhh'' (map (\<lambda>c. [c]) (as_str v))"

definition timestamp_match :: "pyval \<Rightarrow> bool" where
  "timestamp_match v \<longleftrightarrow> is_str v \<and> (let ps = code_points (as_str v); rest = drop 19 ps in
     pattern_match ''dddd-dd-ddTdd:dd:dd'' (take 19 ps) \<and>
     (rest = [''Z''] \<or>
      (case rest of dot # fraction \<Rightarrow> dot = ''.'' \<and> fraction \<noteq> [] \<and> last fraction = ''Z'' \<and>
          1 \<le> length (butlast fraction) \<and> length (butlast fraction) \<le> 6 \<and> list_all is_decimal (butlast fraction)
       | [] \<Rightarrow> False)))"

definition INCIDENT_COMMAND_TYPES :: "string list" where
  "INCIDENT_COMMAND_TYPES =
     [''crob'', ''analog_output_int16'', ''analog_output_int32'', ''analog_output_float32'', ''analog_output_double64'']"

definition canonical_bytes :: "(rat \<Rightarrow> string) \<Rightarrow> pyval \<Rightarrow> pyexc + string" where
  "canonical_bytes repr v = (case json_dumps repr (sort_keys v) of
     Inl e \<Rightarrow> Inl (ValueError ''value must be finite and JSON serializable'') | Inr s \<Rightarrow> Inr s)"

definition sha256_json :: "(rat \<Rightarrow> string) \<Rightarrow> pyval \<Rightarrow> pyexc + string" where
  "sha256_json repr v = bindE (canonical_bytes repr v) (\<lambda>s. Inr (sha256 s))"

definition dut_identity_sha256 :: "pyval \<Rightarrow> pyexc + string" where
  "dut_identity_sha256 dut_id = checked (first_error
     [raise_if (\<not> is_str dut_id) (ValueError ''dut_id must be a string''),
      raise_if (as_str dut_id = [] \<or> length (as_str dut_id) > 128)
        (ValueError ''dut_id must contain between 1 and 128 UTF-8 bytes''),
      raise_if (\<not> list_all is_printable (as_str dut_id)) (ValueError ''dut_id must contain printable non-space ASCII'')])
     (sha256 (''dnp3-safety-dut-v1'' @ [CHR 0x00] @ as_str dut_id))"

definition is_control :: "char \<Rightarrow> bool" where
  "is_control c \<longleftrightarrow> (let n = (of_char c :: nat) in n < 32 \<and> n \<noteq> 9 \<and> n \<noteq> 10 \<and> n \<noteq> 13)"

definition bounded_text :: "pyval \<Rightarrow> string \<Rightarrow> nat \<Rightarrow> pyexc option" where
  "bounded_text v field maximum = first_error
     [raise_if (\<not> is_str v) (ValueError (field @ '' must be a string'')),
      raise_if (as_str v = [] \<or> length (as_str v) > maximum)
        (ValueError (field @ '' must contain between 1 and '' @ dec maximum @ '' UTF-8 bytes'')),
      raise_if (list_ex is_control (as_str v)) (ValueError (field @ '' must not contain control characters''))]"

definition INCIDENT_FIELDS :: "string list" where
  "INCIDENT_FIELDS =
     [''schema_version'', ''incident_id'', ''status'', ''created_at_utc'', ''updated_at_utc'', ''dut_identity_sha256'',
      ''command'', ''host_error'', ''required_action'']"

definition root_checks :: "dict \<Rightarrow> pyexc option" where
  "root_checks d = first_error
     [raise_if (\<not> list_all (\<lambda>k. k \<in> set (''acknowledgment'' # INCIDENT_FIELDS)) (map fst d) \<or> missing_keys INCIDENT_FIELDS d \<noteq> [])
        (ValueError ''incident contains missing or unknown root fields''),
      raise_if (\<not> eq_int (get d ''schema_version'') 1) (ValueError ''incident schema_version must be 1''),
      raise_if (\<not> incident_id_match (get d ''incident_id'')) (ValueError ''incident_id has an invalid format''),
      check_member (get d ''status'') [''OPEN'', ''ACKNOWLEDGED''] (ValueError ''incident status is invalid''),
      for_each (check_field timestamp_match d (\<lambda>f. ''incident '' @ f @ '' is invalid'')) [''created_at_utc'', ''updated_at_utc''],
      raise_if (\<not> sha_match (get d ''dut_identity_sha256'')) (ValueError ''incident dut_identity_sha256 is invalid''),
      raise_if (get d ''required_action'' \<noteq> PStr ''READBACK_THEN_EXPLICIT_ACKNOWLEDGMENT'')
        (ValueError ''incident required_action is invalid'')]"

text \<open>The loop over the points, with the identities already seen.\<close>

fun point_checks :: "(string \<times> int) list \<Rightarrow> pyval list \<Rightarrow> pyexc option" where
  "point_checks seen [] = None"
| "point_checks seen (p # ps) =
     (let d = as_dict p; identity = (as_str (get d ''type''), as_int (get d ''index'')) in
      case first_error
        [raise_if (\<not> is_dict p \<or> \<not> same_keys d [''type'', ''index'']) (ValueError ''incident command point is invalid''),
         check_member (get d ''type'') INCIDENT_COMMAND_TYPES (ValueError ''incident command point type is invalid''),
         raise_if (\<not> is_int (get d ''index'') \<or> \<not> (0 \<le> as_int (get d ''index'') \<and> as_int (get d ''index'') \<le> 65535))
           (ValueError ''incident command point index is invalid''),
         raise_if (identity \<in> set seen) (ValueError ''incident command repeats a point'')] of
        Some e \<Rightarrow> Some e
      | None \<Rightarrow> point_checks (identity # seen) ps)"

definition command_checks :: "pyval \<Rightarrow> pyexc option" where
  "command_checks v = (let c = as_dict v; points = as_list (get c ''points'') in first_error
     [raise_if (\<not> is_dict v \<or> \<not> same_keys c [''operation'', ''points'', ''payload_sha256''])
        (ValueError ''incident command metadata is invalid''),
      check_member (get c ''operation'') [''select_and_operate'', ''direct_operate'']
        (ValueError ''incident command operation is invalid''),
      raise_if (\<not> sha_match (get c ''payload_sha256'')) (ValueError ''incident command payload_sha256 is invalid''),
      raise_if (\<not> is_list (get c ''points'') \<or> \<not> (1 \<le> length points \<and> length points \<le> 256))
        (ValueError ''incident command points are invalid''),
      point_checks [] points])"

definition host_error_checks :: "pyval \<Rightarrow> pyexc option" where
  "host_error_checks v = (let h = as_dict v in first_error
     [raise_if (\<not> is_dict v \<or> \<not> same_keys h [''code'', ''execution_uncertain'', ''may_still_execute'', ''request_id''])
        (ValueError ''incident host_error metadata is invalid''),
      bounded_text (get h ''code'') ''host_error.code'' 128,
      bounded_text (get h ''request_id'') ''host_error.request_id'' 256,
      for_each (check_field is_bool h (\<lambda>f. ''incident host_error.'' @ f @ '' must be boolean''))
        [''execution_uncertain'', ''may_still_execute''],
      raise_if (\<not> (get h ''execution_uncertain'' = PBool True \<or> get h ''may_still_execute'' = PBool True \<or>
          get h ''code'' = PStr ''RESPONSE_TIMEOUT''))
        (ValueError ''incident host_error does not describe uncertainty'')])"

definition ACKNOWLEDGMENT_FIELDS :: "string list" where
  "ACKNOWLEDGMENT_FIELDS =
     [''acknowledged_at_utc'', ''acknowledged_by'', ''evidence_reference'', ''readback_payload_sha256'', ''readback_summary'']"

definition acknowledgment_checks :: "pyval \<Rightarrow> pyval \<Rightarrow> pyexc option" where
  "acknowledgment_checks status v = (let a = as_dict v in first_error
     [raise_if (status = PStr ''OPEN'' \<and> v \<noteq> PNone) (ValueError ''an OPEN incident must not contain acknowledgment data''),
      (if status \<noteq> PStr ''ACKNOWLEDGED'' then None else first_error
        [raise_if (\<not> is_dict v \<or> \<not> same_keys a ACKNOWLEDGMENT_FIELDS) (ValueError ''acknowledged incident metadata is invalid''),
         raise_if (\<not> timestamp_match (get a ''acknowledged_at_utc'')) (ValueError ''acknowledgment timestamp is invalid''),
         bounded_text (get a ''acknowledged_by'') ''acknowledged_by'' 128,
         bounded_text (get a ''readback_summary'') ''readback_summary'' 4096,
         bounded_text (get a ''evidence_reference'') ''evidence_reference'' 4096,
         raise_if (\<not> sha_match (get a ''readback_payload_sha256''))
           (ValueError ''acknowledgment readback_payload_sha256 is invalid'')])])"

definition validate_incident :: "pyval \<Rightarrow> pyexc + dict" where
  "validate_incident v = (let d = as_dict v in checked (first_error
     [raise_if (\<not> is_dict v) (ValueError ''incident root must be an object''),
      root_checks d,
      command_checks (get d ''command''),
      host_error_checks (get d ''host_error''),
      acknowledgment_checks (get d ''status'') (get d ''acknowledgment'')]) d)"

section \<open>The directories\<close>

datatype entry = File string | Unreadable

type_synonym directory = "(string \<times> entry) list"

record disk =
  dk_active :: directory
  dk_archive :: directory

text \<open>
  One exclusive creation: it works; \<open>os.open\<close> fails with another error than that the file exists; or
  the file is created and writing fails, having written some octets. After an error the path is
  unlinked, which itself may fail; the flag says whether it works.
\<close>

datatype os_write = Write_Works | Open_Fails bool | Write_Fails string bool

record op_env =
  en_now :: string
  en_uuid :: string
  en_mkdir_fails :: bool
  en_not_directories :: bool
  en_create_active :: os_write
  en_create_temporary :: os_write
  en_replace_fails :: bool
  en_create_archive :: os_write
  en_unlink_fails :: bool
  en_meanwhile :: "disk \<Rightarrow> disk"

definition quiet_env :: "string \<Rightarrow> string \<Rightarrow> op_env" where
  "quiet_env now uuid =
     \<lparr>en_now = now, en_uuid = uuid, en_mkdir_fails = False, en_not_directories = False, en_create_active = Write_Works,
      en_create_temporary = Write_Works, en_replace_fails = False, en_create_archive = Write_Works,
      en_unlink_fails = False, en_meanwhile = (\<lambda>d. d)\<rparr>"

definition ensure_directories :: "op_env \<Rightarrow> store_exc option" where
  "ensure_directories env = first_error
     [raise_if (en_mkdir_fails env) (Persistence ''cannot create persistent safety-incident directory: ''),
      raise_if (en_not_directories env) (Persistence ''persistent safety-incident paths must be directories'')]"

definition active_name :: "string \<Rightarrow> string" where
  "active_name dut_hash = dut_hash @ ''.json''"

definition archive_name :: "pyval \<Rightarrow> store_exc + string" where
  "archive_name incident_id =
     (if \<not> incident_id_match incident_id
      then Inl (Acknowledgment ''incident_id has an invalid format'' incident_id [])
      else Inr (as_str incident_id @ ''.json''))"

definition unreadable_error :: "bool \<Rightarrow> string \<Rightarrow> store_exc" where
  "unreadable_error unresolved_on_error name =
     (let message = ''safety-incident record is unreadable or invalid; control remains locked'' in
      if unresolved_on_error then Unresolved message PNone [(''record_name'', PStr name)] else Persistence message)"

text \<open>
  \<open>_read_document\<close>: the handler covers \<open>OSError\<close>, \<open>UnicodeError\<close>, \<open>ValueError\<close> and \<open>RecursionError\<close>; a
  \<open>TypeError\<close> of the validation passes through.
\<close>

definition parse_document :: "string \<Rightarrow> pyexc + dict" where
  "parse_document encoded =
     (if \<not> (0 < length encoded \<and> length encoded \<le> MAX_INCIDENT_BYTES) then Inl (ValueError ''file size is outside the allowed range'')
      else if \<not> utf8_valid encoded then Inl (ValueError ''invalid UTF-8'')
      else case json_loads encoded of Inl e \<Rightarrow> Inl (ValueError ''invalid JSON'') | Inr v \<Rightarrow> validate_incident v)"

definition read_document :: "directory \<Rightarrow> string \<Rightarrow> bool \<Rightarrow> bool \<Rightarrow> store_exc + dict option" where
  "read_document dir name unresolved_on_error missing_ok =
     (let failure = unreadable_error unresolved_on_error name in
      case map_of dir name of
        None \<Rightarrow> if missing_ok then Inr None else Inl failure
      | Some Unreadable \<Rightarrow> Inl failure
      | Some (File encoded) \<Rightarrow> (case parse_document encoded of
            Inr d \<Rightarrow> Inr (Some d)
          | Inl (TypeError m) \<Rightarrow> Inl (Store_Python (TypeError m))
          | Inl e \<Rightarrow> Inl failure))"

text \<open>
  \<open>_write_exclusive\<close>: the outcome is done, that the file exists, or an error; with the directory after it.
\<close>

datatype write_result = Written | File_Exists | Write_Error store_exc

definition write_exclusive :: "(rat \<Rightarrow> string) \<Rightarrow> os_write \<Rightarrow> directory \<Rightarrow> string \<Rightarrow> dict \<Rightarrow> write_result \<times> directory" where
  "write_exclusive repr w dir name document =
     (case canonical_bytes repr (PDict document) of
        Inl e \<Rightarrow> (Write_Error (Store_Python e), dir)
      | Inr text \<Rightarrow>
          let encoded = text @ [CHR 0x0A]; failure = Write_Error (Persistence ''cannot persist safety-incident lock: '') in
          if length encoded > MAX_INCIDENT_BYTES then (Write_Error (Persistence ''safety-incident record is too large''), dir)
          else case w of
            Open_Fails unlinked \<Rightarrow> (failure, if unlinked then dict_del name dir else dir)
          | Write_Works \<Rightarrow> if map_of dir name \<noteq> None then (File_Exists, dir) else (Written, dict_set name (File encoded) dir)
          | Write_Fails partial unlinked \<Rightarrow>
              if map_of dir name \<noteq> None then (File_Exists, dir)
              else (failure, if unlinked then dir else dict_set name (File partial) dir))"

text \<open>
  \<open>_replace_document\<close>: the temporary file is created exclusively under a fresh name, then moved over
  the document; afterwards it is unlinked.
\<close>

definition replace_document :: "(rat \<Rightarrow> string) \<Rightarrow> op_env \<Rightarrow> directory \<Rightarrow> string \<Rightarrow> dict \<Rightarrow> store_exc option \<times> directory" where
  "replace_document repr env dir name document =
     (case write_exclusive repr (en_create_temporary env) [] (''.'' @ name @ ''.'' @ en_uuid env @ ''.tmp'') document of
        (Write_Error e, _) \<Rightarrow> (Some e, dir)
      | (File_Exists, _) \<Rightarrow> (Some (Persistence ''cannot update safety-incident record: ''), dir)
      | (Written, temporary) \<Rightarrow>
          if en_replace_fails env then (Some (Persistence ''cannot update safety-incident record: ''), dir)
          else (None, dict_set name (snd (hd temporary)) dir))"

section \<open>SafetyIncidentStore\<close>

definition get_active :: "op_env \<Rightarrow> disk \<Rightarrow> pyval \<Rightarrow> store_exc + dict option" where
  "get_active env disk dut_id =
     (case ensure_directories env of Some e \<Rightarrow> Inl e
      | None \<Rightarrow> (case dut_identity_sha256 dut_id of Inl e \<Rightarrow> Inl (Store_Python e)
          | Inr dut_hash \<Rightarrow>
              bindE (read_document (dk_active disk) (active_name dut_hash) True True) (\<lambda>document.
                case document of None \<Rightarrow> Inr None
                | Some d \<Rightarrow> if get d ''dut_identity_sha256'' \<noteq> PStr dut_hash
                    then Inl (Unresolved ''safety-incident record does not match the DUT; control remains locked''
                      (get d ''incident_id'') [(''record_name'', PStr (active_name dut_hash))])
                    else Inr (Some d))))"

definition assert_clear :: "op_env \<Rightarrow> disk \<Rightarrow> pyval \<Rightarrow> store_exc option" where
  "assert_clear env disk dut_id =
     (case get_active env disk dut_id of Inl e \<Rightarrow> Some e | Inr None \<Rightarrow> None
      | Inr (Some d) \<Rightarrow> Some (Unresolved
          ''control is blocked by an unresolved uncertain-result incident; perform an independent readback and explicitly acknowledge it''
          (get d ''incident_id'')
          [(''created_at_utc'', get d ''created_at_utc''), (''operation'', get (as_dict (get d ''command'')) ''operation''),
           (''points'', get (as_dict (get d ''command'')) ''points''), (''required_action'', get d ''required_action'')]))"

text \<open>The arguments of \<open>record_uncertain\<close> but the DUT.\<close>

record uncertain =
  un_operation :: pyval
  un_payload :: pyval
  un_points :: "dict list"
  un_request_id :: pyval
  un_error_code :: pyval
  un_execution_uncertain :: pyval
  un_may_still_execute :: pyval

definition new_incident :: "op_env \<Rightarrow> string \<Rightarrow> uncertain \<Rightarrow> string \<Rightarrow> dict" where
  "new_incident env dut_hash u payload_hash =
     [(''schema_version'', PInt 1), (''incident_id'', PStr (''INC-'' @ en_uuid env)), (''status'', PStr ''OPEN''),
      (''created_at_utc'', PStr (en_now env)), (''updated_at_utc'', PStr (en_now env)), (''dut_identity_sha256'', PStr dut_hash),
      (''command'', PDict [(''operation'', un_operation u),
         (''points'', PList (map (\<lambda>p. PDict [(''type'', get p ''type''), (''index'', get p ''index'')]) (un_points u))),
         (''payload_sha256'', PStr payload_hash)]),
      (''host_error'', PDict [(''code'', un_error_code u), (''request_id'', un_request_id u),
         (''execution_uncertain'', un_execution_uncertain u), (''may_still_execute'', un_may_still_execute u)]),
      (''required_action'', PStr ''READBACK_THEN_EXPLICIT_ACKNOWLEDGMENT'')]"

text \<open>
  Validation and exclusive creation of the new record: the part after the check. A lock that
  appeared meanwhile is returned instead.
\<close>

definition create_incident ::
    "(rat \<Rightarrow> string) \<Rightarrow> op_env \<Rightarrow> disk \<Rightarrow> pyval \<Rightarrow> string \<Rightarrow> dict \<Rightarrow> (store_exc + dict \<times> bool) \<times> disk" where
  "create_incident repr env disk dut_id dut_hash incident =
     (case write_exclusive repr (en_create_active env) (dk_active disk) (active_name dut_hash) incident of
        (Write_Error e, dir) \<Rightarrow> (Inl e, disk\<lparr>dk_active := dir\<rparr>)
      | (Written, dir) \<Rightarrow> (Inr (incident, True), disk\<lparr>dk_active := dir\<rparr>)
      | (File_Exists, dir) \<Rightarrow>
          (case get_active env disk dut_id of
             Inl e \<Rightarrow> (Inl e, disk)
           | Inr None \<Rightarrow> (Inl (Persistence ''a concurrent incident lock disappeared before it could be read''), disk)
           | Inr (Some existing) \<Rightarrow> (Inr (existing, False), disk)))"

definition record_uncertain ::
    "(rat \<Rightarrow> string) \<Rightarrow> op_env \<Rightarrow> disk \<Rightarrow> pyval \<Rightarrow> uncertain \<Rightarrow> (store_exc + dict \<times> bool) \<times> disk" where
  "record_uncertain repr env disk dut_id u =
     (case get_active env disk dut_id of
        Inl e \<Rightarrow> (Inl e, disk)
      | Inr (Some existing) \<Rightarrow> (Inr (existing, False), disk)
      | Inr None \<Rightarrow>
          (case check_member (un_operation u) [''select_and_operate'', ''direct_operate'']
              (ValueError ''operation is not a supported control operation'') of
             Some e \<Rightarrow> (Inl (Store_Python e), disk)
           | None \<Rightarrow> (case bindE (dut_identity_sha256 dut_id) (\<lambda>dut_hash. bindE (sha256_json repr (un_payload u)) (\<lambda>payload_hash.
                 bindE (validate_incident (PDict (new_incident env dut_hash u payload_hash))) (\<lambda>incident. Inr (dut_hash, incident)))) of
               Inl e \<Rightarrow> (Inl (Store_Python e), disk)
             | Inr (dut_hash, incident) \<Rightarrow> create_incident repr env (en_meanwhile env disk) dut_id dut_hash incident)))"

text \<open>The arguments of \<open>acknowledge\<close> but the DUT and the incident.\<close>

record readback_args =
  rb_acknowledged_by :: pyval
  rb_summary :: pyval
  rb_readback :: pyval
  rb_evidence_reference :: pyval

definition supplied_acknowledgment :: "(rat \<Rightarrow> string) \<Rightarrow> pyval \<Rightarrow> readback_args \<Rightarrow> store_exc + dict" where
  "supplied_acknowledgment repr incident_id a =
     (case first_error
        [bounded_text (rb_acknowledged_by a) ''acknowledged_by'' 128,
         bounded_text (rb_summary a) ''readback_summary'' 4096,
         bounded_text (rb_evidence_reference a) ''evidence_reference'' 4096] of
        Some e \<Rightarrow> Inl (Store_Python e)
      | None \<Rightarrow>
          if \<not> is_dict (rb_readback a) \<or> as_dict (rb_readback a) = []
          then Inl (Acknowledgment ''readback must be a non-empty object containing independently observed data'' incident_id [])
          else (case sha256_json repr (rb_readback a) of
              Inl e \<Rightarrow> Inl (Acknowledgment ''readback is invalid: '' incident_id [])
            | Inr readback_hash \<Rightarrow> Inr
                [(''acknowledged_by'', rb_acknowledged_by a), (''readback_summary'', rb_summary a),
                 (''readback_payload_sha256'', PStr readback_hash), (''evidence_reference'', rb_evidence_reference a)]))"

text \<open>
  Equality of values: dictionaries compare without regard to the order of keys, booleans and numbers
  by value. (\<open>NaN\<close>, which differs from itself, does not occur in a validated document.)
\<close>

fun number_norm :: "pyval \<Rightarrow> pyval" where
  "number_norm (PBool b) = PFloat (Fin (of_bool b))"
| "number_norm (PInt i) = PFloat (Fin (of_int i))"
| "number_norm (PList vs) = PList (map number_norm vs)"
| "number_norm (PDict kvs) = PDict (map (\<lambda>(k, v). (k, number_norm v)) kvs)"
| "number_norm v = v"

definition py_eq :: "pyval \<Rightarrow> pyval \<Rightarrow> bool" where
  "py_eq v w \<longleftrightarrow> number_norm (sort_keys v) = number_norm (sort_keys w)"

definition acknowledged_document :: "op_env \<Rightarrow> dict \<Rightarrow> dict \<Rightarrow> dict" where
  "acknowledged_document env incident supplied =
     dict_set ''acknowledgment'' (PDict ((''acknowledged_at_utc'', PStr (en_now env)) # supplied))
       (dict_set ''updated_at_utc'' (PStr (en_now env)) (dict_set ''status'' (PStr ''ACKNOWLEDGED'') incident))"

text \<open>Archiving the acknowledged record and removing the active one.\<close>

definition archive_and_unlink ::
    "(rat \<Rightarrow> string) \<Rightarrow> op_env \<Rightarrow> disk \<Rightarrow> string \<Rightarrow> string \<Rightarrow> pyval \<Rightarrow> dict \<Rightarrow> (store_exc + dict) \<times> disk" where
  "archive_and_unlink repr env disk active archive incident_id acknowledged =
     (case write_exclusive repr (en_create_archive env) (dk_archive disk) archive acknowledged of
        (Write_Error e, dir) \<Rightarrow> (Inl e, disk\<lparr>dk_archive := dir\<rparr>)
      | (r, dir) \<Rightarrow>
          let disk' = disk\<lparr>dk_archive := dir\<rparr> in
          case (if r = Written then None else case read_document dir archive False False of
                  Inl e \<Rightarrow> Some e
                | Inr d \<Rightarrow> raise_if (\<not> (\<exists>a \<in> set_option d. py_eq (PDict a) (PDict acknowledged)))
                    (Acknowledgment ''archive collision detected; control remains locked'' incident_id [])) of
            Some e \<Rightarrow> (Inl e, disk')
          | None \<Rightarrow> if en_unlink_fails env
              then (Inl (Persistence ''incident was archived but its active lock remains: ''), disk')
              else (Inr acknowledged, disk'\<lparr>dk_active := dict_del active (dk_active disk')\<rparr>))"

text \<open>The document to archive: the persisted one on a retry with the same data, else the new one, persisted first.\<close>

definition persist_acknowledgment ::
    "(rat \<Rightarrow> string) \<Rightarrow> op_env \<Rightarrow> directory \<Rightarrow> string \<Rightarrow> pyval \<Rightarrow> dict \<Rightarrow> dict \<Rightarrow> (store_exc + dict) \<times> directory" where
  "persist_acknowledgment repr env dir active incident_id incident supplied =
     (if get incident ''status'' = PStr ''ACKNOWLEDGED''
      then (if \<not> py_eq (PDict (dict_del ''acknowledged_at_utc'' (as_dict (get incident ''acknowledgment'')))) (PDict supplied)
        then (Inl (Acknowledgment ''incident acknowledgment retry does not match the persisted data'' incident_id []), dir)
        else (Inr incident, dir))
      else (case validate_incident (PDict (acknowledged_document env incident supplied)) of
          Inl e \<Rightarrow> (Inl (Store_Python e), dir)
        | Inr acknowledged \<Rightarrow> (case replace_document repr env dir active acknowledged of
              (Some e, dir') \<Rightarrow> (Inl e, dir')
            | (None, dir') \<Rightarrow> (Inr acknowledged, dir'))))"

definition acknowledge ::
    "(rat \<Rightarrow> string) \<Rightarrow> op_env \<Rightarrow> disk \<Rightarrow> pyval \<Rightarrow> pyval \<Rightarrow> readback_args \<Rightarrow> (store_exc + dict) \<times> disk" where
  "acknowledge repr env disk dut_id incident_id a =
     (case (case ensure_directories env of Some e \<Rightarrow> Inl e | None \<Rightarrow>
          case dut_identity_sha256 dut_id of Inl e \<Rightarrow> Inl (Store_Python e) | Inr dut_hash \<Rightarrow>
            bindE (archive_name incident_id) (\<lambda>archive.
            bindE (read_document (dk_active disk) (active_name dut_hash) True True) (\<lambda>incident. Inr (dut_hash, archive, incident)))) of
        Inl e \<Rightarrow> (Inl e, disk)
      | Inr (dut_hash, archive, None) \<Rightarrow>
          (case read_document (dk_archive disk) archive False True of
             Inl e \<Rightarrow> (Inl e, disk)
           | Inr archived \<Rightarrow> (case archived of
                 Some d \<Rightarrow> if get d ''dut_identity_sha256'' = PStr dut_hash then (Inr d, disk)
                   else (Inl (Acknowledgment ''no active safety incident exists for this DUT'' incident_id []), disk)
               | None \<Rightarrow> (Inl (Acknowledgment ''no active safety incident exists for this DUT'' incident_id []), disk)))
      | Inr (dut_hash, archive, Some incident) \<Rightarrow>
          if get incident ''dut_identity_sha256'' \<noteq> PStr dut_hash
          then (Inl (Acknowledgment ''active incident does not match this DUT'' incident_id []), disk)
          else if get incident ''incident_id'' \<noteq> incident_id
          then (Inl (Acknowledgment ''incident_id does not match the active DUT lock'' incident_id
            [(''active_incident_id'', get incident ''incident_id'')]), disk)
          else (case supplied_acknowledgment repr incident_id a of
              Inl e \<Rightarrow> (Inl e, disk)
            | Inr supplied \<Rightarrow>
                (case persist_acknowledgment repr env (dk_active disk) (active_name dut_hash) incident_id incident supplied of
                   (Inl e, dir) \<Rightarrow> (Inl e, disk\<lparr>dk_active := dir\<rparr>)
                 | (Inr acknowledged, dir) \<Rightarrow>
                     archive_and_unlink repr env (disk\<lparr>dk_active := dir\<rparr>) (active_name dut_hash) archive incident_id acknowledged)))"

section \<open>The lock\<close>

definition locked :: "disk \<Rightarrow> string \<Rightarrow> bool" where
  "locked disk dut_hash \<longleftrightarrow> map_of (dk_active disk) (active_name dut_hash) \<noteq> None"

lemma active_name_inject [simp]: "active_name h = active_name h' \<longleftrightarrow> h = h'"
  by (simp add: active_name_def)

lemma ensure_directories_None: "ensure_directories env = None \<longleftrightarrow> \<not> en_mkdir_fails env \<and> \<not> en_not_directories env"
  by (simp add: ensure_directories_def)

lemma read_document_None: "read_document dir name b True = Inr None \<longleftrightarrow> map_of dir name = None"
  by (auto simp: read_document_def Let_def split: option.splits entry.splits sum.splits pyexc.splits)

lemma read_document_Some: "read_document dir name b m = Inr (Some d) \<longleftrightarrow> (\<exists>s. map_of dir name = Some (File s) \<and> parse_document s = Inr d)"
  by (auto simp: read_document_def Let_def split: option.splits entry.splits sum.splits pyexc.splits)

lemma get_active_None:
  "get_active env disk dut = Inr None \<longleftrightarrow> ensure_directories env = None \<and> (\<exists>h. dut_identity_sha256 dut = Inr h \<and> \<not> locked disk h)"
  by (auto simp: get_active_def bindE_eq_Inr read_document_None locked_def split: option.splits sum.splits if_splits)

lemma get_active_Some:
  "get_active env disk dut = Inr (Some d) \<longleftrightarrow> ensure_directories env = None \<and>
     (\<exists>h s. dut_identity_sha256 dut = Inr h \<and> map_of (dk_active disk) (active_name h) = Some (File s) \<and>
        parse_document s = Inr d \<and> get d ''dut_identity_sha256'' = PStr h)"
  by (auto simp: get_active_def bindE_eq_Inr read_document_Some split: option.splits sum.splits if_splits)

lemma assert_clear_None:
  "assert_clear env disk dut = None \<longleftrightarrow>
     \<not> en_mkdir_fails env \<and> \<not> en_not_directories env \<and> (\<exists>h. dut_identity_sha256 dut = Inr h \<and> \<not> locked disk h)"
  unfolding ensure_directories_None [symmetric] conj_assoc [symmetric]
  by (auto simp: assert_clear_def get_active_None [symmetric] conj_assoc split: sum.splits option.splits)

lemma write_exclusive_lookup:
  assumes "write_exclusive repr w dir name doc = (r, dir')"
  shows "name' \<noteq> name \<Longrightarrow> map_of dir' name' = map_of dir name'"
    and "r = Written \<Longrightarrow> \<exists>text. map_of dir name = None \<and> canonical_bytes repr (PDict doc) = Inr text \<and>
        length text < MAX_INCIDENT_BYTES \<and> dir' = dict_set name (File (text @ [CHR 0x0A])) dir"
    and "r = File_Exists \<Longrightarrow> dir' = dir \<and> map_of dir name \<noteq> None"
    and "w \<noteq> Open_Fails True \<Longrightarrow> map_of dir name = Some x \<Longrightarrow> map_of dir' name = Some x"
  using assms
  by (auto simp: write_exclusive_def Let_def map_of_dict_set map_of_dict_del split: sum.splits os_write.splits if_splits)

text \<open>
  What other processes may do between check and creation: anything that keeps the locks, and nothing
  in the one case in which the failed creation unlinks whatever is at the path (see
  \<open>failed_open_removes_lock\<close> below).
\<close>

definition keeps_locks :: "(disk \<Rightarrow> disk) \<Rightarrow> bool" where
  "keeps_locks f \<longleftrightarrow> (\<forall>disk h. locked disk h \<longrightarrow> locked (f disk) h)"

definition benign :: "op_env \<Rightarrow> bool" where
  "benign env \<longleftrightarrow> keeps_locks (en_meanwhile env) \<and> (en_create_active env = Open_Fails True \<longrightarrow> en_meanwhile env = (\<lambda>d. d))"

lemma record_uncertain_cases:
  assumes "record_uncertain repr env disk dut u = (res, disk')"
  obtains (unchanged) "disk' = disk" "\<And>x. res = Inr x \<Longrightarrow> \<exists>d. get_active env disk dut = Inr (Some d) \<and> x = (d, False)"
  | (create) h p incident where "get_active env disk dut = Inr None" "dut_identity_sha256 dut = Inr h"
      "validate_incident (PDict incident) = Inr incident" "incident = new_incident env h u p"
      "create_incident repr env (en_meanwhile env disk) dut h incident = (res, disk')"
proof (cases "get_active env disk dut")
  case (Inl e)
  then show thesis using assms unchanged by (auto simp: record_uncertain_def)
next
  case (Inr active)
  show thesis
  proof (cases active)
    case (Some d)
    then show thesis using assms unchanged Inr by (auto simp: record_uncertain_def)
  next
    case None
    note none = Inr [unfolded None]
    show thesis
    proof (cases "\<exists>h p. dut_identity_sha256 dut = Inr h \<and> validate_incident (PDict (new_incident env h u p)) = Inr (new_incident env h u p) \<and>
        create_incident repr env (en_meanwhile env disk) dut h (new_incident env h u p) = (res, disk')")
      case True
      then show thesis using create none by blast
    next
      case False
      have same: "validate_incident (PDict d) = Inr d' \<Longrightarrow> d' = d" for d d' by (simp add: validate_incident_def Let_def)
      have "disk' = disk \<and> (\<exists>e. res = Inl e)"
        using assms none False same
        by (auto simp: record_uncertain_def bindE_def split: option.splits sum.splits)
      then show thesis using unchanged by auto
    qed
  qed
qed

lemma create_incident_keeps:
  assumes "create_incident repr env disk dut h incident = (res, disk')" "locked disk h'"
    and "h' = h \<Longrightarrow> en_create_active env \<noteq> Open_Fails True"
  shows "locked disk' h'"
proof -
  obtain r dir where w: "write_exclusive repr (en_create_active env) (dk_active disk) (active_name h) incident = (r, dir)"
    by (cases "write_exclusive repr (en_create_active env) (dk_active disk) (active_name h) incident")
  have "map_of dir (active_name h') \<noteq> None"
    using write_exclusive_lookup(1,4) [OF w] assms(2,3) by (cases "h' = h") (auto simp: locked_def)
  moreover have "disk' = disk\<lparr>dk_active := dir\<rparr> \<or> disk' = disk"
    using assms(1) w by (auto simp: create_incident_def split: write_result.splits sum.splits option.splits)
  ultimately show ?thesis using assms(2) by (auto simp: locked_def)
qed

lemma record_keeps:
  assumes "record_uncertain repr env disk dut u = (res, disk')" "benign env" "locked disk h"
  shows "locked disk' h"
  using assms(1)
proof (cases rule: record_uncertain_cases)
  case (create h' p incident)
  have "\<not> locked disk h'" using create(1,2) by (auto simp: get_active_None)
  then show ?thesis
    using create_incident_keeps [OF create(5)] assms(2,3) by (auto simp: benign_def keeps_locks_def)
qed (use assms in simp)

lemma record_locks:
  assumes "record_uncertain repr env disk dut u = (Inr r, disk')" "dut_identity_sha256 dut = Inr h"
  shows "locked disk' h"
  using assms(1)
proof (cases rule: record_uncertain_cases)
  case unchanged
  then show ?thesis using assms(2) by (auto simp: get_active_Some locked_def)
next
  case (create h' p incident)
  then show ?thesis
    using assms(2) write_exclusive_lookup(2) [of repr "en_create_active env" "dk_active (en_meanwhile env disk)" "active_name h" incident]
    by (auto simp: create_incident_def get_active_Some locked_def map_of_dict_set
        split: prod.splits write_result.splits sum.splits option.splits)
qed

lemma replace_document_lookup:
  assumes "replace_document repr env dir name doc = (r, dir')"
  shows "name' \<noteq> name \<Longrightarrow> map_of dir' name' = map_of dir name'" "map_of dir name \<noteq> None \<Longrightarrow> map_of dir' name \<noteq> None"
  using assms by (auto simp: replace_document_def map_of_dict_set split: prod.splits write_result.splits if_splits)

lemma persist_lookup:
  assumes "persist_acknowledgment repr env dir name i incident supplied = (r, dir')"
  shows "name' \<noteq> name \<Longrightarrow> map_of dir' name' = map_of dir name'" "map_of dir name \<noteq> None \<Longrightarrow> map_of dir' name \<noteq> None"
  using assms replace_document_lookup
  by (auto simp: persist_acknowledgment_def split: if_splits sum.splits prod.splits option.splits)

lemma archive_active:
  assumes "archive_and_unlink repr env disk active archive i doc = (r, disk')"
  shows "dk_active disk' = (case r of Inl e \<Rightarrow> dk_active disk | Inr d \<Rightarrow> dict_del active (dk_active disk))"
  using assms by (auto simp: archive_and_unlink_def Let_def split: prod.splits write_result.splits option.splits if_splits)

text \<open>The way an acknowledgment takes: it changes nothing, or it goes through both phases.\<close>

lemma acknowledge_cases:
  assumes "acknowledge repr env disk dut i a = (r, disk')"
  obtains (unchanged) "disk' = disk" "\<And>d. r = Inr d \<Longrightarrow> \<exists>h archive. dut_identity_sha256 dut = Inr h \<and> \<not> locked disk h \<and>
      archive_name i = Inr archive \<and> read_document (dk_archive disk) archive False True = Inr (Some d) \<and> get d ''dut_identity_sha256'' = PStr h"
  | (persist_failed) h incident supplied e dir where "dut_identity_sha256 dut = Inr h" "r = Inl e" "disk' = disk\<lparr>dk_active := dir\<rparr>"
      "persist_acknowledgment repr env (dk_active disk) (active_name h) i incident supplied = (Inl e, dir)" "locked disk h"
  | (archive) h archive incident supplied acknowledged dir where "dut_identity_sha256 dut = Inr h" "archive_name i = Inr archive" "locked disk h"
      "read_document (dk_active disk) (active_name h) True True = Inr (Some incident)" "get incident ''dut_identity_sha256'' = PStr h"
      "get incident ''incident_id'' = i" "supplied_acknowledgment repr i a = Inr supplied"
      "persist_acknowledgment repr env (dk_active disk) (active_name h) i incident supplied = (Inr acknowledged, dir)"
      "archive_and_unlink repr env (disk\<lparr>dk_active := dir\<rparr>) (active_name h) archive i acknowledged = (r, disk')"
proof -
  let ?pre = "case ensure_directories env of Some e \<Rightarrow> Inl e | None \<Rightarrow>
      case dut_identity_sha256 dut of Inl e \<Rightarrow> Inl (Store_Python e) | Inr dut_hash \<Rightarrow>
        bindE (archive_name i) (\<lambda>archive.
        bindE (read_document (dk_active disk) (active_name dut_hash) True True) (\<lambda>incident. Inr (dut_hash, archive, incident)))"
  show thesis
  proof (cases ?pre)
    case (Inl e)
    then have "(r, disk') = (Inl e, disk)" using assms unfolding acknowledge_def by simp
    then show thesis using unchanged by auto
  next
    case (Inr x)
    obtain h archive incident where x: "x = (h, archive, incident)" by (cases x)
    have h: "dut_identity_sha256 dut = Inr h" and archive_i: "archive_name i = Inr archive"
      and read: "read_document (dk_active disk) (active_name h) True True = Inr incident"
      using Inr x by (auto simp: bindE_eq_Inr split: option.splits sum.splits)
    show thesis
    proof (cases incident)
      case None
      then have free: "\<not> locked disk h" using read by (simp add: read_document_None locked_def)
      show thesis
        using assms unchanged h archive_i free Inr [unfolded x None] unfolding acknowledge_def
        by (auto split: sum.splits option.splits if_splits)
    next
      case (Some inc)
      then have busy: "locked disk h" using read by (auto simp: read_document_Some locked_def)
      note run = assms [unfolded acknowledge_def Inr [unfolded x Some], simplified]
      show thesis
      proof (cases "get inc ''dut_identity_sha256'' = PStr h \<and> get inc ''incident_id'' = i \<and>
          (\<exists>s. supplied_acknowledgment repr i a = Inr s)")
        case False
        then have "disk' = disk \<and> (\<exists>e. r = Inl e)" using run by (auto split: if_splits sum.splits dest: sym)
        then show thesis using unchanged by auto
      next
        case True
        then obtain s where s: "supplied_acknowledgment repr i a = Inr s" by blast
        obtain p dir where p: "persist_acknowledgment repr env (dk_active disk) (active_name h) i inc s = (p, dir)" by fastforce
        show thesis
        proof (cases p)
          case (Inl e)
          then show thesis using run True s p persist_failed h busy by auto
        next
          case (Inr acknowledged)
          then show thesis using run True s p archive h archive_i busy read Some by auto
        qed
      qed
    qed
  qed
qed

lemma acknowledge_failure_keeps:
  assumes "acknowledge repr env disk dut i a = (Inl e, disk')" "locked disk h"
  shows "locked disk' h"
  using assms(1)
proof (cases rule: acknowledge_cases)
  case (persist_failed h' incident supplied e' dir)
  then show ?thesis using persist_lookup [OF persist_failed(4)] assms(2) by (cases "h = h'") (auto simp: locked_def)
next
  case (archive h' archive incident supplied acknowledged dir)
  then show ?thesis
    using persist_lookup [OF archive(8)] archive_active [OF archive(9)] assms(2) by (cases "h = h'") (auto simp: locked_def)
qed (use assms in simp)

lemma acknowledge_other:
  assumes "acknowledge repr env disk dut i a = (r, disk')" "dut_identity_sha256 dut = Inr h'" "h \<noteq> h'" "locked disk h"
  shows "locked disk' h"
  using assms(1)
proof (cases rule: acknowledge_cases)
  case (persist_failed h'' incident supplied e' dir)
  then show ?thesis using persist_lookup(1) [OF persist_failed(4)] assms by (auto simp: locked_def)
next
  case (archive h'' archive incident supplied acknowledged dir)
  then show ?thesis
    using persist_lookup(1) [OF archive(8)] archive_active [OF archive(9)] assms
    by (auto simp: locked_def map_of_dict_del split: sum.splits)
qed (use assms in simp)

section \<open>The contract of the lock\<close>

text \<open>
  What the client relies on: control is admitted only without a lock, a successful record locks, and
  only a successful acknowledgment for the same identity may unlock.
\<close>

locale lock_store =
  fixes is_locked :: "'s \<Rightarrow> 'd \<Rightarrow> bool"
    and admits :: "'s \<Rightarrow> 'd \<Rightarrow> bool"
    and records :: "'d \<Rightarrow> 's \<Rightarrow> 's \<Rightarrow> bool"
    and attempts :: "'s \<Rightarrow> 's \<Rightarrow> bool"
    and releases :: "'d \<Rightarrow> 's \<Rightarrow> 's \<Rightarrow> bool"
  assumes admits_unlocked: "admits s d \<Longrightarrow> \<not> is_locked s d"
    and records_locks: "records d s s' \<Longrightarrow> is_locked s' d"
    and attempts_keeps: "attempts s s' \<Longrightarrow> is_locked s d \<Longrightarrow> is_locked s' d"
    and releases_keeps: "releases d' s s' \<Longrightarrow> d \<noteq> d' \<Longrightarrow> is_locked s d \<Longrightarrow> is_locked s' d"
begin

definition unacknowledged :: "'d \<Rightarrow> 's \<Rightarrow> 's \<Rightarrow> bool" where
  "unacknowledged d s s' \<longleftrightarrow> attempts s s' \<or> (\<exists>d'. d' \<noteq> d \<and> releases d' s s')"

lemma lock_kept: "(unacknowledged d)\<^sup>*\<^sup>* s s' \<Longrightarrow> is_locked s d \<Longrightarrow> is_locked s' d"
  by (induction rule: rtranclp_induct) (metis unacknowledged_def attempts_keeps releases_keeps)+

lemma never_admitted: "records d s s1 \<Longrightarrow> (unacknowledged d)\<^sup>*\<^sup>* s1 s2 \<Longrightarrow> \<not> admits s2 d"
  using lock_kept records_locks admits_unlocked by blast

end

text \<open>The operations of the store as transitions of the disk.\<close>

definition store_admits :: "disk \<Rightarrow> string \<Rightarrow> bool" where
  "store_admits disk h \<longleftrightarrow> (\<exists>env dut. dut_identity_sha256 dut = Inr h \<and> assert_clear env disk dut = None)"

definition store_records :: "string \<Rightarrow> disk \<Rightarrow> disk \<Rightarrow> bool" where
  "store_records h disk disk' \<longleftrightarrow>
     (\<exists>repr env dut u r. dut_identity_sha256 dut = Inr h \<and> record_uncertain repr env disk dut u = (Inr r, disk'))"

definition store_releases :: "string \<Rightarrow> disk \<Rightarrow> disk \<Rightarrow> bool" where
  "store_releases h disk disk' \<longleftrightarrow>
     (\<exists>repr env dut i a d. dut_identity_sha256 dut = Inr h \<and> acknowledge repr env disk dut i a = (Inr d, disk'))"

text \<open>Every record, successful or not, in a benign environment, and every failed acknowledgment.\<close>

inductive store_attempts :: "disk \<Rightarrow> disk \<Rightarrow> bool" where
  recorded: "record_uncertain repr env disk dut u = (r, disk') \<Longrightarrow> benign env \<Longrightarrow> store_attempts disk disk'"
| failed: "acknowledge repr env disk dut i a = (Inl e, disk') \<Longrightarrow> store_attempts disk disk'"

inductive_cases store_attemptsE: "store_attempts disk disk'"

interpretation store: lock_store locked store_admits store_records store_attempts store_releases
proof
  show "store_admits disk h \<Longrightarrow> \<not> locked disk h" for disk h
    by (auto simp: store_admits_def assert_clear_None)
  show "store_records h disk disk' \<Longrightarrow> locked disk' h" for h disk disk'
    by (auto simp: store_records_def intro: record_locks)
  show "store_attempts disk disk' \<Longrightarrow> locked disk h \<Longrightarrow> locked disk' h" for disk disk' h
    by (erule store_attemptsE) (auto intro: record_keeps acknowledge_failure_keeps)
  show "store_releases h' disk disk' \<Longrightarrow> h \<noteq> h' \<Longrightarrow> locked disk h \<Longrightarrow> locked disk' h" for h' disk disk' h
    by (auto simp: store_releases_def intro: acknowledge_other)
qed

text \<open>One transition that is no successful acknowledgment for the identity.\<close>

inductive store_step :: "string \<Rightarrow> disk \<Rightarrow> disk \<Rightarrow> bool" for h where
  attempt: "store_attempts disk disk' \<Longrightarrow> store_step h disk disk'"
| release_other: "store_releases h' disk disk' \<Longrightarrow> h' \<noteq> h \<Longrightarrow> store_step h disk disk'"

lemma store_step_unacknowledged: "store_step h disk disk' \<Longrightarrow> store.unacknowledged h disk disk'"
  by (cases rule: store_step.cases) (auto simp: store.unacknowledged_def)

end
