(* ===== verification/IncidentRecords.thy ===== *)
theory IncidentRecords
  imports Incidents "HOL-Library.Multiset"
begin

text \<open>
  What is on disk: a record that was written is read back as the same document by any later process,
  an acknowledgment archives the evidence it was given, and an interrupted acknowledgment can be
  completed. Also the one way in which a lock can be lost.
\<close>

section \<open>Documents do not depend on the order of keys\<close>

lemma map_of_filter: "map_of kvs k = (case filter (\<lambda>kv. fst kv = k) kvs of [] \<Rightarrow> None | kv # _ \<Rightarrow> Some (snd kv))"
  by (induction kvs) auto

lemma map_of_sort_key: "map_of (sort_key fst kvs) k = map_of kvs k"
  by (simp only: map_of_filter [of "sort_key fst kvs"] map_of_filter [of kvs] sort_key_stable)

lemma map_of_map_values: "map_of (map (\<lambda>(k, v). (k, f v)) kvs) k = map_option f (map_of kvs k)"
  by (induction kvs) auto

definition sorted_dict :: "dict \<Rightarrow> dict" where
  "sorted_dict d = sort_key fst (map (\<lambda>(k, v). (k, sort_keys v)) d)"

lemma sort_keys_PDict [simp]: "sort_keys (PDict d) = PDict (sorted_dict d)"
  by (simp add: sorted_dict_def)

declare sort_keys.simps(2) [simp del]

lemma sorted_dict_lookup [simp]: "map_of (sorted_dict d) k = map_option sort_keys (map_of d k)"
  by (simp add: sorted_dict_def map_of_sort_key map_of_map_values)

lemma get_sorted_dict [simp]: "get (sorted_dict d) k = sort_keys (get d k)"
  by (simp add: get_def split: option.splits)

lemma keys_sorted_dict [simp]: "fst ` set (sorted_dict d) = fst ` set d"
proof -
  have "fst ` set (map (\<lambda>(k, v). (k, sort_keys v)) d) = fst ` set d" by (induction d) auto
  then show ?thesis by (simp add: sorted_dict_def)
qed

lemma sort_keys_tests [simp]:
  "is_dict (sort_keys v) = is_dict v" "is_list (sort_keys v) = is_list v" "is_str (sort_keys v) = is_str v"
  "is_int (sort_keys v) = is_int v" "is_bool (sort_keys v) = is_bool v" "hashable (sort_keys v) = hashable v"
  "as_str (sort_keys v) = as_str v" "as_int (sort_keys v) = as_int v" "as_list (sort_keys v) = map sort_keys (as_list v)"
  "eq_int (sort_keys v) n = eq_int v n"
  by (cases v; simp)+

lemma sort_keys_eq [simp]:
  "sort_keys v = PStr s \<longleftrightarrow> v = PStr s" "sort_keys v = PBool b \<longleftrightarrow> v = PBool b" "sort_keys v = PNone \<longleftrightarrow> v = PNone"
  "sort_keys v = PInt i \<longleftrightarrow> v = PInt i"
  by (cases v; simp)+

lemma as_dict_sort_keys: "is_dict v \<Longrightarrow> as_dict (sort_keys v) = sorted_dict (as_dict v)"
  by (cases v) simp_all

lemma same_keys_sorted [simp]: "same_keys (sorted_dict d) ks = same_keys d ks"
  by (simp add: same_keys_iff)

lemma checks_sorted [simp]:
  "check_member (sort_keys v) ss e = check_member v ss e" "bounded_text (sort_keys v) f n = bounded_text v f n"
  "sha_match (sort_keys v) = sha_match v" "incident_id_match (sort_keys v) = incident_id_match v"
  "timestamp_match (sort_keys v) = timestamp_match v"
  by (simp_all add: check_member_def bounded_text_def sha_match_def incident_id_match_def timestamp_match_def)

lemma point_checks_sorted:
  "point_checks seen ps = None \<Longrightarrow> point_checks seen (map sort_keys ps) = None"
proof (induction ps arbitrary: seen)
  case (Cons p ps)
  obtain d where p: "p = PDict d" using Cons.prems by (cases p) (auto simp: Let_def first_error.simps split: option.splits)
  show ?case
    using Cons unfolding p sort_keys_PDict list.map point_checks.simps Let_def as_dict.simps
    by (simp split: option.splits)
qed simp

lemma root_checks_sorted: "root_checks d = None \<Longrightarrow> root_checks (sorted_dict d) = None"
proof -
  have keys: "list_all (\<lambda>k. k \<in> K) (map fst (sorted_dict d)) = list_all (\<lambda>k. k \<in> K) (map fst d)" for K :: "string set"
    by (simp add: list_all_iff ball_simps(9) [symmetric] del: ball_simps)
  have missing: "missing_keys ks (sorted_dict d) = missing_keys ks d" for ks
    by (simp add: missing_keys_def)
  show "root_checks d = None \<Longrightarrow> root_checks (sorted_dict d) = None"
    unfolding root_checks_def keys missing by (simp only: check_simps get_sorted_dict checks_sorted sort_keys_tests sort_keys_eq) simp
qed

lemma validate_sorted:
  assumes "validate_incident (PDict d) = Inr d'"
  shows "validate_incident (PDict (sorted_dict d)) = Inr (sorted_dict d)"
proof -
  have checks: "root_checks d = None" "command_checks (get d ''command'') = None" "host_error_checks (get d ''host_error'') = None"
    "acknowledgment_checks (get d ''status'') (get d ''acknowledgment'') = None"
    using assms by (simp_all add: validate_incident_def Let_def)
  have "command_checks (sort_keys v) = None" if "command_checks v = None" for v
  proof -
    have d: "is_dict v" using that by (simp add: command_checks_def Let_def)
    show ?thesis
      using that point_checks_sorted unfolding command_checks_def Let_def as_dict_sort_keys [OF d]
      by simp
  qed
  moreover have "host_error_checks (sort_keys v) = None" if "host_error_checks v = None" for v
  proof -
    have d: "is_dict v" using that by (simp add: host_error_checks_def Let_def)
    show ?thesis using that unfolding host_error_checks_def Let_def as_dict_sort_keys [OF d] by simp
  qed
  moreover have "acknowledgment_checks (sort_keys s) (sort_keys v) = None" if "acknowledgment_checks s v = None" for s v
  proof (cases "s = PStr ''ACKNOWLEDGED''")
    case True
    then have d: "is_dict v" using that by (simp add: acknowledgment_checks_def Let_def)
    show ?thesis using that True unfolding acknowledgment_checks_def Let_def as_dict_sort_keys [OF d] by simp
  next
    case False
    then show ?thesis using that by (simp add: acknowledgment_checks_def Let_def)
  qed
  ultimately show ?thesis
    using checks root_checks_sorted [OF checks(1)] unfolding validate_incident_def Let_def as_dict.simps
    by simp
qed

section \<open>Reading back\<close>

lemma distinct_sorted: "distinct (map fst (sort_key fst kvs)) = distinct (map fst kvs)"
  by (metis mset_eq_imp_distinct_iff mset_map mset_sort)

lemma distinct_sorted_dict [simp]: "distinct (map fst (sorted_dict d)) = distinct (map fst d)"
proof -
  have "map fst (map (\<lambda>(k, v). (k, sort_keys v)) d) = map fst d" by (induction d) auto
  then show ?thesis by (simp only: sorted_dict_def distinct_sorted)
qed

lemma set_sorted_dict: "set (sorted_dict d) = (\<lambda>(k, v). (k, sort_keys v)) ` set d"
  by (simp add: sorted_dict_def)

lemma json_ok_sorted: "json_ok repr v \<Longrightarrow> json_ok repr (sort_keys v)"
proof (induction v)
  case (PDict kvs)
  then show ?case by (fastforce simp: set_sorted_dict)
qed simp_all

lemma texts_valid_sorted: "texts_valid repr v \<Longrightarrow> texts_valid repr (sort_keys v)"
proof (induction v)
  case (PDict kvs)
  then show ?case by (fastforce simp: set_sorted_dict)
qed simp_all

lemma parse_written:
  assumes "canonical_bytes repr (PDict d) = Inr text" "length text < MAX_INCIDENT_BYTES" "validate_incident (PDict d) = Inr d'"
    and "json_ok repr (PDict d)" "texts_valid repr (PDict d)"
  shows "parse_document (text @ [CHR 0x0A]) = Inr (sorted_dict d)"
proof -
  have enc: "text = json_text repr (sort_keys (PDict d))"
    using assms(1) by (auto simp: canonical_bytes_def json_dumps_def simp del: sort_keys_PDict json_text.simps split: sum.splits if_splits)
  have "json_loads (text @ [CHR 0x0A]) = Inr (sort_keys (PDict d))"
    unfolding enc by (rule json_read_back) (simp_all only: json_ok_sorted assms, simp add: is_json_ws_def)
  moreover have "utf8_valid (text @ [CHR 0x0A])"
    unfolding enc using json_text_valid(1) [OF texts_valid_sorted [OF assms(5)]]
    by (simp only: utf8_valid_append) (simp add: utf8_valid_ascii ascii_def)
  ultimately show ?thesis
    using assms(2) validate_sorted [OF assms(3)] by (simp add: parse_document_def)
qed

lemma new_incident_json_ok:
  assumes "validate_incident (PDict (new_incident env h u p)) = Inr d"
  shows "json_ok repr (PDict (new_incident env h u p))"
proof -
  have big: "\<bar>i\<bar> < 10 ^ MAX_INT_DIGITS" if "0 \<le> i" "i \<le> 65535" for i :: int
  proof -
    have "i < 10 ^ 5" using that by simp
    also have "\<dots> \<le> (10 :: int) ^ MAX_INT_DIGITS" by (rule power_increasing) (simp_all add: MAX_INT_DIGITS_def)
    finally show ?thesis using that by simp
  qed
  let ?pt = "\<lambda>q. PDict [(''type'', get q ''type''), (''index'', get q ''index'')]"
  have get_pt: "get [(''type'', x), (''index'', y)] ''type'' = x" "get [(''type'', x), (''index'', y)] ''index'' = y" for x y
    by (simp_all add: get_def)
  have points: "json_ok repr (?pt q)" if "point_checks seen (map ?pt qs) = None" "q \<in> set qs" for seen q qs
    using that
  proof (induction qs arbitrary: seen)
    case (Cons x xs)
    then show ?case
      using big by (auto simp: Let_def get_pt first_error.simps is_int_iff split: option.splits)
  qed simp
  let ?d = "new_incident env h u p"
  have get: "get ?d ''command'' = PDict [(''operation'', un_operation u), (''points'', PList (map ?pt (un_points u))), (''payload_sha256'', PStr p)]"
    "get ?d ''host_error'' = PDict [(''code'', un_error_code u), (''request_id'', un_request_id u),
         (''execution_uncertain'', un_execution_uncertain u), (''may_still_execute'', un_may_still_execute u)]"
    by (simp_all add: new_incident_def get_def)
  have "command_checks (get ?d ''command'') = None" "host_error_checks (get ?d ''host_error'') = None"
    using assms by (simp_all add: validate_incident_def Let_def)
  then have c: "\<exists>s. un_operation u = PStr s" "point_checks [] (map ?pt (un_points u)) = None"
    "is_str (un_error_code u)" "is_str (un_request_id u)" "is_bool (un_execution_uncertain u)" "is_bool (un_may_still_execute u)"
    unfolding get by (auto simp: command_checks_def host_error_checks_def bounded_text_def Let_def get_def)
  show ?thesis
    using c(1,3-6) points [OF c(2)] big [of 1] unfolding new_incident_def by (auto simp: is_str_iff is_bool_iff)
qed

lemma record_created:
  assumes "record_uncertain repr env disk dut u = (Inr (incident, True), disk')"
  obtains (created) h p s where "dut_identity_sha256 dut = Inr h" "incident = new_incident env h u p"
    "validate_incident (PDict incident) = Inr incident"
    "canonical_bytes repr (PDict incident) = Inr s" "length s < MAX_INCIDENT_BYTES"
    "map_of (dk_active disk') (active_name h) = Some (File (s @ [CHR 0x0A]))"
  using assms
proof (cases rule: record_uncertain_cases)
  case (create h p inc)
  then show thesis
    using created [of h p] write_exclusive_lookup(2) [of repr "en_create_active env" "dk_active (en_meanwhile env disk)" "active_name h" inc]
    by (auto simp: create_incident_def map_of_dict_set split: prod.splits write_result.splits sum.splits option.splits)
qed simp

lemma created_readable:
  assumes "record_uncertain repr env disk dut u = (Inr (incident, True), disk')" "texts_valid repr (PDict incident)"
    and "ensure_directories env' = None"
  shows "get_active env' disk' dut = Inr (Some (sorted_dict incident))"
  using assms(1)
proof (cases rule: record_created)
  case (created h p s)
  have "parse_document (s @ [CHR 0x0A]) = Inr (sorted_dict incident)"
    using created assms(2) new_incident_json_ok by (intro parse_written) auto
  moreover have "get (sorted_dict incident) ''dut_identity_sha256'' = PStr h"
    by (simp add: created(2) new_incident_def) (simp add: get_def)
  ultimately show ?thesis using created assms(3) by (auto simp: get_active_Some)
qed

text \<open>
  C13: the record survives. A record that was created is read back by every later process as the same
  document, with its keys in order, and control is refused with its identifier.
\<close>

theorem incident_readable:
  assumes "record_uncertain repr env disk dut u = (Inr (incident, True), disk')" "texts_valid repr (PDict incident)"
    and "ensure_directories env' = None"
  shows "get_active env' disk' dut = Inr (Some (sorted_dict incident)) \<and>
    (\<exists>message details. assert_clear env' disk' dut = Some (Unresolved message (PStr (''INC-'' @ en_uuid env)) details))"
  using assms(1)
proof (cases rule: record_created)
  case (created h p s)
  have uuid: "get (sorted_dict incident) ''incident_id'' = PStr (''INC-'' @ en_uuid env)"
    by (simp add: created(2) new_incident_def) (simp add: get_def)
  have "get_active env' disk' dut = Inr (Some (sorted_dict incident))" using assms by (rule created_readable)
  then show ?thesis using uuid by (simp add: assert_clear_def)
qed

section \<open>Acknowledgment\<close>

lemma number_norm_dict: "number_norm (PDict a) = number_norm (PDict b) \<Longrightarrow> map_option number_norm (map_of a k) = map_option number_norm (map_of b k)"
  by (simp only: number_norm.simps pyval.inject) (metis map_of_map_values)

lemma py_eq_lookup:
  assumes "py_eq (PDict a) (PDict b)"
  shows "py_eq (get a k) (get b k)"
proof -
  have "map_option number_norm (map_of (sorted_dict a) k) = map_option number_norm (map_of (sorted_dict b) k)"
    using assms by (intro number_norm_dict) (simp only: py_eq_def sort_keys_PDict)
  then show ?thesis by (auto simp: py_eq_def get_def split: option.splits)
qed

lemma py_eq_PStr: "py_eq v (PStr s) \<longleftrightarrow> v = PStr s"
  by (cases v) (simp_all add: py_eq_def)

lemma get_dict_del: "k \<noteq> k' \<Longrightarrow> get (dict_del k' d) k = get d k"
  by (simp add: get_def map_of_dict_del)

lemma get_dict_set: "get (dict_set k v d) k' = (if k' = k then v else get d k')"
  by (simp add: get_def map_of_dict_set)

lemma supplied_acknowledgment_get:
  assumes "supplied_acknowledgment repr i a = Inr supplied"
  obtains (supplied) s t where "rb_acknowledged_by a = PStr s" "get supplied ''acknowledged_by'' = PStr s"
    "canonical_bytes repr (rb_readback a) = Inr t" "get supplied ''readback_payload_sha256'' = PStr (sha256 t)"
    "get supplied ''evidence_reference'' = rb_evidence_reference a"
proof -
  have "is_str (rb_acknowledged_by a)" "\<exists>t. canonical_bytes repr (rb_readback a) = Inr t \<and> sha256_json repr (rb_readback a) = Inr (sha256 t)"
    using assms by (auto simp: supplied_acknowledgment_def bounded_text_def sha256_json_def bindE_def split: sum.splits if_splits option.splits)
  then obtain s t where "rb_acknowledged_by a = PStr s" "canonical_bytes repr (rb_readback a) = Inr t"
    "sha256_json repr (rb_readback a) = Inr (sha256 t)" by (auto simp: is_str_iff)
  moreover from this have "get supplied ''acknowledged_by'' = PStr s" "get supplied ''readback_payload_sha256'' = PStr (sha256 t)"
    "get supplied ''evidence_reference'' = rb_evidence_reference a"
    using assms by (auto simp: supplied_acknowledgment_def get_def split: option.splits if_splits)
  ultimately show thesis using supplied by blast
qed

lemma persist_get:
  assumes "persist_acknowledgment repr env dir name i incident supplied = (Inr d, dir')"
  shows "get d ''status'' = PStr ''ACKNOWLEDGED''" "get d ''incident_id'' = get incident ''incident_id''"
    and "k \<noteq> ''acknowledged_at_utc'' \<Longrightarrow> py_eq (get (as_dict (get d ''acknowledgment'')) k) (get supplied k)"
proof -
  have same: "validate_incident (PDict x) = Inr d' \<Longrightarrow> d' = x" for x d' by (simp add: validate_incident_def Let_def)
  consider (retry) "get incident ''status'' = PStr ''ACKNOWLEDGED''" "d = incident"
      "py_eq (PDict (dict_del ''acknowledged_at_utc'' (as_dict (get incident ''acknowledgment'')))) (PDict supplied)"
    | (fresh) "d = acknowledged_document env incident supplied"
    using assms same by (auto simp: persist_acknowledgment_def split: if_splits sum.splits prod.splits option.splits)
  note cases = this
  show "get d ''status'' = PStr ''ACKNOWLEDGED''" "get d ''incident_id'' = get incident ''incident_id''"
    using cases by (cases; simp add: acknowledged_document_def get_dict_set)+
  show "py_eq (get (as_dict (get d ''acknowledgment'')) k) (get supplied k)" if "k \<noteq> ''acknowledged_at_utc''"
    using cases
  proof cases
    case retry
    then show ?thesis using py_eq_lookup [OF retry(3), of k] get_dict_del [OF that] by simp
  next
    case fresh
    then show ?thesis using that by (simp add: acknowledged_document_def get_dict_set) (simp add: get_def py_eq_def)
  qed
qed

lemma archive_success:
  assumes "archive_and_unlink repr env disk active archive i doc = (Inr d, disk')"
  obtains (archived) s where "d = doc" "map_of (dk_archive disk') archive = Some (File s)"
    "(\<exists>t. canonical_bytes repr (PDict d) = Inr t \<and> s = t @ [CHR 0x0A]) \<or> (\<exists>d'. parse_document s = Inr d' \<and> py_eq (PDict d') (PDict d))"
proof -
  obtain r dir where w: "write_exclusive repr (en_create_archive env) (dk_archive disk) archive doc = (r, dir)" by fastforce
  show thesis
  proof (cases r)
    case Written
    then show thesis
      using archived assms write_exclusive_lookup(2) [OF w] w
      by (auto simp: archive_and_unlink_def Let_def map_of_dict_set split: if_splits)
  next
    case File_Exists
    then have "d = doc \<and> dk_archive disk' = dir \<and> (\<exists>d'. read_document dir archive False False = Inr (Some d') \<and> py_eq (PDict d') (PDict doc))"
      using assms w by (auto simp: archive_and_unlink_def Let_def raise_if_def split: if_splits sum.splits option.splits)
    then show thesis using archived by (auto simp: read_document_Some)
  qed (use assms w in \<open>simp add: archive_and_unlink_def Let_def\<close>)
qed

text \<open>
  C11: a lock is released only with evidence. An acknowledgment that succeeds on a locked DUT was given
  the identifier of the active incident; the DUT is unlocked afterwards, and the archive holds the
  record with status \<open>ACKNOWLEDGED\<close>, the person who acknowledged it, the reference to the evidence and the
  SHA-256 of the independent readback.
\<close>

theorem acknowledge_archives:
  assumes "acknowledge repr env disk dut i a = (Inr d, disk')" "dut_identity_sha256 dut = Inr h" "locked disk h"
  shows "\<not> locked disk' h \<and> get d ''status'' = PStr ''ACKNOWLEDGED'' \<and> get d ''incident_id'' = i \<and>
    (\<exists>active s. map_of (dk_active disk) (active_name h) = Some (File s) \<and> parse_document s = Inr active \<and> get active ''incident_id'' = i) \<and>
    (\<exists>t. canonical_bytes repr (rb_readback a) = Inr t \<and>
       get (as_dict (get d ''acknowledgment'')) ''readback_payload_sha256'' = PStr (sha256 t)) \<and>
    get (as_dict (get d ''acknowledgment'')) ''acknowledged_by'' = rb_acknowledged_by a \<and>
    py_eq (get (as_dict (get d ''acknowledgment'')) ''evidence_reference'') (rb_evidence_reference a) \<and>
    (\<exists>s. map_of (dk_archive disk') (as_str i @ ''.json'') = Some (File s) \<and>
       ((\<exists>t. canonical_bytes repr (PDict d) = Inr t \<and> s = t @ [CHR 0x0A]) \<or>
        (\<exists>d'. parse_document s = Inr d' \<and> py_eq (PDict d') (PDict d))))"
  using assms(1)
proof (cases rule: acknowledge_cases)
  case unchanged
  then show ?thesis using assms by auto
next
  case (archive h' archive incident supplied doc dir)
  have name: "archive = as_str i @ ''.json''" using archive(2) by (auto simp: archive_name_def split: if_splits)
  have h': "h' = h" using archive(1) assms(2) by simp
  have doc: "d = doc" using archive(9) by (auto elim: archive_success)
  have free: "\<not> locked disk' h"
    using archive_active [OF archive(9)] h' by (simp add: locked_def map_of_dict_del)
  have active: "\<exists>active s. map_of (dk_active disk) (active_name h) = Some (File s) \<and> parse_document s = Inr active \<and> get active ''incident_id'' = i"
    using archive(4,6) h' by (auto simp: read_document_Some)
  note ack = persist_get [OF archive(8), folded doc]
  obtain s t where s: "rb_acknowledged_by a = PStr s" "get supplied ''acknowledged_by'' = PStr s"
    "canonical_bytes repr (rb_readback a) = Inr t" "get supplied ''readback_payload_sha256'' = PStr (sha256 t)"
    "get supplied ''evidence_reference'' = rb_evidence_reference a"
    using archive(7) by (rule supplied_acknowledgment_get)
  have evidence: "\<exists>t. canonical_bytes repr (rb_readback a) = Inr t \<and>
       get (as_dict (get d ''acknowledgment'')) ''readback_payload_sha256'' = PStr (sha256 t)"
    "get (as_dict (get d ''acknowledgment'')) ''acknowledged_by'' = rb_acknowledged_by a"
    "py_eq (get (as_dict (get d ''acknowledgment'')) ''evidence_reference'') (rb_evidence_reference a)"
    using ack(3) [of "''readback_payload_sha256''"] ack(3) [of "''acknowledged_by''"] ack(3) [of "''evidence_reference''"] s
    by (simp_all add: py_eq_PStr)
  show ?thesis
    using archive_success [OF archive(9)] free ack(1,2) archive(6) active evidence unfolding name doc by metis
qed (use assms in simp)

text \<open>
  C40: a failed creation can delete another process's lock. When \<open>os.open\<close> fails for another reason than
  that the file exists (no free file descriptor, say), the handler unlinks the path: a lock that another
  process created after the check is removed, and control of the DUT is admitted again.
\<close>

theorem failed_open_removes_lock:
  assumes "dut_identity_sha256 dut = Inr h" "record_uncertain repr env disk dut u = (Inl e, disk')"
    and "en_create_active env = Open_Fails True" "get_active env disk dut = Inr None" "locked (en_meanwhile env disk) h"
    and "e = Persistence ''cannot persist safety-incident lock: ''"
  shows "\<not> locked disk' h \<and> assert_clear env disk' dut = None"
proof -
  have "\<not> locked disk' h"
    using assms(2)
  proof (cases rule: record_uncertain_cases)
    case (create h' p incident)
    then show ?thesis
      using assms by (auto simp: create_incident_def write_exclusive_def Let_def locked_def map_of_dict_del split: sum.splits if_splits)
  next
    case unchanged
    then show ?thesis using assms(1,4) by (auto simp: get_active_None)
  qed
  then show ?thesis using assms(1,4) by (auto simp: get_active_None assert_clear_None ensure_directories_None)
qed

section \<open>A run\<close>

text \<open>One record on an empty disk. The hashes stay symbolic.\<close>

definition sample_env :: op_env where
  "sample_env = quiet_env ''2024-05-01T12:00:00.5Z'' ''0123abcd-0123-0123-0123-0123456789ab''"

definition sample_uncertain :: uncertain where
  "sample_uncertain =
     \<lparr>un_operation = PStr ''direct_operate'', un_payload = PDict [(''value'', PInt 1)],
      un_points = [[(''type'', PStr ''crob''), (''index'', PInt 7)]], un_request_id = PStr ''py-1'', un_error_code = PStr ''RESPONSE_TIMEOUT'',
      un_execution_uncertain = PBool True, un_may_still_execute = PBool True\<rparr>"

definition sample_dut :: pyval where
  "sample_dut = PStr ''dut-1''"

definition sample_hash :: string where
  "sample_hash = sha256 (''dnp3-safety-dut-v1'' @ [CHR 0x00] @ ''dut-1'')"

definition sample_incident :: "string \<Rightarrow> dict" where
  "sample_incident p = new_incident sample_env sample_hash sample_uncertain p"

definition empty_disk :: disk where
  "empty_disk = \<lparr>dk_active = [], dk_archive = []\<rparr>"

lemma sample_identity: "dut_identity_sha256 sample_dut = Inr sample_hash"
  unfolding dut_identity_sha256_def sample_dut_def sample_hash_def by (simp add: is_printable_def)

lemma sample_matches:
  "incident_id_match (PStr (''INC-'' @ en_uuid sample_env))" "timestamp_match (PStr (en_now sample_env))"
  by code_simp+

lemma sha_match_sha256 [simp]: "sha_match (PStr (sha256 s))"
  by (simp add: sha_match_def sha256_hex)

lemma sample_get:
  "get (sample_incident p) ''schema_version'' = PInt 1" "get (sample_incident p) ''incident_id'' = PStr (''INC-'' @ en_uuid sample_env)"
  "get (sample_incident p) ''status'' = PStr ''OPEN''" "get (sample_incident p) ''created_at_utc'' = PStr (en_now sample_env)"
  "get (sample_incident p) ''updated_at_utc'' = PStr (en_now sample_env)" "get (sample_incident p) ''dut_identity_sha256'' = PStr sample_hash"
  "get (sample_incident p) ''required_action'' = PStr ''READBACK_THEN_EXPLICIT_ACKNOWLEDGMENT''"
  "get (sample_incident p) ''acknowledgment'' = PNone"
  "get (sample_incident p) ''command'' = PDict [(''operation'', PStr ''direct_operate''),
     (''points'', PList [PDict [(''type'', PStr ''crob''), (''index'', PInt 7)]]), (''payload_sha256'', PStr p)]"
  "get (sample_incident p) ''host_error'' = PDict [(''code'', PStr ''RESPONSE_TIMEOUT''), (''request_id'', PStr ''py-1''),
     (''execution_uncertain'', PBool True), (''may_still_execute'', PBool True)]"
  by (simp_all add: sample_incident_def new_incident_def sample_uncertain_def get_def)

lemma sample_checks:
  "command_checks (PDict [(''operation'', PStr ''direct_operate''),
     (''points'', PList [PDict [(''type'', PStr ''crob''), (''index'', PInt 7)]]), (''payload_sha256'', PStr (sha256 s))]) = None"
  "host_error_checks (PDict [(''code'', PStr ''RESPONSE_TIMEOUT''), (''request_id'', PStr ''py-1''),
     (''execution_uncertain'', PBool True), (''may_still_execute'', PBool True)]) = None"
proof -
  have points: "point_checks [] [PDict [(''type'', PStr ''crob''), (''index'', PInt 7)]] = None" by code_simp
  show "command_checks (PDict [(''operation'', PStr ''direct_operate''),
     (''points'', PList [PDict [(''type'', PStr ''crob''), (''index'', PInt 7)]]), (''payload_sha256'', PStr (sha256 s))]) = None"
    unfolding command_checks_def Let_def by (simp add: get_def same_keys_iff check_member_def points del: point_checks.simps)
qed code_simp

lemma sample_keys: "map fst (sample_incident p) = INCIDENT_FIELDS"
  by (simp add: sample_incident_def new_incident_def INCIDENT_FIELDS_def)

lemma sample_valid: "validate_incident (PDict (sample_incident (sha256 s))) = Inr (sample_incident (sha256 s))"
proof -
  have "map_of (sample_incident (sha256 s)) k \<noteq> None" if "k \<in> set INCIDENT_FIELDS" for k
    using that sample_keys [of "sha256 s"] by (metis map_of_eq_None_iff list.set_map)
  then have "missing_keys INCIDENT_FIELDS (sample_incident (sha256 s)) = []"
    by (simp add: missing_keys_def filter_empty_conv)
  then have "root_checks (sample_incident (sha256 s)) = None"
    using sample_matches unfolding root_checks_def sample_keys sample_get
    by (simp only: check_simps) (simp add: sample_get list_all_iff sample_hash_def check_member_def)
  then show ?thesis
    unfolding validate_incident_def Let_def as_dict.simps sample_get
    by (simp add: sample_checks acknowledgment_checks_def)
qed


lemma length_json_string: "length (json_string s) \<le> 6 * length s + 2"
proof -
  have "length (esc_char c) \<le> 6" for c by (simp add: esc_char_def Let_def)
  then have "length (concat (map esc_char s)) \<le> 6 * length s"
    by (induction s) (simp_all, metis add_le_mono mult_Suc_right)
  then show ?thesis by (simp add: json_string_def)
qed

lemma length_sha256: "length (sha256 s) = 64"
  using sha256_hex [of s] by (simp add: class_match_def)

text \<open>A bound on the size of the text that does not depend on the order of keys.\<close>

fun text_bound :: "(rat \<Rightarrow> string) \<Rightarrow> pyval \<Rightarrow> nat" where
  "text_bound repr (PStr s) = 6 * length s + 2"
| "text_bound repr (PList vs) = 2 + sum_list (map (\<lambda>v. text_bound repr v + 1) vs)"
| "text_bound repr (PDict kvs) = 2 + sum_list (map (\<lambda>(k, v). 6 * length k + text_bound repr v + 4) kvs)"
| "text_bound repr v = length (json_text repr v)"

lemma length_join: "length (join '','' ss) \<le> sum_list (map (\<lambda>s. length s + 1) ss)"
  by (induction ss) (auto simp: join_Cons)

lemma length_json_text:
  "length (json_text repr v) \<le> text_bound repr v"
  "sum_list (map (\<lambda>s. length s + 1) (json_texts repr vs)) \<le> sum_list (map (\<lambda>v. text_bound repr v + 1) vs)"
  "sum_list (map (\<lambda>s. length s + 1) (json_pairs repr kvs)) \<le> sum_list (map (\<lambda>(k, v). 6 * length k + text_bound repr v + 4) kvs)"
proof (induction repr v and repr vs and repr kvs rule: json_text_json_texts_json_pairs.induct)
  case (5 repr s)
  then show ?case using length_json_string [of s] by simp
next
  case (6 repr vs)
  then show ?case using length_join [of "json_texts repr vs"] by simp
next
  case (7 repr kvs)
  then show ?case using length_join [of "json_pairs repr kvs"] by simp
next
  case (11 repr k v kvs)
  then show ?case using length_json_string [of k] by simp
qed simp_all

lemma sum_list_sort_key: "sum_list (map f (sort_key g xs)) = (sum_list (map f xs) :: nat)"
  by (metis mset_map mset_sort sum_mset_sum_list)

lemma text_bound_sorted: "text_bound repr (sort_keys v) = text_bound repr v"
proof (induction v)
  case (PList vs)
  then have "map (\<lambda>v. text_bound repr (sort_keys v) + 1) vs = map (\<lambda>v. text_bound repr v + 1) vs" by simp
  then show ?case by (simp add: comp_def cong: map_cong del: map_eq_conv)
next
  case (PDict kvs)
  then have "map (\<lambda>(k, v). 6 * length k + text_bound repr (sort_keys v) + 4) kvs = map (\<lambda>(k, v). 6 * length k + text_bound repr v + 4) kvs"
    by fastforce
  then show ?case by (simp add: sorted_dict_def sum_list_sort_key comp_def case_prod_unfold cong: map_cong)
qed simp_all

lemma json_finite_sorted: "json_finite (sort_keys v) = json_finite v"
proof (induction v)
  case (PDict kvs)
  then show ?case by (fastforce simp: set_sorted_dict list_all_iff)
qed (simp_all add: list_all_iff)

lemma canonical_small:
  assumes "json_finite v"
  obtains (small) s where "canonical_bytes repr v = Inr s" "length s \<le> text_bound repr v"
  using assms length_json_text(1) [of repr "sort_keys v"]
  by (auto simp: canonical_bytes_def json_dumps_def text_bound_sorted json_finite_sorted)

lemma write_exclusive_works:
  assumes "json_finite (PDict d)" "text_bound repr (PDict d) < MAX_INCIDENT_BYTES" "map_of dir name = None"
  shows "\<exists>s. canonical_bytes repr (PDict d) = Inr s \<and> length s < MAX_INCIDENT_BYTES \<and>
    write_exclusive repr Write_Works dir name d = (Written, dict_set name (File (s @ [CHR 0x0A])) dir)"
proof -
  obtain s where "canonical_bytes repr (PDict d) = Inr s" "length s \<le> text_bound repr (PDict d)"
    using canonical_small [OF assms(1)] .
  then show ?thesis using assms by (simp add: write_exclusive_def Let_def)
qed

text \<open>
  Liveness of recording: on a DUT without a lock, when the directories exist and writing works, every
  description that passes validation is recorded and locks the DUT, whatever its payload.
\<close>

lemma record_works:
  assumes "ensure_directories env = None" "dut_identity_sha256 dut = Inr h" "\<not> locked disk h" "en_create_active env = Write_Works"
    "en_meanwhile env = (\<lambda>d. d)" "sha256_json repr (un_payload u) = Inr p"
    "validate_incident (PDict (new_incident env h u p)) = Inr (new_incident env h u p)"
    "json_finite (PDict (new_incident env h u p))" "text_bound repr (PDict (new_incident env h u p)) < MAX_INCIDENT_BYTES"
    "check_member (un_operation u) [''select_and_operate'', ''direct_operate''] (ValueError ''operation is not a supported control operation'') = None"
  shows "\<exists>s. record_uncertain repr env disk dut u = (Inr (new_incident env h u p, True),
      disk\<lparr>dk_active := dict_set (active_name h) (File s) (dk_active disk)\<rparr>)"
proof -
  have none: "get_active env disk dut = Inr None" using assms(1-3) by (simp add: get_active_None)
  have "record_uncertain repr env disk dut u = create_incident repr env disk dut h (new_incident env h u p)"
    unfolding record_uncertain_def none assms(10) by (simp add: assms(2,5,6,7))
  then show ?thesis
    using write_exclusive_works [OF assms(8,9), of "dk_active disk" "active_name h"] assms(3,4)
    by (auto simp: create_incident_def locked_def)
qed

lemma sample_bound: "text_bound repr (PDict (sample_incident (sha256 t))) < 10000"
proof -
  have digits: "length (str_int 1) = 1" "length (str_int 7) = 1" by code_simp+
  show ?thesis
    by (simp add: sample_incident_def new_incident_def sample_uncertain_def sample_env_def quiet_env_def sample_hash_def length_sha256
        digits) (simp add: get_def digits)
qed

lemma sample_finite: "json_finite (PDict (sample_incident p))"
  by (simp add: sample_incident_def new_incident_def sample_uncertain_def) (simp add: get_def)

lemma sample_recorded_with:
  assumes "json_finite (PDict d)"
  shows "\<exists>p s. record_uncertain repr sample_env empty_disk sample_dut (sample_uncertain\<lparr>un_payload := PDict d\<rparr>) =
     (Inr (sample_incident (sha256 p), True), \<lparr>dk_active = [(active_name sample_hash, File s)], dk_archive = []\<rparr>)"
proof -
  let ?u = "sample_uncertain\<lparr>un_payload := PDict d\<rparr>"
  obtain t where t: "canonical_bytes repr (PDict d) = Inr t" using canonical_small [OF assms] .
  have new: "new_incident sample_env sample_hash ?u p = sample_incident p" for p by (simp add: sample_incident_def new_incident_def)
  have bound: "text_bound repr (PDict (sample_incident (sha256 t))) < MAX_INCIDENT_BYTES"
    using sample_bound [of repr t] by (simp add: MAX_INCIDENT_BYTES_def)
  have fin: "json_finite (PDict (sample_incident (sha256 t)))" by (rule sample_finite)
  have "\<exists>s. record_uncertain repr sample_env empty_disk sample_dut ?u = (Inr (new_incident sample_env sample_hash ?u (sha256 t), True),
      empty_disk\<lparr>dk_active := dict_set (active_name sample_hash) (File s) (dk_active empty_disk)\<rparr>)"
    using bound fin sample_valid [of t] t
    by (intro record_works) (simp_all add: new ensure_directories_None sample_env_def [symmetric] sample_identity locked_def empty_disk_def
        sha256_json_def check_member_def, simp_all add: sample_env_def quiet_env_def sample_uncertain_def)
  then show ?thesis by (auto simp: empty_disk_def new)
qed

lemma sample_recorded:
  "\<exists>p s. record_uncertain repr sample_env empty_disk sample_dut sample_uncertain =
     (Inr (sample_incident (sha256 p), True), \<lparr>dk_active = [(active_name sample_hash, File s)], dk_archive = []\<rparr>)"
  using sample_recorded_with [of "[(''value'', PInt 1)]" repr] by (simp add: sample_uncertain_def)

lemma sample_texts: "texts_valid repr (PDict (sample_incident (sha256 p)))"
proof -
  have hex: "utf8_valid (sha256 t)" for t
  proof -
    have "list_all is_lower_hex (sha256 t)" using sha256_hex [of t] by (simp add: class_match_def)
    then have "ascii (sha256 t)" unfolding ascii_def by (rule list.pred_mono_strong) (auto simp: is_lower_hex_def code_in_def)
    then show ?thesis by (rule utf8_valid_ascii)
  qed
  have keys: "list_all utf8_valid (map fst (sample_incident q))" for q unfolding sample_keys by code_simp
  have parts: "texts_valid repr (PStr (en_now sample_env))" "texts_valid repr (PStr (''INC-'' @ en_uuid sample_env))"
    "texts_valid repr (PStr ''OPEN'')" "texts_valid repr (PStr ''READBACK_THEN_EXPLICIT_ACKNOWLEDGMENT'')"
    by code_simp+
  have nested: "texts_valid repr (PDict [(''operation'', PStr ''direct_operate''),
     (''points'', PList [PDict [(''type'', PStr ''crob''), (''index'', PInt 7)]]), (''payload_sha256'', PStr (sha256 p))])"
    "texts_valid repr (PDict [(''code'', PStr ''RESPONSE_TIMEOUT''), (''request_id'', PStr ''py-1''),
     (''execution_uncertain'', PBool True), (''may_still_execute'', PBool True)])"
    by (simp_all add: hex utf8_valid_ascii ascii_def)
  show ?thesis
    using keys [of "sha256 p"] parts nested hex [of "''dnp3-safety-dut-v1'' @ [CHR 0x00] @ ''dut-1''"]
    unfolding sample_incident_def new_incident_def sample_uncertain_def
    by (simp add: sample_hash_def get_def)
qed

theorem incident_readable_witness:
  "\<exists>p disk'. record_uncertain (\<lambda>_. []) sample_env empty_disk sample_dut sample_uncertain = (Inr (sample_incident (sha256 p), True), disk') \<and>
     get_active sample_env disk' sample_dut = Inr (Some (sorted_dict (sample_incident (sha256 p))))"
proof -
  have dirs: "ensure_directories sample_env = None" by code_simp
  obtain p s where "record_uncertain (\<lambda>_. []) sample_env empty_disk sample_dut sample_uncertain =
     (Inr (sample_incident (sha256 p), True), \<lparr>dk_active = [(active_name sample_hash, File s)], dk_archive = []\<rparr>)"
    using sample_recorded by blast
  then show ?thesis using incident_readable [OF _ sample_texts dirs] by blast
qed

text \<open>
  C5: an uncertain outcome locks the device until it is acknowledged. After a record for a DUT has
  returned, whatever other records, failed acknowledgments and acknowledgments of other DUTs follow,
  in whatever order, with whatever failures of the operating system, control of that DUT is not
  admitted.
\<close>

theorem lock_until_acknowledged:
  assumes "record_uncertain repr env disk dut u = (Inr r, disk1)" "(store_step h)\<^sup>*\<^sup>* disk1 disk2"
    and "dut_identity_sha256 dut = Inr h"
  shows "assert_clear env' disk2 dut \<noteq> None"
proof -
  have "(store.unacknowledged h)\<^sup>*\<^sup>* disk1 disk2"
    using assms(2) by (rule rtranclp_mono [THEN predicate2D, rotated]) (auto intro: store_step_unacknowledged)
  moreover have "store_records h disk disk1" unfolding store_records_def using assms(1,3) by blast
  ultimately have "\<not> store_admits disk2 h" by (rule store.never_admitted [rotated])
  then show ?thesis using assms(3) by (auto simp: store_admits_def)
qed

theorem lock_until_acknowledged_witness:
  "\<exists>r disk1. record_uncertain (\<lambda>_. []) sample_env empty_disk sample_dut sample_uncertain = (Inr r, disk1) \<and>
     assert_clear sample_env (snd (record_uncertain (\<lambda>_. []) sample_env disk1 sample_dut sample_uncertain)) sample_dut \<noteq> None"
proof -
  obtain p s where rec: "record_uncertain (\<lambda>_. []) sample_env empty_disk sample_dut sample_uncertain =
     (Inr (sample_incident (sha256 p), True), \<lparr>dk_active = [(active_name sample_hash, File s)], dk_archive = []\<rparr>)"
    using sample_recorded by blast
  let ?disk = "\<lparr>dk_active = [(active_name sample_hash, File s)], dk_archive = []\<rparr>"
  have "benign sample_env" by (simp add: benign_def keeps_locks_def sample_env_def quiet_env_def)
  then have "(store_step sample_hash)\<^sup>*\<^sup>* ?disk (snd (record_uncertain (\<lambda>_. []) sample_env ?disk sample_dut sample_uncertain))"
    by (intro r_into_rtranclp store_step.attempt) (rule store_attempts.recorded [OF surjective_pairing])
  then show ?thesis using rec lock_until_acknowledged [OF rec _ sample_identity] by blast
qed

section \<open>An acknowledgment\<close>

definition sample_readback :: readback_args where
  "sample_readback = \<lparr>rb_acknowledged_by = PStr ''operator'', rb_summary = PStr ''breaker open'',
     rb_readback = PDict [(''position'', PInt 2)], rb_evidence_reference = PStr ''log-17''\<rparr>"

lemma keys_dict_set: "fst ` set (dict_set k v d) = insert k (fst ` set d)"
  using dom_update [of k v d] by (simp add: dom_map_of_conv_image_fst)

lemma supplied_acknowledgment_valid:
  assumes "supplied_acknowledgment repr i a = Inr supplied" "timestamp_match (PStr now)"
  shows "acknowledgment_checks (PStr ''ACKNOWLEDGED'') (PDict ((''acknowledged_at_utc'', PStr now) # supplied)) = None"
proof -
  obtain t where s: "supplied = [(''acknowledged_by'', rb_acknowledged_by a), (''readback_summary'', rb_summary a),
      (''readback_payload_sha256'', PStr (sha256 t)), (''evidence_reference'', rb_evidence_reference a)]"
    and c: "bounded_text (rb_acknowledged_by a) ''acknowledged_by'' 128 = None" "bounded_text (rb_summary a) ''readback_summary'' 4096 = None"
      "bounded_text (rb_evidence_reference a) ''evidence_reference'' 4096 = None"
    using assms(1) by (auto simp: supplied_acknowledgment_def sha256_json_def bindE_def split: sum.splits if_splits option.splits)
  have keys: "same_keys ((''acknowledged_at_utc'', PStr now) # supplied) ACKNOWLEDGMENT_FIELDS"
    unfolding s by (simp add: same_keys_def ACKNOWLEDGMENT_FIELDS_def)
  have gets: "get ((''acknowledged_at_utc'', PStr now) # supplied) ''acknowledged_at_utc'' = PStr now"
    "get ((''acknowledged_at_utc'', PStr now) # supplied) ''acknowledged_by'' = rb_acknowledged_by a"
    "get ((''acknowledged_at_utc'', PStr now) # supplied) ''readback_summary'' = rb_summary a"
    "get ((''acknowledged_at_utc'', PStr now) # supplied) ''evidence_reference'' = rb_evidence_reference a"
    "get ((''acknowledged_at_utc'', PStr now) # supplied) ''readback_payload_sha256'' = PStr (sha256 t)"
    unfolding s by (simp_all add: get_def)
  show ?thesis
    unfolding acknowledgment_checks_def Let_def as_dict.simps gets
    using c keys assms(2) by simp
qed

lemma acknowledged_valid:
  assumes "validate_incident (PDict d) = Inr d'" "supplied_acknowledgment repr i a = Inr supplied" "timestamp_match (PStr (en_now env))"
  shows "validate_incident (PDict (acknowledged_document env d supplied)) = Inr (acknowledged_document env d supplied)"
proof -
  let ?d = "acknowledged_document env d supplied"
  have checks: "root_checks d = None" "command_checks (get d ''command'') = None" "host_error_checks (get d ''host_error'') = None"
    using assms(1) by (simp_all add: validate_incident_def Let_def)
  have get: "get ?d k = (if k = ''acknowledgment'' then PDict ((''acknowledged_at_utc'', PStr (en_now env)) # supplied)
      else if k = ''updated_at_utc'' then PStr (en_now env) else if k = ''status'' then PStr ''ACKNOWLEDGED'' else get d k)" for k
    by (simp add: acknowledged_document_def get_dict_set)
  have lookup: "map_of d k \<noteq> None \<Longrightarrow> map_of ?d k \<noteq> None" for k
    by (simp add: acknowledged_document_def map_of_dict_set)
  have keys: "fst ` set ?d = {''acknowledgment'', ''updated_at_utc'', ''status''} \<union> fst ` set d"
    by (auto simp: acknowledged_document_def keys_dict_set)
  have fields: "list_all (\<lambda>k. k \<in> set (''acknowledgment'' # INCIDENT_FIELDS)) (map fst ?d)" "missing_keys INCIDENT_FIELDS ?d = []"
  proof -
    have old: "list_all (\<lambda>k. k \<in> set (''acknowledgment'' # INCIDENT_FIELDS)) (map fst d)" "missing_keys INCIDENT_FIELDS d = []"
      using checks(1) unfolding root_checks_def by (simp_all only: check_simps) simp_all
    have "fst ` set d \<subseteq> set (''acknowledgment'' # INCIDENT_FIELDS)" using old(1) by (auto simp: list_all_iff)
    then have "fst ` set ?d \<subseteq> set (''acknowledgment'' # INCIDENT_FIELDS)" unfolding keys by (simp add: INCIDENT_FIELDS_def)
    then show "list_all (\<lambda>k. k \<in> set (''acknowledgment'' # INCIDENT_FIELDS)) (map fst ?d)" by (auto simp: list_all_iff)
    show "missing_keys INCIDENT_FIELDS ?d = []" using old(2) lookup by simp
  qed
  have "root_checks ?d = None"
    using checks(1) fields assms(3) unfolding root_checks_def
    by (simp only: check_simps get) simp
  then show ?thesis
    using checks(2,3) supplied_acknowledgment_valid [OF assms(2,3)] unfolding validate_incident_def Let_def as_dict.simps
    by (simp add: get)
qed

lemma sum_list_dict_set:
  "sum_list (map f (dict_set k v d)) \<le> sum_list (map f d) + (f (k, v) :: nat)"
  by (induction d) auto

lemma text_bound_acknowledged:
  "text_bound repr (PDict (acknowledged_document env d supplied)) \<le>
     text_bound repr (PDict d) + text_bound repr (PDict supplied) + 12 * length (en_now env) + 1000"
proof -
  let ?f = "\<lambda>(k, v). 6 * length k + text_bound repr v + 4"
  have "sum_list (map ?f (acknowledged_document env d supplied)) \<le> sum_list (map ?f d) + ?f (''status'', PStr ''ACKNOWLEDGED'')
      + ?f (''updated_at_utc'', PStr (en_now env)) + ?f (''acknowledgment'', PDict ((''acknowledged_at_utc'', PStr (en_now env)) # supplied))"
    unfolding acknowledged_document_def by (meson add_le_mono1 le_trans sum_list_dict_set)
  then show ?thesis by simp
qed

lemma acknowledge_succeeds:
  assumes "get_active env disk dut = Inr (Some incident)" "get incident ''status'' = PStr ''OPEN''" "get incident ''incident_id'' = i"
    and "supplied_acknowledgment repr i a = Inr supplied" "timestamp_match (PStr (en_now env))"
    and "en_create_temporary env = Write_Works" "\<not> en_replace_fails env" "en_create_archive env = Write_Works" "\<not> en_unlink_fails env"
    and "map_of (dk_archive disk) (as_str i @ ''.json'') = None" "json_finite (PDict incident)" "json_finite (PDict supplied)"
    and "text_bound repr (PDict incident) + text_bound repr (PDict supplied) + 12 * length (en_now env) + 1000 < MAX_INCIDENT_BYTES"
  shows "\<exists>disk'. acknowledge repr env disk dut i a = (Inr (acknowledged_document env incident supplied), disk') \<and>
    assert_clear env disk' dut = None"
proof -
  let ?d = "acknowledged_document env incident supplied"
  obtain h s where dirs: "ensure_directories env = None" and h: "dut_identity_sha256 dut = Inr h"
    and stored: "map_of (dk_active disk) (active_name h) = Some (File s)" "parse_document s = Inr incident" "get incident ''dut_identity_sha256'' = PStr h"
    using assms(1) by (auto simp: get_active_Some)
  obtain v where v: "validate_incident v = Inr incident"
    using stored(2) by (auto simp: parse_document_def split: if_splits sum.splits)
  then have valid: "validate_incident (PDict incident) = Inr incident"
    by (cases v) (simp_all add: validate_incident_def Let_def)
  have id: "incident_id_match i"
    using valid assms(3) by (simp add: validate_incident_def Let_def root_checks_def)
  have "json_finite x \<Longrightarrow> json_finite (PDict d) \<Longrightarrow> json_finite (PDict (dict_set k x d))" for k x d
    by (induction d) auto
  then have fin: "json_finite (PDict ?d)"
    using assms(11,12) by (simp add: acknowledged_document_def)
  have bound: "text_bound repr (PDict ?d) < MAX_INCIDENT_BYTES"
    using text_bound_acknowledged [of repr env incident supplied] assms(13) by linarith
  have persist: "\<exists>t. persist_acknowledgment repr env (dk_active disk) (active_name h) i incident supplied =
      (Inr ?d, dict_set (active_name h) (File t) (dk_active disk))"
    using acknowledged_valid [OF valid assms(4,5)] write_exclusive_works [OF fin bound, of "[]" "''.'' @ active_name h @ ''.'' @ en_uuid env @ ''.tmp''"] assms(2,6,7)
    by (auto simp: persist_acknowledgment_def replace_document_def)
  then obtain dir where p: "persist_acknowledgment repr env (dk_active disk) (active_name h) i incident supplied = (Inr ?d, dir)" by blast
  have "\<exists>disk'. archive_and_unlink repr env (disk\<lparr>dk_active := dir\<rparr>) (active_name h) (as_str i @ ''.json'') i ?d = (Inr ?d, disk')"
    using write_exclusive_works [OF fin bound assms(10)] assms(8,9) by (auto simp: archive_and_unlink_def Let_def)
  then obtain disk' where archived: "archive_and_unlink repr env (disk\<lparr>dk_active := dir\<rparr>) (active_name h) (as_str i @ ''.json'') i ?d = (Inr ?d, disk')"
    by blast
  have "acknowledge repr env disk dut i a = (Inr ?d, disk')"
    unfolding acknowledge_def dirs h using stored assms(3,4) id p archived
    by (simp add: archive_name_def read_document_def Let_def)
  moreover have "\<not> locked disk' h" using archive_active [OF archived] by (simp add: locked_def map_of_dict_del)
  ultimately show ?thesis using dirs h by (auto simp: assert_clear_None ensure_directories_None)
qed


text \<open>
  C12: an acknowledgment with proper evidence succeeds. For an open incident, when the directories are
  there, no system call fails and the archive has no file of that name, the call with the right
  identifier and well-formed data returns the acknowledged record and releases the lock.
\<close>

theorem acknowledge_completes:
  assumes "get_active env disk dut = Inr (Some incident)" "get incident ''status'' = PStr ''OPEN''" "get incident ''incident_id'' = i"
    and "supplied_acknowledgment repr i a = Inr supplied" "timestamp_match (PStr (en_now env))"
    and "en_create_temporary env = Write_Works" "\<not> en_replace_fails env" "en_create_archive env = Write_Works" "\<not> en_unlink_fails env"
    and "map_of (dk_archive disk) (as_str i @ ''.json'') = None" "json_finite (PDict incident)" "json_finite (PDict supplied)"
    and "text_bound repr (PDict incident) + text_bound repr (PDict supplied) + 12 * length (en_now env) + 1000 < MAX_INCIDENT_BYTES"
  shows "\<exists>disk'. acknowledge repr env disk dut i a = (Inr (acknowledged_document env incident supplied), disk') \<and>
    assert_clear env disk' dut = None"
  using assms by (rule acknowledge_succeeds)

lemma sample_active:
  "\<exists>p s. get_active sample_env \<lparr>dk_active = [(active_name sample_hash, File s)], dk_archive = []\<rparr> sample_dut =
     Inr (Some (sorted_dict (sample_incident (sha256 p))))"
proof -
  obtain p s where rec: "record_uncertain (\<lambda>_. []) sample_env empty_disk sample_dut sample_uncertain =
     (Inr (sample_incident (sha256 p), True), \<lparr>dk_active = [(active_name sample_hash, File s)], dk_archive = []\<rparr>)"
    using sample_recorded by blast
  have "ensure_directories sample_env = None" by code_simp
  then show ?thesis using created_readable [OF rec sample_texts] by blast
qed

lemma sample_supplied:
  "\<exists>supplied. supplied_acknowledgment (\<lambda>_. []) i sample_readback = Inr supplied \<and> json_finite (PDict supplied) \<and>
     text_bound (\<lambda>_. []) (PDict supplied) < 10000"
proof -
  obtain t where t: "canonical_bytes (\<lambda>_. []) (rb_readback sample_readback) = Inr t"
    by (rule canonical_small [of "rb_readback sample_readback"]) (simp_all add: sample_readback_def)
  have "bounded_text (rb_acknowledged_by sample_readback) ''acknowledged_by'' 128 = None"
    "bounded_text (rb_summary sample_readback) ''readback_summary'' 4096 = None"
    "bounded_text (rb_evidence_reference sample_readback) ''evidence_reference'' 4096 = None" by code_simp+
  then have "supplied_acknowledgment (\<lambda>_. []) i sample_readback = Inr
      [(''acknowledged_by'', PStr ''operator''), (''readback_summary'', PStr ''breaker open''),
       (''readback_payload_sha256'', PStr (sha256 t)), (''evidence_reference'', PStr ''log-17'')]"
    using t unfolding supplied_acknowledgment_def sha256_json_def sample_readback_def by (simp add: first_error.simps)
  then show ?thesis by (simp add: length_sha256)
qed

text \<open>The sample satisfies what a successful acknowledgment needs.\<close>

lemma sample_premises:
  "\<exists>disk p supplied. (let incident = sorted_dict (sample_incident (sha256 p)); i = PStr (''INC-'' @ en_uuid sample_env) in
     get_active sample_env disk sample_dut = Inr (Some incident) \<and> get incident ''status'' = PStr ''OPEN'' \<and> get incident ''incident_id'' = i \<and>
     supplied_acknowledgment (\<lambda>_. []) i sample_readback = Inr supplied \<and> map_of (dk_archive disk) (as_str i @ ''.json'') = None \<and>
     json_finite (PDict incident) \<and> json_finite (PDict supplied) \<and>
     text_bound (\<lambda>_. []) (PDict incident) + text_bound (\<lambda>_. []) (PDict supplied) + 12 * length (en_now sample_env) + 1000 < MAX_INCIDENT_BYTES)"
proof -
  obtain p s where get: "get_active sample_env \<lparr>dk_active = [(active_name sample_hash, File s)], dk_archive = []\<rparr> sample_dut =
     Inr (Some (sorted_dict (sample_incident (sha256 p))))" using sample_active by blast
  obtain supplied where supplied: "supplied_acknowledgment (\<lambda>_. []) (PStr (''INC-'' @ en_uuid sample_env)) sample_readback = Inr supplied"
    "json_finite (PDict supplied)" "text_bound (\<lambda>_. []) (PDict supplied) < 10000" using sample_supplied by blast
  have bound: "text_bound (\<lambda>_. []) (PDict (sorted_dict (sample_incident (sha256 p)))) < 10000"
    unfolding sort_keys_PDict [symmetric] text_bound_sorted by (rule sample_bound)
  have "length (en_now sample_env) < 100" by code_simp
  then show ?thesis
    using get supplied bound sample_get [of "sha256 p"] sample_finite [of "sha256 p"] unfolding Let_def
    by (intro exI [of _ "\<lparr>dk_active = [(active_name sample_hash, File s)], dk_archive = []\<rparr>"] exI [of _ p] exI [of _ supplied] conjI)
      (simp_all add: MAX_INCIDENT_BYTES_def json_finite_sorted flip: sort_keys_PDict)
qed

lemma sample_environment:
  "timestamp_match (PStr (en_now sample_env))" "en_create_temporary sample_env = Write_Works" "\<not> en_replace_fails sample_env"
  "en_create_archive sample_env = Write_Works" "\<not> en_unlink_fails sample_env"
  by (rule sample_matches) (simp_all add: sample_env_def quiet_env_def)

theorem acknowledge_completes_witness:
  "\<exists>disk incident supplied disk'. get_active sample_env disk sample_dut = Inr (Some incident) \<and>
     acknowledge (\<lambda>_. []) sample_env disk sample_dut (PStr (''INC-'' @ en_uuid sample_env)) sample_readback =
       (Inr (acknowledged_document sample_env incident supplied), disk') \<and> assert_clear sample_env disk' sample_dut = None"
  using sample_premises acknowledge_completes [OF _ _ _ _ sample_environment] unfolding Let_def by metis

theorem acknowledge_archives_witness:
  "\<exists>disk d disk'. locked disk sample_hash \<and>
     acknowledge (\<lambda>_. []) sample_env disk sample_dut (PStr (''INC-'' @ en_uuid sample_env)) sample_readback = (Inr d, disk') \<and>
     \<not> locked disk' sample_hash \<and> get (as_dict (get d ''acknowledgment'')) ''acknowledged_by'' = PStr ''operator''"
proof -
  obtain disk incident supplied disk' where run: "get_active sample_env disk sample_dut = Inr (Some incident)"
    "acknowledge (\<lambda>_. []) sample_env disk sample_dut (PStr (''INC-'' @ en_uuid sample_env)) sample_readback =
       (Inr (acknowledged_document sample_env incident supplied), disk')"
    using sample_premises acknowledge_succeeds [OF _ _ _ _ sample_environment] unfolding Let_def by metis
  have busy: "locked disk sample_hash" using run(1) by (auto simp: get_active_Some locked_def sample_identity)
  show ?thesis
    using acknowledge_archives [OF run(2) sample_identity busy] run(2) busy by (auto simp: sample_readback_def)
qed

text \<open>Another process creates the lock between the check and a failing creation.\<close>

definition racing_env :: op_env where
  "racing_env = sample_env\<lparr>en_create_active := Open_Fails True, en_meanwhile := (\<lambda>d. snd (record_uncertain (\<lambda>_. []) sample_env d sample_dut sample_uncertain))\<rparr>"

theorem failed_open_removes_lock_witness:
  "\<exists>disk'. locked (en_meanwhile racing_env empty_disk) sample_hash \<and>
     record_uncertain (\<lambda>_. []) racing_env empty_disk sample_dut sample_uncertain = (Inl (Persistence ''cannot persist safety-incident lock: ''), disk') \<and>
     assert_clear racing_env disk' sample_dut = None"
proof -
  obtain q s where rec: "record_uncertain (\<lambda>_. []) sample_env empty_disk sample_dut sample_uncertain =
     (Inr (sample_incident (sha256 q), True), \<lparr>dk_active = [(active_name sample_hash, File s)], dk_archive = []\<rparr>)"
    using sample_recorded by blast
  then have locked: "locked (en_meanwhile racing_env empty_disk) sample_hash" by (simp add: racing_env_def locked_def)
  have open_fails: "en_create_active racing_env = Open_Fails True" by (simp add: racing_env_def)
  have free: "get_active racing_env empty_disk sample_dut = Inr None"
    by (simp add: get_active_None ensure_directories_None racing_env_def sample_env_def quiet_env_def sample_identity locked_def empty_disk_def)
  obtain t where t: "canonical_bytes (\<lambda>_. []) (un_payload sample_uncertain) = Inr t"
    by (rule canonical_small [of "un_payload sample_uncertain"]) (simp_all add: sample_uncertain_def)
  have new: "new_incident racing_env sample_hash sample_uncertain p = sample_incident p" for p
    by (simp add: new_incident_def sample_incident_def racing_env_def)
  obtain w where small: "canonical_bytes (\<lambda>_. []) (PDict (sample_incident (sha256 t))) = Inr w"
      "length w \<le> text_bound (\<lambda>_. []) (PDict (sample_incident (sha256 t)))"
    using canonical_small [OF sample_finite] .
  have w: "canonical_bytes (\<lambda>_. []) (PDict (sample_incident (sha256 t))) = Inr w" "length w < 10000"
    by (rule small) (rule le_less_trans [OF small(2) sample_bound])
  have member: "check_member (un_operation sample_uncertain) [''select_and_operate'', ''direct_operate''] e = None" for e :: pyexc
    by (simp add: sample_uncertain_def check_member_def)
  have "record_uncertain (\<lambda>_. []) racing_env empty_disk sample_dut sample_uncertain =
      create_incident (\<lambda>_. []) racing_env (en_meanwhile racing_env empty_disk) sample_dut sample_hash (sample_incident (sha256 t))"
    unfolding record_uncertain_def free member sample_identity sha256_json_def t by (simp add: new sample_valid)
  then have "\<exists>disk'. record_uncertain (\<lambda>_. []) racing_env empty_disk sample_dut sample_uncertain =
      (Inl (Persistence ''cannot persist safety-incident lock: ''), disk')"
    using w open_fails by (simp add: create_incident_def write_exclusive_def Let_def MAX_INCIDENT_BYTES_def)
  then show ?thesis using failed_open_removes_lock [OF sample_identity _ _ free locked refl] locked open_fails by blast
qed

end
