(* ===== verification/ClientCore.thy ===== *)
theory ClientCore
  imports HostPipe HostConfig TraceDecoder IncidentRecords
begin

text \<open>
  The core of \<open>Dnp3MasterClient\<close>, \<open>python/src/dnp3_master/client.py\<close>: its state, the single-request exchange
  with the native host, validation of response envelopes and of the greeting, and the life cycle
  (\<open>start\<close>, \<open>close\<close>). The request lock makes every operation one step.

  Everything the outside decides during one exchange is its environment: whether the process
  is alive, and how waiting for the response ends. Left out are the numbers of processes and threads, the
  diagnostics attached to an error (a snapshot of the tails and the cleanup error), and in messages the
  \<open>repr\<close> of a value. Responses nest at most 64 levels, so copying one never exceeds the recursion limit.
\<close>

section \<open>Errors\<close>

datatype host_kind = Host_Start | Host_Timeout | Host_Exited | Host_Protocol

text \<open>
  The hierarchy of \<open>errors.py\<close>. An error of the host process and an interrupt carry the identifier of an
  incident and details once these are attached; \<open>Lock_Unverified\<close> is the \<open>SafetyIncidentPersistenceError\<close>
  that the client itself raises.
\<close>

datatype client_exc =
    Client_Python pyexc
  | Client_State string
  | Host_Error host_kind string "string option" dict
  | Host_Command string string string dict
  | Incident_Configuration string
  | Store_Error store_exc
  | Lock_Unverified "client_exc option" dict
  | Interrupt string "string option" dict
  | Trace_Incomplete trace_batch

fun pyexc_text :: "pyexc \<Rightarrow> string" where
  "pyexc_text (ValueError m) = m"
| "pyexc_text (TypeError m) = m"
| "pyexc_text (KeyError m) = quoted m"
| "pyexc_text (OverflowError m) = m"
| "pyexc_text (AssertionError m) = m"

text \<open>\<open>str(error)\<close> of what an exchange can raise.\<close>

fun exc_text :: "client_exc \<Rightarrow> string" where
  "exc_text (Client_Python e) = pyexc_text e"
| "exc_text (Client_State m) = m"
| "exc_text (Host_Error k m i d) = m"
| "exc_text (Host_Command rid code message d) = ''host command failed with '' @ code @ '': '' @ message"
| "exc_text _ = []"

section \<open>State\<close>

datatype client_state = NEW | STARTING | RUNNING | CLOSING | BROKEN | CLOSED

text \<open>The field \<open>cl_requests\<close> is what the client does to the outside: the request lines handed to the writer thread.\<close>

record client =
  cl_config :: host_config
  cl_state :: client_state
  cl_process :: bool
  cl_job :: bool
  cl_stdout_tail :: tail_buffer
  cl_write_started :: bool
  cl_requests :: "string list"
  cl_hello :: "dict option"
  cl_token :: "string option"
  cl_dut :: "string option"
  cl_simulator :: bool
  cl_trace :: "trace_summary option"
  cl_decoder :: decoder
  cl_prefix :: string
  cl_counter :: nat
  cl_cleanup_error :: "string option"

definition new_client :: "host_config \<Rightarrow> string \<Rightarrow> client" where
  "new_client config prefix =
     \<lparr>cl_config = config, cl_state = NEW, cl_process = False, cl_job = False,
      cl_stdout_tail = tail_new (nat (as_int (ha_diagnostic_tail_bytes config))), cl_write_started = False, cl_requests = [], cl_hello = None,
      cl_token = None, cl_dut = None, cl_simulator = False, cl_trace = None, cl_decoder = reset, cl_prefix = prefix,
      cl_counter = 0, cl_cleanup_error = None\<rparr>"

text \<open>Operations that may raise, on the state of the client.\<close>

type_synonym 'a result = "(client_exc + 'a) \<times> client"

definition andthen :: "'a result \<Rightarrow> ('a \<Rightarrow> client \<Rightarrow> 'b result) \<Rightarrow> 'b result" where
  "andthen r f = (case r of (Inl e, c) \<Rightarrow> (Inl e, c) | (Inr v, c) \<Rightarrow> f v c)"

lemma andthen_simps [simp]: "andthen (Inl e, c) f = (Inl e, c)" "andthen (Inr v, c) f = f v c"
  by (simp_all add: andthen_def)

definition lift_python :: "pyexc + 'a \<Rightarrow> client \<Rightarrow> 'a result" where
  "lift_python r c = (case r of Inl e \<Rightarrow> (Inl (Client_Python e), c) | Inr v \<Rightarrow> (Inr v, c))"

text \<open>
  \<open>_abort_process\<close>: the first reason is kept, the token is forgotten, the job and the process are
  released and the client is unusable.
\<close>

definition abort_process :: "client \<Rightarrow> string \<Rightarrow> client" where
  "abort_process c reason =
     c\<lparr>cl_cleanup_error := (case cl_cleanup_error c of Some m \<Rightarrow> Some (if m = [] then reason else m) | None \<Rightarrow> Some reason),
       cl_token := None, cl_job := False, cl_state := BROKEN, cl_process := False\<rparr>"

definition fail_host :: "client \<Rightarrow> host_kind \<Rightarrow> string \<Rightarrow> 'a result" where
  "fail_host c kind reason = (Inl (Host_Error kind reason None []), abort_process c reason)"

definition next_request_id :: "client \<Rightarrow> string \<times> client" where
  "next_request_id c = (let n = cl_counter c + 1 in (cl_prefix c @ ''-'' @ dec n, c\<lparr>cl_counter := n\<rparr>))"

definition raise_exited :: "client \<Rightarrow> string \<Rightarrow> 'a result" where
  "raise_exited c command = fail_host c Host_Exited (''host exited before responding to '' @ quoted command)"

section \<open>Responses\<close>

definition RESPONSE_FIELDS :: "string \<Rightarrow> string list" where
  "RESPONSE_FIELDS field = [''schema_version'', ''id'', ''ok'', field]"

text \<open>The body of an error response.\<close>

definition error_body :: "dict \<Rightarrow> string \<Rightarrow> string + (client_exc + pyval)" where
  "error_body response expected_id =
     (let host_error = as_dict (get response ''error''); code = get host_error ''code'';
          message = get host_error ''message''; details = get host_error ''details'' in
      case first_error
        [raise_if (\<not> is_dict (get response ''error'') \<or> \<not> same_keys host_error [''code'', ''message'', ''details''])
           ''error response body is invalid'',
         raise_if (\<not> is_str code \<or> as_str code = []) ''error code must be a non-empty string'',
         raise_if (\<not> is_str message \<or> \<not> is_dict details) ''error message/details types are invalid''] of
        Some m \<Rightarrow> Inl m
      | None \<Rightarrow> Inr (Inl (Host_Command expected_id (as_str code) (as_str message) (as_dict details))))"

text \<open>The envelope: a violation of the protocol, or the result, or the error the host reports.\<close>

definition response_envelope :: "pyval \<Rightarrow> string \<Rightarrow> string + (client_exc + pyval)" where
  "response_envelope v expected_id =
     (let response = as_dict v in
      case first_error
        [raise_if (\<not> is_dict v) ''response root must be an object'',
         raise_if (get response ''schema_version'' \<noteq> PInt 1) ''response schema_version must be 1'',
         raise_if (get response ''id'' \<noteq> PStr expected_id) ''response id does not match the in-flight request'',
         raise_if (\<not> is_bool (get response ''ok'')) ''response ok field must be a boolean''] of
        Some m \<Rightarrow> Inl m
      | None \<Rightarrow>
          if get response ''ok'' = PBool True
          then (if \<not> same_keys response (RESPONSE_FIELDS ''result'') then Inl ''success response envelope has unexpected fields''
            else Inr (Inr (get response ''result'')))
          else if \<not> same_keys response (RESPONSE_FIELDS ''error'') then Inl ''error response envelope has unexpected fields''
          else error_body response expected_id)"

definition response_payload :: "string \<Rightarrow> string" where
  "response_payload raw = strip_cr (butlast raw)"

definition parse_response :: "string \<Rightarrow> string \<Rightarrow> string + (client_exc + pyval)" where
  "parse_response raw expected_id =
     (let payload = response_payload raw in
      if \<not> ends_lf raw then Inl ''response is not terminated by LF''
      else if take 3 payload = [CHR 0xEF, CHR 0xBB, CHR 0xBF] then Inl ''response contains a UTF-8 BOM''
      else if \<not> utf8_valid payload then Inl ''response is not valid UTF-8''
      else if \<not> validate_json_depth payload then Inl ''response JSON nesting exceeds 64 levels''
      else case json_loads payload of
        Inl (Json_Duplicate k) \<Rightarrow> Inl (''response contains duplicate JSON key: '' @ k)
      | Inl (Json_Constant k) \<Rightarrow> Inl (''response contains non-finite number: '' @ k)
      | Inl _ \<Rightarrow> Inl ''response is not valid JSON''
      | Inr v \<Rightarrow> response_envelope v expected_id)"

section \<open>One exchange\<close>

text \<open>
  How waiting ends: an interrupt before the request is handed to the writer, the deadline passes, writing
  fails, the request queue is full, an interrupt while waiting or afterwards, or an item arrives,
  with the state of the overflow flag then.
\<close>

datatype outcome =
    Interrupted_Before string
  | Timed_Out
  | Write_Failed
  | Queue_Full
  | Interrupted string
  | Interrupted_After string
  | Received bool stdout_item

record exchange_env =
  xe_alive :: bool
  xe_outcome :: outcome

definition is_control_command :: "string \<Rightarrow> bool" where
  "is_control_command command \<longleftrightarrow> command \<in> set [''direct_operate'', ''select_and_operate'']"

definition token_char :: "char \<Rightarrow> bool" where
  "token_char c \<longleftrightarrow> is_alnum c \<or> c \<in> set ''._:-''"

definition command_check :: "pyval \<Rightarrow> pyexc option" where
  "command_check command = first_error
     [raise_if (\<not> is_str command \<or> as_str command = [] \<or> length (filter is_ascii (as_str command)) > 64)
        (ValueError ''command must be a non-empty ASCII token of at most 64 bytes''),
      raise_if (\<not> list_all token_char (as_str command)) (ValueError ''command contains characters outside the v1 token alphabet'')]"

definition envelope :: "string \<Rightarrow> string \<Rightarrow> dict \<Rightarrow> dict" where
  "envelope request_id command params =
     [(''schema_version'', PInt 1), (''id'', PStr request_id), (''cmd'', PStr command), (''params'', PDict params)]"

text \<open>The request line without its line feed.\<close>

definition encode_request :: "(rat \<Rightarrow> string) \<Rightarrow> host_config \<Rightarrow> string \<Rightarrow> string \<Rightarrow> dict \<Rightarrow> pyexc + string" where
  "encode_request repr config request_id command params =
     (case json_dumps repr (PDict (envelope request_id command params)) of
        Inl e \<Rightarrow> Inl (ValueError (''request is not JSON serializable: '' @ pyexc_text e))
      | Inr s \<Rightarrow> if int (length s) > as_int (ha_max_request_bytes config) then Inl (ValueError ''request exceeds max_request_bytes'')
          else Inr s)"

text \<open>\<open>f"{timeout:.3f}"\<close>\<close>

definition fixed3 :: "rat \<Rightarrow> string" where
  "fixed3 q = (let n = round_half_even (q * 1000); f = dec (nat (n mod 1000)) in
     str_int (n div 1000) @ ''.'' @ replicate (3 - length f) (CHR ''0'') @ f)"

definition timeout_text :: "string \<Rightarrow> rat \<Rightarrow> string" where
  "timeout_text command timeout = ''request '' @ quoted command @ '' timed out after '' @ fixed3 timeout @ ''s''"

text \<open>What is done with the item that arrives.\<close>

definition handle_item :: "client \<Rightarrow> string \<Rightarrow> string \<Rightarrow> stdout_item \<Rightarrow> pyval result" where
  "handle_item c command request_id item = (case item of
     Stdout_EOF \<Rightarrow> raise_exited c command
   | Stream_Failure m \<Rightarrow>
       fail_host (c\<lparr>cl_stdout_tail := tail_append (cl_stdout_tail c) (''['' @ m @ '']'' @ [LF])\<rparr>) Host_Protocol m
   | Unknown_Item \<Rightarrow> fail_host c Host_Protocol ''stdout reader returned an unknown item''
   | Line raw \<Rightarrow> (case parse_response raw request_id of
       Inl m \<Rightarrow> fail_host (c\<lparr>cl_stdout_tail := tail_append (cl_stdout_tail c) raw\<rparr>) Host_Protocol m
     | Inr r \<Rightarrow> (r, c)))"

definition await :: "client \<Rightarrow> string \<Rightarrow> string \<Rightarrow> rat \<Rightarrow> outcome \<Rightarrow> pyval result" where
  "await c command request_id timeout ending = (case ending of
     Interrupted_Before n \<Rightarrow> (Inl (Interrupt n None []), c)
   | Timed_Out \<Rightarrow> fail_host c Host_Timeout (timeout_text command timeout)
   | Write_Failed \<Rightarrow> (Inl (Host_Error Host_Exited (''host failed while writing request '' @ quoted command) None []),
       abort_process c ''failed to write request'')
   | Queue_Full \<Rightarrow> fail_host c Host_Protocol ''stdin request queue overflow''
   | Interrupted n \<Rightarrow> (Inl (Interrupt n None []), if is_control_command command then c else abort_process c ''host exchange interrupted'')
   | Interrupted_After n \<Rightarrow> (Inl (Interrupt n None []), c)
   | Received overflow item \<Rightarrow>
       if overflow then fail_host c Host_Protocol ''stdout response queue overflow'' else handle_item c command request_id item)"

text \<open>\<open>self._stdin_queue.put_nowait(pending)\<close>\<close>

definition put_request :: "client \<Rightarrow> string \<Rightarrow> outcome \<Rightarrow> client" where
  "put_request c line ending = (case ending of
     Interrupted_Before n \<Rightarrow> c
   | Queue_Full \<Rightarrow> c\<lparr>cl_write_started := True\<rparr>
   | _ \<Rightarrow> c\<lparr>cl_write_started := True, cl_requests := cl_requests c @ [line @ [LF]]\<rparr>)"

definition exchange :: "(rat \<Rightarrow> string) \<Rightarrow> exchange_env \<Rightarrow> client \<Rightarrow> pyval \<Rightarrow> dict \<Rightarrow> rat \<Rightarrow> pyval result" where
  "exchange repr x c0 command params timeout =
     (let c = c0\<lparr>cl_write_started := False\<rparr> in
      case command_check command of
        Some e \<Rightarrow> (Inl (Client_Python e), c)
      | None \<Rightarrow>
          let (request_id, c) = next_request_id c; cmd = as_str command in
          case encode_request repr (cl_config c) request_id cmd params of
            Inl e \<Rightarrow> (Inl (Client_Python e), c)
          | Inr line \<Rightarrow>
              if \<not> cl_process c \<or> \<not> xe_alive x then raise_exited c cmd
              else await (put_request c line (xe_outcome x)) cmd request_id timeout (xe_outcome x))"

section \<open>Requests\<close>

definition TYPED_API_COMMANDS :: "string list" where
  "TYPED_API_COMMANDS =
     [''hello'', ''shutdown'', ''connect'', ''disconnect'', ''get_status'', ''stats'', ''wait_event'', ''integrity_poll'',
      ''class_poll'', ''read'', ''enable_unsolicited'', ''disable_unsolicited'', ''wait_unsolicited'', ''select_and_operate'',
      ''direct_operate'', ''capture.begin'', ''capture.progress'', ''capture.end'', ''trace.start'', ''trace.read'', ''trace.stop'']"

text \<open>\<open>_request\<close>; the argument \<open>timeout\<close> is \<open>None\<close> for the configured one.\<close>

definition request_locked :: "(rat \<Rightarrow> string) \<Rightarrow> exchange_env \<Rightarrow> client \<Rightarrow> pyval \<Rightarrow> dict \<Rightarrow> pyval \<Rightarrow> pyval result" where
  "request_locked repr x c command params timeout =
     (if cl_state c \<noteq> RUNNING
      then (Inl (Client_State (''client is '' @ (if cl_state c \<in> {CLOSED, BROKEN} then ''closed'' else ''not started''))), c)
      else case finite_number (if timeout = PNone then ha_request_timeout (cl_config c) else timeout) of
        Some deadline \<Rightarrow> if deadline \<le> 0 then (Inl (Client_Python (ValueError ''timeout must be a positive finite number'')), c)
          else exchange repr x c command params deadline
      | None \<Rightarrow> (Inl (Client_Python (ValueError ''timeout must be a positive finite number'')), c))"

definition client_request :: "(rat \<Rightarrow> string) \<Rightarrow> exchange_env \<Rightarrow> client \<Rightarrow> pyval \<Rightarrow> dict option \<Rightarrow> pyval \<Rightarrow> pyval result" where
  "client_request repr x c command params timeout =
     (if \<not> hashable command then (Inl (Client_Python (TypeError ''unhashable type'')), c)
      else if is_str command \<and> as_str command \<in> set TYPED_API_COMMANDS
      then (Inl (Client_State (''raw request for '' @ quoted (as_str command) @ '' is blocked; use the typed Dnp3MasterClient method'')), c)
      else request_locked repr x c command (case params of None \<Rightarrow> [] | Some d \<Rightarrow> d) timeout)"

section \<open>The greeting\<close>

definition protocol_error :: "string \<Rightarrow> client_exc" where
  "protocol_error m = Host_Error Host_Protocol m None []"

definition HELLO_STRINGS :: "string list" where
  "HELLO_STRINGS = [''host_version'', ''backend'', ''git_commit'', ''platform'', ''capability_matrix_version'', ''capability_matrix_sha256'']"

definition validate_hello :: "host_config \<Rightarrow> pyval \<Rightarrow> client_exc option" where
  "validate_hello config v =
     (let d = as_dict v; commands = get d ''supported_commands'';
          expected_version = ha_expected_host_version config; expected_digest = ha_expected_capability_matrix_sha256 config in first_error
       [raise_if (\<not> is_dict v) (protocol_error ''hello result must be an object''),
        for_each (\<lambda>f. raise_if (\<not> nonempty_str (get d f)) (protocol_error (''hello field '' @ quoted f @ '' must be a non-empty string'')))
          HELLO_STRINGS,
        raise_if (expected_version \<noteq> PNone \<and> get d ''host_version'' \<noteq> expected_version)
          (protocol_error ''native host version does not match the Python package: ''),
        raise_if (expected_digest \<noteq> PNone \<and> PStr (ascii_lower (as_str (get d ''capability_matrix_sha256''))) \<noteq> expected_digest)
          (protocol_error ''native host capability matrix hash does not match the configured pytest matrix''),
        raise_if (\<not> class_match is_hex 64 64 (as_str (get d ''capability_matrix_sha256'')))
          (protocol_error ''hello capability_matrix_sha256 must contain 64 hexadecimal characters''),
        raise_if (get d ''backend'' = PStr ''opendnp3'' \<and> get d ''backend_version'' \<noteq> PStr ''3.1.2'')
          (protocol_error ''native host OpenDNP3 version must be the pinned 3.1.2''),
        raise_if (\<not> is_list commands \<or> \<not> list_all is_str (as_list commands))
          (protocol_error ''hello supported_commands must be a string array''),
        raise_if (\<not> list_all (\<lambda>k. PStr k \<in> set (as_list commands)) [''hello'', ''shutdown''])
          (protocol_error ''hello does not advertise required lifecycle commands''),
        raise_if (\<not> is_dict (get d ''capabilities'')) (protocol_error ''hello capabilities must be an object'')])"

definition hello_info :: "client \<Rightarrow> dict result" where
  "hello_info c = (case cl_hello c of
     None \<Rightarrow> (Inl (Client_State ''hello handshake has not completed''), c) | Some d \<Rightarrow> (Inr d, c))"

section \<open>Life cycle\<close>

text \<open>
  \<open>_spawn_process\<close>: the process is created, assigned to the job object and its threads are started;
  or creating or assigning it fails, or another exception or an interrupt comes.
\<close>

datatype spawn = Spawn_Works | Create_Fails string | Assign_Fails string | Spawn_Raises string | Spawn_Interrupted string

record start_env =
  se_is_file :: bool
  se_is_dir :: bool
  se_spawn :: spawn
  se_hello :: exchange_env
  se_alive_after :: bool

datatype start_failure = Known client_exc | Unexpected string | Interrupting string

definition spawn_process :: "spawn \<Rightarrow> client \<Rightarrow> start_failure option \<times> client" where
  "spawn_process s c = (case s of
     Spawn_Works \<Rightarrow> (None, c\<lparr>cl_job := True, cl_process := True\<rparr>)
   | Create_Fails m \<Rightarrow> (Some (Known (Host_Error Host_Start (''failed to create host process: '' @ m) None [])),
       c\<lparr>cl_job := False, cl_state := BROKEN\<rparr>)
   | Assign_Fails m \<Rightarrow> (Some (Known (Host_Error Host_Start (''failed to assign host to Windows Job Object: '' @ m) None [])),
       c\<lparr>cl_job := False, cl_state := BROKEN, cl_process := False\<rparr>)
   | Spawn_Raises m \<Rightarrow> (Some (Unexpected m), c)
   | Spawn_Interrupted n \<Rightarrow> (Some (Interrupting n), c))"

text \<open>The body of the \<open>try\<close> block of \<open>start\<close>.\<close>

definition start_body :: "(rat \<Rightarrow> string) \<Rightarrow> start_env \<Rightarrow> client \<Rightarrow> (start_failure + dict) \<times> client" where
  "start_body repr env c =
     (case spawn_process (se_spawn env) c of
        (Some f, c) \<Rightarrow> (Inl f, c)
      | (None, c) \<Rightarrow>
          (case exchange repr (se_hello env) c (PStr ''hello'') [] (the (finite_number (ha_startup_timeout (cl_config c)))) of
             (Inl (Host_Error k m i d), c) \<Rightarrow> (Inl (Known (Host_Error k m i d)), c)
           | (Inl (Interrupt n i d), c) \<Rightarrow> (Inl (Interrupting n), c)
           | (Inl e, c) \<Rightarrow> (Inl (Unexpected (exc_text e)), c)
           | (Inr v, c) \<Rightarrow> (case validate_hello (cl_config c) v of
               Some e \<Rightarrow> (Inl (Known e), c)
             | None \<Rightarrow> (Inr (as_dict v), c\<lparr>cl_hello := Some (as_dict v), cl_state := RUNNING\<rparr>))))"

definition start :: "(rat \<Rightarrow> string) \<Rightarrow> start_env \<Rightarrow> client \<Rightarrow> dict result" where
  "start repr env c =
     (if cl_state c = RUNNING then hello_info c
      else if cl_state c \<noteq> NEW then (Inl (Client_State ''client cannot be started after it has been closed''), c)
      else if \<not> se_is_file env
      then (Inl (Host_Error Host_Start (''host executable does not exist: '' @ ha_executable (cl_config c)) None []), c\<lparr>cl_state := CLOSED\<rparr>)
      else if ha_working_directory (cl_config c) \<noteq> None \<and> \<not> se_is_dir env
      then (Inl (Host_Error Host_Start (''working directory does not exist: '' @ the (ha_working_directory (cl_config c))) None []),
        c\<lparr>cl_state := CLOSED\<rparr>)
      else case start_body repr env (c\<lparr>cl_state := STARTING\<rparr>) of
        (Inr d, c) \<Rightarrow> (Inr d, c)
      | (Inl (Known e), c) \<Rightarrow>
          (Inl e, (if cl_process c \<and> se_alive_after env then abort_process c ''startup failed'' else c)\<lparr>cl_state := BROKEN\<rparr>)
      | (Inl (Unexpected m), c) \<Rightarrow>
          (Inl (Host_Error Host_Start (''failed to start native host: '' @ m) None []), abort_process c (''startup failed: '' @ m))
      | (Inl (Interrupting n), c) \<Rightarrow> (Inl (Interrupt n None []), abort_process c ''startup interrupted''))"

text \<open>
  \<open>close\<close>: whether the process is alive when it starts, else its exit code, the exchange, whether the
  process then ends in time, else the text of that error, and whether it is still alive when that failed.
\<close>

record close_env =
  ce_alive :: bool
  ce_returncode :: int
  ce_exchange :: exchange_env
  ce_exits :: bool
  ce_wait_error :: string
  ce_alive_after :: bool

definition graceful_failure :: "close_env \<Rightarrow> client \<Rightarrow> string \<Rightarrow> client" where
  "graceful_failure env c m =
     (let reason = ''graceful shutdown failed: '' @ m; c = c\<lparr>cl_cleanup_error := Some reason\<rparr> in
      if ce_alive_after env then abort_process c reason else c)"

definition shut_down :: "(rat \<Rightarrow> string) \<Rightarrow> close_env \<Rightarrow> client \<Rightarrow> unit result" where
  "shut_down repr env c =
     (if \<not> cl_process c then (Inr (), c)
      else if \<not> ce_alive env then (Inr (), c\<lparr>cl_cleanup_error := Some (''host exited with code '' @ str_int (ce_returncode env) @ '' before shutdown was requested'')\<rparr>)
      else case exchange repr (ce_exchange env) c (PStr ''shutdown'') [] (the (finite_number (ha_shutdown_timeout (cl_config c)))) of
        (Inl (Interrupt n i d), c) \<Rightarrow> (Inl (Interrupt n i d), c)
      | (Inl e, c) \<Rightarrow> (Inr (), graceful_failure env c (exc_text e))
      | (Inr v, c) \<Rightarrow> (Inr (), if ce_exits env then c else graceful_failure env c (ce_wait_error env)))"

definition close :: "(rat \<Rightarrow> string) \<Rightarrow> close_env \<Rightarrow> client \<Rightarrow> unit result" where
  "close repr env c =
     (if cl_state c \<in> {CLOSED, NEW, BROKEN} then (Inr (), c\<lparr>cl_token := None, cl_state := CLOSED\<rparr>)
      else andthen (shut_down repr env (c\<lparr>cl_state := CLOSING\<rparr>)) (\<lambda>_ c.
        (Inr (), c\<lparr>cl_job := False, cl_state := CLOSED, cl_token := None, cl_process := False\<rparr>)))"

end
