(* ===== verification/CaptureModels.thy ===== *)
theory CaptureModels
  imports PyText ReadModels "HOL-Library.Product_Lexorder" "HOL-Library.Multiset"
begin

text \<open>
  Capture v1 models of \<open>python/src/dnp3_master/models.py\<close>: \<open>CapturePointRange\<close>,
  \<open>CaptureEventManifest\<close>, \<open>CaptureConfig\<close> with the overlap check of its point ranges, and
  \<open>CaptureResult\<close> with the truth semantics of its three modes.
\<close>

section \<open>Point ranges\<close>

definition CAPTURE_MODES :: "string list" where
  "CAPTURE_MODES = [''static_set'', ''event_sequence'', ''observation'']"

definition CAPTURE_SOURCES :: "string list" where
  "CAPTURE_SOURCES = [''solicited'', ''unsolicited'']"

definition CAPTURE_POINT_KINDS :: "string list" where
  "CAPTURE_POINT_KINDS =
     [''analog_command_event'', ''analog_input'', ''analog_output_status'', ''binary_command_event'',
      ''binary_input'', ''binary_output_status'', ''counter'', ''double_bit_binary_input'',
      ''frozen_counter'', ''octet_string'', ''time_and_interval'']"

record capture_range =
  pr_kind :: string
  pr_start :: int
  pr_stop :: int

definition CapturePointRange :: "pyval \<Rightarrow> pyval \<Rightarrow> pyval \<Rightarrow> pyexc + capture_range" where
  "CapturePointRange kind start stop = checked (first_error
     [check_member kind CAPTURE_POINT_KINDS (ValueError ''kind is not a supported indexed capture point type''),
      exc_of (unsigned_integer start ''start'' 0 65535),
      exc_of (unsigned_integer stop ''stop'' 0 65535),
      raise_if (as_int start > as_int stop) (ValueError ''start must not exceed stop'')])
     \<lparr>pr_kind = as_str kind, pr_start = as_int start, pr_stop = as_int stop\<rparr>"

definition point_count :: "capture_range \<Rightarrow> int" where
  "point_count r = pr_stop r - pr_start r + 1"

definition CapturePointRange_to_params :: "capture_range \<Rightarrow> dict" where
  "CapturePointRange_to_params r =
     [(''kind'', PStr (pr_kind r)), (''start'', PInt (pr_start r)), (''stop'', PInt (pr_stop r))]"

section \<open>Event manifests\<close>

record event_manifest =
  em_generator :: string
  em_generator_version :: string
  em_scenario_id :: string
  em_seed :: int
  em_start_sequence :: int
  em_end_sequence :: int
  em_event_total :: int
  em_sha256 :: string
  em_match_rule :: string

definition MANIFEST_FIELDS :: "string list" where
  "MANIFEST_FIELDS =
     [''generator'', ''generator_version'', ''scenario_id'', ''seed'', ''start_sequence'', ''end_sequence'',
      ''event_total'', ''sha256'', ''match_rule'']"

text \<open>
  The constructor, given its nine keyword arguments as a dictionary.
\<close>

definition CaptureEventManifest :: "dict \<Rightarrow> pyexc + event_manifest" where
  "CaptureEventManifest a =
     (let start = as_int (get a ''start_sequence''); stop = as_int (get a ''end_sequence'') in checked (first_error
       [for_each (\<lambda>f. exc_of (endpoint_text (get a f) f 128)) [''generator'', ''generator_version'', ''scenario_id''],
        for_each (\<lambda>f. exc_of (unsigned_integer (get a f) f 0 0x7FFFFFFFFFFFFFFF)) [''seed'', ''start_sequence'', ''end_sequence''],
        exc_of (unsigned_integer (get a ''event_total'') ''event_total'' 1 1000000000),
        raise_if (start > stop \<or> stop - start + 1 \<noteq> as_int (get a ''event_total''))
          (ValueError ''event_total must equal end_sequence - start_sequence + 1''),
        raise_if (\<not> is_str (get a ''sha256'') \<or> \<not> class_match is_hex 64 64 (as_str (get a ''sha256'')))
          (ValueError ''sha256 must contain 64 hexadecimal characters''),
        raise_if (get a ''match_rule'' \<noteq> PStr ''ordered_kind_index_value'')
          (ValueError (''match_rule must be '' @ quoted ''ordered_kind_index_value''))])
       \<lparr>em_generator = as_str (get a ''generator''), em_generator_version = as_str (get a ''generator_version''),
        em_scenario_id = as_str (get a ''scenario_id''), em_seed = as_int (get a ''seed''),
        em_start_sequence = start, em_end_sequence = stop, em_event_total = as_int (get a ''event_total''),
        em_sha256 = ascii_lower (as_str (get a ''sha256'')), em_match_rule = as_str (get a ''match_rule'')\<rparr>)"

definition CaptureEventManifest_to_params :: "event_manifest \<Rightarrow> dict" where
  "CaptureEventManifest_to_params m =
     [(''generator'', PStr (em_generator m)), (''generator_version'', PStr (em_generator_version m)),
      (''scenario_id'', PStr (em_scenario_id m)), (''seed'', PInt (em_seed m)),
      (''start_sequence'', PInt (em_start_sequence m)), (''end_sequence'', PInt (em_end_sequence m)),
      (''event_total'', PInt (em_event_total m)), (''sha256'', PStr (em_sha256 m)),
      (''match_rule'', PStr (em_match_rule m))]"

section \<open>CaptureConfig\<close>

text \<open>
  The arguments that are not plain values: \<open>point_ranges\<close> is text, something that cannot be
  iterated, or a sequence whose items are \<open>CapturePointRange\<close> objects or something else;
  \<open>event_manifest\<close> is absent, a manifest, or another object.
\<close>

datatype ranges_arg = Ranges_Text | Ranges_Not_Iterable | Ranges "capture_range option list"

datatype manifest_arg = No_Manifest | Manifest event_manifest | Other_Manifest

record capture_config =
  cf_mode :: string
  cf_sources :: "string list"
  cf_duration_limit :: pyval
  cf_point_ranges :: "capture_range list"
  cf_event_manifest :: "event_manifest option"
  cf_mismatch_sample_limit :: int
  cf_queue_capacity :: int

text \<open>\<open>tuple(sources)\<close> and the check of its items, which stops at the first offending one.\<close>

definition sources_check :: "pyval list \<Rightarrow> string \<Rightarrow> pyexc option" where
  "sources_check xs message = first_error
     [raise_if (\<not> (1 \<le> length xs \<and> length xs \<le> 2)) (ValueError message),
      for_each (\<lambda>x. check_member x CAPTURE_SOURCES (ValueError message)) xs,
      raise_if (\<not> distinct xs) (ValueError message)]"

fun capture_sources :: "pyval \<Rightarrow> pyexc + pyval list" where
  "capture_sources (PStr _) = Inl (TypeError ''sources must be a tuple of capture source names'')"
| "capture_sources (PList xs) = Inr xs"
| "capture_sources (PDict d) = Inr (map (PStr \<circ> fst) d)"
| "capture_sources _ = Inl (TypeError ''object is not iterable'')"

fun capture_ranges :: "ranges_arg \<Rightarrow> pyexc + capture_range list" where
  "capture_ranges Ranges_Text = Inl (TypeError ''point_ranges must contain CapturePointRange objects'')"
| "capture_ranges Ranges_Not_Iterable = Inl (TypeError ''object is not iterable'')"
| "capture_ranges (Ranges items) =
     (if None \<in> set items then Inl (TypeError ''point_ranges must contain CapturePointRange objects'')
      else Inr (map the items))"

definition overlap_check :: "capture_range list \<Rightarrow> pyexc option" where
  "overlap_check ranges =
     (let ordered = sort_key (\<lambda>r. (pr_kind r, pr_start r)) ranges in
      for_each (\<lambda>(previous, current).
          raise_if (pr_kind previous = pr_kind current \<and> pr_start current \<le> pr_stop previous)
            (ValueError ''point_ranges must not overlap for the same point kind''))
        (zip ordered (tl ordered)))"

definition truth_check :: "string \<Rightarrow> capture_range list \<Rightarrow> manifest_arg \<Rightarrow> pyexc option" where
  "truth_check mode ranges manifest =
     (if mode = ''static_set'' then first_error
        [raise_if (ranges = []) (ValueError ''static_set capture requires point_ranges''),
         raise_if (manifest \<noteq> No_Manifest) (ValueError ''static_set capture does not accept event_manifest''),
         raise_if (sum_list (map point_count ranges) > 1000000)
           (ValueError ''static_set expected set may contain at most 1000000 points''),
         overlap_check ranges]
      else if mode = ''event_sequence'' then first_error
        [raise_if (ranges \<noteq> []) (ValueError ''event_sequence capture does not accept point_ranges''),
         raise_if (manifest = No_Manifest \<or> manifest = Other_Manifest)
           (ValueError ''event_sequence capture requires a CaptureEventManifest'')]
      else raise_if (ranges \<noteq> [] \<or> manifest \<noteq> No_Manifest)
        (ValueError ''observation capture cannot claim point or event ground truth''))"

definition CaptureConfig ::
    "pyval \<Rightarrow> pyval \<Rightarrow> pyval \<Rightarrow> ranges_arg \<Rightarrow> manifest_arg \<Rightarrow> pyval \<Rightarrow> pyval \<Rightarrow> pyexc + capture_config" where
  "CaptureConfig mode sources duration_limit point_ranges event_manifest mismatch_sample_limit queue_capacity =
     bindE (checked (check_member mode CAPTURE_MODES (ValueError (''mode must be '' @ quoted ''static_set'' @ '', '' @
       quoted ''event_sequence'' @ '', or '' @ quoted ''observation''))) ()) (\<lambda>_.
     bindE (capture_sources sources) (\<lambda>normalized_sources.
     bindE (checked (first_error
       [sources_check normalized_sources ''sources must contain one or both unique values: solicited, unsolicited'',
        exc_of (milliseconds duration_limit ''duration_limit'' 100 604800000),
        exc_of (unsigned_integer mismatch_sample_limit ''mismatch_sample_limit'' 0 1024),
        exc_of (unsigned_integer queue_capacity ''queue_capacity'' 1 65536)]) ()) (\<lambda>_.
     bindE (capture_ranges point_ranges) (\<lambda>ranges.
     checked (first_error
       [raise_if (length ranges > 256) (ValueError ''point_ranges may contain at most 256 ranges''),
        truth_check (as_str mode) ranges event_manifest])
       \<lparr>cf_mode = as_str mode, cf_sources = map as_str normalized_sources, cf_duration_limit = duration_limit,
        cf_point_ranges = ranges, cf_event_manifest = (case event_manifest of Manifest m \<Rightarrow> Some m | _ \<Rightarrow> None),
        cf_mismatch_sample_limit = as_int mismatch_sample_limit, cf_queue_capacity = as_int queue_capacity\<rparr>))))"

definition duration_limit_ms :: "capture_config \<Rightarrow> pyexc + int" where
  "duration_limit_ms c = milliseconds (cf_duration_limit c) ''duration_limit'' 100 604800000"

text \<open>The assertion that the manifest is there is the \<open>None\<close> case of the last branch.\<close>

definition CaptureConfig_to_params :: "capture_config \<Rightarrow> pyexc + dict" where
  "CaptureConfig_to_params c = bindE (duration_limit_ms c) (\<lambda>ms.
     let result = [(''mode'', PStr (cf_mode c)), (''sources'', PList (map PStr (cf_sources c))),
       (''duration_limit_ms'', PInt ms), (''mismatch_sample_limit'', PInt (cf_mismatch_sample_limit c)),
       (''queue_capacity'', PInt (cf_queue_capacity c))] in
     if cf_mode c = ''static_set''
     then Inr (result @ [(''expected'', PDict [(''point_ranges'',
       PList (map (\<lambda>r. PDict (CapturePointRange_to_params r)) (cf_point_ranges c)))])])
     else if cf_mode c = ''event_sequence''
     then (case cf_event_manifest c of
         Some m \<Rightarrow> Inr (result @ [(''expected'', PDict [(''manifest'', PDict (CaptureEventManifest_to_params m))])])
       | None \<Rightarrow> Inl (AssertionError []))
     else Inr result)"

section \<open>The overlap check decides disjointness\<close>

definition range_ok :: "capture_range \<Rightarrow> bool" where
  "range_ok r \<longleftrightarrow> pr_kind r \<in> set CAPTURE_POINT_KINDS \<and> 0 \<le> pr_start r \<and> pr_start r \<le> pr_stop r \<and> pr_stop r \<le> 65535"

definition points :: "capture_range \<Rightarrow> (string \<times> int) set" where
  "points r = {pr_kind r} \<times> {pr_start r..pr_stop r}"

lemma CapturePointRange_Inr:
  "CapturePointRange k s t = Inr r \<longleftrightarrow>
     range_ok r \<and> k = PStr (pr_kind r) \<and> s = PInt (pr_start r) \<and> t = PInt (pr_stop r)"
  unfolding CapturePointRange_def range_ok_def by (simp only: check_simps) (cases r; auto)

lemma card_points: "range_ok r \<Longrightarrow> int (card (points r)) = point_count r"
  by (simp add: points_def point_count_def range_ok_def card_cartesian_product)

lemma finite_points [simp]: "finite (points r)"
  by (simp add: points_def)

text \<open>A union of finite sets has as many elements as the sets together exactly when they are disjoint.\<close>

lemma card_UN_le_sum: "(\<And>x. x \<in> set xs \<Longrightarrow> finite (A x)) \<Longrightarrow> card (\<Union>x \<in> set xs. A x) \<le> sum_list (map (\<lambda>x. card (A x)) xs)"
proof (induction xs)
  case (Cons x xs)
  have "card (A x \<union> (\<Union>x \<in> set xs. A x)) \<le> card (A x) + card (\<Union>x \<in> set xs. A x)" by (rule card_Un_le)
  with Cons show ?case by simp
qed simp

lemma card_UN_eq_sum_iff:
  assumes "\<And>x. x \<in> set xs \<Longrightarrow> finite (A x)"
  shows "card (\<Union>x \<in> set xs. A x) = sum_list (map (\<lambda>x. card (A x)) xs) \<longleftrightarrow> sorted_wrt (\<lambda>x y. A x \<inter> A y = {}) xs"
  using assms
proof (induction xs)
  case (Cons x xs)
  let ?U = "\<Union>x \<in> set xs. A x"
  have fin: "finite (A x)" "finite ?U" using Cons.prems by auto
  have "card (A x) + card ?U = card (A x \<union> ?U) + card (A x \<inter> ?U)" using fin by (rule card_Un_Int)
  moreover have "card ?U \<le> sum_list (map (\<lambda>x. card (A x)) xs)" by (rule card_UN_le_sum) (simp add: Cons.prems)
  ultimately have "card (A x \<union> ?U) = card (A x) + sum_list (map (\<lambda>x. card (A x)) xs) \<longleftrightarrow>
      card (A x \<inter> ?U) = 0 \<and> card ?U = sum_list (map (\<lambda>x. card (A x)) xs)" by linarith
  moreover have "card (A x \<inter> ?U) = 0 \<longleftrightarrow> (\<forall>y \<in> set xs. A x \<inter> A y = {})" using fin by (auto simp: card_eq_0_iff)
  ultimately show ?case using Cons by simp
qed simp

definition range_before :: "capture_range \<Rightarrow> capture_range \<Rightarrow> bool" where
  "range_before a b \<longleftrightarrow> range_ok a \<and> range_ok b \<and>
     (pr_kind a < pr_kind b \<or> pr_kind a = pr_kind b \<and> pr_stop a < pr_start b)"

lemma transp_range_before: "transp range_before"
  by (rule transpI) (auto simp: range_before_def range_ok_def)

lemma range_before_iff:
  assumes "range_ok a" "range_ok b" "(pr_kind a, pr_start a) \<le> (pr_kind b, pr_start b)"
  shows "range_before a b \<longleftrightarrow> \<not> (pr_kind a = pr_kind b \<and> pr_start b \<le> pr_stop a)"
    and "points a \<inter> points b = {} \<longleftrightarrow> range_before a b"
proof -
  have ord: "pr_kind a < pr_kind b \<or> pr_kind a = pr_kind b \<and> pr_start a \<le> pr_start b"
    using assms(3) by (simp add: less_eq_prod_def prod_le_def) (auto simp: less_le)
  show first: "range_before a b \<longleftrightarrow> \<not> (pr_kind a = pr_kind b \<and> pr_start b \<le> pr_stop a)"
    using ord assms(1,2) by (auto simp: range_before_def)
  show "points a \<inter> points b = {} \<longleftrightarrow> range_before a b"
  proof (cases "pr_kind a = pr_kind b")
    case True
    then have le: "pr_start a \<le> pr_start b" using ord by simp
    have "points a \<inter> points b = {pr_kind b} \<times> {pr_start b..min (pr_stop a) (pr_stop b)}"
      using True le by (auto simp: points_def)
    then show ?thesis using first True assms(2) by (auto simp: range_ok_def)
  next
    case False
    then show ?thesis using first by (auto simp: points_def)
  qed
qed

lemma for_each_zip_tl:
  "for_each f (zip xs (tl xs)) = None \<longleftrightarrow> (\<forall>i. Suc i < length xs \<longrightarrow> f (xs ! i, xs ! Suc i) = None)"
proof -
  have "set (zip xs (tl xs)) = {(xs ! i, xs ! Suc i) | i. Suc i < length xs}"
    by (auto simp: set_zip nth_tl)
  then show ?thesis by auto
qed

lemma overlap_check_sorted:
  assumes ok: "\<And>r. r \<in> set rs \<Longrightarrow> range_ok r" and sorted: "sorted (map (\<lambda>r. (pr_kind r, pr_start r)) rs)"
  shows "for_each (\<lambda>(previous, current). raise_if (pr_kind previous = pr_kind current \<and> pr_start current \<le> pr_stop previous) e)
      (zip rs (tl rs)) = None \<longleftrightarrow> sorted_wrt (\<lambda>a b. points a \<inter> points b = {}) rs"
proof -
  have le: "(pr_kind (rs ! i), pr_start (rs ! i)) \<le> (pr_kind (rs ! j), pr_start (rs ! j))"
    if "i \<le> j" "j < length rs" for i j
    using sorted_nth_mono [OF sorted that(1)] that by simp
  have "sorted_wrt (\<lambda>a b. points a \<inter> points b = {}) rs \<longleftrightarrow> sorted_wrt range_before rs"
    unfolding sorted_wrt_iff_nth_less
    by (intro all_cong1 imp_cong refl range_before_iff(2) ok le nth_mem) linarith+
  also have "\<dots> \<longleftrightarrow> (\<forall>i. Suc i < length rs \<longrightarrow> range_before (rs ! i) (rs ! Suc i))"
    by (rule sorted_wrt_iff_nth_Suc_transp [OF transp_range_before])
  also have "\<dots> \<longleftrightarrow> (\<forall>i. Suc i < length rs \<longrightarrow> \<not> (pr_kind (rs ! i) = pr_kind (rs ! Suc i) \<and> pr_start (rs ! Suc i) \<le> pr_stop (rs ! i)))"
    by (intro all_cong1 imp_cong refl range_before_iff(1) ok le nth_mem) linarith+
  finally show ?thesis unfolding for_each_zip_tl by simp
qed

lemma overlap_check_exact:
  assumes ok: "\<And>r. r \<in> set rs \<Longrightarrow> range_ok r"
  shows "overlap_check rs = None \<longleftrightarrow> int (card (\<Union>r \<in> set rs. points r)) = sum_list (map point_count rs)"
proof -
  define os where "os = sort_key (\<lambda>r. (pr_kind r, pr_start r)) rs"
  have sorted_os: "sorted (map (\<lambda>r. (pr_kind r, pr_start r)) os)" unfolding os_def by (rule sorted_sort_key)
  have ok_os: "range_ok r" if "r \<in> set os" for r using that ok by (simp add: os_def)
  have set_os: "set os = set rs" and mset_os: "mset os = mset rs" by (simp_all add: os_def)
  have "int (sum_list (map (\<lambda>r. card (points r)) xs)) = sum_list (map point_count xs)" if "set xs \<subseteq> set rs" for xs
    using that by (induction xs) (auto simp: card_points ok)
  then have "int (sum_list (map (\<lambda>r. card (points r)) os)) = sum_list (map point_count rs)"
    using set_os mset_os by (metis mset_map order_refl sum_mset_sum_list)
  moreover have "overlap_check rs = None \<longleftrightarrow> card (\<Union>r \<in> set os. points r) = sum_list (map (\<lambda>r. card (points r)) os)"
    unfolding overlap_check_def Let_def os_def [symmetric] card_UN_eq_sum_iff [OF finite_points]
    by (rule overlap_check_sorted [OF ok_os sorted_os])
  ultimately show ?thesis unfolding set_os by (metis of_nat_eq_iff)
qed


definition sample_ranges :: "capture_range list" where
  "sample_ranges = [\<lparr>pr_kind = ''counter'', pr_start = 10, pr_stop = 19\<rparr>, \<lparr>pr_kind = ''analog_input'', pr_start = 0, pr_stop = 4\<rparr>,
     \<lparr>pr_kind = ''counter'', pr_start = 0, pr_stop = 9\<rparr>]"


end
