(* ===== verification/CaptureResults.thy ===== *)
theory CaptureResults
  imports CaptureModels
begin

text \<open>
  \<open>CaptureResult\<close> of \<open>python/src/dnp3_master/models.py\<close>: the snapshot of a capture, its consistency
  checks, and the truth semantics of the three modes: a static set is complete when nothing is
  missing, repeated or unmatched, an event sequence when its digest is that of the external
  manifest, and an observation never claims completeness.
\<close>

section \<open>The snapshot\<close>

record capture_result =
  cr_capture_id :: string
  cr_session_id :: int
  cr_state :: string
  cr_valid :: "bool option"
  cr_mode :: string
  cr_sources :: "string list"
  cr_expected_total :: "int option"
  cr_offered_total :: int
  cr_received_total :: int
  cr_received_unique :: "int option"
  cr_duplicates :: "int option"
  cr_missing :: "int option"
  cr_unmatched_total :: int
  cr_fragments_total :: int
  cr_duration_ms :: "rat option"
  cr_throughput_per_sec :: "rat option"
  cr_current_queue_depth :: int
  cr_max_queue_depth :: int
  cr_queue_capacity :: int
  cr_queue_overflow :: int
  cr_invalid_reasons :: "string list"
  cr_completeness_scope :: pyval
  cr_unknown_reason :: pyval
  cr_received_sequence_sha256 :: "string option"
  cr_sequence_match :: "bool option"
  cr_canonical_record_format :: "string option"
  cr_mismatch_sample :: "dict list"
  cr_timings :: dict
  cr_raw :: dict

definition CAPTURE_FIELDS :: "string list" where
  "CAPTURE_FIELDS =
     [''capture_id'', ''session_id'', ''state'', ''valid'', ''mode'', ''sources'', ''expected_total'',
      ''offered_total'', ''received_total'', ''received_unique'', ''duplicates'', ''missing'', ''unmatched_total'',
      ''fragments_total'', ''duration_ms'', ''throughput_per_sec'', ''current_queue_depth'', ''max_queue_depth'',
      ''queue_capacity'', ''queue_overflow'', ''discarded_on_abort'', ''invalid_reasons'', ''completeness_scope'',
      ''unknown_reason'', ''received_sequence_sha256'', ''sequence_match'', ''canonical_record_format'',
      ''mismatch_sample'', ''mismatch_sample_limit'', ''by_kind'', ''by_group_variation'', ''timings'',
      ''event_manifest'']"

definition CANONICAL_FORMAT :: string where
  "CANONICAL_FORMAT = ''compact-json-array-[kind,index,value]-plus-LF''"

definition opt_bool :: "pyval \<Rightarrow> bool option" where
  "opt_bool v = (if is_bool v then Some (as_bool v) else None)"

definition opt_str :: "pyval \<Rightarrow> string option" where
  "opt_str v = (if is_str v then Some (as_str v) else None)"

section \<open>Checks\<close>

definition capture_id_char :: "char \<Rightarrow> bool" where
  "capture_id_char c \<longleftrightarrow> is_alnum c \<or> c \<in> set ''._:-''"

definition valid_check :: "pyval \<Rightarrow> pyval \<Rightarrow> pyexc option" where
  "valid_check state valid =
     (if state = PStr ''ACTIVE'' then raise_if (valid \<noteq> PNone) (ValueError ''active capture validity must be null'')
      else raise_if (\<not> is_bool valid) (ValueError ''terminal capture validity must be boolean''))"

definition capture_identity_checks :: "dict \<Rightarrow> pyexc option" where
  "capture_identity_checks d =
     (let capture_id = get d ''capture_id''; state = get d ''state''; valid = get d ''valid'' in first_error
       [check_missing ''capture result is missing fields: '' CAPTURE_FIELDS d,
        raise_if (\<not> is_str capture_id \<or> \<not> class_match capture_id_char 1 64 (as_str capture_id))
          (ValueError ''capture result capture_id is invalid''),
        raise_if (\<not> positive (get d ''session_id'')) (ValueError ''capture result session_id must be positive''),
        check_member state [''ACTIVE'', ''FINALIZED'', ''TIMED_OUT'', ''ABORTED''] (ValueError ''capture result state is invalid''),
        valid_check state valid,
        raise_if ((state = PStr ''TIMED_OUT'' \<or> state = PStr ''ABORTED'') \<and> valid \<noteq> PBool False)
          (ValueError ''timed-out or aborted capture must be invalid''),
        check_member (get d ''mode'') CAPTURE_MODES (ValueError ''capture result mode is invalid''),
        raise_if (\<not> is_list (get d ''sources'')) (ValueError ''capture result sources are invalid''),
        sources_check (as_list (get d ''sources'')) ''capture result sources are invalid''])"

text \<open>
  \<open>not math.isfinite(float(v)) or v < 0\<close> after the type test: \<open>float\<close> of a too large integer raises
  \<open>OverflowError\<close>, which is not caught here.
\<close>

definition duration_field_check :: "dict \<Rightarrow> string \<Rightarrow> pyexc option" where
  "duration_field_check d f =
     (let v = get d f; e = ValueError (''capture result '' @ f @ '' must be finite and non-negative'') in
      if \<not> (is_int v \<or> is_float v) then Some e
      else case finite_number v of
        None \<Rightarrow> Some (if is_int v then OverflowError ''int too large to convert to float'' else e)
      | Some q \<Rightarrow> raise_if (q < 0) e)"

definition capture_count_checks :: "dict \<Rightarrow> pyexc option" where
  "capture_count_checks d =
     (let num = (\<lambda>f. as_int (get d f)) in first_error
       [for_each (check_field opt_nonneg d (\<lambda>f. ''capture result '' @ f @ '' must be null or non-negative''))
          [''expected_total'', ''received_unique'', ''duplicates'', ''missing''],
        for_each (check_field nonneg d (\<lambda>f. ''capture result '' @ f @ '' must be non-negative''))
          [''offered_total'', ''received_total'', ''unmatched_total'', ''fragments_total'', ''current_queue_depth'',
           ''max_queue_depth'', ''queue_capacity'', ''queue_overflow'', ''discarded_on_abort'', ''mismatch_sample_limit''],
        raise_if (num ''queue_capacity'' < 1 \<or> num ''queue_capacity'' > 65536)
          (ValueError ''capture result queue_capacity is invalid''),
        raise_if (\<not> (num ''current_queue_depth'' \<le> num ''max_queue_depth'' \<and> num ''max_queue_depth'' \<le> num ''queue_capacity''))
          (ValueError ''capture result queue depths are inconsistent''),
        raise_if (num ''received_total'' > num ''offered_total'') (ValueError ''capture received_total exceeds offered_total''),
        raise_if (num ''mismatch_sample_limit'' > 1024) (ValueError ''capture mismatch_sample_limit is invalid'')])"

definition counters_ok :: "pyval \<Rightarrow> bool" where
  "counters_ok v \<longleftrightarrow> is_dict v \<and> length (as_dict v) \<le> 256 \<and> list_all (\<lambda>(k, n). k \<noteq> [] \<and> nonneg n) (as_dict v)"

definition reasons_ok :: "pyval \<Rightarrow> bool" where
  "reasons_ok v \<longleftrightarrow> is_list v \<and> list_all nonempty_str (as_list v) \<and> distinct (as_list v)"

definition capture_collection_checks :: "dict \<Rightarrow> pyexc option" where
  "capture_collection_checks d =
     (let reasons = get d ''invalid_reasons''; samples = get d ''mismatch_sample'';
          received_digest = get d ''received_sequence_sha256''; sequence_match = get d ''sequence_match'';
          canonical_format = get d ''canonical_record_format'' in first_error
       [raise_if (\<not> reasons_ok reasons) (ValueError ''capture invalid_reasons must be a unique string array''),
        raise_if (\<not> is_list samples \<or> int (length (as_list samples)) > as_int (get d ''mismatch_sample_limit'') \<or>
            \<not> list_all is_dict (as_list samples))
          (ValueError ''capture mismatch samples are invalid or unbounded''),
        raise_if (\<not> is_dict (get d ''timings'')) (ValueError ''capture timings must be an object''),
        for_each (check_field counters_ok d (\<lambda>f. ''capture result '' @ f @ '' counters are invalid''))
          [''by_kind'', ''by_group_variation''],
        raise_if (get d ''valid'' = PBool True \<and> (as_list reasons \<noteq> [] \<or> as_int (get d ''queue_overflow'') \<noteq> 0))
          (ValueError ''valid capture result reports an invalid condition''),
        raise_if (received_digest \<noteq> PNone \<and>
            (\<not> is_str received_digest \<or> \<not> class_match is_lower_hex 64 64 (as_str received_digest)))
          (ValueError ''capture received_sequence_sha256 must be null or lowercase SHA-256''),
        raise_if (sequence_match \<noteq> PNone \<and> \<not> is_bool sequence_match)
          (ValueError ''capture sequence_match must be null or boolean''),
        (if canonical_format = PNone then None
         else check_member canonical_format [CANONICAL_FORMAT] (ValueError ''capture canonical_record_format is invalid''))])"

definition no_sequence_proof :: "dict \<Rightarrow> bool" where
  "no_sequence_proof d \<longleftrightarrow> get d ''received_sequence_sha256'' = PNone \<and> get d ''sequence_match'' = PNone \<and>
     get d ''canonical_record_format'' = PNone"

definition static_set_checks :: "dict \<Rightarrow> pyexc option" where
  "static_set_checks d =
     (let num = (\<lambda>f. as_int (get d f)) in first_error
       [raise_if (list_ex (\<lambda>f. get d f = PNone) [''expected_total'', ''received_unique'', ''duplicates'', ''missing''])
          (ValueError ''static_set capture must report provable completeness counts''),
        raise_if (get d ''completeness_scope'' \<noteq> PStr ''NATIVE_STATIC_SET'' \<or> get d ''unknown_reason'' \<noteq> PNone)
          (ValueError ''static_set capture completeness scope is inconsistent''),
        raise_if (num ''received_unique'' > num ''expected_total'' \<or>
            num ''missing'' \<noteq> num ''expected_total'' - num ''received_unique'')
          (ValueError ''static_set capture completeness counts are inconsistent''),
        raise_if (get d ''event_manifest'' \<noteq> PNone) (ValueError ''static_set capture must not report an event manifest''),
        raise_if (\<not> no_sequence_proof d) (ValueError ''static_set capture must not report event sequence proof'')])"

definition sequence_proof_check :: "dict \<Rightarrow> event_manifest \<Rightarrow> pyexc option" where
  "sequence_proof_check d manifest =
     (if get d ''sequence_match'' = PBool True
      then raise_if (get d ''received_sequence_sha256'' \<noteq> PStr (em_sha256 manifest) \<or>
          get d ''received_total'' \<noteq> PInt (em_event_total manifest) \<or>
          get d ''completeness_scope'' \<noteq> PStr ''EXTERNAL_EVENT_MANIFEST_MATCHED'' \<or> get d ''unknown_reason'' \<noteq> PNone)
        (ValueError ''matched event capture proof is inconsistent'')
      else if get d ''sequence_match'' = PBool False
      then raise_if (get d ''received_sequence_sha256'' = PNone \<or>
          get d ''completeness_scope'' \<noteq> PStr ''EXTERNAL_EVENT_MANIFEST_REQUIRED'' \<or>
          get d ''unknown_reason'' \<noteq> PStr ''EVENT_SEQUENCE_MISMATCH_REQUIRES_MANIFEST_DIFF'' \<or> get d ''valid'' \<noteq> PBool False)
        (ValueError ''mismatched event capture proof is inconsistent'')
      else raise_if (get d ''received_sequence_sha256'' \<noteq> PNone \<or>
          get d ''completeness_scope'' \<noteq> PStr ''EXTERNAL_EVENT_MANIFEST_REQUIRED'' \<or>
          get d ''unknown_reason'' \<noteq> PStr ''EVENT_SEQUENCE_NOT_FINALIZED'' \<or> get d ''state'' = PStr ''FINALIZED'')
        (ValueError ''unfinished event capture proof is inconsistent''))"

definition event_sequence_checks :: "dict \<Rightarrow> pyexc option" where
  "event_sequence_checks d =
     (let manifest_value = get d ''event_manifest'' in
      exc_of (bindE (checked (first_error
        [raise_if (\<not> is_dict manifest_value) (ValueError ''event capture must report its truth manifest''),
         raise_if (\<not> same_keys (as_dict manifest_value) MANIFEST_FIELDS) (ValueError ''event capture manifest fields are invalid'')]) ()) (\<lambda>_.
      bindE (CaptureEventManifest (as_dict manifest_value)) (\<lambda>manifest.
      checked (first_error
        [raise_if (get d ''expected_total'' \<noteq> PInt (em_event_total manifest))
           (ValueError ''event capture expected_total does not match manifest''),
         raise_if (get d ''canonical_record_format'' \<noteq> PStr CANONICAL_FORMAT)
           (ValueError ''event capture must declare its canonical record format''),
         sequence_proof_check d manifest]) ()))))"

definition observation_checks :: "dict \<Rightarrow> pyexc option" where
  "observation_checks d = first_error
     [raise_if (get d ''completeness_scope'' \<noteq> PStr ''OBSERVATION_ONLY'')
        (ValueError ''observation capture completeness scope is inconsistent''),
      raise_if (get d ''expected_total'' \<noteq> PNone \<or> get d ''event_manifest'' \<noteq> PNone)
        (ValueError ''observation capture must not report ground truth''),
      raise_if (get d ''unknown_reason'' \<noteq> PStr ''UNKNOWN_WITHOUT_GROUND_TRUTH_MATCH'')
        (ValueError ''observation capture must explain unknown completeness''),
      raise_if (\<not> no_sequence_proof d) (ValueError ''observation capture must not report event sequence proof'')]"

definition capture_mode_checks :: "dict \<Rightarrow> pyexc option" where
  "capture_mode_checks d =
     (if get d ''mode'' = PStr ''static_set'' then static_set_checks d
      else first_error
        [raise_if (list_ex (\<lambda>f. get d f \<noteq> PNone) [''received_unique'', ''duplicates'', ''missing''])
           (ValueError ''capture without native point truth must use null completeness counts''),
         (if get d ''mode'' = PStr ''event_sequence'' then event_sequence_checks d else observation_checks d)])"

definition truth_complete :: "dict \<Rightarrow> bool" where
  "truth_complete d \<longleftrightarrow>
     (if get d ''mode'' = PStr ''static_set''
      then get d ''missing'' = PInt 0 \<and> get d ''duplicates'' = PInt 0 \<and> get d ''unmatched_total'' = PInt 0
      else if get d ''mode'' = PStr ''event_sequence'' then get d ''sequence_match'' = PBool True
      else True)"

definition expected_valid :: "dict \<Rightarrow> bool" where
  "expected_valid d \<longleftrightarrow> get d ''state'' = PStr ''FINALIZED'' \<and> truth_complete d \<and>
     as_list (get d ''invalid_reasons'') = [] \<and> get d ''queue_overflow'' = PInt 0"

definition CaptureResult_from_mapping :: "dict \<Rightarrow> pyexc + capture_result" where
  "CaptureResult_from_mapping d =
     (let num = (\<lambda>f. as_int (get d f)) in checked (first_error
       [capture_identity_checks d, capture_count_checks d,
        for_each (duration_field_check d) [''duration_ms'', ''throughput_per_sec''],
        capture_collection_checks d, capture_mode_checks d,
        raise_if (get d ''valid'' \<noteq> PBool (expected_valid d) \<and> get d ''state'' \<noteq> PStr ''ACTIVE'')
          (ValueError ''capture terminal validity is inconsistent with truth'')])
       \<lparr>cr_capture_id = as_str (get d ''capture_id''), cr_session_id = num ''session_id'',
        cr_state = as_str (get d ''state''), cr_valid = opt_bool (get d ''valid''), cr_mode = as_str (get d ''mode''),
        cr_sources = map as_str (as_list (get d ''sources'')), cr_expected_total = opt_int (get d ''expected_total''),
        cr_offered_total = num ''offered_total'', cr_received_total = num ''received_total'',
        cr_received_unique = opt_int (get d ''received_unique''), cr_duplicates = opt_int (get d ''duplicates''),
        cr_missing = opt_int (get d ''missing''), cr_unmatched_total = num ''unmatched_total'',
        cr_fragments_total = num ''fragments_total'', cr_duration_ms = finite_number (get d ''duration_ms''),
        cr_throughput_per_sec = finite_number (get d ''throughput_per_sec''),
        cr_current_queue_depth = num ''current_queue_depth'', cr_max_queue_depth = num ''max_queue_depth'',
        cr_queue_capacity = num ''queue_capacity'', cr_queue_overflow = num ''queue_overflow'',
        cr_invalid_reasons = map as_str (as_list (get d ''invalid_reasons'')),
        cr_completeness_scope = get d ''completeness_scope'', cr_unknown_reason = get d ''unknown_reason'',
        cr_received_sequence_sha256 = opt_str (get d ''received_sequence_sha256''),
        cr_sequence_match = opt_bool (get d ''sequence_match''),
        cr_canonical_record_format = opt_str (get d ''canonical_record_format''),
        cr_mismatch_sample = map as_dict (as_list (get d ''mismatch_sample'')),
        cr_timings = as_dict (get d ''timings''), cr_raw = d\<rparr>)"

section \<open>What a valid capture proves\<close>

lemma capture_result_checks:
  assumes "CaptureResult_from_mapping d = Inr r"
  shows "capture_identity_checks d = None" "capture_count_checks d = None" "capture_collection_checks d = None"
    "capture_mode_checks d = None" "get d ''state'' = PStr ''ACTIVE'' \<or> get d ''valid'' = PBool (expected_valid d)"
  using assms unfolding CaptureResult_from_mapping_def Let_def by (simp_all only: check_simps) blast+

lemma capture_result_fields:
  assumes "CaptureResult_from_mapping d = Inr r"
  shows "cr_state r = as_str (get d ''state'')" "cr_valid r = opt_bool (get d ''valid'')" "cr_mode r = as_str (get d ''mode'')"
    "cr_invalid_reasons r = map as_str (as_list (get d ''invalid_reasons''))" "cr_queue_overflow r = as_int (get d ''queue_overflow'')"
    "cr_expected_total r = opt_int (get d ''expected_total'')" "cr_received_unique r = opt_int (get d ''received_unique'')"
    "cr_duplicates r = opt_int (get d ''duplicates'')" "cr_missing r = opt_int (get d ''missing'')"
    "cr_unmatched_total r = as_int (get d ''unmatched_total'')" "cr_received_total r = as_int (get d ''received_total'')"
    "cr_sequence_match r = opt_bool (get d ''sequence_match'')"
    "cr_received_sequence_sha256 r = opt_str (get d ''received_sequence_sha256'')"
    "cr_completeness_scope r = get d ''completeness_scope''" "cr_offered_total r = as_int (get d ''offered_total'')"
  using assms unfolding CaptureResult_from_mapping_def Let_def by (simp_all only: check_simps) simp_all

lemma capture_identity:
  assumes "capture_identity_checks d = None"
  shows "\<exists>s. get d ''state'' = PStr s" "get d ''valid'' = PNone \<longleftrightarrow> get d ''state'' = PStr ''ACTIVE''"
    "\<exists>m \<in> set CAPTURE_MODES. get d ''mode'' = PStr m"
proof -
  have checks: "valid_check (get d ''state'') (get d ''valid'') = None"
    "\<exists>s \<in> set [''ACTIVE'', ''FINALIZED'', ''TIMED_OUT'', ''ABORTED'']. get d ''state'' = PStr s"
    "\<exists>m \<in> set CAPTURE_MODES. get d ''mode'' = PStr m"
    using assms unfolding capture_identity_checks_def Let_def by (simp_all only: check_simps)
  then show "\<exists>s. get d ''state'' = PStr s" "\<exists>m \<in> set CAPTURE_MODES. get d ''mode'' = PStr m" by blast+
  show "get d ''valid'' = PNone \<longleftrightarrow> get d ''state'' = PStr ''ACTIVE''"
    using checks(1) by (auto simp: valid_check_def split: if_splits)
qed

lemma capture_counts:
  assumes "capture_count_checks d = None"
  shows "opt_nonneg (get d ''expected_total'')" "opt_nonneg (get d ''received_unique'')" "opt_nonneg (get d ''duplicates'')"
    "opt_nonneg (get d ''missing'')" "nonneg (get d ''unmatched_total'')" "nonneg (get d ''queue_overflow'')"
    "nonneg (get d ''received_total'')" "as_int (get d ''received_total'') \<le> as_int (get d ''offered_total'')"
  using assms unfolding capture_count_checks_def Let_def by (simp_all only: check_simps) simp_all

lemma static_set_facts:
  assumes "static_set_checks d = None" "capture_count_checks d = None"
  shows "\<exists>e u. get d ''expected_total'' = PInt e \<and> get d ''received_unique'' = PInt u \<and> get d ''missing'' = PInt (e - u)"
proof -
  have num: "get d ''expected_total'' \<noteq> PNone" "get d ''received_unique'' \<noteq> PNone" "get d ''missing'' \<noteq> PNone"
    "as_int (get d ''missing'') = as_int (get d ''expected_total'') - as_int (get d ''received_unique'')"
    using assms(1) unfolding static_set_checks_def Let_def by (simp_all only: check_simps) simp_all
  then show ?thesis using capture_counts(1,2,4) [OF assms(2)] by (auto simp: opt_nonneg_iff)
qed

text \<open>
  C27: validity of an accepted capture snapshot is determined, never chosen by the sender. It is
  undecided exactly while the capture is active; and it is true exactly for a finalized capture
  without invalid reasons or queue overflow whose truth is complete: every expected point received
  and none twice or unmatched in a static set, the sequence matched for events.
\<close>

theorem capture_validity_exact:
  assumes "CaptureResult_from_mapping d = Inr r"
  shows "(cr_valid r = None \<longleftrightarrow> cr_state r = ''ACTIVE'') \<and>
    (cr_valid r = Some True \<longleftrightarrow> cr_state r = ''FINALIZED'' \<and> cr_invalid_reasons r = [] \<and> cr_queue_overflow r = 0 \<and>
      (cr_mode r = ''static_set'' \<and> cr_received_unique r = cr_expected_total r \<and> cr_duplicates r = Some 0 \<and> cr_unmatched_total r = 0 \<or>
       cr_mode r = ''event_sequence'' \<and> cr_sequence_match r = Some True \<or> cr_mode r = ''observation''))"
proof -
  note checks = capture_result_checks [OF assms]
  note counts = capture_counts [OF checks(2)]
  obtain st where st: "get d ''state'' = PStr st" using capture_identity(1) [OF checks(1)] by blast
  obtain m where m: "get d ''mode'' = PStr m" "m \<in> set CAPTURE_MODES" using capture_identity(3) [OF checks(1)] by blast
  have active: "get d ''valid'' = PNone \<longleftrightarrow> st = ''ACTIVE''" using capture_identity(2) [OF checks(1)] st by simp
  have valid: "st \<noteq> ''ACTIVE'' \<Longrightarrow> get d ''valid'' = PBool (expected_valid d)" using checks(5) st by simp
  have match: "opt_bool (get d ''sequence_match'') = Some True \<longleftrightarrow> get d ''sequence_match'' = PBool True"
    by (cases "get d ''sequence_match''") (simp_all add: opt_bool_def)
  have static: "m = ''static_set'' \<Longrightarrow> get d ''missing'' = PInt 0 \<longleftrightarrow> opt_int (get d ''received_unique'') = opt_int (get d ''expected_total'')"
    using checks(2,4) static_set_facts [of d] m(1) by (auto simp: capture_mode_checks_def opt_int_def)
  have zero: "get d ''unmatched_total'' = PInt 0 \<longleftrightarrow> as_int (get d ''unmatched_total'') = 0"
    "get d ''queue_overflow'' = PInt 0 \<longleftrightarrow> as_int (get d ''queue_overflow'') = 0"
    "get d ''duplicates'' = PInt 0 \<longleftrightarrow> opt_int (get d ''duplicates'') = Some 0"
    using counts by (auto simp: nonneg_iff opt_nonneg_iff opt_int_def)
  have truth: "truth_complete d \<longleftrightarrow>
      m = ''static_set'' \<and> opt_int (get d ''received_unique'') = opt_int (get d ''expected_total'') \<and>
        opt_int (get d ''duplicates'') = Some 0 \<and> as_int (get d ''unmatched_total'') = 0 \<or>
      m = ''event_sequence'' \<and> opt_bool (get d ''sequence_match'') = Some True \<or> m = ''observation''"
    using m static zero match by (auto simp: truth_complete_def CAPTURE_MODES_def)
  have res: "opt_bool (get d ''valid'') = Some True \<longleftrightarrow> st = ''FINALIZED'' \<and> truth_complete d \<and>
      as_list (get d ''invalid_reasons'') = [] \<and> as_int (get d ''queue_overflow'') = 0"
    "opt_bool (get d ''valid'') = None \<longleftrightarrow> st = ''ACTIVE''"
    using active valid st zero(2) by (cases "st = ''ACTIVE''"; simp add: opt_bool_def expected_valid_def)+
  show ?thesis
    unfolding capture_result_fields [OF assms] st m(1) as_str.simps res truth by blast
qed

lemma event_manifest_facts:
  assumes "CaptureEventManifest a = Inr m"
  shows "em_event_total m = em_end_sequence m - em_start_sequence m + 1" "1 \<le> em_event_total m"
    "class_match is_lower_hex 64 64 (em_sha256 m)"
proof -
  have c: "as_int (get a ''end_sequence'') - as_int (get a ''start_sequence'') + 1 = as_int (get a ''event_total'')"
    "\<exists>i. get a ''event_total'' = PInt i \<and> 1 \<le> i \<and> i \<le> 1000000000" "class_match is_hex 64 64 (as_str (get a ''sha256''))"
    using assms unfolding CaptureEventManifest_def Let_def by (simp_all only: check_simps) simp_all
  then show "em_event_total m = em_end_sequence m - em_start_sequence m + 1" "1 \<le> em_event_total m"
    "class_match is_lower_hex 64 64 (em_sha256 m)"
    using assms lower_hex_match unfolding CaptureEventManifest_def Let_def by auto
qed

text \<open>
  A valid event capture is proved by external truth: it carries a well-formed manifest, the
  digest of what was received is the digest the manifest names, and as many events were received
  as its sequence numbers span. An observation never claims a truth: whatever its validity, it
  reports no expected total, and its scope says so.
\<close>

theorem capture_truth_external:
  assumes "CaptureResult_from_mapping d = Inr r"
  shows "(cr_mode r = ''event_sequence'' \<and> cr_valid r = Some True \<longrightarrow>
      (\<exists>m. CaptureEventManifest (as_dict (get d ''event_manifest'')) = Inr m \<and>
         cr_received_sequence_sha256 r = Some (em_sha256 m) \<and> class_match is_lower_hex 64 64 (em_sha256 m) \<and>
         cr_received_total r = em_end_sequence m - em_start_sequence m + 1 \<and> cr_expected_total r = Some (cr_received_total r))) \<and>
    (cr_mode r = ''observation'' \<longrightarrow> cr_expected_total r = None \<and> cr_missing r = None \<and>
       cr_completeness_scope r = PStr ''OBSERVATION_ONLY'')"
proof -
  note checks = capture_result_checks [OF assms]
  note fields = capture_result_fields [OF assms]
  obtain m where m: "get d ''mode'' = PStr m" using capture_identity(3) [OF checks(1)] by blast
  have "observation_checks d = None" "get d ''missing'' = PNone" if "m = ''observation''"
    using checks(4) m that by (simp_all add: capture_mode_checks_def)
  then have obs: "m = ''observation'' \<Longrightarrow> get d ''expected_total'' = PNone \<and> get d ''missing'' = PNone \<and>
      get d ''completeness_scope'' = PStr ''OBSERVATION_ONLY''"
    unfolding observation_checks_def by (simp only: check_simps) blast
  have ev: "\<exists>mf. CaptureEventManifest (as_dict (get d ''event_manifest'')) = Inr mf \<and>
      get d ''received_sequence_sha256'' = PStr (em_sha256 mf) \<and> get d ''received_total'' = PInt (em_event_total mf) \<and>
      get d ''expected_total'' = PInt (em_event_total mf)"
    if "m = ''event_sequence''" "opt_bool (get d ''valid'') = Some True"
  proof -
    have events: "event_sequence_checks d = None" using checks(4) m that(1) by (simp add: capture_mode_checks_def)
    have "get d ''valid'' = PBool True" using that(2) by (cases "get d ''valid''") (simp_all add: opt_bool_def)
    then have "expected_valid d" using capture_identity(2) [OF checks(1)] checks(5) by auto
    then have "get d ''sequence_match'' = PBool True" using m that(1) by (simp add: expected_valid_def truth_complete_def)
    then have proof_check: "sequence_proof_check d mf = None \<longleftrightarrow> get d ''received_sequence_sha256'' = PStr (em_sha256 mf) \<and>
        get d ''received_total'' = PInt (em_event_total mf) \<and>
        get d ''completeness_scope'' = PStr ''EXTERNAL_EVENT_MANIFEST_MATCHED'' \<and> get d ''unknown_reason'' = PNone" for mf
      by (simp add: sequence_proof_check_def) blast
    show ?thesis
      using events unfolding event_sequence_checks_def Let_def by (simp only: check_simps proof_check) blast
  qed
  show ?thesis
    unfolding fields m as_str.simps using ev obs event_manifest_facts
    by (fastforce simp only: opt_str_def opt_int_def is_str.simps is_int.simps as_str.simps as_int.simps if_True if_False)
qed

section \<open>Instances\<close>

definition sample_manifest :: dict where
  "sample_manifest =
     [(''generator'', PStr ''sim''), (''generator_version'', PStr ''1''), (''scenario_id'', PStr ''s''), (''seed'', PInt 0),
      (''start_sequence'', PInt 5), (''end_sequence'', PInt 6), (''event_total'', PInt 2),
      (''sha256'', PStr (replicate 64 (CHR ''A''))), (''match_rule'', PStr ''ordered_kind_index_value'')]"

definition sample_capture :: "pyval \<Rightarrow> dict" where
  "sample_capture duration =
     [(''capture_id'', PStr ''capture-1''), (''session_id'', PInt 3), (''state'', PStr ''FINALIZED''), (''valid'', PBool True),
      (''mode'', PStr ''event_sequence''), (''sources'', PList [PStr ''unsolicited'']), (''expected_total'', PInt 2),
      (''offered_total'', PInt 2), (''received_total'', PInt 2), (''received_unique'', PNone), (''duplicates'', PNone),
      (''missing'', PNone), (''unmatched_total'', PInt 0), (''fragments_total'', PInt 1), (''duration_ms'', duration),
      (''throughput_per_sec'', PFloat (Fin 1)), (''current_queue_depth'', PInt 0), (''max_queue_depth'', PInt 2),
      (''queue_capacity'', PInt 16), (''queue_overflow'', PInt 0), (''discarded_on_abort'', PInt 0),
      (''invalid_reasons'', PList []), (''completeness_scope'', PStr ''EXTERNAL_EVENT_MANIFEST_MATCHED''),
      (''unknown_reason'', PNone), (''received_sequence_sha256'', PStr (replicate 64 (CHR ''a''))),
      (''sequence_match'', PBool True), (''canonical_record_format'', PStr CANONICAL_FORMAT),
      (''mismatch_sample'', PList []), (''mismatch_sample_limit'', PInt 10), (''by_kind'', PDict []),
      (''by_group_variation'', PDict []), (''timings'', PDict []),
      (''event_manifest'', PDict sample_manifest)]"

lemma sample_manifest_accepted:
  "\<exists>m. CaptureEventManifest sample_manifest = Inr m \<and> em_sha256 m = replicate 64 (CHR ''a'') \<and> em_event_total m = 2"
proof -
  have "get sample_manifest ''generator'' = PStr ''sim''" "get sample_manifest ''generator_version'' = PStr ''1''"
    "get sample_manifest ''scenario_id'' = PStr ''s''" "get sample_manifest ''seed'' = PInt 0"
    "get sample_manifest ''start_sequence'' = PInt 5" "get sample_manifest ''end_sequence'' = PInt 6"
    "get sample_manifest ''event_total'' = PInt 2" "get sample_manifest ''sha256'' = PStr (replicate 64 (CHR ''A''))"
    "get sample_manifest ''match_rule'' = PStr ''ordered_kind_index_value''" by code_simp+
  moreover have "class_match is_hex 64 64 (replicate 64 (CHR ''A'')) = True"
    "ascii_lower (replicate 64 (CHR ''A'')) = replicate 64 (CHR ''a'')"
    "list_all is_printable ''sim'' = True" "list_all is_printable ''1'' = True" "list_all is_printable ''s'' = True" by code_simp+
  ultimately show ?thesis
    unfolding CaptureEventManifest_def Let_def by (simp only: check_simps) simp
qed

lemma sample_capture_accepted:
  "\<exists>r. CaptureResult_from_mapping (sample_capture (PFloat (Fin 7))) = Inr r"
proof -
  let ?d = "sample_capture (PFloat (Fin 7))"
  obtain m where m: "CaptureEventManifest sample_manifest = Inr m" "em_sha256 m = replicate 64 (CHR ''a'')" "em_event_total m = 2"
    using sample_manifest_accepted by blast
  have gets: "get ?d ''event_manifest'' = PDict sample_manifest" "get ?d ''mode'' = PStr ''event_sequence''"
    "get ?d ''expected_total'' = PInt 2" "get ?d ''canonical_record_format'' = PStr CANONICAL_FORMAT"
    "get ?d ''received_total'' = PInt 2" "get ?d ''received_sequence_sha256'' = PStr (replicate 64 (CHR ''a''))"
    "get ?d ''sequence_match'' = PBool True" "get ?d ''unknown_reason'' = PNone"
    "get ?d ''completeness_scope'' = PStr ''EXTERNAL_EVENT_MANIFEST_MATCHED''" "same_keys sample_manifest MANIFEST_FIELDS = True"
    "list_ex (\<lambda>f. get ?d f \<noteq> PNone) [''received_unique'', ''duplicates'', ''missing''] = False" by code_simp+
  have "event_sequence_checks ?d = None"
    unfolding event_sequence_checks_def Let_def gets as_dict.simps is_dict.simps m(1)
    by (simp add: m gets bindE_def checked_def exc_of_def first_error.simps raise_if_def sequence_proof_check_def)
  then have "capture_mode_checks ?d = None" unfolding capture_mode_checks_def gets by simp
  moreover have "capture_identity_checks ?d = None" "capture_count_checks ?d = None" "capture_collection_checks ?d = None"
    "for_each (duration_field_check ?d) [''duration_ms'', ''throughput_per_sec''] = None"
    "get ?d ''valid'' = PBool True" "expected_valid ?d = True" by code_simp+
  ultimately show ?thesis unfolding CaptureResult_from_mapping_def Let_def by (simp only: check_simps) simp
qed

lemma sample_capture_overflow:
  assumes "binary64 (of_int i) = PosInf"
  shows "CaptureResult_from_mapping (sample_capture (PInt i)) = Inl (OverflowError ''int too large to convert to float'')"
proof -
  let ?d = "sample_capture (PInt i)"
  have "capture_identity_checks ?d = None" "capture_count_checks ?d = None" by code_simp+
  moreover have "get ?d ''duration_ms'' = PInt i" by code_simp
  then have "for_each (duration_field_check ?d) [''duration_ms'', ''throughput_per_sec''] =
      Some (OverflowError ''int too large to convert to float'')"
    using assms by (simp add: for_each_def first_error.simps duration_field_check_def Let_def)
  ultimately show ?thesis by (simp add: CaptureResult_from_mapping_def Let_def first_error.simps)
qed

text \<open>
  A snapshot whose duration is an integer beyond the range of binary64 is not rejected with
  one of the exceptions the client turns into a protocol error: \<open>float\<close> raises \<open>OverflowError\<close>.
\<close>

theorem capture_duration_overflow:
  "CaptureResult_from_mapping (sample_capture (PInt (2 ^ 1024))) = Inl (OverflowError ''int too large to convert to float'')"
proof (rule sample_capture_overflow)
  have "binary64 (2 ^ 1024) = PosInf" using binary64_scaled [of 1 1024] by simp
  then show "binary64 (of_int (2 ^ 1024)) = PosInf" by (simp only: of_int_power of_int_numeral)
qed

theorem capture_validity_exact_witness:
  "\<exists>r. CaptureResult_from_mapping (sample_capture (PFloat (Fin 7))) = Inr r \<and> cr_valid r = Some True \<and>
     cr_state r = ''FINALIZED'' \<and> cr_queue_overflow r = 0"
proof -
  obtain r where r: "CaptureResult_from_mapping (sample_capture (PFloat (Fin 7))) = Inr r"
    using sample_capture_accepted by blast
  have "opt_bool (get (sample_capture (PFloat (Fin 7))) ''valid'') = Some True" by code_simp
  then have "cr_valid r = Some True" by (simp add: capture_result_fields [OF r])
  then show ?thesis using r capture_validity_exact [OF r] by blast
qed

theorem capture_truth_external_witness:
  "\<exists>r m. CaptureResult_from_mapping (sample_capture (PFloat (Fin 7))) = Inr r \<and>
     CaptureEventManifest (as_dict (get (sample_capture (PFloat (Fin 7))) ''event_manifest'')) = Inr m \<and>
     cr_received_sequence_sha256 r = Some (em_sha256 m)"
proof -
  obtain r where r: "CaptureResult_from_mapping (sample_capture (PFloat (Fin 7))) = Inr r"
    using sample_capture_accepted by blast
  have "opt_bool (get (sample_capture (PFloat (Fin 7))) ''valid'') = Some True"
    "as_str (get (sample_capture (PFloat (Fin 7))) ''mode'') = ''event_sequence''" by code_simp+
  then have "cr_valid r = Some True" "cr_mode r = ''event_sequence''" by (simp_all add: capture_result_fields [OF r])
  then show ?thesis using r capture_truth_external [OF r] by blast
qed

end
