(* ===== verification/ClientOps.thy ===== *)
theory ClientOps
  imports ClientCore CaptureResults
begin

text \<open>
  The typed operations of \<open>Dnp3MasterClient\<close> that do not control the device: connecting, status and events,
  reads, unsolicited responses, captures and the protocol trace. Each validates its arguments, sends one
  request and validates the result; a malformed result ends the session.
\<close>

section \<open>Arguments\<close>

text \<open>An argument that should be an object of one class; a sequence of such objects.\<close>

datatype 'a obj_arg = Absent | Object 'a | Other_Object

datatype 'a seq_arg = Seq_Text | Seq_Not_Iterable | Seq "'a option list"

text \<open>The number that the literal \<open>0.05\<close> denotes.\<close>

definition FIVE_HUNDREDTHS :: rat where
  "FIVE_HUNDREDTHS = 3602879701896397 / 2 ^ 56"

definition seconds_arg :: "pyval \<Rightarrow> rat \<Rightarrow> rat \<Rightarrow> string \<Rightarrow> pyexc + rat" where
  "seconds_arg v lo hi message = (case finite_number v of
     Some q \<Rightarrow> if lo \<le> q \<and> q \<le> hi then Inr q else Inl (ValueError message)
   | None \<Rightarrow> Inl (ValueError message))"

definition int_arg :: "pyval \<Rightarrow> int \<Rightarrow> int \<Rightarrow> string \<Rightarrow> pyexc + int" where
  "int_arg v lo hi message = checked (raise_if (\<not> is_int v \<or> \<not> (lo \<le> as_int v \<and> as_int v \<le> hi)) (ValueError message)) (as_int v)"

text \<open>\<open>round(seconds * 1000)\<close>\<close>

definition to_ms :: "rat \<Rightarrow> int" where
  "to_ms q = (case binary64 (q * 1000) of Fin p \<Rightarrow> round_half_even p | _ \<Rightarrow> 0)"

text \<open>
  \<open>max(self.config.request_timeout, seconds + 1.0) if request_timeout is None else request_timeout\<close>; numbers
  compare by value.
\<close>

fun number_value :: "pyval \<Rightarrow> rat" where
  "number_value (PInt i) = of_int i"
| "number_value (PFloat (Fin q)) = q"
| "number_value _ = 0"

definition exchange_timeout :: "client \<Rightarrow> rat \<Rightarrow> pyval \<Rightarrow> pyval" where
  "exchange_timeout c seconds request_timeout =
     (if request_timeout \<noteq> PNone then request_timeout
      else let configured = ha_request_timeout (cl_config c); needed = PFloat (binary64 (seconds + 1)) in
        if number_value needed > number_value configured then needed else configured)"

section \<open>Results\<close>

definition mapping_result :: "string \<Rightarrow> pyval \<Rightarrow> client \<Rightarrow> dict result" where
  "mapping_result command v c =
     (if is_dict v then (Inr (as_dict v), c)
      else (Inl (protocol_error (command @ '' result must be an object'')), abort_process c (command @ '' returned a non-object result'')))"

text \<open>\<open>except (TypeError, ValueError, KeyError, RecursionError)\<close>\<close>

fun result_error :: "pyexc \<Rightarrow> bool" where
  "result_error (OverflowError _) = False"
| "result_error (AssertionError _) = False"
| "result_error _ = True"

definition parsed_result :: "string \<Rightarrow> string \<Rightarrow> pyexc + 'a \<Rightarrow> client \<Rightarrow> 'a result" where
  "parsed_result command what r c = (case r of
     Inr v \<Rightarrow> (Inr v, c)
   | Inl e \<Rightarrow> if result_error e
       then (Inl (protocol_error (command @ '' result is invalid: '' @ pyexc_text e)), abort_process c (command @ '' returned an invalid '' @ what))
       else (Inl (Client_Python e), c))"

text \<open>One typed request: send, demand an object, parse it.\<close>

definition typed_request ::
    "(rat \<Rightarrow> string) \<Rightarrow> exchange_env \<Rightarrow> client \<Rightarrow> string \<Rightarrow> dict \<Rightarrow> pyval \<Rightarrow> string \<Rightarrow> (dict \<Rightarrow> pyexc + 'a) \<Rightarrow> 'a result" where
  "typed_request repr x c command params timeout what parse =
     andthen (request_locked repr x c (PStr command) params timeout) (\<lambda>v c.
     andthen (mapping_result command v c) (\<lambda>d c. parsed_result command what (parse d) c))"

section \<open>Status and events\<close>

definition get_status :: "(rat \<Rightarrow> string) \<Rightarrow> exchange_env \<Rightarrow> client \<Rightarrow> pyval \<Rightarrow> dict result" where
  "get_status repr x c timeout = typed_request repr x c ''get_status'' [] timeout ''result'' Inr"

definition get_stats :: "(rat \<Rightarrow> string) \<Rightarrow> exchange_env \<Rightarrow> client \<Rightarrow> pyval \<Rightarrow> dict result" where
  "get_stats repr x c timeout = typed_request repr x c ''stats'' [] timeout ''result'' Inr"

text \<open>The arguments \<open>wait_timeout\<close> and \<open>max_events\<close> that both waiting operations share.\<close>

definition wait_args :: "pyval \<Rightarrow> pyval \<Rightarrow> pyexc + rat \<times> int" where
  "wait_args wait_timeout max_events =
     bindE (seconds_arg wait_timeout 0 60 ''wait_timeout must be between 0 and 60 seconds'') (\<lambda>seconds.
     bindE (int_arg max_events 1 256 ''max_events must be an integer between 1 and 256'') (\<lambda>n. Inr (seconds, n)))"

definition wait_params :: "rat \<Rightarrow> int \<Rightarrow> dict" where
  "wait_params seconds n = [(''timeout_ms'', PInt (to_ms seconds)), (''max_events'', PInt n)]"

definition wait_event :: "(rat \<Rightarrow> string) \<Rightarrow> exchange_env \<Rightarrow> client \<Rightarrow> pyval \<Rightarrow> pyval \<Rightarrow> pyval \<Rightarrow> dict result" where
  "wait_event repr x c wait_timeout max_events request_timeout =
     andthen (lift_python (wait_args wait_timeout max_events) c) (\<lambda>(seconds, n) c.
       typed_request repr x c ''wait_event'' (wait_params seconds n) (exchange_timeout c seconds request_timeout) ''result'' Inr)"

section \<open>Connecting\<close>

text \<open>The safety metadata of a connect result is consistent with what was asked for.\<close>

definition safety_consistent :: "tcp_config \<Rightarrow> dict \<Rightarrow> bool" where
  "safety_consistent config safety \<longleftrightarrow>
     (let authorized = get safety ''state_change_authorized''; yes = (authorized = PBool True);
          token = get safety ''safety_token''; environment = get safety ''environment'' in
      is_bool authorized \<and>
      (yes \<longrightarrow> is_str token \<and> class_match is_hex 32 32 (as_str token)) \<and>
      (\<not> yes \<longrightarrow> token = PNone) \<and>
      (yes \<and> \<not> tcp_simulator config \<longrightarrow> (\<exists>s \<in> set_option (tcp_safety config). ls_allow_state_change s)) \<and>
      (tcp_simulator config \<longrightarrow> yes \<and> environment = PStr ''SIMULATOR'') \<and>
      (\<not> tcp_simulator config \<longrightarrow> environment \<noteq> PStr ''SIMULATOR''))"

text \<open>What the caller sees: the result without the token.\<close>

definition public_result :: "dict \<Rightarrow> dict" where
  "public_result d = dict_set ''safety''
     (PDict (dict_set ''token_exposed'' (PBool False) (dict_del ''safety_token'' (as_dict (get d ''safety''))))) d"

definition connected :: "tcp_config \<Rightarrow> dict \<Rightarrow> client \<Rightarrow> dict result" where
  "connected config d c =
     (let safety = as_dict (get d ''safety''); reason = ''connect returned invalid safety metadata'' in
      if \<not> is_dict (get d ''safety'') then (Inl (protocol_error ''connect result safety must be an object''), abort_process c reason)
      else if \<not> safety_consistent config safety
      then (Inl (protocol_error ''connect result contains inconsistent safety authorization''), abort_process c reason)
      else let authorized = (get safety ''state_change_authorized'' = PBool True) in
        (Inr (public_result d),
         c\<lparr>cl_token := (if authorized then Some (as_str (get safety ''safety_token'')) else None),
           cl_simulator := tcp_simulator config,
           cl_dut := (if authorized then map_option ls_dut_id (tcp_safety config) else None)\<rparr>))"

definition connect :: "(rat \<Rightarrow> string) \<Rightarrow> exchange_env \<Rightarrow> client \<Rightarrow> tcp_config obj_arg \<Rightarrow> pyval \<Rightarrow> dict result" where
  "connect repr x c config timeout = (case config of
     Object cfg \<Rightarrow>
       andthen (lift_python (TcpConnectionConfig_to_params cfg) c) (\<lambda>params c.
       andthen (typed_request repr x c ''connect'' params
         (exchange_timeout c (the (finite_number (tcp_connect_timeout cfg))) timeout) ''result'' Inr)
         (connected cfg))
   | _ \<Rightarrow> (Inl (Client_Python (TypeError ''config must be a TcpConnectionConfig'')), c))"

definition disconnect :: "(rat \<Rightarrow> string) \<Rightarrow> exchange_env \<Rightarrow> client \<Rightarrow> pyval \<Rightarrow> dict result" where
  "disconnect repr x c timeout =
     andthen (typed_request repr x c ''disconnect'' [] timeout ''result'' Inr) (\<lambda>d c. (Inr d, c\<lparr>cl_token := None\<rparr>))"

section \<open>Reads and unsolicited responses\<close>

definition read_options :: "pyval \<Rightarrow> pyval \<Rightarrow> pyval \<Rightarrow> pyexc + dict \<times> rat" where
  "read_options timeout max_measurements return_mode =
     bindE (seconds_arg timeout FIVE_HUNDREDTHS 300 ''timeout must be between 0.05 and 300 seconds'') (\<lambda>seconds.
     bindE (int_arg max_measurements 1 1000000 ''max_measurements must be an integer between 1 and 1000000'') (\<lambda>n.
     checked (check_member return_mode [''detail'', ''summary''] (ValueError (''return_mode must be '' @ quoted ''detail'' @ '' or '' @ quoted ''summary'')))
       ([(''timeout_ms'', PInt (to_ms seconds)), (''max_measurements'', PInt n), (''return_mode'', return_mode)], seconds)))"

definition read_task_result ::
    "(rat \<Rightarrow> string) \<Rightarrow> exchange_env \<Rightarrow> client \<Rightarrow> string \<Rightarrow> dict \<Rightarrow> rat \<Rightarrow> pyval \<Rightarrow> read_result result" where
  "read_task_result repr x c command params task_timeout request_timeout =
     typed_request repr x c command params (exchange_timeout c task_timeout request_timeout) ''read result'' ReadTaskResult_from_mapping"

definition integrity_poll :: "(rat \<Rightarrow> string) \<Rightarrow> exchange_env \<Rightarrow> client \<Rightarrow> pyval \<Rightarrow> pyval \<Rightarrow> pyval \<Rightarrow> pyval \<Rightarrow> read_result result" where
  "integrity_poll repr x c timeout max_measurements return_mode request_timeout =
     andthen (lift_python (read_options timeout max_measurements return_mode) c) (\<lambda>(params, seconds) c.
       read_task_result repr x c ''integrity_poll'' params seconds request_timeout)"

text \<open>Iterating over an argument: texts are refused first, a dictionary yields its keys.\<close>

fun sequence_items :: "pyval \<Rightarrow> string \<Rightarrow> pyexc + pyval list" where
  "sequence_items (PStr s) message = Inl (TypeError message)"
| "sequence_items (PList vs) message = Inr vs"
| "sequence_items (PDict d) message = Inr (map (PStr \<circ> fst) d)"
| "sequence_items v message = Inl (TypeError ''object is not iterable'')"

definition event_classes :: "pyval \<Rightarrow> pyexc + pyval list" where
  "event_classes classes =
     bindE (sequence_items classes ''classes must be a sequence containing 1, 2, and/or 3'') (\<lambda>vs. checked (first_error
       [raise_if (\<not> (1 \<le> length vs \<and> length vs \<le> 3)) (ValueError ''classes must contain between one and three items''),
        raise_if (list_ex (\<lambda>v. v \<notin> {PInt 1, PInt 2, PInt 3}) vs) (ValueError ''classes may contain only the integers 1, 2, and 3''),
        raise_if (\<not> distinct vs) (ValueError ''classes must not contain duplicate values'')]) vs)"

definition class_poll :: "(rat \<Rightarrow> string) \<Rightarrow> exchange_env \<Rightarrow> client \<Rightarrow> pyval \<Rightarrow> pyval \<Rightarrow> pyval \<Rightarrow> pyval \<Rightarrow> pyval \<Rightarrow> read_result result" where
  "class_poll repr x c classes timeout max_measurements return_mode request_timeout =
     andthen (lift_python (bindE (event_classes classes) (\<lambda>vs.
       bindE (read_options timeout max_measurements return_mode) (\<lambda>(params, seconds).
         Inr (dict_set ''classes'' (PList vs) params, seconds)))) c) (\<lambda>(params, seconds) c.
       read_task_result repr x c ''class_poll'' params seconds request_timeout)"

fun header_items :: "read_header seq_arg \<Rightarrow> pyexc + read_header list" where
  "header_items Seq_Text = Inl (TypeError ''headers must be a sequence of ReadHeader objects'')"
| "header_items Seq_Not_Iterable = Inl (TypeError ''object is not iterable'')"
| "header_items (Seq hs) = checked (first_error
     [raise_if (\<not> (1 \<le> length hs \<and> length hs \<le> 64)) (ValueError ''headers must contain between one and 64 items''),
      raise_if (None \<in> set hs) (TypeError ''every header must be a ReadHeader'')]) (map the hs)"

definition read_headers ::
    "(rat \<Rightarrow> string) \<Rightarrow> exchange_env \<Rightarrow> client \<Rightarrow> read_header seq_arg \<Rightarrow> pyval \<Rightarrow> pyval \<Rightarrow> pyval \<Rightarrow> pyval \<Rightarrow> read_result result" where
  "read_headers repr x c headers timeout max_measurements return_mode request_timeout =
     andthen (lift_python (bindE (header_items headers) (\<lambda>hs.
       bindE (read_options timeout max_measurements return_mode) (\<lambda>(params, seconds).
         Inr (dict_set ''headers'' (PList (map (PDict \<circ> ReadHeader_to_params) hs)) params, seconds)))) c) (\<lambda>(params, seconds) c.
       read_task_result repr x c ''read'' params seconds request_timeout)"

definition unsolicited_control ::
    "(rat \<Rightarrow> string) \<Rightarrow> exchange_env \<Rightarrow> client \<Rightarrow> string \<Rightarrow> pyval \<Rightarrow> pyval \<Rightarrow> pyval \<Rightarrow> control_result result" where
  "unsolicited_control repr x c command classes timeout request_timeout =
     andthen (lift_python (bindE (event_classes classes) (\<lambda>vs.
       bindE (seconds_arg timeout FIVE_HUNDREDTHS 300 ''timeout must be between 0.05 and 300 seconds'') (\<lambda>seconds. Inr (vs, seconds)))) c)
       (\<lambda>(vs, seconds) c. typed_request repr x c command [(''timeout_ms'', PInt (to_ms seconds)), (''classes'', PList vs)]
          (exchange_timeout c seconds request_timeout) ''result'' UnsolicitedControlResult_from_mapping)"

definition enable_unsolicited ::
    "(rat \<Rightarrow> string) \<Rightarrow> exchange_env \<Rightarrow> client \<Rightarrow> pyval \<Rightarrow> pyval \<Rightarrow> pyval \<Rightarrow> control_result result" where
  "enable_unsolicited repr x c = unsolicited_control repr x c ''enable_unsolicited''"

definition disable_unsolicited ::
    "(rat \<Rightarrow> string) \<Rightarrow> exchange_env \<Rightarrow> client \<Rightarrow> pyval \<Rightarrow> pyval \<Rightarrow> pyval \<Rightarrow> control_result result" where
  "disable_unsolicited repr x c = unsolicited_control repr x c ''disable_unsolicited''"

definition wait_unsolicited ::
    "(rat \<Rightarrow> string) \<Rightarrow> exchange_env \<Rightarrow> client \<Rightarrow> pyval \<Rightarrow> pyval \<Rightarrow> pyval \<Rightarrow> unsolicited_batch result" where
  "wait_unsolicited repr x c wait_timeout max_events request_timeout =
     andthen (lift_python (wait_args wait_timeout max_events) c) (\<lambda>(seconds, n) c.
       typed_request repr x c ''wait_unsolicited'' (wait_params seconds n) (exchange_timeout c seconds request_timeout)
         ''result'' UnsolicitedBatchResult_from_mapping)"

section \<open>Captures\<close>

definition capture_id_arg :: "pyval \<Rightarrow> pyexc + string" where
  "capture_id_arg v = checked (raise_if (\<not> is_str v \<or> str_len (as_str v) > 64 \<or> as_str v = [] \<or> \<not> list_all token_char (as_str v))
     (ValueError ''capture_id must be a 1-64 byte ASCII token'')) (as_str v)"

definition capture_request ::
    "(rat \<Rightarrow> string) \<Rightarrow> exchange_env \<Rightarrow> client \<Rightarrow> string \<Rightarrow> dict \<Rightarrow> pyval \<Rightarrow> capture_result result" where
  "capture_request repr x c command params request_timeout =
     typed_request repr x c command params request_timeout ''capture result'' CaptureResult_from_mapping"

definition begin_capture ::
    "(rat \<Rightarrow> string) \<Rightarrow> exchange_env \<Rightarrow> client \<Rightarrow> capture_config obj_arg \<Rightarrow> pyval \<Rightarrow> capture_result result" where
  "begin_capture repr x c config request_timeout = (case config of
     Object cfg \<Rightarrow> andthen (lift_python (CaptureConfig_to_params cfg) c) (\<lambda>params c.
       capture_request repr x c ''capture.begin'' params request_timeout)
   | _ \<Rightarrow> (Inl (Client_Python (TypeError ''config must be a CaptureConfig'')), c))"

definition capture_progress :: "(rat \<Rightarrow> string) \<Rightarrow> exchange_env \<Rightarrow> client \<Rightarrow> pyval \<Rightarrow> pyval \<Rightarrow> capture_result result" where
  "capture_progress repr x c capture_id request_timeout =
     andthen (lift_python (capture_id_arg capture_id) c) (\<lambda>i c.
       capture_request repr x c ''capture.progress'' [(''capture_id'', PStr i)] request_timeout)"

definition end_capture :: "(rat \<Rightarrow> string) \<Rightarrow> exchange_env \<Rightarrow> client \<Rightarrow> pyval \<Rightarrow> pyval \<Rightarrow> pyval \<Rightarrow> capture_result result" where
  "end_capture repr x c capture_id drain_timeout request_timeout =
     andthen (lift_python (bindE (capture_id_arg capture_id) (\<lambda>i.
       bindE (seconds_arg drain_timeout FIVE_HUNDREDTHS 300 ''drain_timeout must be between 0.05 and 300 seconds'') (\<lambda>seconds.
         Inr (i, seconds)))) c) (\<lambda>(i, seconds) c.
       capture_request repr x c ''capture.end'' [(''capture_id'', PStr i), (''drain_timeout_ms'', PInt (to_ms seconds))]
         (exchange_timeout c seconds request_timeout))"

section \<open>The protocol trace\<close>

definition TRACE_COMMANDS :: "string list" where
  "TRACE_COMMANDS = [''trace.start'', ''trace.read'', ''trace.stop'']"

text \<open>A trace that was just started is active and empty and has the capacity that was asked for.\<close>

definition new_summary :: "trace_config \<Rightarrow> pyval \<Rightarrow> pyexc + trace_summary" where
  "new_summary config v = bindE (TraceSummary_from_dict v) (\<lambda>s.
     checked (raise_if (ts_state s \<noteq> ''ACTIVE'' \<or> ts_queue_capacity s \<noteq> tc_queue_capacity config \<or> ts_queued_records s \<noteq> 0 \<or>
       ts_last_sequence s \<noteq> 0 \<or> \<not> ts_complete s) (ValueError ''new trace must be ACTIVE and empty'')) s)"

definition validate_trace_counters :: "trace_summary \<Rightarrow> trace_summary \<Rightarrow> pyexc option" where
  "validate_trace_counters previous current =
     raise_if (ts_queue_capacity current \<noteq> ts_queue_capacity previous \<or> ts_last_sequence current < ts_last_sequence previous \<or>
       ts_dropped_records current < ts_dropped_records previous \<or> ts_truncated_records current < ts_truncated_records previous)
       (ValueError ''trace capacity changed or monotonic counters regressed'')"

definition begin_trace :: "(rat \<Rightarrow> string) \<Rightarrow> exchange_env \<Rightarrow> client \<Rightarrow> trace_config \<Rightarrow> pyval \<Rightarrow> trace_summary result" where
  "begin_trace repr x c config request_timeout =
     andthen (hello_info c) (\<lambda>hello c.
       if \<not> list_all (\<lambda>k. PStr k \<in> set (as_list (get hello ''supported_commands''))) TRACE_COMMANDS
       then (Inl (Client_State ''host does not advertise protocol trace; rebuild or install the matching native host before calling start_trace''), c)
       else andthen (request_locked repr x c (PStr ''trace.start'') (TraceConfig_to_params config) request_timeout) (\<lambda>v c.
         andthen (parsed_result ''trace.start'' ''result'' (new_summary config v) c) (\<lambda>s c.
           (Inr s, c\<lparr>cl_decoder := reset, cl_trace := Some s\<rparr>))))"

definition start_trace :: "(rat \<Rightarrow> string) \<Rightarrow> exchange_env \<Rightarrow> client \<Rightarrow> trace_config obj_arg \<Rightarrow> pyval \<Rightarrow> trace_summary result" where
  "start_trace repr x c config request_timeout = (case config of
     Absent \<Rightarrow> begin_trace repr x c \<lparr>tc_queue_capacity = 16384\<rparr> request_timeout
   | Object cfg \<Rightarrow> begin_trace repr x c cfg request_timeout
   | Other_Object \<Rightarrow> (Inl (Client_Python (TypeError ''config must be a TraceConfig'')), c))"

text \<open>The checks of a batch before it is decoded.\<close>

definition batch_checks :: "trace_summary \<Rightarrow> int \<Rightarrow> pyval \<Rightarrow> pyexc option" where
  "batch_checks previous max_records v =
     (let d = as_dict v in first_error
       [raise_if (\<not> is_dict v) (ValueError ''trace batch must be an object''),
        raise_if (get d ''trace_id'' \<noteq> (case ts_trace_id previous of Some i \<Rightarrow> PStr i | None \<Rightarrow> PNone))
          (ValueError ''trace_id does not match the active trace''),
        raise_if (\<not> eq_int (get d ''queue_capacity'') (ts_queue_capacity previous)) (ValueError ''trace queue_capacity changed''),
        raise_if (ts_state previous = ''STOPPED'' \<and> get d ''state'' \<noteq> PStr ''STOPPED'') (ValueError ''stopped trace became active''),
        raise_if (\<not> is_list (get d ''records'') \<or> int (length (as_list (get d ''records''))) > max_records)
          (ValueError ''trace exceeded the requested batch limit'')])"

text \<open>Decoding and the comparison of counters; the decoder keeps what it consumed even when the batch is refused.\<close>

definition decode_trace :: "trace_summary \<Rightarrow> int \<Rightarrow> pyval \<Rightarrow> decoder \<Rightarrow> (pyexc + trace_batch) \<times> decoder" where
  "decode_trace previous max_records v decoder =
     (case batch_checks previous max_records v of
        Some e \<Rightarrow> (Inl e, decoder)
      | None \<Rightarrow> (case decode_batch decoder v of
          (Inl e, decoder) \<Rightarrow> (Inl e, decoder)
        | (Inr b, decoder) \<Rightarrow> (checked (validate_trace_counters previous (tb_summary b)) b, decoder)))"

definition read_trace_args :: "pyval \<Rightarrow> pyval \<Rightarrow> pyval \<Rightarrow> pyexc + int \<times> rat" where
  "read_trace_args max_records timeout require_complete =
     bindE (int_arg max_records 1 1024 ''max_records must be an integer between 1 and 1024'') (\<lambda>n.
     bindE (seconds_arg timeout 0 60 ''timeout must be between 0 and 60 seconds'') (\<lambda>seconds.
     checked (raise_if (\<not> is_bool require_complete) (TypeError ''require_complete must be a bool'')) (n, seconds)))"

text \<open>A batch that is not complete is kept in the state and raised when completeness was asked for.\<close>

definition trace_read_result :: "trace_summary \<Rightarrow> int \<Rightarrow> pyval \<Rightarrow> pyval \<Rightarrow> client \<Rightarrow> trace_batch result" where
  "trace_read_result previous max_records require_complete v c =
     (case decode_trace previous max_records v (cl_decoder c) of (r, decoder) \<Rightarrow>
        andthen (parsed_result ''trace.read'' ''result'' r (c\<lparr>cl_decoder := decoder\<rparr>)) (\<lambda>b c.
          (if require_complete = PBool True \<and> assert_complete b \<noteq> None then Inl (Trace_Incomplete b) else Inr b,
           c\<lparr>cl_trace := Some (tb_summary b)\<rparr>)))"

definition read_trace ::
    "(rat \<Rightarrow> string) \<Rightarrow> exchange_env \<Rightarrow> client \<Rightarrow> pyval \<Rightarrow> pyval \<Rightarrow> pyval \<Rightarrow> pyval \<Rightarrow> trace_batch result" where
  "read_trace repr x c max_records timeout require_complete request_timeout =
     andthen (lift_python (read_trace_args max_records timeout require_complete) c) (\<lambda>(n, seconds) c. case cl_trace c of
       None \<Rightarrow> (Inl (Client_State ''call start_trace before read_trace''), c)
     | Some previous \<Rightarrow>
         andthen (request_locked repr x c (PStr ''trace.read'')
           [(''trace_id'', case ts_trace_id previous of Some i \<Rightarrow> PStr i | None \<Rightarrow> PNone), (''max_records'', PInt n),
            (''timeout_ms'', PInt (to_ms seconds))] (exchange_timeout c seconds request_timeout)) (\<lambda>v c.
         trace_read_result previous n require_complete v c))"

definition stopped_summary :: "trace_summary \<Rightarrow> pyval \<Rightarrow> pyexc + trace_summary" where
  "stopped_summary previous v = bindE (TraceSummary_from_dict v) (\<lambda>s. checked (first_error
     [raise_if (ts_trace_id s \<noteq> ts_trace_id previous \<or> ts_state s \<noteq> ''STOPPED'') (ValueError ''trace.stop returned an unexpected trace/state''),
      validate_trace_counters previous s]) s)"

definition stop_trace :: "(rat \<Rightarrow> string) \<Rightarrow> exchange_env \<Rightarrow> client \<Rightarrow> pyval \<Rightarrow> trace_summary result" where
  "stop_trace repr x c request_timeout = (case cl_trace c of
     None \<Rightarrow> (Inl (Client_State ''call start_trace before stop_trace''), c)
   | Some previous \<Rightarrow>
       andthen (request_locked repr x c (PStr ''trace.stop'')
         [(''trace_id'', case ts_trace_id previous of Some i \<Rightarrow> PStr i | None \<Rightarrow> PNone)] request_timeout) (\<lambda>v c.
       andthen (parsed_result ''trace.stop'' ''result'' (stopped_summary previous v) c) (\<lambda>s c.
         (Inr s, c\<lparr>cl_trace := Some s\<rparr>))))"

end
