(* ===== verification/ClientSession.thy ===== *)
theory ClientSession
  imports ClientOps
begin

text \<open>
  What one operation may do to a session: it keeps it or breaks it for good, sends at most one request
  line, and accepts only a response to that request.
\<close>

section \<open>The frame of an operation\<close>

definition broken :: "client \<Rightarrow> bool" where
  "broken c \<longleftrightarrow> cl_state c = BROKEN \<and> cl_token c = None \<and> \<not> cl_process c"

definition same_session :: "client \<Rightarrow> client \<Rightarrow> bool" where
  "same_session c c' \<longleftrightarrow> cl_state c' = cl_state c \<and> cl_token c' = cl_token c \<and> cl_process c' = cl_process c"

definition frame :: "client \<Rightarrow> client \<Rightarrow> bool" where
  "frame c c' \<longleftrightarrow> cl_config c' = cl_config c \<and> cl_hello c' = cl_hello c \<and> cl_dut c' = cl_dut c \<and> cl_simulator c' = cl_simulator c \<and>
     cl_prefix c' = cl_prefix c \<and> cl_counter c \<le> cl_counter c' \<and> (tail_ok (cl_stdout_tail c) \<longrightarrow> tail_ok (cl_stdout_tail c')) \<and>
     (broken c' \<or> same_session c c')"

lemma same_session_refl [simp]: "same_session c c"
  by (simp add: same_session_def)

lemma frame_refl [simp]: "frame c c"
  by (simp add: frame_def)

lemma frame_trans: "frame c c' \<Longrightarrow> frame c' c'' \<Longrightarrow> frame c c''"
  by (auto simp: frame_def broken_def same_session_def)

lemma broken_abort [simp]: "broken (abort_process c m)"
  by (simp add: broken_def abort_process_def)

lemma frame_abort [simp]: "frame c (abort_process c m)"
  by (simp add: frame_def) (simp add: abort_process_def)

lemma abort_requests [simp]: "cl_requests (abort_process c m) = cl_requests c" "cl_counter (abort_process c m) = cl_counter c"
  "cl_trace (abort_process c m) = cl_trace c" "cl_decoder (abort_process c m) = cl_decoder c" "cl_state (abort_process c m) = BROKEN"
  "cl_token (abort_process c m) = None" "cl_write_started (abort_process c m) = cl_write_started c"
  "cl_config (abort_process c m) = cl_config c" "cl_dut (abort_process c m) = cl_dut c" "cl_simulator (abort_process c m) = cl_simulator c"
  by (simp_all add: abort_process_def)

lemma tail_ok_append: "tail_ok t \<Longrightarrow> tail_ok (tail_append t s)"
  by (rule tail_append_exact(1))

lemma frame_tail: "frame c (c\<lparr>cl_stdout_tail := tail_append (cl_stdout_tail c) s\<rparr>)"
  by (simp add: frame_def same_session_def tail_ok_append)

lemma handle_item_frame:
  assumes "handle_item c command i item = (r, c')"
  shows "frame c c'" "cl_requests c' = cl_requests c" "cl_counter c' = cl_counter c" "cl_write_started c' = cl_write_started c"
    "broken c' \<or> c' = c" "r = Inr v \<Longrightarrow> c' = c \<and> (\<exists>raw. item = Line raw \<and> parse_response raw i = Inr (Inr v))"
  using assms frame_trans [OF frame_tail frame_abort]
  by (auto simp: handle_item_def raise_exited_def fail_host_def split: stdout_item.splits sum.splits)

lemma await_frame:
  assumes "await c command i t ending = (r, c')"
  shows "frame c c'" "cl_requests c' = cl_requests c" "cl_counter c' = cl_counter c" "cl_write_started c' = cl_write_started c"
    "broken c' \<or> c' = c"
    "r = Inr v \<Longrightarrow> c' = c \<and> (\<exists>raw. ending = Received False (Line raw) \<and> parse_response raw i = Inr (Inr v))"
  using assms handle_item_frame
  by (auto simp: await_def fail_host_def split: outcome.splits if_splits)

text \<open>At most one request line was sent, and it is a request for this command.\<close>

definition request_line :: "(rat \<Rightarrow> string) \<Rightarrow> string \<Rightarrow> string \<Rightarrow> dict \<Rightarrow> string" where
  "request_line repr i command params = json_text repr (PDict (envelope i command params)) @ [LF]"

definition sent_one :: "(rat \<Rightarrow> string) \<Rightarrow> string \<Rightarrow> client \<Rightarrow> client \<Rightarrow> bool" where
  "sent_one repr command c c' \<longleftrightarrow> cl_requests c' = cl_requests c \<or>
     (\<exists>i params. cl_requests c' = cl_requests c @ [request_line repr i command params])"

lemma encode_request_line: "encode_request repr config i command params = Inr line \<Longrightarrow> line @ [LF] = request_line repr i command params"
  by (auto simp: encode_request_def json_dumps_def request_line_def split: if_splits)

lemma frame_fields: "frame c c' \<Longrightarrow> cl_config c' = cl_config c \<and> cl_prefix c' = cl_prefix c \<and> cl_counter c \<le> cl_counter c'"
  by (simp add: frame_def)

lemma frame_put: "frame c (put_request c line ending)"
  by (simp add: put_request_def frame_def same_session_def split: outcome.splits)

lemma put_request_fields:
  "cl_counter (put_request c line ending) = cl_counter c" "cl_process (put_request c line ending) = cl_process c"
  "cl_requests (put_request c line ending) = cl_requests c \<or> cl_requests (put_request c line ending) = cl_requests c @ [line @ [LF]]"
  by (simp_all add: put_request_def split: outcome.splits)

text \<open>The ways through an exchange: refused before anything was sent, the host is gone, or one wait.\<close>

lemma exchange_cases:
  assumes "exchange repr x c command params timeout = (r, c')"
  obtains (refused) e where "r = Inl (Client_Python e)" "frame c c'" "same_session c c'" "cl_requests c' = cl_requests c" "\<not> cl_write_started c'"
  | (gone) m where "r = Inl (Host_Error Host_Exited m None [])" "frame c c'" "broken c'" "cl_requests c' = cl_requests c"
      "\<not> (cl_process c \<and> xe_alive x)" "command_check command = None"
  | (waited) c1 line where "frame c c1" "same_session c c1" "cl_counter c1 = Suc (cl_counter c)" "cl_requests c1 = cl_requests c"
      "\<not> cl_write_started c1" "command_check command = None" "cl_process c" "xe_alive x"
      "encode_request repr (cl_config c) (cl_prefix c @ ''-'' @ dec (Suc (cl_counter c))) (as_str command) params = Inr line"
      "await (put_request c1 line (xe_outcome x)) (as_str command) (cl_prefix c @ ''-'' @ dec (Suc (cl_counter c))) timeout (xe_outcome x) = (r, c')"
proof (cases "command_check command")
  case (Some e)
  then show thesis
    using assms by (intro refused) (auto simp: exchange_def frame_def same_session_def)
next
  case None
  let ?id = "cl_prefix c @ ''-'' @ dec (Suc (cl_counter c))"
  let ?c1 = "c\<lparr>cl_write_started := False, cl_counter := Suc (cl_counter c)\<rparr>"
  have c1: "frame c ?c1" "same_session c ?c1" by (simp_all add: frame_def same_session_def)
  show thesis
  proof (cases "encode_request repr (cl_config c) ?id (as_str command) params")
    case (Inl e)
    then show thesis using assms None c1 by (intro refused) (auto simp: exchange_def next_request_id_def Let_def)
  next
    case (Inr line)
    show thesis
    proof (cases "cl_process c \<and> xe_alive x")
      case True
      then show thesis
        using assms None Inr c1 by (intro waited [of ?c1 line]) (auto simp: exchange_def next_request_id_def Let_def)
    next
      case False
      then have "(r, c') = raise_exited ?c1 (as_str command)"
        using assms None Inr by (auto simp: exchange_def next_request_id_def Let_def)
      then show thesis
        using False None frame_trans [OF c1(1) frame_abort] by (intro gone) (auto simp: raise_exited_def fail_host_def)
    qed
  qed
qed

lemma exchange_frame:
  assumes "exchange repr x c command params timeout = (r, c')"
  shows "frame c c'" "sent_one repr (as_str command) c c'" "r = Inr v \<Longrightarrow> same_session c c'"
  using assms
proof (atomize(full), cases rule: exchange_cases)
  case (waited c1 line)
  note a = await_frame [OF waited(10)]
  have "frame c (put_request c1 line (xe_outcome x))" by (rule frame_trans [OF waited(1) frame_put])
  then have "frame c c'" using a(1) by (rule frame_trans)
  moreover have "sent_one repr (as_str command) c c'"
    using a(2) waited(4) put_request_fields(3) [of c1 line "xe_outcome x"] encode_request_line [OF waited(9)] by (auto simp: sent_one_def)
  moreover have "r = Inr v \<longrightarrow> same_session c c'"
    using a(6) waited(2) by (auto simp: same_session_def put_request_def split: outcome.splits)
  ultimately show "frame c c' \<and> sent_one repr (as_str command) c c' \<and> (r = Inr v \<longrightarrow> same_session c c')" by blast
qed (auto simp: sent_one_def)

lemma request_frame:
  assumes "request_locked repr x c command params timeout = (r, c')"
  shows "frame c c'" "sent_one repr (as_str command) c c'" "r = Inr v \<Longrightarrow> same_session c c' \<and> cl_state c = RUNNING"
    "cl_state c \<noteq> RUNNING \<Longrightarrow> c' = c"
  using assms exchange_frame by (auto simp: request_locked_def sent_one_def split: if_splits option.splits)

section \<open>Only the answer to this request is accepted\<close>

text \<open>The object in an error response that reports this error.\<close>

definition error_is :: "pyval \<Rightarrow> string \<Rightarrow> string \<Rightarrow> dict \<Rightarrow> bool" where
  "error_is v code message details \<longleftrightarrow> (\<exists>e. v = PDict e \<and> set (map fst e) = {''code'', ''message'', ''details''} \<and>
     get e ''code'' = PStr code \<and> code \<noteq> [] \<and> get e ''message'' = PStr message \<and> get e ''details'' = PDict details)"

lemma error_body_Inr:
  assumes "error_body d i = Inr q"
  shows "\<exists>code m details. q = Inl (Host_Command i code m details) \<and> error_is (get d ''error'') code m details"
  using assms
  by (auto simp: error_body_def Let_def error_is_def is_iffs same_keys_iff split: option.splits)

lemma response_envelope_Inr:
  assumes "response_envelope v i = Inr r"
  shows "is_dict v" "get (as_dict v) ''schema_version'' = PInt 1" "get (as_dict v) ''id'' = PStr i"
    "r = Inr w \<Longrightarrow> get (as_dict v) ''ok'' = PBool True \<and> get (as_dict v) ''result'' = w \<and>
       set (map fst (as_dict v)) = {''schema_version'', ''id'', ''ok'', ''result''}"
    "r = Inl e \<Longrightarrow> \<exists>code m d. e = Host_Command i code m d \<and> code \<noteq> []"
    "r = Inl (Host_Command j code m details) \<Longrightarrow> get (as_dict v) ''ok'' = PBool False \<and> j = i \<and>
       set (map fst (as_dict v)) = {''schema_version'', ''id'', ''ok'', ''error''} \<and>
       error_is (get (as_dict v) ''error'') code m details"
proof -
  have checks: "is_dict v \<and> get (as_dict v) ''schema_version'' = PInt 1 \<and> get (as_dict v) ''id'' = PStr i \<and> is_bool (get (as_dict v) ''ok'')"
    using assms unfolding response_envelope_def Let_def
    by (cases "first_error
        [raise_if (\<not> is_dict v) ''response root must be an object'',
         raise_if (get (as_dict v) ''schema_version'' \<noteq> PInt 1) ''response schema_version must be 1'',
         raise_if (get (as_dict v) ''id'' \<noteq> PStr i) ''response id does not match the in-flight request'',
         raise_if (\<not> is_bool (get (as_dict v) ''ok'')) ''response ok field must be a boolean'']") simp_all
  then show "is_dict v" "get (as_dict v) ''schema_version'' = PInt 1" "get (as_dict v) ''id'' = PStr i" by simp_all
  have none: "first_error
        [raise_if (\<not> is_dict v) ''response root must be an object'',
         raise_if (get (as_dict v) ''schema_version'' \<noteq> PInt 1) ''response schema_version must be 1'',
         raise_if (get (as_dict v) ''id'' \<noteq> PStr i) ''response id does not match the in-flight request'',
         raise_if (\<not> is_bool (get (as_dict v) ''ok'')) ''response ok field must be a boolean''] = None"
    using checks by simp
  have body: "(if get (as_dict v) ''ok'' = PBool True
      then (if \<not> same_keys (as_dict v) (RESPONSE_FIELDS ''result'') then Inl ''success response envelope has unexpected fields''
        else Inr (Inr (get (as_dict v) ''result'')))
      else if \<not> same_keys (as_dict v) (RESPONSE_FIELDS ''error'') then Inl ''error response envelope has unexpected fields''
      else error_body (as_dict v) i) = Inr r"
    using assms unfolding response_envelope_def Let_def none by (simp only: option.case)
  have err: "error_body d i = Inr q \<Longrightarrow> \<exists>code m details. q = Inl (Host_Command i code m details) \<and> code \<noteq> []" for d q
    using error_body_Inr [of d i q] by (auto simp: error_is_def)
  show "r = Inr w \<Longrightarrow> get (as_dict v) ''ok'' = PBool True \<and> get (as_dict v) ''result'' = w \<and>
       set (map fst (as_dict v)) = {''schema_version'', ''id'', ''ok'', ''result''}"
    using body err by (fastforce simp: same_keys_iff RESPONSE_FIELDS_def split: if_splits)
  show "r = Inl e \<Longrightarrow> \<exists>code m d. e = Host_Command i code m d \<and> code \<noteq> []"
    using body err by (fastforce split: if_splits)
  show "r = Inl (Host_Command j code m details) \<Longrightarrow> get (as_dict v) ''ok'' = PBool False \<and> j = i \<and>
       set (map fst (as_dict v)) = {''schema_version'', ''id'', ''ok'', ''error''} \<and>
       error_is (get (as_dict v) ''error'') code m details"
    using body checks error_body_Inr [of "as_dict v" i r]
    by (auto simp: same_keys_iff RESPONSE_FIELDS_def is_bool_iff split: if_splits)
qed

lemma parse_response_Inr:
  assumes "parse_response raw i = Inr r"
  obtains (accepted) v where "ends_lf raw" "take 3 (response_payload raw) \<noteq> [CHR 0xEF, CHR 0xBB, CHR 0xBF]" "utf8_valid (response_payload raw)" "json_loads (response_payload raw) = Inr v"
    "nesting v \<le> 64" "response_envelope v i = Inr r"
proof -
  obtain v where v: "json_loads (response_payload raw) = Inr v" "validate_json_depth (response_payload raw)" "ends_lf raw"
    "take 3 (response_payload raw) \<noteq> [CHR 0xEF, CHR 0xBB, CHR 0xBF]" "utf8_valid (response_payload raw)" "response_envelope v i = Inr r"
    using assms unfolding parse_response_def Let_def by (auto split: if_splits sum.splits json_exc.splits)
  then show thesis using accepted loads_depth [OF v(1)] by blast
qed


text \<open>
  A complete answer to the request with this identifier: one line that ends with a line feed,
  valid UTF-8 without a byte order mark, JSON of at most 64 levels, and an object with exactly
  the fields of the envelope, schema 1 and the identifier.
\<close>

definition answer_line :: "string \<Rightarrow> string \<Rightarrow> string \<Rightarrow> dict \<Rightarrow> bool" where
  "answer_line raw i field d \<longleftrightarrow> ends_lf raw \<and> take 3 (response_payload raw) \<noteq> [CHR 0xEF, CHR 0xBB, CHR 0xBF] \<and>
     utf8_valid (response_payload raw) \<and> json_loads (response_payload raw) = Inr (PDict d) \<and> nesting (PDict d) \<le> 64 \<and>
     set (map fst d) = {''schema_version'', ''id'', ''ok'', field} \<and> get d ''schema_version'' = PInt 1 \<and> get d ''id'' = PStr i"

lemma parse_response_answer:
  assumes "parse_response raw i = Inr r"
  shows "r = Inr v \<Longrightarrow> \<exists>d. answer_line raw i ''result'' d \<and> get d ''ok'' = PBool True \<and> get d ''result'' = v"
    "r = Inl (Host_Command j code m details) \<Longrightarrow> j = i \<and>
       (\<exists>d. answer_line raw i ''error'' d \<and> get d ''ok'' = PBool False \<and> error_is (get d ''error'') code m details)"
    "r = Inl e \<Longrightarrow> \<exists>code m d. e = Host_Command i code m d"
proof -
  obtain w where raw: "ends_lf raw" "take 3 (response_payload raw) \<noteq> [CHR 0xEF, CHR 0xBB, CHR 0xBF]"
    "utf8_valid (response_payload raw)" "json_loads (response_payload raw) = Inr w" "nesting w \<le> 64"
    and env: "response_envelope w i = Inr r" by (rule parse_response_Inr [OF assms])
  note f = response_envelope_Inr [OF env]
  obtain d where d: "w = PDict d" using f(1) by (auto simp: is_dict_iff)
  show "\<exists>d. answer_line raw i ''result'' d \<and> get d ''ok'' = PBool True \<and> get d ''result'' = v" if "r = Inr v"
    using raw f(2,3) f(4) [OF that] by (intro exI [of _ d]) (simp add: answer_line_def d)
  show "j = i \<and> (\<exists>d. answer_line raw i ''error'' d \<and> get d ''ok'' = PBool False \<and> error_is (get d ''error'') code m details)"
    if "r = Inl (Host_Command j code m details)"
    using raw f(2,3) f(6) [OF that] by (intro conjI exI [of _ d]) (simp_all add: answer_line_def d)
  show "\<exists>code m d. e = Host_Command i code m d" if "r = Inl e" using f(5) [OF that] by blast
qed

lemma handle_item_error:
  assumes "handle_item c command i item = (Inl e, c')"
  shows "(broken c' \<and> (\<exists>k m. e = Host_Error k m None [])) \<or>
    c' = c \<and> (\<exists>code m d raw. e = Host_Command i code m d \<and> item = Line raw \<and> parse_response raw i = Inr (Inl e))"
proof (cases item)
  case (Line raw)
  show ?thesis
  proof (cases "parse_response raw i")
    case (Inl m)
    then show ?thesis using assms Line by (auto simp: handle_item_def fail_host_def)
  next
    case (Inr r)
    then have "r = Inl e" "c' = c" using assms Line by (simp_all add: handle_item_def)
    then show ?thesis using Inr Line parse_response_answer(3) by blast
  qed
qed (use assms in \<open>auto simp: handle_item_def raise_exited_def fail_host_def\<close>)

lemma await_error:
  assumes "await c command i t ending = (Inl e, c')"
  shows "(broken c' \<and> (\<exists>k m. e = Host_Error k m None [])) \<or>
    c' = c \<and> (\<exists>code m d raw. e = Host_Command i code m d \<and> ending = Received False (Line raw) \<and> parse_response raw i = Inr (Inl e)) \<or>
    (\<exists>n. e = Interrupt n None [])"
proof (cases ending)
  case (Received overflow item)
  then show ?thesis
    using assms handle_item_error [of c command i item e c'] by (auto simp: await_def fail_host_def split: if_splits)
qed (use assms in \<open>auto simp: await_def fail_host_def split: if_splits\<close>)

lemma dec_inj: "dec m = dec n \<longleftrightarrow> m = n"
  by (metis dec_value_dec)

text \<open>
  C8: an exchange accepts exactly the answer to its own request. The request is the next one in
  the client's numbering: the identifier it carries is the one of no number used before. A value
  is returned only from the line received, when that line is complete (it ends with a line
  feed), valid UTF-8 without a byte order mark and JSON of at most 64 levels, and its object has
  exactly the fields of a success of schema 1 with the identifier of this request; the value is
  its result. An error of the host is reported only from such a line with the fields of a
  failure, the same identifier and a well-formed error object, whose code, message and details
  it has. In both cases one request line was sent, with that identifier, and the session is
  kept; every other failure after the request was sent breaks it, but for an interrupt.
\<close>

theorem exchange_answers_request:
  assumes "exchange repr x c command params timeout = (r, c')"
  defines "request_id \<equiv> cl_prefix c @ ''-'' @ dec (Suc (cl_counter c))"
  shows "(\<forall>n \<le> cl_counter c. cl_prefix c @ ''-'' @ dec n \<noteq> request_id) \<and>
    (\<forall>v. r = Inr v \<longrightarrow> same_session c c' \<and> cl_counter c' = Suc (cl_counter c) \<and>
      (\<exists>raw d line. xe_outcome x = Received False (Line raw) \<and>
         answer_line raw request_id ''result'' d \<and> get d ''ok'' = PBool True \<and> get d ''result'' = v \<and>
         encode_request repr (cl_config c) request_id (as_str command) params = Inr line \<and>
         cl_requests c' = cl_requests c @ [line @ [LF]])) \<and>
    (\<forall>i code m details. r = Inl (Host_Command i code m details) \<longrightarrow>
      same_session c c' \<and> cl_counter c' = Suc (cl_counter c) \<and> i = request_id \<and>
      (\<exists>raw d line. xe_outcome x = Received False (Line raw) \<and>
         answer_line raw request_id ''error'' d \<and> get d ''ok'' = PBool False \<and> error_is (get d ''error'') code m details \<and>
         encode_request repr (cl_config c) request_id (as_str command) params = Inr line \<and>
         cl_requests c' = cl_requests c @ [line @ [LF]])) \<and>
    (\<forall>e. r = Inl e \<and> cl_requests c' \<noteq> cl_requests c \<longrightarrow>
       broken c' \<or> (\<exists>i code m d. e = Host_Command i code m d) \<or> (\<exists>n. e = Interrupt n None []))"
proof -
  have fresh: "\<forall>n \<le> cl_counter c. cl_prefix c @ ''-'' @ dec n \<noteq> request_id"
    by (auto simp: request_id_def dec_inj)
  from assms(1) show ?thesis
  proof (cases rule: exchange_cases)
    case (waited c1 line)
    let ?c2 = "put_request c1 line (xe_outcome x)"
    note a = await_frame [OF waited(10), folded request_id_def]
    note line = waited(9) [folded request_id_def]
    have sent: "same_session c ?c2 \<and> cl_counter ?c2 = Suc (cl_counter c) \<and> cl_requests ?c2 = cl_requests c @ [line @ [LF]]"
      if "xe_outcome x = Received False (Line raw)" for raw
      using that waited(2-4) by (auto simp: same_session_def put_request_def)
    have returned: "same_session c c' \<and> cl_counter c' = Suc (cl_counter c) \<and>
      (\<exists>raw d line. xe_outcome x = Received False (Line raw) \<and>
        answer_line raw request_id ''result'' d \<and> get d ''ok'' = PBool True \<and> get d ''result'' = v \<and>
        encode_request repr (cl_config c) request_id (as_str command) params = Inr line \<and>
        cl_requests c' = cl_requests c @ [line @ [LF]])" if v: "r = Inr v" for v
    proof -
      obtain raw where raw: "c' = ?c2" "xe_outcome x = Received False (Line raw)" "parse_response raw request_id = Inr (Inr v)"
        using a(6) [OF v] by blast
      show ?thesis using sent [OF raw(2)] raw parse_response_answer(1) [OF raw(3) refl] line by blast
    qed
    have reported: "same_session c c' \<and> cl_counter c' = Suc (cl_counter c) \<and> i = request_id \<and>
      (\<exists>raw d line. xe_outcome x = Received False (Line raw) \<and>
        answer_line raw request_id ''error'' d \<and> get d ''ok'' = PBool False \<and> error_is (get d ''error'') code m details \<and>
        encode_request repr (cl_config c) request_id (as_str command) params = Inr line \<and>
        cl_requests c' = cl_requests c @ [line @ [LF]])" if e: "r = Inl (Host_Command i code m details)" for i code m details
    proof -
      obtain raw where raw: "c' = ?c2" "xe_outcome x = Received False (Line raw)"
        "parse_response raw request_id = Inr (Inl (Host_Command i code m details))"
        using await_error [OF waited(10) [folded request_id_def, unfolded e]] by auto
      show ?thesis using sent [OF raw(2)] raw parse_response_answer(2) [OF raw(3) refl] line by blast
    qed
    have other: "broken c' \<or> (\<exists>i code m d. e = Host_Command i code m d) \<or> (\<exists>n. e = Interrupt n None [])" if "r = Inl e" for e
      using await_error [OF waited(10) [unfolded that]] by blast
    show ?thesis
    proof (rule conjI [OF fresh], rule conjI [OF _ conjI])
      show "\<forall>e. r = Inl e \<and> cl_requests c' \<noteq> cl_requests c \<longrightarrow>
          broken c' \<or> (\<exists>i code m d. e = Host_Command i code m d) \<or> (\<exists>n. e = Interrupt n None [])"
        by (intro allI impI, elim conjE, rule other)
    qed (intro allI impI, erule returned, intro allI impI, erule reported)
  qed (use fresh in auto)
qed



text \<open>A running client and a host that answers its first request.\<close>

definition sample_client :: client where
  "sample_client = (new_client (host_defaults ''host'') ''py'')\<lparr>cl_state := RUNNING, cl_process := True, cl_job := True, cl_hello := Some []\<rparr>"

definition success_line :: "string \<Rightarrow> pyval \<Rightarrow> string" where
  "success_line i v = json_text (\<lambda>_. []) (PDict [(''schema_version'', PInt 1), (''id'', PStr i), (''ok'', PBool True), (''result'', v)]) @ [LF]"

definition answering :: "string \<Rightarrow> exchange_env" where
  "answering line = \<lparr>xe_alive = True, xe_outcome = Received False (Line line)\<rparr>"

theorem exchange_answers_request_witness:
  "\<exists>c'. exchange (\<lambda>_. []) (answering (success_line ''py-1'' (PInt 7))) sample_client (PStr ''stats'') [] 1 = (Inr (PInt 7), c') \<and>
     same_session sample_client c' \<and> length (cl_requests c') = 1"
proof -
  have run: "fst (exchange (\<lambda>_. []) (answering (success_line ''py-1'' (PInt 7))) sample_client (PStr ''stats'') [] 1) = Inr (PInt 7)"
    by code_simp
  then obtain c' where c': "exchange (\<lambda>_. []) (answering (success_line ''py-1'' (PInt 7))) sample_client (PStr ''stats'') [] 1 = (Inr (PInt 7), c')"
    by (metis prod.collapse)
  have "cl_requests sample_client = []" by (simp add: sample_client_def new_client_def)
  moreover obtain line where "same_session sample_client c'" "cl_requests c' = cl_requests sample_client @ [line @ [LF]]"
    using exchange_answers_request [OF c', THEN conjunct2, THEN conjunct1, THEN spec, THEN mp, OF refl] by blast
  ultimately show ?thesis using c' by simp
qed


section \<open>What the host writes is understood\<close>

lemma json_text_dict_ends: "\<exists>s. json_text repr (PDict d) = s @ ''}''" "\<exists>s. json_text repr (PDict d) = ''{'' @ s"
  by simp_all

lemma response_read_back:
  assumes "json_ok repr v" "texts_valid repr v" "utf8_valid i" "nesting v \<le> 63"
    and "response = PDict [(''schema_version'', PInt 1), (''id'', PStr i), (''ok'', PBool True), (''result'', v)]"
  shows "parse_response (json_text repr response @ [LF]) i = Inr (Inr v)"
proof -
  let ?d = "[(''schema_version'', PInt 1), (''id'', PStr i), (''ok'', PBool True), (''result'', v)]"
  obtain s where s: "json_text repr response = s @ ''}''" using json_text_dict_ends(1) [of repr ?d] assms(5) by blast
  obtain t where t: "json_text repr response = ''{'' @ t" using json_text_dict_ends(2) [of repr ?d] assms(5) by blast
  have payload: "response_payload (json_text repr response @ [LF]) = json_text repr response"
    by (simp add: response_payload_def strip_cr_def s butlast_append)
  have one: "\<bar>1 :: int\<bar> < 10 ^ MAX_INT_DIGITS"
  proof -
    have "(1 :: int) < 10 ^ 1" by simp
    also have "\<dots> \<le> 10 ^ MAX_INT_DIGITS" by (rule power_increasing) (simp_all add: MAX_INT_DIGITS_def)
    finally show ?thesis by simp
  qed
  have ok: "json_ok repr response" using assms(1,5) one by simp
  have loads: "json_loads (json_text repr response) = Inr response" using json_read_back [OF ok, of "[]"] by simp
  have keys: "utf8_valid ''schema_version'' \<and> utf8_valid ''id'' \<and> utf8_valid ''ok'' \<and> utf8_valid ''result''" by code_simp
  then have "texts_valid repr response" using assms(2,3,5) by simp
  then have valid: "utf8_valid (json_text repr response)" by (rule json_text_valid(1))
  have "nesting response \<le> 64" using assms(4,5) by (simp add: nesting.simps)
  then have depth: "validate_json_depth (json_text repr response)" using loads_depth [OF loads] by simp
  have get: "get ?d ''schema_version'' = PInt 1" "get ?d ''id'' = PStr i" "get ?d ''ok'' = PBool True" "get ?d ''result'' = v"
    by (simp_all add: get_def)
  have "same_keys ?d (RESPONSE_FIELDS ''result'')" by (simp add: same_keys_def RESPONSE_FIELDS_def)
  then have env: "response_envelope response i = Inr (Inr v)"
    unfolding response_envelope_def Let_def assms(5) as_dict.simps get by (simp add: first_error.simps raise_if_def)
  have bom: "take 3 (json_text repr response) \<noteq> [CHR 0xEF, CHR 0xBB, CHR 0xBF]" by (simp add: t)
  show ?thesis
    unfolding parse_response_def Let_def payload using bom valid depth loads env by (simp add: ends_lf_def)
qed

text \<open>
  C23: every well-formed answer is understood. Whatever value a host reports as the result of a request,
  if its response nests at most 64 levels, written as one line of JSON it is accepted for that
  request and gives back that value.
\<close>

theorem response_roundtrip:
  assumes "json_ok repr v" "texts_valid repr v" "utf8_valid i" "nesting v \<le> 63"
    and "response = PDict [(''schema_version'', PInt 1), (''id'', PStr i), (''ok'', PBool True), (''result'', v)]"
  shows "parse_response (json_text repr response @ [LF]) i = Inr (Inr v)"
  using assms by (rule response_read_back)

theorem response_roundtrip_witness:
  "parse_response (json_text (\<lambda>_. []) (PDict [(''schema_version'', PInt 1), (''id'', PStr ''py-3''), (''ok'', PBool True),
     (''result'', PList [PStr ''a]'', PNone])]) @ [LF]) ''py-3'' = Inr (Inr (PList [PStr ''a]'', PNone]))"
proof -
  have "json_ok (\<lambda>_. []) (PList [PStr ''a]'', PNone])" "texts_valid (\<lambda>_. []) (PList [PStr ''a]'', PNone])"
    "utf8_valid ''py-3''" "nesting (PList [PStr ''a]'', PNone]) \<le> 63"
    by (simp, code_simp+)
  then show ?thesis by (rule response_roundtrip) (rule refl)
qed

section \<open>Operations without control\<close>

text \<open>An operation that keeps the frame, sends at most one request, and only in a running session.\<close>

definition ok_op :: "(rat \<Rightarrow> string) \<Rightarrow> string \<Rightarrow> client \<Rightarrow> 'a result \<Rightarrow> bool" where
  "ok_op repr command c r \<longleftrightarrow> frame c (snd r) \<and> sent_one repr command c (snd r) \<and> (cl_state c \<noteq> RUNNING \<longrightarrow> snd r = c)"

lemma ok_op_here [simp]: "ok_op repr k c (r, c)"
  by (simp add: ok_op_def sent_one_def)

lemma ok_op_lift: "(\<And>v. ok_op repr k c (f v c)) \<Longrightarrow> ok_op repr k c (andthen (lift_python r c) f)"
  by (cases r) (simp_all add: lift_python_def)

lemma ok_op_request: "ok_op repr (as_str command) c (request_locked repr x c command params timeout)"
  using request_frame [of repr x c command params timeout] by (metis ok_op_def surjective_pairing)

text \<open>What follows a successful request: it keeps the frame and sends nothing.\<close>

lemma ok_op_after:
  assumes "ok_op repr k c m" "\<And>v c'. m = (Inr v, c') \<Longrightarrow> cl_state c = RUNNING"
    and "\<And>v c'. m = (Inr v, c') \<Longrightarrow> frame c' (snd (f v c')) \<and> cl_requests (snd (f v c')) = cl_requests c'"
  shows "ok_op repr k c (andthen m f)"
proof (cases m)
  case (Pair r c')
  show ?thesis
  proof (cases r)
    case (Inl e)
    then show ?thesis using assms(1) Pair by (simp add: ok_op_def)
  next
    case (Inr v)
    then show ?thesis using assms Pair by (auto simp: ok_op_def sent_one_def intro: frame_trans)
  qed
qed

lemma parsed_result_frame: "frame c (snd (parsed_result command what r c))" "cl_requests (snd (parsed_result command what r c)) = cl_requests c"
  by (auto simp: parsed_result_def split: sum.splits)

lemma mapping_result_frame: "frame c (snd (mapping_result command v c))" "cl_requests (snd (mapping_result command v c)) = cl_requests c"
  by (auto simp: mapping_result_def)

lemma request_running: "request_locked repr x c command params timeout = (Inr v, c') \<Longrightarrow> cl_state c = RUNNING"
  using request_frame(3) by blast

lemma ok_op_typed: "ok_op repr command c (typed_request repr x c command params timeout what parse)"
  unfolding typed_request_def
proof (rule ok_op_after [OF ok_op_request [of repr "PStr command" c, unfolded as_str.simps] request_running])
  fix v c'
  show "frame c' (snd (andthen (mapping_result command v c') (\<lambda>d. parsed_result command what (parse d)))) \<and>
      cl_requests (snd (andthen (mapping_result command v c') (\<lambda>d. parsed_result command what (parse d)))) = cl_requests c'"
    by (simp add: mapping_result_def parsed_result_frame)
qed

lemma typed_success: "typed_request repr x c command params timeout what parse = (Inr v, c') \<Longrightarrow> same_session c c' \<and> cl_state c = RUNNING"
  unfolding typed_request_def using request_frame(3) [of repr x c "PStr command" params timeout]
  by (cases "request_locked repr x c (PStr command) params timeout")
    (auto simp: andthen_def mapping_result_def parsed_result_def split: sum.splits if_splits)

lemma ok_ops:
  "ok_op repr ''get_status'' c (get_status repr x c t)" "ok_op repr ''stats'' c (get_stats repr x c t)" "ok_op repr ''wait_event'' c (wait_event repr x c w n t)"
  "ok_op repr ''integrity_poll'' c (integrity_poll repr x c t n m rt)" "ok_op repr ''class_poll'' c (class_poll repr x c cs t n m rt)" "ok_op repr ''read'' c (read_headers repr x c hs t n m rt)"
  "ok_op repr ''enable_unsolicited'' c (enable_unsolicited repr x c cs t rt)" "ok_op repr ''disable_unsolicited'' c (disable_unsolicited repr x c cs t rt)" "ok_op repr ''wait_unsolicited'' c (wait_unsolicited repr x c w n rt)"
  "ok_op repr ''capture.begin'' c (begin_capture repr x c cfg rt)" "ok_op repr ''capture.progress'' c (capture_progress repr x c i rt)" "ok_op repr ''capture.end'' c (end_capture repr x c i w rt)"
  unfolding get_status_def get_stats_def wait_event_def integrity_poll_def class_poll_def read_headers_def read_task_result_def
    enable_unsolicited_def disable_unsolicited_def unsolicited_control_def wait_unsolicited_def begin_capture_def capture_progress_def
    end_capture_def capture_request_def
  by (auto intro!: ok_op_lift ok_op_typed split: obj_arg.splits prod.splits)

lemma ok_client_request: "ok_op repr (as_str command) c (client_request repr x c command params timeout)"
  by (simp add: client_request_def ok_op_request)

lemma ok_op_hello: "(\<And>d. ok_op repr k c (f d c)) \<Longrightarrow> ok_op repr k c (andthen (hello_info c) f)"
  by (simp add: hello_info_def split: option.splits)

lemma frame_trace [simp]: "frame c (c\<lparr>cl_trace := t\<rparr>)" "frame c (c\<lparr>cl_decoder := d\<rparr>)" "frame c (c\<lparr>cl_decoder := d, cl_trace := t\<rparr>)"
  by (simp_all add: frame_def same_session_def)

lemma after_parse:
  assumes "\<And>v. frame c (snd (g v c)) \<and> cl_requests (snd (g v c)) = cl_requests c"
  shows "frame c (snd (andthen (parsed_result command what r c) g)) \<and> cl_requests (snd (andthen (parsed_result command what r c) g)) = cl_requests c"
  using assms by (auto simp: parsed_result_def split: sum.splits)

lemma trace_read_frame:
  "frame c (snd (trace_read_result p n q v c)) \<and> cl_requests (snd (trace_read_result p n q v c)) = cl_requests c"
proof (cases "decode_trace p n v (cl_decoder c)")
  case (Pair r decoder)
  have "frame (c\<lparr>cl_decoder := decoder\<rparr>) (snd (trace_read_result p n q v c)) \<and> cl_requests (snd (trace_read_result p n q v c)) = cl_requests (c\<lparr>cl_decoder := decoder\<rparr>)"
    unfolding trace_read_result_def Pair prod.case by (rule after_parse) simp
  then show ?thesis using frame_trans [OF frame_trace(2) [of c decoder]] by simp
qed

lemma ok_traces:
  "ok_op repr ''trace.start'' c (start_trace repr x c config rt)" "ok_op repr ''trace.read'' c (read_trace repr x c n t q rt)"
  "ok_op repr ''trace.stop'' c (stop_trace repr x c rt)"
proof -
  have after: "ok_op repr k c (andthen (request_locked repr x c (PStr k) ps rt) f)"
    if "\<And>v c. frame c (snd (f v c)) \<and> cl_requests (snd (f v c)) = cl_requests c" for k ps rt and f :: "pyval \<Rightarrow> client \<Rightarrow> 'z result"
    using that ok_op_request [of repr "PStr k" c x ps rt] by (intro ok_op_after) (simp_all add: request_running)
  have "ok_op repr ''trace.start'' c (begin_trace repr x c cfg rt)" for cfg
    unfolding begin_trace_def by (rule ok_op_hello) (simp add: after after_parse)
  then show "ok_op repr ''trace.start'' c (start_trace repr x c config rt)"
    by (simp add: start_trace_def split: obj_arg.splits)
  show "ok_op repr ''trace.read'' c (read_trace repr x c n t q rt)"
    unfolding read_trace_def by (rule ok_op_lift) (simp add: after trace_read_frame split: option.splits prod.splits)
  show "ok_op repr ''trace.stop'' c (stop_trace repr x c rt)"
    unfolding stop_trace_def by (simp add: after after_parse split: option.splits)
qed

end
