(* ===== verification/ClientCommands.thy ===== *)
theory ClientCommands
  imports ClientOps
begin

text \<open>
  The control path of \<open>Dnp3MasterClient\<close>: admission of a command, its execution, correlation of the result with the
  request, and the handling of an uncertain outcome, which ends the session and leaves a persistent lock.
\<close>

section \<open>Commands\<close>

datatype command_item = Crob crob_command | Analog analog_command

fun item_type :: "command_item \<Rightarrow> string" where
  "item_type (Crob c) = ''crob''"
| "item_type (Analog a) = an_command_type a"

fun item_index :: "command_item \<Rightarrow> int" where
  "item_index (Crob c) = cc_index c"
| "item_index (Analog a) = an_index a"

fun item_params :: "command_item \<Rightarrow> dict" where
  "item_params (Crob c) = CrobCommand_to_params c"
| "item_params (Analog a) = AnalogOutputCommand_to_params a"

definition item_identity :: "command_item \<Rightarrow> string \<times> int" where
  "item_identity i = (item_type i, item_index i)"

fun command_items :: "command_item seq_arg \<Rightarrow> pyexc + command_item list" where
  "command_items Seq_Text = Inl (TypeError ''commands must be a sequence of command model objects'')"
| "command_items Seq_Not_Iterable = Inl (TypeError ''object is not iterable'')"
| "command_items (Seq xs) = checked (first_error
     [raise_if (\<not> (1 \<le> length xs \<and> length xs \<le> 256)) (ValueError ''commands must contain between one and 256 items''),
      raise_if (None \<in> set xs) (TypeError ''every command must be a CrobCommand or AnalogOutputCommand''),
      raise_if (\<not> distinct (map (item_identity \<circ> the) xs)) (ValueError ''commands must not repeat the same type and point index'')])
     (map the xs)"

section \<open>Correlation\<close>

text \<open>The loop over the point results, with the ordinals seen so far.\<close>

fun correlation_loop :: "command_item list \<Rightarrow> int list \<Rightarrow> point_result list \<Rightarrow> pyexc option" where
  "correlation_loop commands seen [] =
     raise_if (\<not> list_all (\<lambda>n. int n \<in> set seen) [0..<length commands] \<or> length (remdups seen) \<noteq> length commands)
       (ValueError ''command result does not correlate every submitted point'')"
| "correlation_loop commands seen (p # ps) = (case cp_requested p of
     None \<Rightarrow> Some (ValueError ''command point result is missing request correlation'')
   | Some requested \<Rightarrow>
       let ordinal = get requested ''request_ordinal''; n = as_int ordinal; expected = commands ! nat n in
       if \<not> is_int ordinal \<or> \<not> (0 \<le> n \<and> n < int (length commands)) then Some (ValueError ''command request_ordinal is invalid'')
       else if n \<in> set seen then Some (ValueError ''command result repeats a request_ordinal'')
       else if cp_index p \<noteq> item_index expected \<or> get requested ''type'' \<noteq> PStr (item_type expected) \<or>
         \<not> eq_int (get requested ''index'') (item_index expected)
       then Some (ValueError ''command result request correlation does not match the submitted type/index'')
       else correlation_loop commands (n # seen) ps)"

definition validate_command_correlation :: "string \<Rightarrow> command_item list \<Rightarrow> task_result \<Rightarrow> pyexc option" where
  "validate_command_correlation operation commands r = first_error
     [raise_if (ct_mode r \<noteq> operation) (ValueError (''command result mode '' @ quoted (ct_mode r) @ '' does not match '' @ quoted operation)),
      raise_if (length (ct_point_results r) \<noteq> length commands)
        (ValueError ''command point_results count does not match the submitted batch''),
      correlation_loop commands [] (ct_point_results r)]"

section \<open>Uncertain outcomes\<close>

type_synonym 'a control = "(client_exc + 'a) \<times> client \<times> disk"

definition incident_context :: "client \<Rightarrow> string option \<Rightarrow> client_exc + string" where
  "incident_context c dut_id =
     (if ha_safety_incident_directory (cl_config c) = None
      then Inl (Incident_Configuration ''state-changing operations require HostProcessConfig.safety_incident_directory so uncertain results remain locked across Python processes'')
      else case (if dut_id = None \<or> dut_id = Some [] then cl_dut c else dut_id) of
        None \<Rightarrow> Inl (Incident_Configuration ''a DUT identity is required to inspect or update a safety incident'')
      | Some d \<Rightarrow> Inr d)"

text \<open>\<open>details.update(...)\<close> of an error, and the attribute \<open>incident_id\<close> where it is set.\<close>

fun update_details :: "client_exc \<Rightarrow> string option \<Rightarrow> dict \<Rightarrow> client_exc" where
  "update_details (Host_Command rid code m d) i new = Host_Command rid code m (dict_update d new)"
| "update_details (Host_Error k m i0 d) i new = Host_Error k m (if i = None then i0 else i) (dict_update d new)"
| "update_details (Interrupt n i0 d) i new = Interrupt n (if i = None then i0 else i) (dict_update d new)"
| "update_details e i new = e"

fun store_text :: "store_exc \<Rightarrow> string" where
  "store_text (Store_Python e) = pyexc_text e"
| "store_text (Unresolved m i d) = m"
| "store_text (Persistence m) = m"
| "store_text (Acknowledgment m i d) = m"

text \<open>\<open>except (SafetyIncidentError, OSError, TypeError, ValueError)\<close>, with the text of the error.\<close>

fun persistence_text :: "client_exc \<Rightarrow> string option" where
  "persistence_text (Incident_Configuration m) = Some m"
| "persistence_text (Store_Error (Store_Python (ValueError m))) = Some m"
| "persistence_text (Store_Error (Store_Python (TypeError m))) = Some m"
| "persistence_text (Store_Error (Store_Python _)) = None"
| "persistence_text (Store_Error e) = Some (store_text e)"
| "persistence_text _ = None"

fun command_error :: "client_exc \<Rightarrow> client_exc option" where
  "command_error (Host_Command rid code m d) = Some (Host_Command rid code m d)"
| "command_error _ = None"

text \<open>What is known of the outcome: the identifier of the request, the code and the two flags.\<close>

record uncertainty =
  uc_request_id :: string
  uc_error_code :: string
  uc_execution_uncertain :: bool
  uc_may_still_execute :: bool

definition uncertain_record :: "string \<Rightarrow> dict \<Rightarrow> command_item list \<Rightarrow> uncertainty \<Rightarrow> uncertain" where
  "uncertain_record operation payload commands u =
     \<lparr>un_operation = PStr operation, un_payload = PDict payload,
      un_points = map (\<lambda>i. [(''type'', PStr (item_type i)), (''index'', PInt (item_index i))]) commands,
      un_request_id = PStr (uc_request_id u), un_error_code = PStr (uc_error_code u),
      un_execution_uncertain = PBool (uc_execution_uncertain u), un_may_still_execute = PBool (uc_may_still_execute u)\<rparr>"

text \<open>The attempt to write the lock.\<close>

definition persist_lock ::
    "(rat \<Rightarrow> string) \<Rightarrow> op_env \<Rightarrow> disk \<Rightarrow> client \<Rightarrow> uncertain \<Rightarrow> (client_exc + dict \<times> bool) \<times> disk" where
  "persist_lock repr env disk c u = (case incident_context c (cl_dut c) of
     Inl e \<Rightarrow> (Inl e, disk)
   | Inr dut \<Rightarrow> (case record_uncertain repr env disk (PStr dut) u of
       (Inl e, disk') \<Rightarrow> (Inl (Store_Error e), disk')
     | (Inr r, disk') \<Rightarrow> (Inr r, disk')))"

definition simulator_details :: "uncertainty \<Rightarrow> dict" where
  "simulator_details u =
     [(''environment'', PStr ''SIMULATOR''), (''execution_uncertain'', PBool (uc_execution_uncertain u)),
      (''may_still_execute'', PBool (uc_may_still_execute u)), (''persistent_safety_lock'', PBool False),
      (''required_action'', PStr ''START_NEW_SESSION'')]"

definition incident_details :: "dict \<Rightarrow> bool \<Rightarrow> dict" where
  "incident_details incident lock_created =
     [(''incident_id'', PStr (as_str (get incident ''incident_id''))), (''persistent_safety_lock'', PBool True),
      (''incident_lock_created'', PBool lock_created), (''required_action'', get incident ''required_action'')]"

text \<open>
  \<open>_handle_uncertain_command\<close>, followed by the \<open>raise\<close> that every caller has after it: the result is the error
  that reaches the caller.
\<close>

definition handle_uncertain ::
    "(rat \<Rightarrow> string) \<Rightarrow> op_env \<Rightarrow> disk \<Rightarrow> client \<Rightarrow> string \<Rightarrow> dict \<Rightarrow> command_item list \<Rightarrow> uncertainty \<Rightarrow> client_exc \<Rightarrow>
       'a control" where
  "handle_uncertain repr env disk c operation payload commands u original =
     (if cl_simulator c
      then (Inl (update_details original None (simulator_details u)),
        abort_process c (''simulator command '' @ quoted operation @ '' has an uncertain outcome''), disk)
      else let (recorded, disk') = persist_lock repr env disk c (uncertain_record operation payload commands u);
          c' = abort_process (c\<lparr>cl_token := None\<rparr>) (''state-changing command '' @ quoted operation @ '' has an uncertain outcome'') in
        case recorded of
          Inr (incident, lock_created) \<Rightarrow>
            (Inl (update_details original (Some (as_str (get incident ''incident_id''))) (incident_details incident lock_created)), c', disk')
        | Inl e \<Rightarrow> (Inl (case persistence_text e of
            Some m \<Rightarrow> Lock_Unverified (command_error original)
              [(''operation'', PStr operation), (''persistence_error'', PStr m), (''required_action'', PStr ''MANUAL_READBACK_AND_STORE_REPAIR'')]
          | None \<Rightarrow> e), c', disk'))"

section \<open>Execution\<close>

definition uncertain_error :: "string \<Rightarrow> dict \<Rightarrow> bool" where
  "uncertain_error code details \<longleftrightarrow> code = ''RESPONSE_TIMEOUT'' \<or> get details ''execution_uncertain'' = PBool True \<or>
     get details ''may_still_execute'' = PBool True"

definition flag_or_true :: "dict \<Rightarrow> string \<Rightarrow> bool" where
  "flag_or_true d k = (case map_of d k of Some v \<Rightarrow> truthy v | None \<Rightarrow> True)"

fun kind_code :: "host_kind \<Rightarrow> string" where
  "kind_code Host_Start = ''HOSTSTARTERROR''"
| "kind_code Host_Timeout = ''HOSTTIMEOUTERROR''"
| "kind_code Host_Exited = ''HOSTEXITEDERROR''"
| "kind_code Host_Protocol = ''HOSTPROTOCOLERROR''"

definition certainly_uncertain :: "string \<Rightarrow> string \<Rightarrow> uncertainty" where
  "certainly_uncertain request_id code =
     \<lparr>uc_request_id = request_id, uc_error_code = code, uc_execution_uncertain = True, uc_may_still_execute = True\<rparr>"

text \<open>The error a well-formed result with an uncertain outcome is turned into.\<close>

definition uncertain_result :: "client \<Rightarrow> task_result \<Rightarrow> client_exc" where
  "uncertain_result c r =
     (let unsafe = filter requires_manual_readback (ct_point_results r) in
      Host_Command (''command-task-'' @ str_int (ct_task_id r)) ''UNCERTAIN_COMMAND_RESULT''
        (if cl_simulator c then ''simulator command outcome is uncertain; start a new client session''
         else ''command result requires independent readback before the session can be reused'')
        [(''execution_uncertain'', PBool True), (''may_still_execute'', PBool True), (''automatic_retry_safe'', PBool False),
         (''manual_readback_points'', PInt (int (length unsafe))),
         (''unsafe_status_raw'', PList (map PInt (sort (remdups (map cp_status_raw unsafe)))))])"

definition execute_command_task ::
    "(rat \<Rightarrow> string) \<Rightarrow> exchange_env \<Rightarrow> op_env \<Rightarrow> disk \<Rightarrow> client \<Rightarrow> string \<Rightarrow> command_item list \<Rightarrow> dict \<Rightarrow> dict \<Rightarrow> pyval \<Rightarrow>
       task_result control" where
  "execute_command_task repr x env disk c command commands payload params timeout =
     (case andthen (request_locked repr x c (PStr command) params timeout) (mapping_result command) of
        (Inl (Host_Command rid code m d), c) \<Rightarrow>
          if uncertain_error code d
          then handle_uncertain repr env disk c command payload commands
            \<lparr>uc_request_id = rid, uc_error_code = code, uc_execution_uncertain = flag_or_true d ''execution_uncertain'',
             uc_may_still_execute = flag_or_true d ''may_still_execute''\<rparr> (Host_Command rid code m d)
          else (Inl (Host_Command rid code m d), c, disk)
      | (Inl (Host_Error k m i d), c) \<Rightarrow>
          if k = Host_Start then (Inl (Host_Error k m i d), c, disk)
          else handle_uncertain repr env disk c command payload commands (certainly_uncertain ''python-host-exchange'' (kind_code k))
            (Host_Error k m i d)
      | (Inl e, c) \<Rightarrow> (Inl e, c, disk)
      | (Inr d, c) \<Rightarrow>
          (case bindE (CommandTaskResult_from_mapping d) (\<lambda>r. checked (validate_command_correlation command commands r) r) of
             Inl e \<Rightarrow> if result_error e
               then handle_uncertain repr env disk c command payload commands (certainly_uncertain ''invalid-command-result'' ''INVALID_COMMAND_RESULT'')
                 (protocol_error (command @ '' result is invalid: '' @ pyexc_text e))
               else (Inl (Client_Python e), c, disk)
           | Inr r \<Rightarrow> if ct_execution_uncertain r \<or> filter requires_manual_readback (ct_point_results r) \<noteq> []
               then handle_uncertain repr env disk c command payload commands
                 (certainly_uncertain (''command-task-'' @ str_int (ct_task_id r)) ''UNCERTAIN_COMMAND_RESULT'') (uncertain_result c r)
               else (Inr r, c, disk)))"

section \<open>Admission\<close>

definition upper_char :: "char \<Rightarrow> char" where
  "upper_char c = (if code_in c 97 122 then char_of (of_char c - (32 :: nat)) else c)"

text \<open>The checks of the arguments: the commands and the timeout in seconds.\<close>

definition command_args :: "command_item seq_arg \<Rightarrow> pyval \<Rightarrow> pyval \<Rightarrow> pyexc + command_item list \<times> rat" where
  "command_args commands timeout response_mode =
     bindE (command_items commands) (\<lambda>items.
     bindE (seconds_arg timeout FIVE_HUNDREDTHS 300 ''timeout must be between 0.05 and 300 seconds'') (\<lambda>seconds.
     checked (check_member response_mode [''response'', ''no_response'']
       (ValueError (''response_mode must be '' @ quoted ''response'' @ '' or '' @ quoted ''no_response''))) (items, seconds)))"

definition command_payload :: "string \<Rightarrow> command_item list \<Rightarrow> rat \<Rightarrow> pyval \<Rightarrow> dict" where
  "command_payload command items seconds response_mode =
     [(''operation'', PStr command), (''timeout_ms'', PInt (to_ms seconds)), (''response_mode'', response_mode),
      (''commands'', PList (map (PDict \<circ> item_params) items))]"

definition command_params :: "string \<Rightarrow> dict \<Rightarrow> dict" where
  "command_params token payload =
     [(''safety_token'', PStr token), (''timeout_ms'', get payload ''timeout_ms''), (''response_mode'', get payload ''response_mode''),
      (''commands'', get payload ''commands'')]"

text \<open>Outside a simulator the store must be configured and hold no lock for the DUT.\<close>

definition lock_check :: "op_env \<Rightarrow> disk \<Rightarrow> client \<Rightarrow> client_exc option" where
  "lock_check env disk c =
     (if cl_simulator c then None
      else case incident_context c (cl_dut c) of
        Inl e \<Rightarrow> Some e
      | Inr dut \<Rightarrow> map_option Store_Error (assert_clear env disk (PStr dut)))"

text \<open>\<open>except (KeyboardInterrupt, SystemExit)\<close> and \<open>finally\<close>.\<close>

definition settle_interrupt ::
    "(rat \<Rightarrow> string) \<Rightarrow> op_env \<Rightarrow> string \<Rightarrow> dict \<Rightarrow> command_item list \<Rightarrow> task_result control \<Rightarrow> task_result control" where
  "settle_interrupt repr env command payload commands r = (case r of
     (Inl (Interrupt n i d), c, disk) \<Rightarrow>
       if cl_write_started c
       then (case handle_uncertain repr env disk c command payload commands
           (certainly_uncertain ''interrupted-command-exchange'' (map upper_char n)) (Interrupt n i d) of
         (e, c, disk) \<Rightarrow> (e, c\<lparr>cl_write_started := False\<rparr>, disk))
       else (Inl (Interrupt n i d), c, disk)
   | (e, c, disk) \<Rightarrow> (e, c\<lparr>cl_write_started := False\<rparr>, disk))"

definition command_task ::
    "(rat \<Rightarrow> string) \<Rightarrow> exchange_env \<Rightarrow> op_env \<Rightarrow> disk \<Rightarrow> client \<Rightarrow> string \<Rightarrow> command_item seq_arg \<Rightarrow> pyval \<Rightarrow> pyval \<Rightarrow> pyval \<Rightarrow>
       task_result control" where
  "command_task repr x env disk c command commands timeout response_mode request_timeout = (case cl_token c of
     None \<Rightarrow> (Inl (Client_State ''state-changing command is locked; connect with a LabSafetyConfig whose allow_state_change is explicitly true, or simulator=True for a simulated device''), c, disk)
   | Some token \<Rightarrow> (case command_args commands timeout response_mode of
       Inl e \<Rightarrow> (Inl (Client_Python e), c, disk)
     | Inr (items, seconds) \<Rightarrow>
         let payload = command_payload command items seconds response_mode in
         case lock_check env disk c of
           Some e \<Rightarrow> (Inl e, c, disk)
         | None \<Rightarrow> settle_interrupt repr env command payload items
             (execute_command_task repr x env disk (c\<lparr>cl_write_started := False\<rparr>) command items payload
               (command_params token payload) (exchange_timeout c seconds request_timeout))))"

definition select_and_operate ::
    "(rat \<Rightarrow> string) \<Rightarrow> exchange_env \<Rightarrow> op_env \<Rightarrow> disk \<Rightarrow> client \<Rightarrow> command_item seq_arg \<Rightarrow> pyval \<Rightarrow> pyval \<Rightarrow> task_result control" where
  "select_and_operate repr x env disk c commands timeout request_timeout =
     command_task repr x env disk c ''select_and_operate'' commands timeout (PStr ''response'') request_timeout"

definition direct_operate ::
    "(rat \<Rightarrow> string) \<Rightarrow> exchange_env \<Rightarrow> op_env \<Rightarrow> disk \<Rightarrow> client \<Rightarrow> command_item seq_arg \<Rightarrow> pyval \<Rightarrow> pyval \<Rightarrow> pyval \<Rightarrow> task_result control" where
  "direct_operate repr x env disk c commands timeout response_mode request_timeout =
     command_task repr x env disk c ''direct_operate'' commands timeout response_mode request_timeout"

section \<open>Incidents\<close>

definition active_safety_incident :: "op_env \<Rightarrow> disk \<Rightarrow> client \<Rightarrow> string option \<Rightarrow> client_exc + dict option" where
  "active_safety_incident env disk c dut_id = bindE (incident_context c dut_id) (\<lambda>dut.
     case get_active env disk (PStr dut) of Inl e \<Rightarrow> Inl (Store_Error e) | Inr d \<Rightarrow> Inr d)"

definition acknowledge_safety_incident ::
    "(rat \<Rightarrow> string) \<Rightarrow> op_env \<Rightarrow> disk \<Rightarrow> client \<Rightarrow> pyval \<Rightarrow> readback_args \<Rightarrow> string option \<Rightarrow> (client_exc + dict) \<times> disk" where
  "acknowledge_safety_incident repr env disk c incident_id a dut_id = (case incident_context c dut_id of
     Inl e \<Rightarrow> (Inl e, disk)
   | Inr dut \<Rightarrow> (case acknowledge repr env disk (PStr dut) incident_id a of
       (Inl e, disk') \<Rightarrow> (Inl (Store_Error e), disk')
     | (Inr d, disk') \<Rightarrow> (Inr d, disk')))"

end
