(* ===== verification/ClientSafety.thy ===== *)
theory ClientSafety
  imports ClientSession ClientCommands
begin

text \<open>
  The safety of the control path: the invariant of a client under any sequence of calls, when a control
  request can be sent at all, what a caller may conclude from each outcome, and that an uncertain
  outcome blocks every later control of the device, by whichever process, until it is acknowledged.
\<close>

section \<open>The invariant of a client\<close>

definition client_ok :: "client \<Rightarrow> bool" where
  "client_ok c \<longleftrightarrow>
     (cl_token c \<noteq> None \<longrightarrow> cl_state c \<in> {RUNNING, CLOSING} \<and> cl_process c \<and> (cl_simulator c \<or> cl_dut c \<noteq> None)) \<and>
     (cl_state c = RUNNING \<longrightarrow> cl_process c \<and> cl_hello c \<noteq> None) \<and> tail_ok (cl_stdout_tail c)"

lemma client_ok_new: "client_ok (new_client config prefix)"
  by (simp add: client_ok_def new_client_def tail_ok_def tail_new_def)

lemma frame_ok: "frame c c' \<Longrightarrow> client_ok c \<Longrightarrow> client_ok c'"
  by (auto simp: frame_def client_ok_def broken_def same_session_def)

lemma ok_op_ok: "ok_op repr k c r \<Longrightarrow> client_ok c \<Longrightarrow> client_ok (snd r)"
  by (auto simp: ok_op_def intro: frame_ok)

lemma connected_ok:
  assumes "cl_state c = RUNNING" "client_ok c"
  shows "client_ok (snd (connected config d c))" "cl_requests (snd (connected config d c)) = cl_requests c"
    "cl_state (snd (connected config d c)) \<in> {RUNNING, BROKEN}"
proof -
  let ?s = "as_dict (get d ''safety'')"
  have "safety_consistent config ?s \<Longrightarrow> get ?s ''state_change_authorized'' = PBool True \<Longrightarrow> tcp_simulator config \<or> tcp_safety config \<noteq> None"
    by (auto simp: safety_consistent_def Let_def)
  then show "client_ok (snd (connected config d c))" "cl_requests (snd (connected config d c)) = cl_requests c"
    "cl_state (snd (connected config d c)) \<in> {RUNNING, BROKEN}"
    using assms frame_ok [OF frame_abort assms(2)] unfolding connected_def Let_def by (auto simp: client_ok_def)
qed

text \<open>Connecting and disconnecting change the token as well.\<close>

definition session_op :: "(rat \<Rightarrow> string) \<Rightarrow> string \<Rightarrow> client \<Rightarrow> 'a result \<Rightarrow> bool" where
  "session_op repr k c r \<longleftrightarrow> (client_ok c \<longrightarrow> client_ok (snd r)) \<and> sent_one repr k c (snd r) \<and>
     (cl_state c \<noteq> RUNNING \<longrightarrow> snd r = c)"

lemma ok_op_session: "ok_op repr k c r \<Longrightarrow> session_op repr k c r"
  by (auto simp: session_op_def ok_op_def intro: frame_ok)

lemma typed_running:
  assumes "typed_request repr x c k ps t what parse = (Inr v, c')" "client_ok c"
  shows "cl_state c = RUNNING" "cl_state c' = RUNNING" "client_ok c'" "sent_one repr k c c'"
  using typed_success [OF assms(1)] ok_op_typed [of repr k c x ps t what parse] assms
  by (auto simp: same_session_def ok_op_def intro: frame_ok)

lemma connect_session: "session_op repr ''connect'' c (connect repr x c config timeout)"
proof -
  have "session_op repr ''connect'' c (andthen (typed_request repr x c ''connect'' ps t ''result'' Inr) (connected cfg))" for ps t cfg
  proof (cases "typed_request repr x c ''connect'' ps t ''result'' Inr")
    case (Pair r c')
    note typed = ok_op_typed [of repr "''connect''" c x ps t "''result''" Inr, unfolded Pair]
    show ?thesis
    proof (cases r)
      case (Inl e)
      then show ?thesis using ok_op_session [OF typed] Pair by (simp add: session_op_def)
    next
      case (Inr d)
      have same: "same_session c c'" "cl_state c = RUNNING" using typed_success [OF Pair [unfolded Inr]] by blast+
      then have running: "cl_state c' = RUNNING" by (simp add: same_session_def)
      have "client_ok c \<longrightarrow> client_ok c'" using typed by (auto simp: ok_op_def intro: frame_ok)
      moreover have "cl_requests (snd (connected cfg d c')) = cl_requests c'" by (simp add: connected_def Let_def)
      ultimately show ?thesis
        using Inr Pair same(2) connected_ok(1) [OF running] typed by (auto simp: session_op_def ok_op_def sent_one_def)
    qed
  qed
  then show ?thesis
    by (auto simp: connect_def lift_python_def andthen_def [of "lift_python _ _"] session_op_def sent_one_def split: obj_arg.splits sum.splits)
qed

lemma disconnect_session: "session_op repr ''disconnect'' c (disconnect repr x c timeout)"
proof (cases "typed_request repr x c ''disconnect'' [] timeout ''result'' Inr")
  case (Pair r c')
  note typed = ok_op_typed [of repr "''disconnect''" c x "[]" timeout "''result''" Inr, unfolded Pair]
  show ?thesis
  proof (cases r)
    case (Inl e)
    then show ?thesis using ok_op_session [OF typed] Pair by (simp add: disconnect_def session_op_def)
  next
    case (Inr d)
    have "cl_state c = RUNNING" using typed_success [OF Pair [unfolded Inr]] by blast
    then show ?thesis
      using Inr Pair ok_op_ok [OF typed] typed
      by (auto simp: disconnect_def session_op_def ok_op_def sent_one_def client_ok_def)
  qed
qed

lemma sent_one_eq: "sent_one repr k c c1 \<Longrightarrow> cl_requests c' = cl_requests c1 \<Longrightarrow> sent_one repr k c c'"
  by (simp add: sent_one_def)

lemma start_body_ok:
  assumes "start_body repr env c = (r, c')" "cl_token c = None" "tail_ok (cl_stdout_tail c)"
  shows "cl_token c' = None" "tail_ok (cl_stdout_tail c')" "r = Inr d \<Longrightarrow> cl_state c' = RUNNING \<and> cl_process c' \<and> cl_hello c' \<noteq> None"
    "sent_one repr ''hello'' c c'"
proof -
  have "cl_token c' = None \<and> tail_ok (cl_stdout_tail c') \<and> (r = Inr d \<longrightarrow> cl_state c' = RUNNING \<and> cl_process c' \<and> cl_hello c' \<noteq> None) \<and>
      sent_one repr ''hello'' c c'"
  proof (cases "spawn_process (se_spawn env) c")
    case (Pair f c1)
    have spawn: "cl_token c1 = None" "cl_stdout_tail c1 = cl_stdout_tail c" "cl_requests c1 = cl_requests c" "f = None \<longrightarrow> cl_process c1"
      using Pair assms(2) by (auto simp: spawn_process_def split: spawn.splits)
    show ?thesis
    proof (cases f)
      case (Some g)
      then show ?thesis using assms Pair spawn by (auto simp: start_body_def sent_one_def)
    next
      case None
      let ?t = "the (finite_number (ha_startup_timeout (cl_config c1)))"
      obtain q c2 where x: "exchange repr (se_hello env) c1 (PStr ''hello'') [] ?t = (q, c2)" by fastforce
      note f = exchange_frame [OF x]
      have frame: "cl_token c2 = None" "tail_ok (cl_stdout_tail c2)" "sent_one repr ''hello'' c c2"
        using f(1,2) spawn assms(3) by (auto simp: frame_def broken_def same_session_def sent_one_def)
      have ok: "q = Inr v \<Longrightarrow> cl_process c2" for v using f(3) spawn None by (simp add: same_session_def)
      show ?thesis
      proof (cases q)
        case (Inl e)
        then have "c' = c2 \<and> (\<exists>g. r = Inl g)"
          using assms(1) Pair None x by (cases e) (auto simp: start_body_def)
        then show ?thesis using frame by auto
      next
        case (Inr v)
        have "cl_requests c' = cl_requests c2" "cl_token c' = cl_token c2" "cl_stdout_tail c' = cl_stdout_tail c2"
          "r = Inr d \<longrightarrow> cl_state c' = RUNNING \<and> cl_process c' = cl_process c2 \<and> cl_hello c' \<noteq> None"
          using assms(1) Pair None x Inr by (auto simp: start_body_def split: option.splits)
        then show ?thesis using frame(1,2) sent_one_eq [OF frame(3)] ok [OF Inr] by simp
      qed
    qed
  qed
  then show "cl_token c' = None" "tail_ok (cl_stdout_tail c')" "r = Inr d \<Longrightarrow> cl_state c' = RUNNING \<and> cl_process c' \<and> cl_hello c' \<noteq> None"
    "sent_one repr ''hello'' c c'" by blast+
qed

lemma start_ok:
  assumes "client_ok c"
  shows "client_ok (snd (start repr env c))" "sent_one repr ''hello'' c (snd (start repr env c))"
    "cl_state c \<noteq> NEW \<Longrightarrow> snd (start repr env c) = c"
proof -
  show "cl_state c \<noteq> NEW \<Longrightarrow> snd (start repr env c) = c"
    by (auto simp: start_def hello_info_def split: option.splits)
  obtain r c' where body: "start_body repr env (c\<lparr>cl_state := STARTING\<rparr>) = (r, c')" by fastforce
  have token: "cl_state c = NEW \<Longrightarrow> cl_token c = None" using assms by (auto simp: client_ok_def)
  have tail: "tail_ok (cl_stdout_tail c)" using assms by (simp add: client_ok_def)
  have "client_ok (snd (start repr env c)) \<and> sent_one repr ''hello'' c (snd (start repr env c))"
  proof (cases "cl_state c = NEW")
    case False
    then have "snd (start repr env c) = c" by (auto simp: start_def hello_info_def split: option.splits)
    then show ?thesis using assms by (simp add: sent_one_def)
  next
    case True
    note b = start_body_ok [OF body, simplified, OF token [OF True] tail]
    have sent: "sent_one repr ''hello'' c c'" using b(4) by (simp add: sent_one_def)
    show ?thesis
      using True b sent assms token [OF True] body unfolding start_def
      by (auto simp: client_ok_def sent_one_def abort_process_def split: sum.splits start_failure.splits)
  qed
  then show "client_ok (snd (start repr env c))" "sent_one repr ''hello'' c (snd (start repr env c))" by blast+
qed

lemma shut_down_ok:
  assumes "shut_down repr env c = (r, c')"
  shows "tail_ok (cl_stdout_tail c) \<Longrightarrow> tail_ok (cl_stdout_tail c')" "sent_one repr ''shutdown'' c c'" "r = Inl e \<Longrightarrow> frame c c'"
proof -
  have "(tail_ok (cl_stdout_tail c) \<longrightarrow> tail_ok (cl_stdout_tail c')) \<and> sent_one repr ''shutdown'' c c' \<and> (r = Inl e \<longrightarrow> frame c c')"
  proof (cases "cl_process c \<and> ce_alive env")
    case False
    have "r = Inr () \<and> cl_stdout_tail c' = cl_stdout_tail c \<and> cl_requests c' = cl_requests c"
    proof (cases "cl_process c")
      case True
      then have "\<not> ce_alive env" using False by simp
      then show ?thesis using assms True unfolding shut_down_def by (simp only: if_True if_False not_True_eq_False not_False_eq_True) auto
    next
      case False
      then show ?thesis using assms by (simp add: shut_down_def)
    qed
    then show ?thesis by (simp add: sent_one_def)
  next
    case True
    obtain q c1 where x: "exchange repr (ce_exchange env) c (PStr ''shutdown'') [] (the (finite_number (ha_shutdown_timeout (cl_config c)))) = (q, c1)"
      by fastforce
    note f = exchange_frame [OF x]
    have graceful: "cl_stdout_tail (graceful_failure env c1 m) = cl_stdout_tail c1" "cl_requests (graceful_failure env c1 m) = cl_requests c1" for m
      by (simp_all add: graceful_failure_def Let_def abort_process_def)
    have "c' = c1 \<or> ((\<exists>m. c' = graceful_failure env c1 m) \<and> r = Inr ())"
      using assms True x by (auto simp: shut_down_def split: sum.splits client_exc.splits if_splits)
    then show ?thesis
      using f(1) sent_one_eq [OF f(2)] graceful by (auto simp: frame_def)
  qed
  then show "tail_ok (cl_stdout_tail c) \<Longrightarrow> tail_ok (cl_stdout_tail c')" "sent_one repr ''shutdown'' c c'" "r = Inl e \<Longrightarrow> frame c c'" by blast+
qed

lemma close_ok:
  assumes "client_ok c"
  shows "client_ok (snd (close repr env c))" "sent_one repr ''shutdown'' c (snd (close repr env c))"
    "cl_state c \<in> {NEW, BROKEN, CLOSED} \<Longrightarrow> cl_state (snd (close repr env c)) = CLOSED \<and> cl_requests (snd (close repr env c)) = cl_requests c"
proof -
  show "cl_state c \<in> {NEW, BROKEN, CLOSED} \<Longrightarrow> cl_state (snd (close repr env c)) = CLOSED \<and> cl_requests (snd (close repr env c)) = cl_requests c"
    by (auto simp: close_def)
  have "client_ok (snd (close repr env c)) \<and> sent_one repr ''shutdown'' c (snd (close repr env c))"
  proof (cases "cl_state c \<in> {CLOSED, NEW, BROKEN}")
    case True
    then show ?thesis using assms by (auto simp: close_def client_ok_def sent_one_def)
  next
    case False
    let ?c = "c\<lparr>cl_state := CLOSING\<rparr>"
    obtain r c' where s: "shut_down repr env ?c = (r, c')" by fastforce
    note shut = shut_down_ok [OF s]
    have "tail_ok (cl_stdout_tail c')" "sent_one repr ''shutdown'' c c'"
      using shut(1,2) assms by (simp_all add: client_ok_def sent_one_def)
    moreover have "cl_token c \<noteq> None \<longrightarrow> cl_process c \<and> (cl_simulator c \<or> cl_dut c \<noteq> None)" using assms by (auto simp: client_ok_def)
    ultimately show ?thesis
      using False s shut(3) by (cases r) (auto simp: close_def client_ok_def sent_one_def frame_def broken_def same_session_def)
  qed
  then show "client_ok (snd (close repr env c))" "sent_one repr ''shutdown'' c (snd (close repr env c))" by blast+
qed

section \<open>One control command\<close>

lemma handle_uncertain_client:
  assumes "handle_uncertain repr env disk c k payload items u original = (r, c', disk')"
  shows "broken c'" "frame c c'" "cl_requests c' = cl_requests c" "\<exists>e. r = Inl e"
proof -
  have "frame c (abort_process (c\<lparr>cl_token := None\<rparr>) m)" for m
    using frame_abort [of "c\<lparr>cl_token := None\<rparr>" m] by (auto simp: frame_def same_session_def)
  then show "broken c'" "frame c c'" "cl_requests c' = cl_requests c" "\<exists>e. r = Inl e"
    using assms by (auto simp: handle_uncertain_def Let_def split: if_splits prod.splits sum.splits)
qed

text \<open>The store raises no other exception of the language than \<open>ValueError\<close> and \<open>TypeError\<close>.\<close>

fun value_or_type :: "pyexc \<Rightarrow> bool" where
  "value_or_type (ValueError m) = True"
| "value_or_type (TypeError m) = True"
| "value_or_type _ = False"

lemma first_error_pred: "list_all (\<lambda>q. \<forall>e. q = Some e \<longrightarrow> P e) cs \<Longrightarrow> first_error cs = Some e \<Longrightarrow> P e"
  by (induction cs) (auto simp: first_error.simps split: option.splits)

lemma check_member_exc: "check_member v ss (ValueError m) = Some e \<Longrightarrow> value_or_type e"
  by (auto simp: check_member_def split: if_splits)

lemma for_each_exc: "(\<And>x e. f x = Some e \<Longrightarrow> P e) \<Longrightarrow> for_each f xs = Some e \<Longrightarrow> P e"
  unfolding for_each_def by (rule first_error_pred [of P]) (auto simp: list_all_iff)

lemma bounded_text_exc: "bounded_text v f n = Some e \<Longrightarrow> value_or_type e"
  unfolding bounded_text_def by (erule first_error_pred [rotated]) simp

lemma check_field_exc: "check_field Q d m f = Some e \<Longrightarrow> value_or_type e"
  by (auto simp: check_field_def)

lemma point_checks_exc: "point_checks seen ps = Some e \<Longrightarrow> value_or_type e"
proof (induction ps arbitrary: seen)
  case (Cons p ps)
  show ?case
  proof (rule ccontr)
    assume no: "\<not> value_or_type e"
    have "first_error
        [raise_if (\<not> is_dict p \<or> \<not> same_keys (as_dict p) [''type'', ''index'']) (ValueError ''incident command point is invalid''),
         check_member (get (as_dict p) ''type'') INCIDENT_COMMAND_TYPES (ValueError ''incident command point type is invalid''),
         raise_if (\<not> is_int (get (as_dict p) ''index'') \<or> \<not> (0 \<le> as_int (get (as_dict p) ''index'') \<and> as_int (get (as_dict p) ''index'') \<le> 65535))
           (ValueError ''incident command point index is invalid''),
         raise_if ((as_str (get (as_dict p) ''type''), as_int (get (as_dict p) ''index'')) \<in> set seen) (ValueError ''incident command repeats a point'')] = Some e'
      \<Longrightarrow> value_or_type e'" for e'
      by (erule first_error_pred [rotated]) (simp add: check_member_exc)
    then show False using Cons no by (auto simp: Let_def split: option.splits)
  qed
qed simp

lemma validate_incident_exc: "validate_incident v = Inl e \<Longrightarrow> value_or_type e"
proof -
  have root: "root_checks d = Some e \<Longrightarrow> value_or_type e" for d e
    unfolding root_checks_def
    by (erule first_error_pred [rotated]) (auto intro: check_member_exc for_each_exc [where P = value_or_type] check_field_exc)
  have command: "command_checks d = Some e \<Longrightarrow> value_or_type e" for d e
    unfolding command_checks_def Let_def
    by (erule first_error_pred [rotated]) (auto intro: check_member_exc point_checks_exc)
  have host: "host_error_checks d = Some e \<Longrightarrow> value_or_type e" for d e
    unfolding host_error_checks_def Let_def
    by (erule first_error_pred [rotated]) (auto intro: bounded_text_exc for_each_exc [where P = value_or_type] check_field_exc)
  have ack: "acknowledgment_checks q d = Some e \<Longrightarrow> value_or_type e" for q d e
    unfolding acknowledgment_checks_def Let_def
    by (erule first_error_pred [rotated]) (auto elim!: first_error_pred [where P = value_or_type, rotated] intro: bounded_text_exc)
  show "validate_incident v = Inl e \<Longrightarrow> value_or_type e"
    unfolding validate_incident_def Let_def checked_Inl
    by (erule first_error_pred [rotated]) (auto intro: root command host ack)
qed

lemma value_or_type_text: "value_or_type q \<Longrightarrow> persistence_text (Store_Error (Store_Python q)) \<noteq> None"
  by (cases q) simp_all

lemma dut_identity_exc: "dut_identity_sha256 dut = Inl e \<Longrightarrow> value_or_type e"
  unfolding dut_identity_sha256_def checked_Inl by (erule first_error_pred [rotated]) simp

lemma get_active_exc: "get_active env disk dut = Inl e \<Longrightarrow> persistence_text (Store_Error e) \<noteq> None"
proof (cases "ensure_directories env")
  case (Some q)
  then have "\<exists>m. q = Persistence m"
    unfolding ensure_directories_def by (rule first_error_pred [rotated]) simp
  then show "get_active env disk dut = Inl e \<Longrightarrow> ?thesis" using Some by (auto simp: get_active_def)
next
  case None
  show "get_active env disk dut = Inl e \<Longrightarrow> ?thesis"
  proof (cases "dut_identity_sha256 dut")
    case (Inl q)
    then show "get_active env disk dut = Inl e \<Longrightarrow> ?thesis"
      using None value_or_type_text [OF dut_identity_exc [OF Inl]] by (auto simp: get_active_def)
  next
    case (Inr h)
    have read: "read_document dir name True True = Inl e \<Longrightarrow> persistence_text (Store_Error e) \<noteq> None" for dir name e
      by (auto simp: read_document_def Let_def unreadable_error_def split: option.splits entry.splits sum.splits pyexc.splits)
    show "get_active env disk dut = Inl e \<Longrightarrow> ?thesis"
      using None Inr read by (auto simp: get_active_def bindE_eq_Inl split: option.splits if_splits)
  qed
qed

lemma create_incident_exc: "create_incident repr env disk dut h incident = (Inl e, disk') \<Longrightarrow> persistence_text (Store_Error e) \<noteq> None"
proof -
  have canonical: "canonical_bytes repr v = Inl q \<Longrightarrow> \<exists>m. q = ValueError m" for v q
    by (auto simp: canonical_bytes_def split: sum.splits)
  have "write_exclusive repr w dir name doc = (Write_Error q, dir') \<Longrightarrow> persistence_text (Store_Error q) \<noteq> None" for w dir name doc q dir'
    by (auto simp: write_exclusive_def Let_def dest!: canonical split: sum.splits os_write.splits if_splits)
  then show "create_incident repr env disk dut h incident = (Inl e, disk') \<Longrightarrow> ?thesis"
    by (auto simp: create_incident_def dest: get_active_exc split: prod.splits write_result.splits sum.splits option.splits)
qed

lemma record_uncertain_exc:
  assumes "record_uncertain repr env disk dut u = (Inl e, disk')"
  shows "persistence_text (Store_Error e) \<noteq> None"
proof (cases "get_active env disk dut")
  case (Inl q)
  then show ?thesis using assms get_active_exc [OF Inl] by (simp add: record_uncertain_def)
next
  case (Inr active)
  show ?thesis
  proof (cases "check_member (un_operation u) [''select_and_operate'', ''direct_operate''] (ValueError ''operation is not a supported control operation'')")
    case (Some q)
    then show ?thesis
      using assms Inr value_or_type_text [OF check_member_exc [OF Some]] unfolding record_uncertain_def by (auto split: option.splits)
  next
    case None
    let ?prepare = "bindE (dut_identity_sha256 dut) (\<lambda>dut_hash. bindE (sha256_json repr (un_payload u)) (\<lambda>payload_hash.
                 bindE (validate_incident (PDict (new_incident env dut_hash u payload_hash))) (\<lambda>incident. Inr (dut_hash, incident))))"
    have "sha256_json repr v = Inl q \<Longrightarrow> value_or_type q" for v q
      by (auto simp: sha256_json_def canonical_bytes_def bindE_eq_Inl split: sum.splits)
    then have "?prepare = Inl q \<Longrightarrow> value_or_type q" for q
      by (auto simp: bindE_eq_Inl dest: dut_identity_exc validate_incident_exc)
    then show ?thesis
      using assms value_or_type_text create_incident_exc unfolding record_uncertain_def Inr None
      by (cases active; cases ?prepare) (auto split: prod.splits)
  qed
qed

text \<open>Outside a simulator an uncertain outcome leaves a lock, or the caller is told that it could not be verified.\<close>

lemma handle_uncertain_locks:
  assumes "handle_uncertain repr env disk c k payload items u original = (Inl e, c', disk')" "\<not> cl_simulator c"
    and "cl_dut c = Some dut" "dut \<noteq> []" "dut_identity_sha256 (PStr dut) = Inr h"
  shows "locked disk' h \<or> (\<exists>original d. e = Lock_Unverified original d)"
proof -
  obtain r d2 where p: "persist_lock repr env disk c (uncertain_record k payload items u) = (r, d2)" by fastforce
  have d2: "disk' = d2" using assms(1,2) p by (auto simp: handle_uncertain_def Let_def split: sum.splits)
  show ?thesis
  proof (cases r)
    case (Inr x)
    then have "\<exists>y. record_uncertain repr env disk (PStr dut) (uncertain_record k payload items u) = (Inr y, d2)"
      using p assms(3,4) by (auto simp: persist_lock_def incident_context_def split: if_splits prod.splits sum.splits)
    then show ?thesis using record_locks assms(5) d2 by blast
  next
    case (Inl q)
    then have "persistence_text q \<noteq> None"
      using p record_uncertain_exc by (fastforce simp: persist_lock_def incident_context_def split: if_splits prod.splits sum.splits option.splits)
    then show ?thesis using assms(1,2) p Inl by (auto simp: handle_uncertain_def Let_def)
  qed
qed

lemma request_control_error:
  assumes "request_locked repr x c (PStr k) params timeout = (Inl e, c')" "is_control_command k"
  obtains (unsent) "cl_requests c' = cl_requests c" "frame c c'" "same_session c c'" "(\<exists>q. e = Client_Python q) \<or> (\<exists>m. e = Client_State m)"
  | (host) i code m d where "e = Host_Command i code m d" "frame c c'" "same_session c c'" "sent_one repr k c c'"
  | (failed) q m where "e = Host_Error q m None []" "broken c'" "frame c c'" "sent_one repr k c c'" "q \<noteq> Host_Start"
  | (before) n where "e = Interrupt n None []" "frame c c'" "same_session c c'" "cl_requests c' = cl_requests c" "\<not> cl_write_started c'"
      "xe_outcome x = Interrupted_Before n"
  | (interrupted) n where "e = Interrupt n None []" "frame c c'" "same_session c c'" "sent_one repr k c c'" "cl_write_started c'"
proof (cases "cl_state c = RUNNING \<and> (\<exists>t. finite_number (if timeout = PNone then ha_request_timeout (cl_config c) else timeout) = Some t \<and> \<not> t \<le> 0)")
  case False
  then show thesis using assms(1) by (intro unsent) (auto simp: request_locked_def split: if_splits option.splits)
next
  case True
  then obtain t where run: "exchange repr x c (PStr k) params t = (Inl e, c')"
    using assms(1) by (auto simp: request_locked_def)
  note f = exchange_frame [OF run]
  from run show thesis
  proof (cases rule: exchange_cases)
    case (refused q)
    then show thesis using unsent by auto
  next
    case (gone m)
    then show thesis using failed f by auto
  next
    case (waited c1 line)
    let ?c2 = "put_request c1 line (xe_outcome x)"
    have same: "same_session c ?c2" using waited(2) by (auto simp: same_session_def put_request_def split: outcome.splits)
    from await_error [OF waited(10)] consider (b) k m where "broken c'" "e = Host_Error k m None []"
      | (h) i code m d where "c' = ?c2" "e = Host_Command i code m d" | (i) n where "e = Interrupt n None []" by blast
    then show thesis
    proof cases
      case b
      moreover have "k \<noteq> Host_Start" if "e = Host_Error k m None []" for k m
        using waited(10) that
        by (auto simp: await_def handle_item_def raise_exited_def fail_host_def split: outcome.splits if_splits stdout_item.splits sum.splits
            elim!: parse_response_Inr dest!: response_envelope_Inr(5) [OF _ refl])
      ultimately show thesis using failed f by simp
    next
      case h
      then show thesis using host f same by simp
    next
      case i
      have no_item: "handle_item q1 q2 q3 q4 \<noteq> (Inl (Interrupt n None []), c')" for q1 q2 q3 q4
        using handle_item_error by blast
      have ending: "c' = ?c2" "xe_outcome x = Interrupted_Before n \<or> xe_outcome x = Interrupted n \<or> xe_outcome x = Interrupted_After n"
        using waited(10) i assms(2) no_item by (auto simp: await_def fail_host_def split: outcome.splits if_splits)
      show thesis
      proof (cases "xe_outcome x = Interrupted_Before n")
        case True
        then have "?c2 = c1" by (simp add: put_request_def)
        then show thesis using before i f(1) same ending(1) waited(4,5) True by simp
      next
        case False
        then have "cl_write_started ?c2" using ending(2) by (auto simp: put_request_def)
        then show thesis using interrupted i f same ending(1) by simp
      qed
    qed
  qed
qed

text \<open>The parser and the correlation of command results raise only what the client handles.\<close>

lemma correlation_exc: "correlation_loop items seen ps = Some e \<Longrightarrow> value_or_type e"
  by (induction ps arbitrary: seen) (auto simp: Let_def split: option.splits if_splits)

lemma mapE_exc: "(\<And>x e. f x = Inl e \<Longrightarrow> P e) \<Longrightarrow> mapE f xs = Inl e \<Longrightarrow> P e"
  by (induction xs) (auto simp: bindE_eq_Inl)

lemma command_result_exc:
  assumes "bindE (CommandTaskResult_from_mapping d) (\<lambda>r. checked (validate_command_correlation k items r) r) = Inl e"
  shows "result_error e"
proof -
  have missing: "check_missing m ks v = Some e \<Longrightarrow> value_or_type e" for m ks v e by (auto simp: check_missing_def Let_def)
  have env: "task_envelope_checks v = Some e \<Longrightarrow> value_or_type e" for v e
    unfolding task_envelope_checks_def
    by (erule first_error_pred [rotated]) (auto intro: missing for_each_exc [where P = value_or_type] check_field_exc)
  have points: "task_point_checks v ps = Some e \<Longrightarrow> value_or_type e" for v ps e
    unfolding task_point_checks_def Let_def
    by (erule first_error_pred [rotated]) (auto intro: missing for_each_exc [where P = value_or_type] check_field_exc)
  have point: "CommandPointResult_from_mapping v = Inl e \<Longrightarrow> value_or_type e" for v e
    unfolding CommandPointResult_from_mapping_def Let_def checked_Inl
    by (erule first_error_pred [rotated]) (auto intro: missing for_each_exc [where P = value_or_type] check_field_exc)
  have objects: "parse_objects CommandPointResult_from_mapping v = Inl e \<Longrightarrow> value_or_type e" for v e
    unfolding parse_objects_def by (erule mapE_exc [rotated]) (auto intro: point split: if_splits)
  have "CommandTaskResult_from_mapping v = Inl e \<Longrightarrow> value_or_type e" for v e
    by (auto simp: CommandTaskResult_from_mapping_def bindE_eq_Inl intro: env points objects)
  moreover have "validate_command_correlation k items r = Some e \<Longrightarrow> value_or_type e" for r e
    unfolding validate_command_correlation_def by (erule first_error_pred [rotated]) (auto intro: correlation_exc)
  ultimately have "value_or_type e" using assms by (auto simp: bindE_eq_Inl)
  then show ?thesis by (cases e) simp_all
qed

lemma execute_cases:
  assumes "execute_command_task repr x env disk c k items payload params timeout = (r, c', disk')" "is_control_command k"
  obtains (returned) res d where "r = Inr res" "disk' = disk" "same_session c c'" "frame c c'" "sent_one repr k c c'" "cl_state c = RUNNING"
      "CommandTaskResult_from_mapping d = Inr res" "validate_command_correlation k items res = None"
      "\<not> ct_execution_uncertain res" "filter requires_manual_readback (ct_point_results res) = []"
  | (definite) i code m d where "r = Inl (Host_Command i code m d)" "\<not> uncertain_error code d" "disk' = disk" "same_session c c'" "frame c c'"
      "sent_one repr k c c'"
  | (unsent) e where "r = Inl e" "cl_requests c' = cl_requests c" "disk' = disk" "same_session c c'" "frame c c'"
      "(\<exists>q. e = Client_Python q) \<or> (\<exists>m. e = Client_State m) \<or> (\<exists>n. e = Interrupt n None [] \<and> \<not> cl_write_started c')"
  | (interrupted) n where "r = Inl (Interrupt n None [])" "cl_write_started c'" "disk' = disk" "same_session c c'" "frame c c'" "sent_one repr k c c'"
  | (uncertain) c1 u original where "handle_uncertain repr env disk c1 k payload items u original = (r, c', disk')" "frame c c1"
      "sent_one repr k c c1" "\<And>n i d. original \<noteq> Interrupt n i d"
proof -
  note not_sent = unsent and stopped = interrupted
  obtain q c1 where run: "request_locked repr x c (PStr k) params timeout = (q, c1)" by fastforce
  show thesis
  proof (cases q)
    case (Inl e)
    from run [unfolded Inl] assms(2) show thesis
    proof (cases rule: request_control_error)
      case unsent
      then show thesis using not_sent assms(1) run Inl by (auto simp: execute_command_task_def)
    next
      case (host i code m d)
      then show thesis
        using definite uncertain assms(1) run Inl by (auto simp: execute_command_task_def split: if_splits)
    next
      case (failed q m)
      then show thesis using uncertain assms(1) run Inl by (auto simp: execute_command_task_def)
    next
      case (before n)
      then show thesis using not_sent assms(1) run Inl by (auto simp: execute_command_task_def)
    next
      case (interrupted n)
      then show thesis using stopped assms(1) run Inl by (auto simp: execute_command_task_def)
    qed
  next
    case (Inr v)
    have f: "frame c c1" "sent_one repr k c c1" "same_session c c1" "cl_state c = RUNNING"
      using request_frame [OF run] Inr by auto
    show thesis
    proof (cases "is_dict v")
      case False
      have "frame c (abort_process c1 m)" "sent_one repr k c (abort_process c1 m)" for m
        using frame_trans [OF f(1) frame_abort] sent_one_eq [OF f(2)] by simp_all
      then show thesis
        using uncertain assms(1) run Inr False by (auto simp: execute_command_task_def mapping_result_def protocol_error_def)
    next
      case True
      let ?parse = "bindE (CommandTaskResult_from_mapping (as_dict v)) (\<lambda>r. checked (validate_command_correlation k items r) r)"
      show thesis
      proof (cases ?parse)
        case err: (Inl e)
        then show thesis
          using uncertain f assms(1) run Inr True command_result_exc [OF err]
          by (auto simp: execute_command_task_def mapping_result_def protocol_error_def)
      next
        case ok: (Inr res)
        then have parsed: "CommandTaskResult_from_mapping (as_dict v) = Inr res" "validate_command_correlation k items res = None"
          by (auto simp: bindE_eq_Inr)
        have run2: "(if ct_execution_uncertain res \<or> filter requires_manual_readback (ct_point_results res) \<noteq> []
             then handle_uncertain repr env disk c1 k payload items
               (certainly_uncertain (''command-task-'' @ str_int (ct_task_id res)) ''UNCERTAIN_COMMAND_RESULT'') (uncertain_result c1 res)
             else (Inr res, c1, disk)) = (r, c', disk')"
          using assms(1) run Inr True ok by (simp add: execute_command_task_def mapping_result_def)
        show thesis
        proof (cases "ct_execution_uncertain res \<or> filter requires_manual_readback (ct_point_results res) \<noteq> []")
          case True
          then show thesis using run2 uncertain f by (auto simp: uncertain_result_def Let_def)
        next
          case False
          then show thesis using run2 returned f parsed by auto
        qed
      qed
    qed
  qed
qed

end
