(* ===== verification/ClientTheorems.thy ===== *)
theory ClientTheorems
  imports ClientSafety
begin

section \<open>Outcomes of a control command\<close>

lemma command_task_cases:
  assumes "command_task repr x env disk c k commands timeout mode request_timeout = (r, c', disk')"
  obtains (rejected) e where "r = Inl e" "c' = c" "disk' = disk"
  | (admitted) token items seconds r1 c1 disk1 where "cl_token c = Some token" "command_args commands timeout mode = Inr (items, seconds)"
      "lock_check env disk c = None"
      "execute_command_task repr x env disk (c\<lparr>cl_write_started := False\<rparr>) k items (command_payload k items seconds mode)
         (command_params token (command_payload k items seconds mode)) (exchange_timeout c seconds request_timeout) = (r1, c1, disk1)"
      "settle_interrupt repr env k (command_payload k items seconds mode) items (r1, c1, disk1) = (r, c', disk')"
proof (cases "cl_token c")
  case None
  then show thesis using assms rejected by (auto simp: command_task_def)
next
  case (Some token)
  show thesis
  proof (cases "command_args commands timeout mode")
    case (Inl e)
    then show thesis using assms Some rejected by (auto simp: command_task_def)
  next
    case (Inr p)
    obtain items seconds where p: "p = (items, seconds)" by (cases p)
    show thesis
    proof (cases "lock_check env disk c")
      case None
      obtain r1 c1 disk1 where e: "execute_command_task repr x env disk (c\<lparr>cl_write_started := False\<rparr>) k items (command_payload k items seconds mode)
          (command_params token (command_payload k items seconds mode)) (exchange_timeout c seconds request_timeout) = (r1, c1, disk1)"
        by (cases "execute_command_task repr x env disk (c\<lparr>cl_write_started := False\<rparr>) k items (command_payload k items seconds mode)
          (command_params token (command_payload k items seconds mode)) (exchange_timeout c seconds request_timeout)")
      show thesis
        using assms Some Inr p None e by (intro admitted [OF Some Inr [unfolded p] None e]) (simp add: command_task_def Let_def)
    next
      case lock: (Some e)
      then show thesis using assms Some Inr p rejected by (auto simp: command_task_def Let_def)
    qed
  qed
qed

lemma same_session_started: "same_session (c\<lparr>cl_write_started := b\<rparr>) c' = same_session c c'" "frame (c\<lparr>cl_write_started := b\<rparr>) c' = frame c c'"
  "sent_one repr k (c\<lparr>cl_write_started := b\<rparr>) c' = sent_one repr k c c'" "same_session c (c'\<lparr>cl_write_started := b\<rparr>) = same_session c c'"
  "frame c (c'\<lparr>cl_write_started := b\<rparr>) = frame c c'" "sent_one repr k c (c'\<lparr>cl_write_started := b\<rparr>) = sent_one repr k c c'"
  "broken (c'\<lparr>cl_write_started := b\<rparr>) = broken c'"
  by (simp_all add: same_session_def frame_def sent_one_def broken_def)

lemma update_details_interrupt: "update_details e j new = Interrupt n i d \<Longrightarrow> \<exists>i0 d0. e = Interrupt n i0 d0"
  by (cases e) simp_all

lemma persist_lock_exc:
  "persist_lock repr env disk c u = (Inl e, disk') \<Longrightarrow> (\<exists>m. e = Incident_Configuration m) \<or> (\<exists>s. e = Store_Error s)"
  by (auto simp: persist_lock_def incident_context_def split: sum.splits prod.splits if_splits option.splits)

lemma handle_uncertain_no_interrupt:
  assumes "handle_uncertain repr env disk c k payload items u original = (Inl (Interrupt n i d), c', disk')"
  shows "\<exists>i0 d0. original = Interrupt n i0 d0"
proof (cases "cl_simulator c")
  case True
  then show ?thesis using assms by (auto simp: handle_uncertain_def dest: update_details_interrupt)
next
  case False
  obtain recorded disk1 where p: "persist_lock repr env disk c (uncertain_record k payload items u) = (recorded, disk1)"
    by (cases "persist_lock repr env disk c (uncertain_record k payload items u)")
  show ?thesis
  proof (cases recorded)
    case (Inl e)
    then show ?thesis using assms False p persist_lock_exc by (fastforce simp: handle_uncertain_def split: option.splits)
  next
    case (Inr q)
    then show ?thesis using assms False p by (auto simp: handle_uncertain_def dest: update_details_interrupt split: prod.splits)
  qed
qed

text \<open>The three outcomes: a settled result, a definite refusal, an uncertain one.\<close>

lemma settled_cases:
  assumes "command_task repr x env disk c k commands timeout mode request_timeout = (r, c', disk')" "is_control_command k"
  obtains (returned) res items seconds d where "r = Inr res" "disk' = disk" "same_session c c'" "frame c c'" "sent_one repr k c c'"
      "command_args commands timeout mode = Inr (items, seconds)" "CommandTaskResult_from_mapping d = Inr res"
      "validate_command_correlation k items res = None" "\<not> ct_execution_uncertain res" "filter requires_manual_readback (ct_point_results res) = []"
  | (refused) e where "r = Inl e" "disk' = disk" "same_session c c'" "frame c c'" "sent_one repr k c c'"
      "cl_requests c' = cl_requests c \<or> (\<exists>i code m d. e = Host_Command i code m d \<and> \<not> uncertain_error code d)"
  | (uncertain) c1 c2 payload items u original where "handle_uncertain repr env disk c1 k payload items u original = (r, c2, disk')" "frame c c1"
      "sent_one repr k c c1" "c' = c2\<lparr>cl_write_started := False\<rparr>" "cl_token c \<noteq> None" "lock_check env disk c = None"
  using assms(1)
proof (cases rule: command_task_cases)
  case (rejected e)
  then show thesis using refused by (auto simp: sent_one_def)
next
  case (admitted token items seconds r1 c1 disk1)
  note settle = admitted(5)
  note via_returned = returned and via_uncertain = uncertain
  from admitted(4) assms(2) show thesis
  proof (cases rule: execute_cases)
    case (returned res d)
    then show thesis using via_returned settle admitted(2) by (auto simp: settle_interrupt_def same_session_started)
  next
    case (definite i code m d)
    then show thesis using refused settle by (auto simp: settle_interrupt_def same_session_started)
  next
    case (unsent e)
    moreover from this have "sent_one repr k c c1" by (simp add: sent_one_def)
    ultimately show thesis using refused settle by (auto simp: settle_interrupt_def same_session_started)
  next
    case (interrupted n)
    obtain r2 :: "client_exc + task_result" and c2 d2 where h: "handle_uncertain repr env disk c1 k (command_payload k items seconds mode) items
        (certainly_uncertain ''interrupted-command-exchange'' (map upper_char n)) (Interrupt n None []) = (r2, c2, d2)"
      using prod_cases3 by blast
    then have "(r, c', disk') = (r2, c2\<lparr>cl_write_started := False\<rparr>, d2)"
      using settle interrupted by (simp add: settle_interrupt_def)
    then show thesis
      using via_uncertain h interrupted admitted(1,3) by (auto simp: same_session_started)
  next
    case (uncertain c2 u original)
    obtain e where e: "r1 = Inl e" using handle_uncertain_client(4) [OF uncertain(1)] by blast
    then have "\<nexists>n i d. e = Interrupt n i d"
      using handle_uncertain_no_interrupt uncertain(1,4) by blast
    then have "(r, c', disk') = (r1, c1\<lparr>cl_write_started := False\<rparr>, disk1)"
      using settle e by (cases e) (simp_all add: settle_interrupt_def)
    then show thesis
      using via_uncertain uncertain admitted(1,3) by (auto simp: same_session_started)
  qed
qed


section \<open>Admission\<close>

lemma request_sent:
  assumes "request_locked repr x c command params timeout = (r, c')"
  shows "cl_requests c' = cl_requests c \<or> cl_requests c' = cl_requests c @ [request_line repr (cl_prefix c @ ''-'' @ dec (Suc (cl_counter c))) (as_str command) params]"
proof (cases "\<exists>t. exchange repr x c command params t = (r, c')")
  case True
  then obtain t where "exchange repr x c command params t = (r, c')" ..
  then show ?thesis
  proof (cases rule: exchange_cases)
    case (waited c1 line)
    then show ?thesis
      using await_frame(2) [OF waited(10)] put_request_fields(3) [of c1 line "xe_outcome x"] encode_request_line [OF waited(9)] by auto
  qed auto
next
  case False
  then show ?thesis using assms by (auto simp: request_locked_def split: if_splits option.splits)
qed

lemma execute_requests:
  assumes "execute_command_task repr x env disk c k items payload params timeout = (r, c', disk')"
  shows "cl_requests c' = cl_requests (snd (request_locked repr x c (PStr k) params timeout))"
proof -
  obtain r1 c1 where q: "andthen (request_locked repr x c (PStr k) params timeout) (mapping_result k) = (r1, c1)" by fastforce
  have c1: "cl_requests c1 = cl_requests (snd (request_locked repr x c (PStr k) params timeout))"
    using q mapping_result_frame(2) [of k]
    by (cases "request_locked repr x c (PStr k) params timeout") (auto simp: andthen_def mapping_result_def split: sum.splits if_splits)
  have "cl_requests c' = cl_requests c1"
    using assms handle_uncertain_client(3) unfolding execute_command_task_def q
    by (auto split: sum.splits client_exc.splits if_splits)
  then show ?thesis using c1 by simp
qed

lemma lock_check_dut:
  assumes "lock_check env disk c = None" "\<not> cl_simulator c"
  obtains dut h where "ha_safety_incident_directory (cl_config c) \<noteq> None" "cl_dut c = Some dut" "dut \<noteq> []"
    "dut_identity_sha256 (PStr dut) = Inr h" "\<not> locked disk h"
proof -
  obtain dut where dut: "incident_context c (cl_dut c) = Inr dut" "assert_clear env disk (PStr dut) = None"
    using assms by (auto simp: lock_check_def split: sum.splits)
  moreover from dut(2) obtain h where h: "dut_identity_sha256 (PStr dut) = Inr h" "\<not> locked disk h"
    unfolding assert_clear_None by blast
  moreover have "dut \<noteq> []" using h(1) by (auto simp: dut_identity_sha256_def)
  ultimately show thesis using that by (auto simp: incident_context_def split: if_splits option.splits)
qed

lemma control_admitted:
  assumes "command_task repr x env disk c k commands timeout mode request_timeout = (r, c', disk')" "cl_requests c' \<noteq> cl_requests c"
  shows "cl_state c = RUNNING \<and> (\<exists>token items seconds. cl_token c = Some token \<and> command_args commands timeout mode = Inr (items, seconds) \<and>
    cl_requests c' = cl_requests c @ [request_line repr (cl_prefix c @ ''-'' @ dec (Suc (cl_counter c))) k
      (command_params token (command_payload k items seconds mode))]) \<and>
    (\<not> cl_simulator c \<longrightarrow> ha_safety_incident_directory (cl_config c) \<noteq> None \<and>
       (\<exists>dut h. cl_dut c = Some dut \<and> dut_identity_sha256 (PStr dut) = Inr h \<and> \<not> locked disk h))"
  using assms(1)
proof (cases rule: command_task_cases)
  case (rejected e)
  then show ?thesis using assms(2) by simp
next
  case (admitted token items seconds r1 c1 disk1)
  let ?c = "c\<lparr>cl_write_started := False\<rparr>"
  let ?request = "request_locked repr x ?c (PStr k) (command_params token (command_payload k items seconds mode)) (exchange_timeout c seconds request_timeout)"
  have c1: "cl_requests c1 = cl_requests (snd ?request)" using execute_requests [OF admitted(4)] .
  have "cl_requests c' = cl_requests c1"
    using admitted(5) handle_uncertain_client(3) by (auto simp: settle_interrupt_def split: sum.splits client_exc.splits if_splits prod.splits)
  then have new: "cl_requests (snd ?request) = cl_requests c'" "cl_requests (snd ?request) \<noteq> cl_requests ?c" using c1 assms(2) by simp_all
  have "cl_state c = RUNNING"
    using new(2) request_frame(4) [of repr x ?c _ _ _ "fst ?request" "snd ?request"] by fastforce
  moreover have "cl_requests c' = cl_requests c @ [request_line repr (cl_prefix c @ ''-'' @ dec (Suc (cl_counter c))) k
      (command_params token (command_payload k items seconds mode))]"
    using new request_sent [of repr x ?c "PStr k" _ _ "fst ?request" "snd ?request"] by auto
  ultimately show ?thesis using admitted(1,2) lock_check_dut [OF admitted(3)] by blast
qed

lemma control_sends_running:
  "command_task repr x env disk c k commands timeout mode request_timeout = (r, c', disk') \<Longrightarrow> cl_requests c' \<noteq> cl_requests c \<Longrightarrow> cl_state c = RUNNING"
  using control_admitted by blast

text \<open>
  C1: nothing is sent to operate a point unless everything the client demands holds. When a control operation hands
  a request line to the host, the session was running and held the token of the host, the arguments had passed their checks, and the line is the
  one request with exactly that token and those commands under a new identifier; outside a simulator the
  incident store was configured and held no lock for the device under test.
\<close>

theorem control_gate:
  assumes "command_task repr x env disk c k commands timeout mode request_timeout = (r, c', disk')" "cl_requests c' \<noteq> cl_requests c"
  shows "cl_state c = RUNNING \<and> (\<exists>token items seconds. cl_token c = Some token \<and> command_args commands timeout mode = Inr (items, seconds) \<and>
    cl_requests c' = cl_requests c @ [request_line repr (cl_prefix c @ ''-'' @ dec (Suc (cl_counter c))) k
      (command_params token (command_payload k items seconds mode))]) \<and>
    (\<not> cl_simulator c \<longrightarrow> ha_safety_incident_directory (cl_config c) \<noteq> None \<and>
       (\<exists>dut h. cl_dut c = Some dut \<and> dut_identity_sha256 (PStr dut) = Inr h \<and> \<not> locked disk h))"
  using control_admitted [OF assms] .

text \<open>An uncertain outcome breaks the session and, outside a simulator, leaves a lock or says that it could not.\<close>

lemma uncertain_outcome:
  assumes "handle_uncertain repr env disk c1 k payload items u original = (r, c2, disk')" "frame c c1" "lock_check env disk c = None"
  obtains e where "r = Inl e" "broken c2" "cl_simulator c \<or> (\<exists>original d. e = Lock_Unverified original d) \<or>
    (\<exists>dut h. cl_dut c = Some dut \<and> dut_identity_sha256 (PStr dut) = Inr h \<and> locked disk' h)"
proof -
  obtain e where e: "r = Inl e" using handle_uncertain_client(4) [OF assms(1)] ..
  have same: "cl_dut c1 = cl_dut c" "cl_simulator c1 = cl_simulator c" using assms(2) by (simp_all add: frame_def)
  have "\<exists>dut h. cl_dut c = Some dut \<and> dut_identity_sha256 (PStr dut) = Inr h \<and> (locked disk' h \<or> (\<exists>original d. e = Lock_Unverified original d))"
    if out: "\<not> cl_simulator c"
  proof -
    obtain dut h where dut: "cl_dut c = Some dut" "dut \<noteq> []" "dut_identity_sha256 (PStr dut) = Inr h"
      using lock_check_dut [OF assms(3) out] by blast
    have "locked disk' h \<or> (\<exists>original d. e = Lock_Unverified original d)"
      by (rule handle_uncertain_locks [OF assms(1) [unfolded e]]) (use out same dut in simp_all)
    then show ?thesis using dut by blast
  qed
  then show thesis using that [OF e handle_uncertain_client(1) [OF assms(1)]] by blast
qed

text \<open>
  C2: what a control operation reports is one of three things. It returns a result only when the host confirmed it,
  every submitted point is answered for and no point needs a manual readback; the session goes on. It refuses with the session and the store
  as they were when nothing was sent, or when the host reported an error that is not uncertain. In every other case the session is
  broken for good, so that no token is left, and outside a simulator the store then holds
  a lock for the device, or the error says that no lock could be verified.
\<close>

theorem control_outcome:
  assumes "command_task repr x env disk c k commands timeout mode request_timeout = (r, c', disk')" "is_control_command k"
  shows "(\<exists>res items seconds. r = Inr res \<and> command_args commands timeout mode = Inr (items, seconds) \<and>
        validate_command_correlation k items res = None \<and> \<not> ct_execution_uncertain res \<and> list_all (\<lambda>p. \<not> requires_manual_readback p) (ct_point_results res) \<and>
        disk' = disk \<and> same_session c c') \<or>
    (\<exists>e. r = Inl e \<and> disk' = disk \<and> same_session c c' \<and>
       (cl_requests c' = cl_requests c \<or> (\<exists>i code m d. e = Host_Command i code m d \<and> \<not> uncertain_error code d))) \<or>
    (\<exists>e. r = Inl e \<and> broken c' \<and> (cl_simulator c \<or> (\<exists>original d. e = Lock_Unverified original d) \<or>
       (\<exists>dut h. cl_dut c = Some dut \<and> dut_identity_sha256 (PStr dut) = Inr h \<and> locked disk' h)))"
  using assms
proof (cases rule: settled_cases)
  case (returned res items seconds d)
  then show ?thesis by (auto simp: filter_empty_conv list_all_iff)
next
  case (refused e)
  then show ?thesis by auto
next
  case (uncertain c1 c2 payload items u original)
  obtain e where "r = Inl e" "broken c2" "cl_simulator c \<or> (\<exists>original d. e = Lock_Unverified original d) \<or>
      (\<exists>dut h. cl_dut c = Some dut \<and> dut_identity_sha256 (PStr dut) = Inr h \<and> locked disk' h)"
    using uncertain_outcome [OF uncertain(1,2,6)] .
  then show ?thesis using uncertain(4) by (auto simp: same_session_started)
qed

lemma locked_refuses:
  assumes "locked disk h" "cl_dut c = Some dut" "dut_identity_sha256 (PStr dut) = Inr h" "\<not> cl_simulator c"
  shows "\<exists>e. command_task repr x env disk c k commands timeout mode request_timeout = (Inl e, c, disk)"
proof -
  obtain r c' disk' where t: "command_task repr x env disk c k commands timeout mode request_timeout = (r, c', disk')" by (rule prod_cases3)
  then show ?thesis
  proof (cases rule: command_task_cases)
    case (rejected e)
    then show ?thesis using t by simp
  next
    case (admitted token items seconds r1 c1 disk1)
    then show ?thesis using lock_check_dut [OF admitted(3) assms(4)] assms(1-3) by fastforce
  qed
qed

text \<open>
  C3: an uncertain command stops all further control of the device, in every process, until it is acknowledged. Suppose that a control operation on a running
  session for a device, outside a simulator, fails and breaks the session, and that its error is not \<open>Lock_Unverified\<close>, which reports that the lock could not be
  written or verified. Then after any later operations on the store other than an acknowledgment for this device every client for the device outside
  a simulator, a new one too, has its control operations refused: nothing is sent and neither the client nor the store changes. When the error is
  \<open>Lock_Unverified\<close> nothing of the kind is claimed: other clients may not be blocked then.
\<close>

theorem uncertain_blocks_control:
  assumes "command_task repr x env disk c k commands timeout mode request_timeout = (Inl e, c1, disk1)" "is_control_command k"
    and "cl_state c = RUNNING" "broken c1" "\<not> cl_simulator c" "\<nexists>original d. e = Lock_Unverified original d"
    and "cl_dut c = Some dut" "dut_identity_sha256 (PStr dut) = Inr h" "(store_step h)\<^sup>*\<^sup>* disk1 disk2"
    and "cl_dut c2 = Some dut" "\<not> cl_simulator c2"
  shows "\<exists>e2. command_task repr x2 env2 disk2 c2 k2 commands2 timeout2 mode2 request_timeout2 = (Inl e2, c2, disk2)"
proof -
  from assms(1,2) have "locked disk1 h"
  proof (cases rule: settled_cases)
    case (uncertain ca cb payload items u original)
    then show ?thesis using uncertain_outcome [OF uncertain(1,2,6)] assms(5-8) by force
  qed (use assms(3,4) in \<open>auto simp: broken_def same_session_def\<close>)
  moreover have "(store.unacknowledged h)\<^sup>*\<^sup>* disk1 disk2"
    using assms(9) by (rule rtranclp_mono [THEN predicate2D, rotated]) (auto intro: store_step_unacknowledged)
  ultimately have "locked disk2 h" using store.lock_kept by blast
  then show ?thesis using assms(8,10,11) by (intro locked_refuses)
qed

section \<open>One uncertain command\<close>

definition sample_host :: host_config where
  "sample_host = (host_defaults ''host'')\<lparr>ha_safety_incident_directory := Some ''incidents''\<rparr>"

definition sample_session :: client where
  "sample_session = (new_client sample_host ''py'')\<lparr>cl_state := RUNNING, cl_process := True, cl_hello := Some [],
     cl_token := Some ''00112233445566778899aabbccddeeff'', cl_dut := Some ''dut-1''\<rparr>"

definition sample_crob :: command_item where
  "sample_crob = Crob \<lparr>cc_index = 7, cc_operation = ''latch_on'', cc_trip_close = ''nul'', cc_clear = False, cc_count = 1,
     cc_on_time_ms = 100, cc_off_time_ms = 100\<rparr>"

definition sample_payload :: dict where
  "sample_payload =
     [(''operation'', PStr ''direct_operate''), (''timeout_ms'', PInt 5000), (''response_mode'', PStr ''response''),
      (''commands'', PList [PDict (item_params sample_crob)])]"

definition sample_exchange :: exchange_env where
  "sample_exchange = \<lparr>xe_alive = True, xe_outcome = Received False (Line (json_text (\<lambda>_. []) (PDict
     [(''schema_version'', PInt 1), (''id'', PStr ''py-1''), (''ok'', PBool False),
      (''error'', PDict [(''code'', PStr ''RESPONSE_TIMEOUT''), (''message'', PStr ''late''), (''details'', PDict [])])]) @ [LF]))\<rparr>"

definition sample_answer :: "pyval result" where
  "sample_answer = request_locked (\<lambda>_. []) sample_exchange sample_session (PStr ''direct_operate'')
     (command_params ''00112233445566778899aabbccddeeff'' sample_payload) (PFloat (Fin 10))"

definition sample_task :: "task_result control" where
  "sample_task = command_task (\<lambda>_. []) sample_exchange sample_env empty_disk sample_session ''direct_operate'' (Seq [Some sample_crob]) (PFloat (Fin 5))
     (PStr ''response'') (PFloat (Fin 10))"

lemma sample_answer_error: "fst sample_answer = Inl (Host_Command ''py-1'' ''RESPONSE_TIMEOUT'' ''late'' [])"
  by code_simp

lemma sample_answer_sent: "length (cl_requests (snd sample_answer)) = 1"
  by code_simp

lemma sample_args: "command_args (Seq [Some sample_crob]) (PFloat (Fin 5)) (PStr ''response'') = Inr ([sample_crob], 5)"
  by (simp add: command_args_def seconds_arg_def FIVE_HUNDREDTHS_def check_member_def sample_crob_def first_error.simps raise_if_def checked_def)

lemma sample_payload: "command_payload ''direct_operate'' [sample_crob] 5 (PStr ''response'') = sample_payload"
proof -
  have "binary64 5000 = Fin 5000" using binary64_of_int [of 5000] by simp
  moreover have "round_half_even 5000 = 5000" using round_half_even_of_int [of 5000] by simp
  ultimately show ?thesis by (simp add: command_payload_def sample_payload_def to_ms_def)
qed

lemma sample_clear: "lock_check sample_env empty_disk sample_session = None"
proof -
  have "assert_clear sample_env empty_disk sample_dut = None"
    using sample_identity by (simp add: assert_clear_None sample_env_def quiet_env_def locked_def empty_disk_def)
  then show ?thesis
    by (simp add: lock_check_def incident_context_def sample_session_def sample_host_def new_client_def host_defaults_def sample_dut_def)
qed

lemma sample_persisted:
  assumes "frame sample_session c"
  shows "\<exists>p s. persist_lock (\<lambda>_. []) sample_env empty_disk c (uncertain_record ''direct_operate'' sample_payload [sample_crob]
      \<lparr>uc_request_id = ''py-1'', uc_error_code = ''RESPONSE_TIMEOUT'', uc_execution_uncertain = True, uc_may_still_execute = True\<rparr>) =
    (Inr (sample_incident (sha256 p), True), \<lparr>dk_active = [(active_name sample_hash, File s)], dk_archive = []\<rparr>)"
proof -
  have c: "incident_context c (cl_dut c) = Inr ''dut-1''"
    using assms by (simp add: frame_def incident_context_def sample_session_def sample_host_def new_client_def)
  have u: "uncertain_record ''direct_operate'' sample_payload [sample_crob]
      \<lparr>uc_request_id = ''py-1'', uc_error_code = ''RESPONSE_TIMEOUT'', uc_execution_uncertain = True, uc_may_still_execute = True\<rparr> =
    sample_uncertain\<lparr>un_payload := PDict sample_payload\<rparr>"
    by (simp add: uncertain_record_def sample_uncertain_def sample_crob_def)
  have "json_finite (PDict sample_payload)" by code_simp
  then show ?thesis using sample_recorded_with [of sample_payload "\<lambda>_. []"] unfolding persist_lock_def c u sample_dut_def by fastforce
qed

lemma sample_task_locks:
  obtains d c s where "sample_task = (Inl (Host_Command ''py-1'' ''RESPONSE_TIMEOUT'' ''late'' d), c,
      \<lparr>dk_active = [(active_name sample_hash, File s)], dk_archive = []\<rparr>)" "broken c" "length (cl_requests c) = 1"
proof -
  obtain c1 where a: "sample_answer = (Inl (Host_Command ''py-1'' ''RESPONSE_TIMEOUT'' ''late'' []), c1)"
    using sample_answer_error by (metis surjective_pairing)
  have f: "frame sample_session c1" using request_frame(1) a unfolding sample_answer_def .
  then have out: "\<not> cl_simulator c1" by (simp add: frame_def sample_session_def new_client_def)
  obtain p s where l: "persist_lock (\<lambda>_. []) sample_env empty_disk c1 (uncertain_record ''direct_operate'' sample_payload [sample_crob]
      \<lparr>uc_request_id = ''py-1'', uc_error_code = ''RESPONSE_TIMEOUT'', uc_execution_uncertain = True, uc_may_still_execute = True\<rparr>) =
    (Inr (sample_incident (sha256 p), True), \<lparr>dk_active = [(active_name sample_hash, File s)], dk_archive = []\<rparr>)"
    using sample_persisted [OF f] by blast
  have same: "sample_session\<lparr>cl_write_started := False\<rparr> = sample_session" by (simp add: sample_session_def new_client_def)
  have token: "cl_token sample_session = Some ''00112233445566778899aabbccddeeff''" by (simp add: sample_session_def)
  have t: "exchange_timeout sample_session 5 (PFloat (Fin 10)) = PFloat (Fin 10)" by (simp add: exchange_timeout_def)
  have flags: "uncertain_error ''RESPONSE_TIMEOUT'' []" "flag_or_true [] ''execution_uncertain''" "flag_or_true [] ''may_still_execute''"
    by (simp_all add: uncertain_error_def flag_or_true_def)
  let ?u = "\<lparr>uc_request_id = ''py-1'', uc_error_code = ''RESPONSE_TIMEOUT'', uc_execution_uncertain = True, uc_may_still_execute = True\<rparr>"
  let ?original = "Host_Command ''py-1'' ''RESPONSE_TIMEOUT'' ''late'' []"
  have e: "execute_command_task (\<lambda>_. []) sample_exchange sample_env empty_disk sample_session ''direct_operate'' [sample_crob] sample_payload
      (command_params ''00112233445566778899aabbccddeeff'' sample_payload) (PFloat (Fin 10)) =
    handle_uncertain (\<lambda>_. []) sample_env empty_disk c1 ''direct_operate'' sample_payload [sample_crob] ?u ?original"
    unfolding execute_command_task_def sample_answer_def [symmetric] a by (simp add: flags)
  have h: "\<exists>d c. handle_uncertain (\<lambda>_. []) sample_env empty_disk c1 ''direct_operate'' sample_payload [sample_crob] ?u ?original =
      (Inl (Host_Command ''py-1'' ''RESPONSE_TIMEOUT'' ''late'' d) :: client_exc + task_result, c,
       \<lparr>dk_active = [(active_name sample_hash, File s)], dk_archive = []\<rparr>) \<and> broken c \<and> cl_requests c = cl_requests c1"
    unfolding handle_uncertain_def l by (simp add: out)
  then have "\<exists>d c. sample_task = (Inl (Host_Command ''py-1'' ''RESPONSE_TIMEOUT'' ''late'' d), c,
      \<lparr>dk_active = [(active_name sample_hash, File s)], dk_archive = []\<rparr>) \<and> broken c \<and> cl_requests c = cl_requests c1"
    unfolding sample_task_def command_task_def token option.case sample_args sum.case prod.case Let_def sample_clear sample_payload same t e
    by (auto simp: settle_interrupt_def same_session_started)
  moreover have "length (cl_requests c1) = 1" using sample_answer_sent unfolding a by simp
  ultimately show thesis using that by metis
qed

theorem control_gate_witness:
  "\<exists>r c disk. sample_task = (r, c, disk) \<and> cl_requests c \<noteq> cl_requests sample_session \<and> cl_state sample_session = RUNNING \<and>
     \<not> locked empty_disk sample_hash"
proof -
  obtain d c s where t: "sample_task = (Inl (Host_Command ''py-1'' ''RESPONSE_TIMEOUT'' ''late'' d), c,
      \<lparr>dk_active = [(active_name sample_hash, File s)], dk_archive = []\<rparr>)" "length (cl_requests c) = 1"
    using sample_task_locks by blast
  have n: "cl_requests c \<noteq> cl_requests sample_session" using t(2) by (auto simp: sample_session_def new_client_def)
  show ?thesis using control_gate [OF t(1) [unfolded sample_task_def] n] t(1) n sample_identity by (auto simp: sample_session_def sample_dut_def new_client_def)
qed

theorem control_outcome_witness:
  "\<exists>e c disk. sample_task = (Inl e, c, disk) \<and> broken c \<and> locked disk sample_hash"
proof -
  obtain d c s where t: "sample_task = (Inl (Host_Command ''py-1'' ''RESPONSE_TIMEOUT'' ''late'' d), c,
      \<lparr>dk_active = [(active_name sample_hash, File s)], dk_archive = []\<rparr>)" "broken c"
    using sample_task_locks by blast
  have "\<not> same_session sample_session c" using t(2) by (auto simp: same_session_def broken_def sample_session_def)
  then show ?thesis
    using control_outcome [OF t(1) [unfolded sample_task_def]] t sample_identity
    by (auto simp: is_control_command_def sample_session_def new_client_def sample_dut_def)
qed

theorem uncertain_blocks_control_witness:
  "\<exists>e1 c disk e. sample_task = (Inl e1, c, disk) \<and> command_task (\<lambda>_. []) sample_exchange sample_env disk sample_session ''select_and_operate''
     (Seq [Some sample_crob]) (PFloat (Fin 5)) (PStr ''response'') PNone = (Inl e, sample_session, disk)"
proof -
  obtain d c s where t: "sample_task = (Inl (Host_Command ''py-1'' ''RESPONSE_TIMEOUT'' ''late'' d), c,
      \<lparr>dk_active = [(active_name sample_hash, File s)], dk_archive = []\<rparr>)" "broken c"
    using sample_task_locks by blast
  have "\<exists>e. command_task (\<lambda>_. []) sample_exchange sample_env \<lparr>dk_active = [(active_name sample_hash, File s)], dk_archive = []\<rparr> sample_session
      ''select_and_operate'' (Seq [Some sample_crob]) (PFloat (Fin 5)) (PStr ''response'') PNone =
      (Inl e, sample_session, \<lparr>dk_active = [(active_name sample_hash, File s)], dk_archive = []\<rparr>)"
  proof (rule uncertain_blocks_control [OF t(1) [unfolded sample_task_def] _ _ t(2)])
    show "dut_identity_sha256 (PStr ''dut-1'') = Inr sample_hash" using sample_identity by (simp add: sample_dut_def)
  qed (simp_all add: is_control_command_def sample_session_def new_client_def)
  then show ?thesis using t(1) by blast
qed

end
