(* ===== verification/ClientRuns.thy ===== *)
theory ClientRuns
  imports ClientTheorems
begin

text \<open>
  Runs of a client: any sequence of calls of its public methods, each with its arguments and with what the host
  process, the operating system and the clock do during the call. What every method keeps holds in
  every state that a program can bring a client to.
\<close>

section \<open>Calls\<close>

datatype call =
  Start start_env
| Close close_env
| Request exchange_env pyval "dict option" pyval
| Get_Status exchange_env pyval
| Get_Stats exchange_env pyval
| Connect exchange_env "tcp_config obj_arg" pyval
| Disconnect exchange_env pyval
| Wait_Event exchange_env pyval pyval pyval
| Integrity_Poll exchange_env pyval pyval pyval pyval
| Class_Poll exchange_env pyval pyval pyval pyval pyval
| Read_Headers exchange_env "read_header seq_arg" pyval pyval pyval pyval
| Enable_Unsolicited exchange_env pyval pyval pyval
| Disable_Unsolicited exchange_env pyval pyval pyval
| Wait_Unsolicited exchange_env pyval pyval pyval
| Begin_Capture exchange_env "capture_config obj_arg" pyval
| Capture_Progress exchange_env pyval pyval
| End_Capture exchange_env pyval pyval pyval
| Start_Trace exchange_env "trace_config obj_arg" pyval
| Read_Trace exchange_env pyval pyval pyval pyval
| Stop_Trace exchange_env pyval
| Select_And_Operate exchange_env op_env "command_item seq_arg" pyval pyval
| Direct_Operate exchange_env op_env "command_item seq_arg" pyval pyval pyval
| Active_Safety_Incident op_env "string option"
| Acknowledge_Safety_Incident op_env pyval readback_args "string option"

text \<open>The effect of a call on the client and on the store of incidents; the value or error it gives is dropped.\<close>

fun perform :: "(rat \<Rightarrow> string) \<Rightarrow> call \<Rightarrow> client \<times> disk \<Rightarrow> client \<times> disk" where
  "perform repr (Start env) (c, disk) = (snd (start repr env c), disk)"
| "perform repr (Close env) (c, disk) = (snd (close repr env c), disk)"
| "perform repr (Request x k ps t) (c, disk) = (snd (client_request repr x c k ps t), disk)"
| "perform repr (Get_Status x t) (c, disk) = (snd (get_status repr x c t), disk)"
| "perform repr (Get_Stats x t) (c, disk) = (snd (get_stats repr x c t), disk)"
| "perform repr (Connect x cfg t) (c, disk) = (snd (connect repr x c cfg t), disk)"
| "perform repr (Disconnect x t) (c, disk) = (snd (disconnect repr x c t), disk)"
| "perform repr (Wait_Event x w n t) (c, disk) = (snd (wait_event repr x c w n t), disk)"
| "perform repr (Integrity_Poll x t n m rt) (c, disk) = (snd (integrity_poll repr x c t n m rt), disk)"
| "perform repr (Class_Poll x cs t n m rt) (c, disk) = (snd (class_poll repr x c cs t n m rt), disk)"
| "perform repr (Read_Headers x hs t n m rt) (c, disk) = (snd (read_headers repr x c hs t n m rt), disk)"
| "perform repr (Enable_Unsolicited x cs t rt) (c, disk) = (snd (enable_unsolicited repr x c cs t rt), disk)"
| "perform repr (Disable_Unsolicited x cs t rt) (c, disk) = (snd (disable_unsolicited repr x c cs t rt), disk)"
| "perform repr (Wait_Unsolicited x w n rt) (c, disk) = (snd (wait_unsolicited repr x c w n rt), disk)"
| "perform repr (Begin_Capture x cfg rt) (c, disk) = (snd (begin_capture repr x c cfg rt), disk)"
| "perform repr (Capture_Progress x i rt) (c, disk) = (snd (capture_progress repr x c i rt), disk)"
| "perform repr (End_Capture x i w rt) (c, disk) = (snd (end_capture repr x c i w rt), disk)"
| "perform repr (Start_Trace x cfg rt) (c, disk) = (snd (start_trace repr x c cfg rt), disk)"
| "perform repr (Read_Trace x n t q rt) (c, disk) = (snd (read_trace repr x c n t q rt), disk)"
| "perform repr (Stop_Trace x rt) (c, disk) = (snd (stop_trace repr x c rt), disk)"
| "perform repr (Select_And_Operate x env cs t rt) (c, disk) = snd (select_and_operate repr x env disk c cs t rt)"
| "perform repr (Direct_Operate x env cs t m rt) (c, disk) = snd (direct_operate repr x env disk c cs t m rt)"
| "perform repr (Active_Safety_Incident env d) (c, disk) = (c, disk)"
| "perform repr (Acknowledge_Safety_Incident env i a d) (c, disk) = (c, snd (acknowledge_safety_incident repr env disk c i a d))"

text \<open>The command that a call sends, where it sends one.\<close>

fun call_command :: "call \<Rightarrow> string" where
  "call_command (Start _) = ''hello''"
| "call_command (Close _) = ''shutdown''"
| "call_command (Request _ k _ _) = as_str k"
| "call_command (Get_Status _ _) = ''get_status''"
| "call_command (Get_Stats _ _) = ''stats''"
| "call_command (Connect _ _ _) = ''connect''"
| "call_command (Disconnect _ _) = ''disconnect''"
| "call_command (Wait_Event _ _ _ _) = ''wait_event''"
| "call_command (Integrity_Poll _ _ _ _ _) = ''integrity_poll''"
| "call_command (Class_Poll _ _ _ _ _ _) = ''class_poll''"
| "call_command (Read_Headers _ _ _ _ _ _) = ''read''"
| "call_command (Enable_Unsolicited _ _ _ _) = ''enable_unsolicited''"
| "call_command (Disable_Unsolicited _ _ _ _) = ''disable_unsolicited''"
| "call_command (Wait_Unsolicited _ _ _ _) = ''wait_unsolicited''"
| "call_command (Begin_Capture _ _ _) = ''capture.begin''"
| "call_command (Capture_Progress _ _ _) = ''capture.progress''"
| "call_command (End_Capture _ _ _ _) = ''capture.end''"
| "call_command (Start_Trace _ _ _) = ''trace.start''"
| "call_command (Read_Trace _ _ _ _ _) = ''trace.read''"
| "call_command (Stop_Trace _ _) = ''trace.stop''"
| "call_command (Select_And_Operate _ _ _ _ _) = ''select_and_operate''"
| "call_command (Direct_Operate _ _ _ _ _ _) = ''direct_operate''"
| "call_command (Active_Safety_Incident _ _) = []"
| "call_command (Acknowledge_Safety_Incident _ _ _ _) = []"

fun control_call :: "call \<Rightarrow> bool" where
  "control_call (Select_And_Operate _ _ _ _ _) = True"
| "control_call (Direct_Operate _ _ _ _ _ _) = True"
| "control_call _ = False"

section \<open>One call\<close>

text \<open>What one call does to the client.\<close>

definition call_ok :: "(rat \<Rightarrow> string) \<Rightarrow> string \<Rightarrow> client \<Rightarrow> client \<Rightarrow> bool" where
  "call_ok repr k c c' \<longleftrightarrow> (client_ok c \<longrightarrow> client_ok c') \<and> (client_ok c \<longrightarrow> sent_one repr k c c') \<and>
     (cl_state c \<in> {BROKEN, CLOSED} \<longrightarrow> cl_state c' \<in> {BROKEN, CLOSED} \<and> cl_requests c' = cl_requests c)"

lemma call_ok_session: "session_op repr k c r \<Longrightarrow> call_ok repr k c (snd r)"
  by (auto simp: session_op_def call_ok_def)

lemma call_ok_op: "ok_op repr k c r \<Longrightarrow> call_ok repr k c (snd r)"
  by (rule call_ok_session [OF ok_op_session])

lemma call_ok_refl: "call_ok repr k c c"
  by (simp add: call_ok_def sent_one_def)

lemma call_ok_start: "call_ok repr ''hello'' c (snd (start repr env c))"
  using start_ok [of c repr env] by (cases "cl_state c") (auto simp: call_ok_def sent_one_def start_def)

lemma call_ok_close: "call_ok repr ''shutdown'' c (snd (close repr env c))"
  using close_ok(1,2) [of c repr env] by (auto simp: call_ok_def close_def)

lemma call_ok_command_task:
  assumes "is_control_command k"
  shows "call_ok repr k c (fst (snd (command_task repr x env disk c k commands timeout mode request_timeout)))"
proof -
  obtain r c' disk' where t: "command_task repr x env disk c k commands timeout mode request_timeout = (r, c', disk')" by (rule prod_cases3)
  from t assms have "frame c c' \<and> sent_one repr k c c'"
  proof (cases rule: settled_cases)
    case (uncertain c1 c2 payload items u original)
    then show ?thesis
      using handle_uncertain_client(2,3) [OF uncertain(1)] sent_one_eq [OF uncertain(3), of c2] frame_trans [OF uncertain(2)]
      by (simp add: same_session_started)
  qed simp_all
  moreover have "cl_state c \<in> {BROKEN, CLOSED} \<Longrightarrow> cl_requests c' = cl_requests c"
    using control_sends_running [OF t] by force
  ultimately show ?thesis using frame_ok t by (auto simp: call_ok_def frame_def broken_def same_session_def)
qed

lemma perform_ok: "call_ok repr (call_command a) c (fst (perform repr a (c, disk)))"
proof (cases a)
  case (Select_And_Operate x env cs t rt)
  then show ?thesis using call_ok_command_task [of "''select_and_operate''"] by (simp add: select_and_operate_def is_control_command_def)
next
  case (Direct_Operate x env cs t m rt)
  then show ?thesis using call_ok_command_task [of "''direct_operate''"] by (simp add: direct_operate_def is_control_command_def)
qed (simp_all add: call_ok_start call_ok_close call_ok_refl call_ok_op ok_ops ok_traces ok_client_request
    call_ok_session connect_session disconnect_session)

text \<open>No other call sends a command that operates a point.\<close>

lemma other_calls:
  assumes "\<not> control_call a" "client_ok c" "cl_requests (fst (perform repr a (c, disk))) \<noteq> cl_requests c"
  shows "\<not> is_control_command (call_command a)"
proof (cases a)
  case (Request x k ps t)
  then show ?thesis using assms(3)
    by (cases k) (auto simp: client_request_def TYPED_API_COMMANDS_def is_control_command_def split: if_splits)
qed (use assms in \<open>simp_all add: is_control_command_def\<close>)

section \<open>Runs\<close>

text \<open>The contract of a session: an invariant, a dead state that is silent for good, and at most one line sent by each call.\<close>

locale session =
  fixes act :: "'a \<Rightarrow> 's \<Rightarrow> 's"
    and ok :: "'s \<Rightarrow> bool"
    and dead :: "'s \<Rightarrow> bool"
    and sent :: "'s \<Rightarrow> 'l list"
  assumes act_ok: "ok s \<Longrightarrow> ok (act a s)"
    and act_dead: "dead s \<Longrightarrow> dead (act a s) \<and> sent (act a s) = sent s"
    and act_sends: "ok s \<Longrightarrow> sent (act a s) = sent s \<or> (\<exists>l. sent (act a s) = sent s @ [l])"
begin

lemma run_ok: "ok s \<Longrightarrow> ok (fold act as s)"
  by (induction as arbitrary: s) (simp_all add: act_ok)

lemma run_dead: "dead s \<Longrightarrow> dead (fold act as s) \<and> sent (fold act as s) = sent s"
  by (induction as arbitrary: s) (simp_all add: act_dead)

lemma run_cause:
  assumes "ok s" "l \<in> set (sent (fold act as s))"
  shows "l \<in> set (sent s) \<or> (\<exists>before a after. as = before @ a # after \<and> sent (act a (fold act before s)) = sent (fold act before s) @ [l])"
  using assms
proof (induction as rule: rev_induct)
  case (snoc a as)
  let ?s = "fold act as s"
  show ?case
  proof (cases "l \<in> set (sent ?s)")
    case True
    then have "l \<in> set (sent s) \<or> (\<exists>before b after. as = before @ b # after \<and> sent (act b (fold act before s)) = sent (fold act before s) @ [l])"
      using snoc.IH snoc.prems(1) by blast
    then show ?thesis by (metis append_Cons append_assoc)
  next
    case False
    then have "sent (act a ?s) = sent ?s @ [l]"
      using act_sends [OF run_ok [OF snoc.prems(1), of as], of a] snoc.prems(2) by auto
    then show ?thesis by blast
  qed
qed simp

end

definition dead_client :: "client \<times> disk \<Rightarrow> bool" where
  "dead_client s \<longleftrightarrow> cl_state (fst s) \<in> {BROKEN, CLOSED}"

interpretation clients: session "perform repr" "\<lambda>s. client_ok (fst s)" dead_client "\<lambda>s. cl_requests (fst s)" for repr
proof
  show "client_ok (fst s) \<Longrightarrow> client_ok (fst (perform repr a s))" for s a
    using perform_ok [of repr a "fst s" "snd s"] by (simp add: call_ok_def)
  show "dead_client s \<Longrightarrow> dead_client (perform repr a s) \<and> cl_requests (fst (perform repr a s)) = cl_requests (fst s)" for s a
    using perform_ok [of repr a "fst s" "snd s"] by (simp add: call_ok_def dead_client_def)
  show "client_ok (fst s) \<Longrightarrow> cl_requests (fst (perform repr a s)) = cl_requests (fst s) \<or>
      (\<exists>l. cl_requests (fst (perform repr a s)) = cl_requests (fst s) @ [l])" for s a
    using perform_ok [of repr a "fst s" "snd s"] by (auto simp: call_ok_def sent_one_def)
qed

text \<open>
  C6: the invariant of the client holds after every sequence of calls on a new client, whatever the host answers and
  whatever fails or is interrupted: the token that permits state changes is held only while the session runs or is closing, with a process, and only
  for a simulator or a device under test that is named; a running client has a process and a completed greeting; and
  the tail of diagnostics keeps its bound.
\<close>

theorem client_invariant:
  "client_ok (fst (fold (perform repr) calls (new_client config prefix, disk)))"
  by (rule clients.run_ok) (simp add: client_ok_new)

text \<open>
  C7: a broken or closed client is silent for good: no sequence of calls brings it back to life or makes it hand
  another line to a host.
\<close>

theorem dead_client_silent:
  assumes "cl_state c \<in> {BROKEN, CLOSED}" "fold (perform repr) calls (c, disk) = (c', disk')"
  shows "cl_state c' \<in> {BROKEN, CLOSED} \<and> cl_requests c' = cl_requests c"
  using clients.run_dead [of "(c, disk)" repr calls] assms by (simp add: dead_client_def)

text \<open>
  C4: every line that a client ever hands to its host was sent by one of its calls as the request that the call stands for; and a
  command that operates points was sent only by one of the two control methods, in a running session, with the token
  that the session held at that moment, and outside a simulator with no lock on disk for the device.
\<close>

theorem run_lines:
  assumes "fold (perform repr) calls (new_client config prefix, disk) = (c, disk')" "l \<in> set (cl_requests c)"
  shows "\<exists>before a after c1 disk1 i ps. calls = before @ a # after \<and> fold (perform repr) before (new_client config prefix, disk) = (c1, disk1) \<and>
    l = request_line repr i (call_command a) ps \<and>
    (is_control_command (call_command a) \<longrightarrow> control_call a \<and> cl_state c1 = RUNNING \<and>
       (\<exists>token. cl_token c1 = Some token \<and> get ps ''safety_token'' = PStr token) \<and>
       (cl_simulator c1 \<or> (\<exists>dut h. cl_dut c1 = Some dut \<and> dut_identity_sha256 (PStr dut) = Inr h \<and> \<not> locked disk1 h)))"
proof -
  let ?new = "(new_client config prefix, disk)"
  have ok: "client_ok (fst ?new)" by (simp add: client_ok_new)
  obtain before a after where split: "calls = before @ a # after"
    "cl_requests (fst (perform repr a (fold (perform repr) before ?new))) = cl_requests (fst (fold (perform repr) before ?new)) @ [l]"
    using clients.run_cause [OF ok, of l repr calls] assms by (auto simp: new_client_def)
  obtain c1 disk1 where s: "fold (perform repr) before ?new = (c1, disk1)" by fastforce
  have ok1: "client_ok c1" using clients.run_ok [OF ok, of repr before] s by simp
  have new: "cl_requests (fst (perform repr a (c1, disk1))) = cl_requests c1 @ [l]" using split(2) s by simp
  show ?thesis
  proof (cases "control_call a")
    case True
    then obtain x env commands timeout mode request_timeout where
      p: "perform repr a (c1, disk1) = snd (command_task repr x env disk1 c1 (call_command a) commands timeout mode request_timeout)"
      by (cases a) (auto simp: select_and_operate_def direct_operate_def)
    obtain r c2 disk2 where t: "command_task repr x env disk1 c1 (call_command a) commands timeout mode request_timeout = (r, c2, disk2)"
      by (rule prod_cases3)
    have "cl_requests c2 = cl_requests c1 @ [l]" using new p t by simp
    then have "\<exists>i ps. l = request_line repr i (call_command a) ps \<and> cl_state c1 = RUNNING \<and>
       (\<exists>token. cl_token c1 = Some token \<and> get ps ''safety_token'' = PStr token) \<and>
       (cl_simulator c1 \<or> (\<exists>dut h. cl_dut c1 = Some dut \<and> dut_identity_sha256 (PStr dut) = Inr h \<and> \<not> locked disk1 h))"
      using control_admitted [OF t] by (fastforce simp: command_params_def get_def)
    then show ?thesis using split(1) s True by blast
  next
    case False
    then have "\<not> is_control_command (call_command a)" using other_calls [OF False ok1, of repr disk1] new by simp
    moreover have "\<exists>i ps. l = request_line repr i (call_command a) ps"
      using perform_ok [of repr a c1 disk1] ok1 new by (auto simp: call_ok_def sent_one_def)
    ultimately show ?thesis using split(1) s by blast
  qed
qed

section \<open>Samples\<close>

definition sample_hello :: pyval where
  "sample_hello = PDict
     [(''host_version'', PStr ''0.6.1''), (''backend'', PStr ''simulator''), (''git_commit'', PStr ''0''), (''platform'', PStr ''win''),
      (''capability_matrix_version'', PStr ''1''), (''capability_matrix_sha256'', PStr (replicate 64 (CHR ''a''))),
      (''supported_commands'', PList [PStr ''hello'', PStr ''shutdown'']), (''capabilities'', PDict [])]"

definition sample_calls :: "call list" where
  "sample_calls =
     [Start \<lparr>se_is_file = True, se_is_dir = True, se_spawn = Spawn_Works, se_hello = answering (success_line ''py-1'' sample_hello), se_alive_after = True\<rparr>,
      Get_Status \<lparr>xe_alive = True, xe_outcome = Timed_Out\<rparr> PNone]"

definition sample_run :: "client \<times> disk" where
  "sample_run = fold (perform (\<lambda>_. [])) sample_calls (new_client sample_host ''py'', empty_disk)"

lemma sample_run_values: "length (cl_requests (fst sample_run)) = 2" "cl_state (fst sample_run) = BROKEN"
proof -
  have "(length (cl_requests (fst sample_run)), cl_state (fst sample_run)) = (2, BROKEN)" by code_simp
  then show "length (cl_requests (fst sample_run)) = 2" "cl_state (fst sample_run) = BROKEN" by simp_all
qed

theorem run_lines_witness:
  "\<exists>before a after. sample_calls = before @ a # after \<and>
     (\<exists>i ps. last (cl_requests (fst sample_run)) = request_line (\<lambda>_. []) i (call_command a) ps)"
proof -
  have "cl_requests (fst sample_run) \<noteq> []" using sample_run_values(1) by auto
  then have "last (cl_requests (fst sample_run)) \<in> set (cl_requests (fst sample_run))" by (rule last_in_set)
  then show ?thesis using run_lines [of "\<lambda>_. []" sample_calls sample_host "''py''" empty_disk "fst sample_run" "snd sample_run"]
    unfolding sample_run_def by (metis prod.collapse)
qed

theorem dead_client_silent_witness:
  "cl_state (fst sample_run) = BROKEN \<and>
     length (cl_requests (fst (fold (perform (\<lambda>_. [])) sample_calls sample_run))) = 2"
  using dead_client_silent [of "fst sample_run" "\<lambda>_. []" sample_calls "snd sample_run"] sample_run_values
  by (metis insertI1 prod.collapse)

end
