(* ===== verification/CommandCorrelation.thy ===== *)
theory CommandCorrelation
  imports ClientCommands
begin

section \<open>Correlation\<close>

text \<open>The point result answers the command with this ordinal.\<close>

definition answers :: "command_item list \<Rightarrow> nat \<Rightarrow> point_result \<Rightarrow> bool" where
  "answers items n p \<longleftrightarrow> n < length items \<and> cp_index p = item_index (items ! n) \<and>
     (\<exists>requested. cp_requested p = Some requested \<and> get requested ''request_ordinal'' = PInt (int n) \<and>
        get requested ''type'' = PStr (item_type (items ! n)) \<and> eq_int (get requested ''index'') (item_index (items ! n)))"

lemma is_int_nat: "is_int v \<and> 0 \<le> as_int v \<and> as_int v < int m \<longleftrightarrow> (\<exists>n < m. v = PInt (int n))"
  by (cases v) (auto simp: zless_nat_conj nat_less_iff intro: exI [of _ "nat (as_int v)"])

lemma correlation_step:
  "correlation_loop items seen (p # ps) = None \<longleftrightarrow>
     (\<exists>n. answers items n p \<and> int n \<notin> set seen \<and> correlation_loop items (int n # seen) ps = None)"
proof (cases "cp_requested p")
  case None
  then show ?thesis by (simp add: answers_def)
next
  case (Some requested)
  let ?v = "get requested ''request_ordinal''"
  show ?thesis
  proof (cases "\<exists>n < length items. ?v = PInt (int n)")
    case True
    then show ?thesis using Some by (auto simp: answers_def Let_def split: if_splits)
  next
    case False
    then have "\<not> (is_int ?v \<and> 0 \<le> as_int ?v \<and> as_int ?v < int (length items))" by (simp only: is_int_nat not_False_eq_True)
    then show ?thesis using Some False by (auto simp: answers_def Let_def)
  qed
qed

lemma ex_Cons: "(\<And>l. P l \<Longrightarrow> l \<noteq> []) \<Longrightarrow> (\<exists>l. P l) \<longleftrightarrow> (\<exists>x xs. P (x # xs))"
  by (metis neq_Nil_conv)

lemma correlation_loop_exact:
  "distinct seen \<Longrightarrow> set seen \<subseteq> int ` {..<length items} \<Longrightarrow> correlation_loop items seen ps = None \<longleftrightarrow>
     (\<exists>ordinals. list_all2 (answers items) ordinals ps \<and> distinct ordinals \<and> int ` set ordinals \<inter> set seen = {} \<and>
        int ` set ordinals \<union> set seen = int ` {..<length items})"
proof (induction ps arbitrary: seen)
  case Nil
  have "card (int ` {..<length items}) = length items" by (simp add: card_image)
  then have "set seen = int ` {..<length items} \<Longrightarrow> length (remdups seen) = length items"
    by (metis distinct_card distinct_remdups set_remdups)
  then show ?case using Nil by (auto simp: list_all_iff)
next
  case (Cons p ps)
  let ?rest = "\<lambda>n ordinals. list_all2 (answers items) ordinals ps \<and> distinct ordinals \<and> int ` set ordinals \<inter> set (int n # seen) = {} \<and>
      int ` set ordinals \<union> set (int n # seen) = int ` {..<length items}"
  have "answers items n p \<and> int n \<notin> set seen \<and> correlation_loop items (int n # seen) ps = None \<longleftrightarrow>
      (\<exists>ordinals. answers items n p \<and> int n \<notin> set seen \<and> ?rest n ordinals)" for n
  proof (cases "answers items n p \<and> int n \<notin> set seen")
    case True
    then have "correlation_loop items (int n # seen) ps = None \<longleftrightarrow> (\<exists>ordinals. ?rest n ordinals)"
      using Cons.prems by (intro Cons.IH) (simp, simp add: answers_def)
    then show ?thesis using True by (simp only: simp_thms)
  qed blast
  then have "correlation_loop items seen (p # ps) = None \<longleftrightarrow>
     (\<exists>n ordinals. answers items n p \<and> int n \<notin> set seen \<and> ?rest n ordinals)"
    unfolding correlation_step by (simp only:)
  also have "\<dots> \<longleftrightarrow> (\<exists>n ordinals. list_all2 (answers items) (n # ordinals) (p # ps) \<and> distinct (n # ordinals) \<and>
      int ` set (n # ordinals) \<inter> set seen = {} \<and> int ` set (n # ordinals) \<union> set seen = int ` {..<length items})"
    by (intro ex_cong1) auto
  also have "\<dots> \<longleftrightarrow> (\<exists>ordinals. list_all2 (answers items) ordinals (p # ps) \<and> distinct ordinals \<and>
      int ` set ordinals \<inter> set seen = {} \<and> int ` set ordinals \<union> set seen = int ` {..<length items})"
    by (rule ex_Cons [symmetric]) auto
  finally show ?case .
qed

text \<open>
  C9: a command result is accepted exactly when its mode is the operation that was asked for and its point results
  answer for the submitted commands one to one: their ordinals are a permutation of the positions in the batch, and
  each names the type and index of the command at its position.
\<close>

theorem command_correlation_exact:
  "validate_command_correlation k items r = None \<longleftrightarrow> ct_mode r = k \<and>
     (\<exists>ordinals. distinct ordinals \<and> set ordinals = {..<length items} \<and> list_all2 (answers items) ordinals (ct_point_results r))"
proof -
  have "length (ct_point_results r) = length items"
    if "distinct ordinals" "set ordinals = {..<length items}" "list_all2 (answers items) ordinals (ct_point_results r)" for ordinals
    using that distinct_card [of ordinals] by (simp add: list_all2_lengthD)
  moreover have "int ` A = int ` B \<longleftrightarrow> A = B" for A B by (simp add: inj_image_eq_iff)
  ultimately show ?thesis
    using correlation_loop_exact [of "[]" items] by (auto simp: validate_command_correlation_def)
qed

end
