(* ===== verification/Csv.thy ===== *)
theory Csv
  imports Unicode
begin

text \<open>
  The reader of the standard library's \<open>csv\<close> module in its strict default dialect, as \<open>point_table.py\<close> uses it: comma, double quote,
  doubled quotes inside a quoted field, no escape character. The file is opened with \<open>newline=""\<close>, so lines end at a line feed, a
  carriage return or both and keep their ends; after each line the reader is given an end-of-line mark. Texts
  are UTF-8, and the limit of a field counts code points. A NUL is an ordinary character.
\<close>

section \<open>The reader\<close>

abbreviation QUOTE :: char where "QUOTE \<equiv> CHR 0x22"
abbreviation COMMA :: char where "COMMA \<equiv> CHR 0x2C"
abbreviation NL :: char where "NL \<equiv> CHR 0x0A"
abbreviation CR :: char where "CR \<equiv> CHR 0x0D"

datatype csv_state = START_RECORD | START_FIELD | IN_FIELD | IN_QUOTED_FIELD | QUOTE_IN_QUOTED_FIELD | EAT_CRNL

record csv_reader =
  cs_state :: csv_state
  cs_field :: string
  cs_fields :: "string list"

definition csv_empty :: csv_reader where
  "csv_empty = \<lparr>cs_state = START_RECORD, cs_field = [], cs_fields = []\<rparr>"

definition FIELD_LIMIT :: nat where
  "FIELD_LIMIT = 131072"

text \<open>Octets that begin a code point, and how many there are.\<close>

definition begins_point :: "char \<Rightarrow> bool" where
  "begins_point c \<longleftrightarrow> \<not> is_cont (of_char c)"

definition point_count_of :: "string \<Rightarrow> nat" where
  "point_count_of s = length (filter begins_point s)"

definition add_char :: "char \<Rightarrow> csv_state \<Rightarrow> csv_reader \<Rightarrow> string + csv_reader" where
  "add_char c s r =
     (if begins_point c \<and> FIELD_LIMIT \<le> point_count_of (cs_field r) then Inl ''field larger than field limit (131072)''
      else Inr (r\<lparr>cs_field := cs_field r @ [c], cs_state := s\<rparr>))"

definition save_field :: "csv_state \<Rightarrow> csv_reader \<Rightarrow> csv_reader" where
  "save_field s r = r\<lparr>cs_fields := cs_fields r @ [cs_field r], cs_field := [], cs_state := s\<rparr>"

text \<open>One character, or the end-of-line mark \<open>None\<close>.\<close>

definition line_end :: "char option \<Rightarrow> bool" where
  "line_end c \<longleftrightarrow> c = None \<or> c = Some NL \<or> c = Some CR"

definition ended :: "char option \<Rightarrow> csv_state" where
  "ended c = (if c = None then START_RECORD else EAT_CRNL)"

definition start_field :: "char option \<Rightarrow> csv_reader \<Rightarrow> string + csv_reader" where
  "start_field c r =
     (if line_end c then Inr (save_field (ended c) r)
      else if c = Some QUOTE then Inr (r\<lparr>cs_state := IN_QUOTED_FIELD\<rparr>)
      else if c = Some COMMA then Inr (save_field START_FIELD r)
      else add_char (the c) IN_FIELD r)"

definition csv_step :: "csv_reader \<Rightarrow> char option \<Rightarrow> string + csv_reader" where
  "csv_step r c = (case cs_state r of
     START_RECORD \<Rightarrow> if c = None then Inr r else if line_end c then Inr (r\<lparr>cs_state := EAT_CRNL\<rparr>) else start_field c r
   | START_FIELD \<Rightarrow> start_field c r
   | IN_FIELD \<Rightarrow> if line_end c then Inr (save_field (ended c) r)
       else if c = Some COMMA then Inr (save_field START_FIELD r) else add_char (the c) IN_FIELD r
   | IN_QUOTED_FIELD \<Rightarrow> if c = None then Inr r
       else if c = Some QUOTE then Inr (r\<lparr>cs_state := QUOTE_IN_QUOTED_FIELD\<rparr>) else add_char (the c) IN_QUOTED_FIELD r
   | QUOTE_IN_QUOTED_FIELD \<Rightarrow> if c = Some QUOTE then add_char QUOTE IN_QUOTED_FIELD r
       else if c = Some COMMA then Inr (save_field START_FIELD r)
       else if line_end c then Inr (save_field (ended c) r) else Inl ''delimiter expected after quote''
   | EAT_CRNL \<Rightarrow> if c = None then Inr (r\<lparr>cs_state := START_RECORD\<rparr>)
       else if line_end c then Inr r else Inl ''new-line character seen in unquoted field'')"

text \<open>The lines of the file, each followed by its mark.\<close>

fun line_marks :: "string \<Rightarrow> char option list" where
  "line_marks [] = []"
| "line_marks (c # cs) = Some c # (if c = NL \<or> c = CR \<and> take 1 cs \<noteq> [NL] \<or> cs = [] then [None] else []) @ line_marks cs"

text \<open>
  Iterating over the reader: the records with the number of lines read so far, and the error that
  ends the iteration, if one does.
\<close>

fun csv_records :: "csv_reader \<Rightarrow> nat \<Rightarrow> char option list \<Rightarrow> (string list \<times> nat) list \<times> string option" where
  "csv_records r n [] =
     ([], if cs_field r \<noteq> [] \<or> cs_state r = IN_QUOTED_FIELD then Some ''unexpected end of data'' else None)"
| "csv_records r n (c # cs) = (case csv_step r c of
     Inl e \<Rightarrow> ([], Some e)
   | Inr r' \<Rightarrow>
       let n' = (if c = None then n + 1 else n) in
       if c = None \<and> cs_state r' = START_RECORD
       then (case csv_records csv_empty n' cs of (rs, e) \<Rightarrow> ((cs_fields r', n') # rs, e))
       else csv_records r' n' cs)"

definition csv_reader_of :: "string \<Rightarrow> (string list \<times> nat) list \<times> string option" where
  "csv_reader_of s = csv_records csv_empty 0 (line_marks s)"

section \<open>Writing\<close>

text \<open>The reference: every field quoted, records ended by a line feed.\<close>

definition quote_field :: "string \<Rightarrow> string" where
  "quote_field f = QUOTE # concat (map (\<lambda>c. if c = QUOTE then [QUOTE, QUOTE] else [c]) f) @ [QUOTE]"

fun csv_row :: "string list \<Rightarrow> string" where
  "csv_row [] = [NL]"
| "csv_row [f] = quote_field f @ [NL]"
| "csv_row (f # fs) = quote_field f @ COMMA # csv_row fs"

definition csv_text :: "string list list \<Rightarrow> string" where
  "csv_text rows = concat (map csv_row rows)"

section \<open>Round trip\<close>

text \<open>The records without their line numbers.\<close>

definition rows_of :: "csv_reader \<Rightarrow> char option list \<Rightarrow> string list list \<times> string option" where
  "rows_of r ms = (map fst (fst (csv_records r 0 ms)), snd (csv_records r 0 ms))"

lemma csv_records_number: "map fst (fst (csv_records r n cs)) = map fst (fst (csv_records r m cs)) \<and> snd (csv_records r n cs) = snd (csv_records r m cs)"
proof (induction cs arbitrary: r n m)
  case (Cons c cs)
  show ?case using Cons.IH by (auto simp: Let_def split: sum.splits prod.splits) (metis fst_conv snd_conv)+
qed simp

lemma rows_of_any: "rows_of r ms = (map fst (fst (csv_records r n ms)), snd (csv_records r n ms))"
  using csv_records_number [of r 0 ms n] by (simp add: rows_of_def)

lemma rows_of_Some: "csv_step r (Some c) = Inr r' \<Longrightarrow> rows_of r (Some c # ms) = rows_of r' ms"
  by (simp add: rows_of_def)

lemma rows_of_stay: "cs_state r = IN_QUOTED_FIELD \<Longrightarrow> rows_of r (None # ms) = rows_of r ms"
  by (simp add: rows_of_any [of r ms 1]) (simp add: rows_of_def csv_step_def)

lemma rows_of_end:
  assumes "csv_step r None = Inr r'" "cs_state r' = START_RECORD"
  shows "rows_of r (None # ms) = (cs_fields r' # fst (rows_of csv_empty ms), snd (rows_of csv_empty ms))"
  using assms by (simp add: rows_of_any [of csv_empty ms 1]) (simp add: rows_of_def split: prod.splits)

lemma point_count_simps [simp]: "point_count_of [] = 0" "point_count_of (c # s) = of_bool (begins_point c) + point_count_of s"
  "point_count_of (s @ t) = point_count_of s + point_count_of t"
  by (simp_all add: point_count_of_def)

abbreviation escaped :: "string \<Rightarrow> string" where
  "escaped g \<equiv> concat (map (\<lambda>c. if c = QUOTE then [QUOTE, QUOTE] else [c]) g)"

text \<open>Inside the quotes everything up to the closing quote is taken as it is, ends of lines too.\<close>

lemma rows_of_quoted:
  assumes "rest \<noteq> []" "point_count_of (f @ g) \<le> FIELD_LIMIT"
  shows "rows_of \<lparr>cs_state = IN_QUOTED_FIELD, cs_field = f, cs_fields = fs\<rparr> (line_marks (escaped g @ QUOTE # rest)) =
    rows_of \<lparr>cs_state = QUOTE_IN_QUOTED_FIELD, cs_field = f @ g, cs_fields = fs\<rparr> (line_marks rest)"
  using assms(2)
proof (induction g arbitrary: f)
  case Nil
  then show ?case using assms(1) by (simp add: rows_of_Some csv_step_def)
next
  case (Cons c g)
  let ?r = "\<lparr>cs_state = IN_QUOTED_FIELD, cs_field = f, cs_fields = fs\<rparr>"
  let ?r' = "\<lparr>cs_state = IN_QUOTED_FIELD, cs_field = f @ [c], cs_fields = fs\<rparr>"
  have add: "add_char c IN_QUOTED_FIELD (?r\<lparr>cs_state := s\<rparr>) = Inr ?r'" for s
    using Cons.prems by (auto simp: add_char_def)
  have "rows_of ?r (line_marks (escaped (c # g) @ QUOTE # rest)) = rows_of ?r' (line_marks (escaped g @ QUOTE # rest))"
  proof (cases "c = QUOTE")
    case True
    have "csv_step ?r (Some QUOTE) = Inr (?r\<lparr>cs_state := QUOTE_IN_QUOTED_FIELD\<rparr>)" by (simp add: csv_step_def)
    moreover have "csv_step (?r\<lparr>cs_state := QUOTE_IN_QUOTED_FIELD\<rparr>) (Some QUOTE) = Inr ?r'"
      using add [of QUOTE_IN_QUOTED_FIELD] True by (simp add: csv_step_def)
    ultimately show ?thesis using True by (simp add: rows_of_Some)
  next
    case False
    have "csv_step ?r (Some c) = Inr ?r'" using add [of IN_QUOTED_FIELD] False by (simp add: csv_step_def)
    then show ?thesis using False by (simp add: rows_of_Some rows_of_stay)
  qed
  then show ?case using Cons.IH [of "f @ [c]"] Cons.prems by simp
qed

lemma rows_of_row:
  assumes "list_all (\<lambda>f. point_count_of f \<le> FIELD_LIMIT) (f # fs)" "s \<in> {START_RECORD, START_FIELD}"
  shows "rows_of \<lparr>cs_state = s, cs_field = [], cs_fields = prev\<rparr> (line_marks (csv_row (f # fs) @ rest)) =
    ((prev @ f # fs) # fst (rows_of csv_empty (line_marks rest)), snd (rows_of csv_empty (line_marks rest)))"
  using assms
proof (induction fs arbitrary: f s "prev")
  case Nil
  let ?r = "\<lambda>s f. \<lparr>cs_state = s, cs_field = f, cs_fields = prev\<rparr>"
  have "csv_step (?r s []) (Some QUOTE) = Inr (?r IN_QUOTED_FIELD [])"
    using Nil.prems(2) by (auto simp: csv_step_def start_field_def line_end_def)
  then have "rows_of (?r s []) (line_marks (csv_row [f] @ rest)) = rows_of (?r QUOTE_IN_QUOTED_FIELD f) (line_marks (NL # rest))"
    using rows_of_quoted [of "NL # rest" "[]" f "prev"] Nil.prems(1) by (simp add: quote_field_def rows_of_Some)
  also have "\<dots> = rows_of (save_field EAT_CRNL (?r QUOTE_IN_QUOTED_FIELD f)) (None # line_marks rest)"
    by (simp add: rows_of_Some csv_step_def line_end_def ended_def)
  also have "\<dots> = ((prev @ [f]) # fst (rows_of csv_empty (line_marks rest)), snd (rows_of csv_empty (line_marks rest)))"
    by (subst rows_of_end [of _ "save_field START_RECORD (?r QUOTE_IN_QUOTED_FIELD f)"]) (simp_all add: csv_step_def save_field_def)
  finally show ?case .
next
  case (Cons g fs)
  let ?r = "\<lambda>s f. \<lparr>cs_state = s, cs_field = f, cs_fields = prev\<rparr>"
  have "csv_step (?r s []) (Some QUOTE) = Inr (?r IN_QUOTED_FIELD [])"
    using Cons.prems(2) by (auto simp: csv_step_def start_field_def line_end_def)
  moreover have "csv_row (g # fs) \<noteq> []" by (cases fs) (simp_all add: quote_field_def)
  ultimately have "rows_of (?r s []) (line_marks (csv_row (f # g # fs) @ rest)) =
      rows_of (?r QUOTE_IN_QUOTED_FIELD f) (line_marks (COMMA # csv_row (g # fs) @ rest))"
    using rows_of_quoted [of "COMMA # csv_row (g # fs) @ rest" "[]" f "prev"] Cons.prems(1) by (simp add: quote_field_def rows_of_Some)
  also have "\<dots> = rows_of \<lparr>cs_state = START_FIELD, cs_field = [], cs_fields = prev @ [f]\<rparr> (line_marks (csv_row (g # fs) @ rest))"
    using \<open>csv_row (g # fs) \<noteq> []\<close> by (simp add: rows_of_Some csv_step_def save_field_def)
  finally show ?case using Cons.IH [of g START_FIELD "prev @ [f]"] Cons.prems(1) by simp
qed

definition row_ok :: "string list \<Rightarrow> bool" where
  "row_ok row \<longleftrightarrow> row \<noteq> [] \<and> list_all (\<lambda>f. point_count_of f \<le> FIELD_LIMIT) row"

lemma csv_read_back: "list_all row_ok rows \<Longrightarrow> rows_of csv_empty (line_marks (csv_text rows)) = (rows, None)"
proof (induction rows)
  case Nil
  show ?case by (simp add: csv_text_def rows_of_def csv_empty_def)
next
  case (Cons row rows)
  then obtain f fs where row: "row = f # fs" "list_all (\<lambda>f. point_count_of f \<le> FIELD_LIMIT) (f # fs)" by (auto simp: row_ok_def neq_Nil_conv)
  have "rows_of csv_empty (line_marks (csv_row (f # fs) @ csv_text rows)) = ((f # fs) # rows, None)"
    using rows_of_row [OF row(2), of START_RECORD "[]" "csv_text rows"] Cons by (simp add: csv_empty_def [symmetric])
  then show ?case using row(1) by (simp add: csv_text_def)
qed

end
