(* ===== verification/PointTable.thy ===== *)
theory PointTable
  imports Csv ConfigModels ReadModels
begin

text \<open>
  Point tables, \<open>point_table.py\<close>: the strict loader of a CSV file with one point per row, the read header and
  the measurements of a point. In messages the path, the lists of allowed values and the row of an earlier
  use are left out; a message keeps its own row. Which of
  two errors is reported for a file that is also no valid UTF-8 is not modelled.
\<close>

section \<open>Tables of constants\<close>

definition POINT_TABLE_COLUMNS :: "string list" where
  "POINT_TABLE_COLUMNS =
     [''point_id'', ''point_name'', ''point_type'', ''index'', ''static_group'', ''static_variation'', ''event_group'', ''event_variation'',
      ''event_class'', ''read_qualifier'', ''engineering_unit'', ''expected_min'', ''expected_max'', ''enabled'', ''notes'']"

definition POINT_GROUPS :: "(string \<times> int \<times> int) list" where
  "POINT_GROUPS =
     [(''binary_input'', 1, 2), (''double_bit_binary_input'', 3, 4), (''binary_output_status'', 10, 11), (''counter'', 20, 22),
      (''frozen_counter'', 21, 23), (''analog_input'', 30, 32), (''analog_output_status'', 40, 42), (''octet_string'', 110, 111)]"

text \<open>The variations of the static and of the event group; those of octet strings are lengths.\<close>

definition POINT_VARIATIONS :: "(string \<times> int list option \<times> int list option) list" where
  "POINT_VARIATIONS =
     [(''binary_input'', Some [1, 2], Some [1, 2, 3]), (''double_bit_binary_input'', Some [1, 2], Some [1, 2, 3]),
      (''binary_output_status'', Some [1, 2], Some [1, 2]), (''counter'', Some [1, 2, 5, 6], Some [1, 2, 5, 6]),
      (''frozen_counter'', Some [1, 2, 5, 6, 9, 10], Some [1, 2, 5, 6]),
      (''analog_input'', Some [1, 2, 3, 4, 5, 6], Some [1, 2, 3, 4, 5, 6, 7, 8]),
      (''analog_output_status'', Some [1, 2, 3, 4], Some [1, 2, 3, 4, 5, 6, 7, 8]), (''octet_string'', None, None)]"

definition NUMERIC_POINT_TYPES :: "string list" where
  "NUMERIC_POINT_TYPES = [''analog_input'', ''analog_output_status'', ''counter'', ''frozen_counter'']"

definition MAX_POINT_TABLE_BYTES :: nat where "MAX_POINT_TABLE_BYTES = 4194304"
definition MAX_POINT_COUNT :: nat where "MAX_POINT_COUNT = 100000"

section \<open>Points\<close>

record point =
  pt_id :: string
  pt_name :: string
  pt_type :: string
  pt_index :: int
  pt_static_group :: int
  pt_static_variation :: int
  pt_event_group :: "int option"
  pt_event_variation :: "int option"
  pt_event_class :: "int option"
  pt_read_qualifier :: string
  pt_unit :: "string option"
  pt_min :: "rat option"
  pt_max :: "rat option"
  pt_enabled :: bool
  pt_notes :: "string option"

definition capability_id :: "point \<Rightarrow> string" where
  "capability_id p = (if pt_static_group p = 110 then ''OBJ.G110.LENGTH_VARIANTS''
     else ''OBJ.G'' @ str_int (pt_static_group p) @ ''.V'' @ str_int (pt_static_variation p))"

definition event_capability_id :: "point \<Rightarrow> string option" where
  "event_capability_id p = (case (pt_event_group p, pt_event_variation p) of
     (Some g, Some v) \<Rightarrow> Some (if g = 111 then ''OBJ.G111.LENGTH_VARIANTS'' else ''OBJ.G'' @ str_int g @ ''.V'' @ str_int v)
   | _ \<Rightarrow> None)"

definition read_qualifier_capability_id :: "point \<Rightarrow> string" where
  "read_qualifier_capability_id p = (if pt_read_qualifier p = ''range8'' then ''QUAL.Q00.REVIEW'' else ''QUAL.Q01.REVIEW'')"

definition point_read_header :: "point \<Rightarrow> pyexc + read_header" where
  "point_read_header p =
     (if pt_read_qualifier p = ''range8'' then ReadHeader_range8 else ReadHeader_range16)
       (PInt (pt_static_group p)) (PInt (pt_static_variation p)) (PInt (pt_index p)) (PInt (pt_index p))"

definition matching_measurements :: "point \<Rightarrow> measurement list \<Rightarrow> measurement list" where
  "matching_measurements p ms = filter (\<lambda>m. me_kind m = pt_type p \<and> me_index m = Some (pt_index p) \<and>
     me_group m = pt_static_group p \<and> me_variation m = pt_static_variation p \<and> \<not> me_is_event m) ms"

definition matching_event_measurements :: "point \<Rightarrow> measurement list \<Rightarrow> measurement list" where
  "matching_event_measurements p ms = (case (pt_event_group p, pt_event_variation p) of
     (Some g, Some v) \<Rightarrow> filter (\<lambda>m. me_kind m = pt_type p \<and> me_index m = Some (pt_index p) \<and>
       me_group m = g \<and> me_variation m = v \<and> me_is_event m) ms
   | _ \<Rightarrow> [])"

definition value_in_expected_range :: "point \<Rightarrow> pyval \<Rightarrow> bool" where
  "value_in_expected_range p v = (case (pt_min p, pt_max p) of
     (Some lo, Some hi) \<Rightarrow> (case finite_number v of Some q \<Rightarrow> lo \<le> q \<and> q \<le> hi | None \<Rightarrow> False)
   | _ \<Rightarrow> True)"

definition opt_val :: "('a \<Rightarrow> pyval) \<Rightarrow> 'a option \<Rightarrow> pyval" where
  "opt_val f v = (case v of None \<Rightarrow> PNone | Some x \<Rightarrow> f x)"

definition point_to_mapping :: "point \<Rightarrow> dict" where
  "point_to_mapping p =
     [(''point_id'', PStr (pt_id p)), (''point_name'', PStr (pt_name p)), (''point_type'', PStr (pt_type p)), (''index'', PInt (pt_index p)),
      (''static_group'', PInt (pt_static_group p)), (''static_variation'', PInt (pt_static_variation p)),
      (''event_group'', opt_val PInt (pt_event_group p)), (''event_variation'', opt_val PInt (pt_event_variation p)),
      (''event_class'', opt_val PInt (pt_event_class p)), (''read_qualifier'', PStr (pt_read_qualifier p)),
      (''engineering_unit'', opt_val PStr (pt_unit p)), (''expected_min'', opt_val (PFloat \<circ> Fin) (pt_min p)),
      (''expected_max'', opt_val (PFloat \<circ> Fin) (pt_max p)), (''enabled'', PBool (pt_enabled p)), (''notes'', opt_val PStr (pt_notes p))]"

definition table_to_mapping :: "point list \<Rightarrow> dict" where
  "table_to_mapping points = [(''schema_version'', PInt 1), (''points'', PList (map (PDict \<circ> point_to_mapping) points))]"

section \<open>Fields\<close>

text \<open>The error of the module, and the plain \<open>ValueError\<close> of \<open>int\<close> on too many digits.\<close>

datatype table_exc = Table_Error "nat option" string | Table_Value_Error string

definition required_text :: "nat \<Rightarrow> string \<Rightarrow> string \<Rightarrow> nat \<Rightarrow> table_exc + string" where
  "required_text row v f maximum = (let normalized = strip v in checked (first_error
     [raise_if (normalized = []) (Table_Error (Some row) (f @ '' must not be empty'')),
      raise_if (length normalized > maximum) (Table_Error (Some row) (f @ '' must not exceed '' @ dec maximum @ '' UTF-8 bytes''))]) normalized)"

definition optional_text :: "nat \<Rightarrow> string \<Rightarrow> string \<Rightarrow> nat \<Rightarrow> table_exc + string option" where
  "optional_text row v f maximum = (if strip v = [] then Inr None else bindE (required_text row v f maximum) (\<lambda>s. Inr (Some s)))"

definition unsigned_field :: "nat \<Rightarrow> string \<Rightarrow> string \<Rightarrow> int \<Rightarrow> int \<Rightarrow> table_exc + int" where
  "unsigned_field row v f lo hi = (let normalized = strip v; parsed = int (dec_value normalized) in checked (first_error
     [raise_if (normalized = [] \<or> \<not> list_all is_dec normalized) (Table_Error (Some row) (f @ '' must be an unsigned decimal integer'')),
      raise_if (length normalized > MAX_INT_DIGITS) (Table_Value_Error ''Exceeds the limit (4300 digits) for integer string conversion''),
      raise_if (\<not> (lo \<le> parsed \<and> parsed \<le> hi))
        (Table_Error (Some row) (f @ '' must be between '' @ str_int lo @ '' and '' @ str_int hi))]) parsed)"

text \<open>\<open>_unsigned(..., optional=True)\<close>\<close>

definition optional_unsigned :: "nat \<Rightarrow> string \<Rightarrow> string \<Rightarrow> int \<Rightarrow> int \<Rightarrow> table_exc + int option" where
  "optional_unsigned row v f lo hi = (if strip v = [] then Inr None else bindE (unsigned_field row v f lo hi) (\<lambda>i. Inr (Some i)))"

text \<open>
  \<open>Decimal(text)\<close>: decimal digits of any script count, underscores are dropped, and the exponent has to fit the context
  of exact conversion on 64 bits. \<open>None\<close> is a text that is no decimal number or not a finite one.
\<close>

definition decimal_ascii :: "string \<Rightarrow> string" where
  "decimal_ascii s = concat (map (\<lambda>p.
     if p = ''_'' then []
     else if length p = 1 then (if p = [CHR 0x00] then ''?'' else p)
     else if is_decimal p
     then (case filter (\<lambda>(a, b). a \<le> point_value p \<and> point_value p \<le> b) DECIMAL_DIGITS of
         (a, b) # _ \<Rightarrow> [digit_char ((point_value p - a) mod 10)] | [] \<Rightarrow> ''?'')
     else ''?'') (code_points s))"

fun take_sign :: "string \<Rightarrow> bool \<times> string" where
  "take_sign (c # cs) = (if c = CHR ''-'' then (True, cs) else if c = CHR ''+'' then (False, cs) else (False, c # cs))"
| "take_sign [] = (False, [])"

definition decimal_exponent :: "string \<Rightarrow> int option" where
  "decimal_exponent s = (case s of
     [] \<Rightarrow> Some 0
   | c # cs \<Rightarrow> (case take_sign cs of (neg, ds) \<Rightarrow>
       if c \<in> {CHR ''e'', CHR ''E''} \<and> ds \<noteq> [] \<and> list_all is_dec ds
       then Some (if neg then - int (dec_value ds) else int (dec_value ds)) else None))"

definition decimal_in_context :: "nat \<Rightarrow> int \<Rightarrow> bool" where
  "decimal_in_context coefficient e \<longleftrightarrow> - 1999999999999999997 \<le> e \<and>
     (if coefficient = 0 then e else e + int (length (dec coefficient)) - 1) \<le> 999999999999999999"

definition decimal_value :: "string \<Rightarrow> rat option" where
  "decimal_value text =
     (let (neg, s) = take_sign (decimal_ascii text); ds = takeWhile is_dec s; r = dropWhile is_dec s;
          (fs, r) = (case r of c # cs \<Rightarrow> if c = CHR ''.'' then (takeWhile is_dec cs, dropWhile is_dec cs) else ([], r) | [] \<Rightarrow> ([], r));
          coefficient = dec_value (ds @ fs) in
      if ds = [] \<and> fs = [] then None
      else case decimal_exponent r of
        None \<Rightarrow> None
      | Some e \<Rightarrow>
          let x = e - int (length fs); q = of_nat coefficient * (if x \<ge> 0 then 10 ^ nat x else 1 / 10 ^ nat (- x)) in
          if decimal_in_context coefficient x then Some (if neg then - q else q) else None)"

definition optional_number :: "nat \<Rightarrow> string \<Rightarrow> string \<Rightarrow> table_exc + rat option" where
  "optional_number row v f =
     (if strip v = [] then Inr None
      else case decimal_value (strip v) of
        None \<Rightarrow> Inl (Table_Error (Some row) (f @ '' must be a finite decimal number''))
      | Some q \<Rightarrow> (case binary64 q of
          Fin x \<Rightarrow> Inr (Some x)
        | _ \<Rightarrow> Inl (Table_Error (Some row) (f @ '' is outside the supported numeric range''))))"

section \<open>Rows\<close>

definition column :: "string list \<Rightarrow> string \<Rightarrow> string" where
  "column row f = the (map_of (zip POINT_TABLE_COLUMNS row) f)"

definition point_id_match :: "string \<Rightarrow> bool" where
  "point_id_match s = (case s of
     c # cs \<Rightarrow> (code_in c 65 90 \<or> code_in c 97 122) \<and> class_match (\<lambda>d. is_alnum d \<or> d \<in> set ''_.:-'') 0 127 cs
   | [] \<Rightarrow> False)"

text \<open>The row in parts, as \<open>_point_from_row\<close> goes through it: identity, static object, event object, qualifier, limits.\<close>

definition row_identity :: "nat \<Rightarrow> string list \<Rightarrow> table_exc + string \<times> string \<times> string" where
  "row_identity n row =
     bindE (required_text n (column row ''point_id'') ''point_id'' 128) (\<lambda>point_id.
     bindE (checked (raise_if (\<not> point_id_match point_id) (Table_Error (Some n) ''point_id must start with an ASCII letter'')) ()) (\<lambda>_.
     bindE (required_text n (column row ''point_name'') ''point_name'' 512) (\<lambda>point_name.
     let point_type = strip (column row ''point_type'') in
     checked (raise_if (point_type \<notin> set (map fst POINT_GROUPS)) (Table_Error (Some n) ''point_type must be one of: ''))
       (point_id, point_name, point_type))))"

definition not_allowed :: "int list option \<Rightarrow> int \<Rightarrow> bool" where
  "not_allowed allowed v = (case allowed of None \<Rightarrow> False | Some vs \<Rightarrow> v \<notin> set vs)"

definition row_static :: "nat \<Rightarrow> string list \<Rightarrow> string \<Rightarrow> table_exc + int \<times> int \<times> int" where
  "row_static n row point_type =
     bindE (unsigned_field n (column row ''index'') ''index'' 0 65535) (\<lambda>index.
     bindE (unsigned_field n (column row ''static_group'') ''static_group'' 1 255) (\<lambda>static_group.
     bindE (unsigned_field n (column row ''static_variation'') ''static_variation'' 1 255) (\<lambda>static_variation.
     checked (first_error
       [raise_if (static_group \<noteq> fst (the (map_of POINT_GROUPS point_type))) (Table_Error (Some n) ''static_group does not match''),
        raise_if (not_allowed (fst (the (map_of POINT_VARIATIONS point_type))) static_variation)
          (Table_Error (Some n) ''static_variation is not defined'')]) (index, static_group, static_variation))))"

definition row_event :: "nat \<Rightarrow> string list \<Rightarrow> string \<Rightarrow> table_exc + int option \<times> int option \<times> int option" where
  "row_event n row point_type =
     bindE (optional_unsigned n (column row ''event_group'') ''event_group'' 1 255) (\<lambda>event_group.
     bindE (optional_unsigned n (column row ''event_variation'') ''event_variation'' 1 255) (\<lambda>event_variation.
     bindE (optional_unsigned n (column row ''event_class'') ''event_class'' 1 3) (\<lambda>event_class.
     let fields = [event_group, event_variation, event_class] in
     checked (first_error
       [raise_if (None \<in> set fields \<and> \<not> list_all (\<lambda>v. v = None) fields)
          (Table_Error (Some n) ''event_group, event_variation, and event_class must be all blank or all populated''),
        raise_if (event_group \<noteq> None \<and> event_group \<noteq> Some (snd (the (map_of POINT_GROUPS point_type))))
          (Table_Error (Some n) ''event_group does not match''),
        raise_if (event_variation \<noteq> None \<and> not_allowed (snd (the (map_of POINT_VARIATIONS point_type))) (the event_variation))
          (Table_Error (Some n) ''event_variation is not defined'')]) (event_group, event_variation, event_class))))"

definition row_qualifier :: "nat \<Rightarrow> string list \<Rightarrow> int \<Rightarrow> table_exc + string" where
  "row_qualifier n row index =
     (let read_qualifier = strip (column row ''read_qualifier'') in checked (first_error
       [raise_if (read_qualifier \<notin> {''range8'', ''range16''})
          (Table_Error (Some n) (''read_qualifier must be '' @ quoted ''range8'' @ '' or '' @ quoted ''range16'')),
        raise_if (read_qualifier = ''range8'' \<and> index > 255) (Table_Error (Some n) ''range8 cannot address an index greater than 255'')])
       read_qualifier)"

definition row_limits :: "nat \<Rightarrow> string list \<Rightarrow> string \<Rightarrow> table_exc + rat option \<times> rat option" where
  "row_limits n row point_type =
     bindE (optional_number n (column row ''expected_min'') ''expected_min'') (\<lambda>lo.
     bindE (optional_number n (column row ''expected_max'') ''expected_max'') (\<lambda>hi. checked (first_error
       [raise_if ((lo = None) \<noteq> (hi = None)) (Table_Error (Some n) ''expected_min and expected_max must be both blank or both populated''),
        raise_if (lo \<noteq> None \<and> point_type \<notin> set NUMERIC_POINT_TYPES)
          (Table_Error (Some n) ''expected_min/expected_max are allowed only for numeric point types''),
        raise_if (lo \<noteq> None \<and> the lo > the hi) (Table_Error (Some n) ''expected_min must not exceed expected_max'')]) (lo, hi)))"

definition point_from_row :: "nat \<Rightarrow> string list \<Rightarrow> table_exc + point" where
  "point_from_row n row =
     bindE (row_identity n row) (\<lambda>(point_id, point_name, point_type).
     bindE (row_static n row point_type) (\<lambda>(index, static_group, static_variation).
     bindE (row_event n row point_type) (\<lambda>(event_group, event_variation, event_class).
     bindE (row_qualifier n row index) (\<lambda>read_qualifier.
     bindE (optional_text n (column row ''engineering_unit'') ''engineering_unit'' 64) (\<lambda>engineering_unit.
     bindE (row_limits n row point_type) (\<lambda>(lo, hi).
     let enabled_text = strip (column row ''enabled'') in
     bindE (checked (raise_if (enabled_text \<notin> {''true'', ''false''})
       (Table_Error (Some n) (''enabled must be exactly '' @ quoted ''true'' @ '' or '' @ quoted ''false''))) ()) (\<lambda>_.
     bindE (optional_text n (column row ''notes'') ''notes'' 2048) (\<lambda>notes.
     Inr \<lparr>pt_id = point_id, pt_name = point_name, pt_type = point_type, pt_index = index, pt_static_group = static_group,
          pt_static_variation = static_variation, pt_event_group = event_group, pt_event_variation = event_variation,
          pt_event_class = event_class, pt_read_qualifier = read_qualifier, pt_unit = engineering_unit, pt_min = lo, pt_max = hi,
          pt_enabled = (enabled_text = ''true''), pt_notes = notes\<rparr>))))))))"

section \<open>Tables\<close>

text \<open>\<open>csv.DictReader\<close> passes over empty records, and reports the line of the first one passed over.\<close>

fun dict_rows :: "nat option \<Rightarrow> (string list \<times> nat) list \<Rightarrow> (string list \<times> nat) list" where
  "dict_rows first [] = []"
| "dict_rows first ((row, n) # rows) =
     (let m = (case first of None \<Rightarrow> n | Some m \<Rightarrow> m) in
      if row = [] then dict_rows (Some m) rows else (row, m) # dict_rows None rows)"

definition row_checks :: "nat \<Rightarrow> nat \<Rightarrow> string list \<Rightarrow> table_exc option" where
  "row_checks count n row = first_error
     [raise_if (count \<ge> MAX_POINT_COUNT) (Table_Error (Some n) (''point count exceeds '' @ dec MAX_POINT_COUNT)),
      raise_if (length row > length POINT_TABLE_COLUMNS) (Table_Error (Some n) ''row has more values than the header''),
      raise_if (length row < length POINT_TABLE_COLUMNS) (Table_Error (Some n) ''row has fewer values than the header''),
      raise_if (list_all (\<lambda>v. strip v = []) row) (Table_Error (Some n) ''blank rows are not allowed'')]"

definition casefold_id :: "point \<Rightarrow> string" where
  "casefold_id p = ascii_lower (pt_id p)"

definition address :: "point \<Rightarrow> string \<times> int" where
  "address p = (pt_type p, pt_index p)"

text \<open>The loop over the rows; the dictionaries of identifiers and addresses seen are those of the points so far.\<close>

fun load_rows :: "point list \<Rightarrow> (string list \<times> nat) list \<Rightarrow> string option \<Rightarrow> table_exc + point list" where
  "load_rows points [] failure = (case failure of
     Some e \<Rightarrow> Inl (Table_Error None (''cannot read point table: '' @ e)) | None \<Rightarrow> Inr points)"
| "load_rows points ((row, n) # rows) failure = (case row_checks (length points) n row of
     Some e \<Rightarrow> Inl e
   | None \<Rightarrow> bindE (point_from_row n row) (\<lambda>p.
       if casefold_id p \<in> set (map casefold_id points) then Inl (Table_Error (Some n) (''duplicate point_id '' @ quoted (pt_id p)))
       else if address p \<in> set (map address points)
       then Inl (Table_Error (Some n) (''duplicate '' @ pt_type p @ '' index '' @ str_int (pt_index p)))
       else load_rows (points @ [p]) rows failure))"

text \<open>\<open>encoding="utf-8-sig"\<close>: a byte order mark is passed over.\<close>

definition without_bom :: "string \<Rightarrow> string" where
  "without_bom s = (if take 3 s = [CHR 0xEF, CHR 0xBB, CHR 0xBF] then drop 3 s else s)"

definition load_text :: "string \<Rightarrow> table_exc + point list" where
  "load_text s = (case csv_reader_of s of (records, failure) \<Rightarrow>
     case records of
       [] \<Rightarrow> (case failure of
           Some e \<Rightarrow> Inl (Table_Error None (''cannot read point table: '' @ e))
         | None \<Rightarrow> Inl (Table_Error (Some 1) ''CSV header must exactly equal: ''))
     | (header, _) # rows \<Rightarrow>
         if header \<noteq> POINT_TABLE_COLUMNS then Inl (Table_Error (Some 1) ''CSV header must exactly equal: '')
         else bindE (load_rows [] (dict_rows None rows) failure) (\<lambda>points.
           checked (raise_if (points = []) (Table_Error None ''point table contains no data rows'')) points))"

text \<open>What the file system says of the path: no file, an error, or the content.\<close>

datatype table_file = No_File | Stat_Error string | Open_Error string | Content string

definition load_point_table :: "table_file \<Rightarrow> table_exc + point list" where
  "load_point_table file = (case file of
     No_File \<Rightarrow> Inl (Table_Error None ''point table does not exist'')
   | Stat_Error e \<Rightarrow> Inl (Table_Error None (''cannot inspect point table: '' @ e))
   | Open_Error e \<Rightarrow> Inl (Table_Error None (''cannot read point table: '' @ e))
   | Content s \<Rightarrow>
       if length s > MAX_POINT_TABLE_BYTES then Inl (Table_Error None (''point table exceeds '' @ dec MAX_POINT_TABLE_BYTES @ '' bytes''))
       else if \<not> utf8_valid (without_bom s) then Inl (Table_Error None ''cannot read point table: '')
       else load_text (without_bom s))"

definition enabled_points :: "point list \<Rightarrow> point list" where
  "enabled_points = filter pt_enabled"

definition by_id :: "point list \<Rightarrow> string \<Rightarrow> point option" where
  "by_id points = map_of (rev (map (\<lambda>p. (pt_id p, p)) points))"

section \<open>What is accepted\<close>

definition point_wf :: "point \<Rightarrow> bool" where
  "point_wf p \<longleftrightarrow>
     (let groups = the (map_of POINT_GROUPS (pt_type p)); variations = the (map_of POINT_VARIATIONS (pt_type p)) in
      point_id_match (pt_id p) \<and> length (pt_id p) \<le> 128 \<and> pt_name p \<noteq> [] \<and> length (pt_name p) \<le> 512 \<and> pt_type p \<in> set (map fst POINT_GROUPS) \<and>
      0 \<le> pt_index p \<and> pt_index p \<le> 65535 \<and> pt_static_group p = fst groups \<and>
      1 \<le> pt_static_variation p \<and> pt_static_variation p \<le> 255 \<and> \<not> not_allowed (fst variations) (pt_static_variation p) \<and>
      (pt_event_group p = None \<and> pt_event_variation p = None \<and> pt_event_class p = None \<or>
       (\<exists>v k. pt_event_group p = Some (snd groups) \<and> pt_event_variation p = Some v \<and> 1 \<le> v \<and> v \<le> 255 \<and> \<not> not_allowed (snd variations) v \<and>
          pt_event_class p = Some k \<and> 1 \<le> k \<and> k \<le> 3)) \<and>
      (pt_read_qualifier p = ''range8'' \<and> pt_index p \<le> 255 \<or> pt_read_qualifier p = ''range16'') \<and>
      (pt_min p = None \<and> pt_max p = None \<or>
       (\<exists>lo hi. pt_min p = Some lo \<and> pt_max p = Some hi \<and> lo \<le> hi \<and> pt_type p \<in> set NUMERIC_POINT_TYPES)))"

lemma required_text_Inr: "required_text n v f m = Inr s \<longleftrightarrow> s = strip v \<and> s \<noteq> [] \<and> length s \<le> m"
  by (auto simp: required_text_def Let_def)

lemma unsigned_Inr: "unsigned_field n v f lo hi = Inr i \<longleftrightarrow> strip v \<noteq> [] \<and> list_all is_dec (strip v) \<and> length (strip v) \<le> MAX_INT_DIGITS \<and>
    i = int (dec_value (strip v)) \<and> lo \<le> i \<and> i \<le> hi"
  by (auto simp: unsigned_field_def Let_def)

lemma optional_unsigned_Inr: "optional_unsigned n v f lo hi = Inr r \<longleftrightarrow>
    (if strip v = [] then r = None else \<exists>i. r = Some i \<and> unsigned_field n v f lo hi = Inr i)"
  by (auto simp: optional_unsigned_def bindE_def split: sum.splits)

lemma optional_unsigned_range: "optional_unsigned n v f lo hi = Inr (Some i) \<Longrightarrow> lo \<le> i \<and> i \<le> hi"
  by (auto simp: optional_unsigned_Inr unsigned_Inr split: if_splits)

lemma row_identity_Inr:
  assumes "row_identity n row = Inr (i, name, t)"
  shows "point_id_match i" "length i \<le> 128" "name \<noteq> []" "length name \<le> 512" "t \<in> set (map fst POINT_GROUPS)"
  using assms by (auto simp: row_identity_def bindE_def required_text_Inr Let_def split: sum.splits)

lemma row_static_Inr:
  assumes "row_static n row t = Inr (i, g, v)"
  shows "0 \<le> i" "i \<le> 65535" "g = fst (the (map_of POINT_GROUPS t))" "1 \<le> v" "v \<le> 255" "\<not> not_allowed (fst (the (map_of POINT_VARIATIONS t))) v"
  using assms by (auto simp: row_static_def bindE_def unsigned_Inr split: sum.splits)

lemma row_event_Inr:
  assumes "row_event n row t = Inr (g, v, k)"
  shows "g = None \<and> v = None \<and> k = None \<or>
    (\<exists>v' k'. g = Some (snd (the (map_of POINT_GROUPS t))) \<and> v = Some v' \<and> 1 \<le> v' \<and> v' \<le> 255 \<and>
       \<not> not_allowed (snd (the (map_of POINT_VARIATIONS t))) v' \<and> k = Some k' \<and> 1 \<le> k' \<and> k' \<le> 3)"
proof -
  from assms have fields: "optional_unsigned n (column row ''event_variation'') ''event_variation'' 1 255 = Inr v"
      "optional_unsigned n (column row ''event_class'') ''event_class'' 1 3 = Inr k"
    and rest: "\<not> (None \<in> {g, v, k} \<and> \<not> (g = None \<and> v = None \<and> k = None))" "g \<noteq> None \<longrightarrow> g = Some (snd (the (map_of POINT_GROUPS t)))"
      "v \<noteq> None \<longrightarrow> \<not> not_allowed (snd (the (map_of POINT_VARIATIONS t))) (the v)"
    by (auto simp: row_event_def bindE_def Let_def split: sum.splits)
  show ?thesis
  proof (cases g)
    case None
    then show ?thesis using rest(1) by auto
  next
    case (Some g')
    then obtain v' k' where "v = Some v'" "k = Some k'" using rest(1) by (cases v; cases k) auto
    then show ?thesis using Some rest(2,3) optional_unsigned_range [of n _ _ 1 255 v'] optional_unsigned_range [of n _ _ 1 3 k'] fields by auto
  qed
qed

lemma row_limits_Inr:
  assumes "row_limits n row t = Inr (lo, hi)"
  shows "lo = None \<and> hi = None \<or> (\<exists>l h. lo = Some l \<and> hi = Some h \<and> l \<le> h \<and> t \<in> set NUMERIC_POINT_TYPES)"
  using assms by (cases lo; cases hi) (auto simp: row_limits_def bindE_def split: sum.splits)

lemma row_qualifier_Inr: "row_qualifier n row i = Inr q \<Longrightarrow> q = ''range8'' \<and> i \<le> 255 \<or> q = ''range16''"
  by (auto simp: row_qualifier_def Let_def)

lemma point_from_row_wf:
  assumes "point_from_row n row = Inr p"
  shows "point_wf p"
proof -
  obtain i name t index g v eg ev k q u lo hi remark where
    parts: "row_identity n row = Inr (i, name, t)" "row_static n row t = Inr (index, g, v)" "row_event n row t = Inr (eg, ev, k)"
      "row_qualifier n row index = Inr q" "row_limits n row t = Inr (lo, hi)"
    and p: "p = \<lparr>pt_id = i, pt_name = name, pt_type = t, pt_index = index, pt_static_group = g, pt_static_variation = v, pt_event_group = eg,
      pt_event_variation = ev, pt_event_class = k, pt_read_qualifier = q, pt_unit = u, pt_min = lo, pt_max = hi,
      pt_enabled = (strip (column row ''enabled'') = ''true''), pt_notes = remark\<rparr>"
    using assms by (auto simp: point_from_row_def bindE_eq_Inr Let_def split: prod.splits)
  show ?thesis
    using row_identity_Inr [OF parts(1)] row_static_Inr [OF parts(2)] row_event_Inr [OF parts(3)] row_qualifier_Inr [OF parts(4)]
      row_limits_Inr [OF parts(5)]
    unfolding p point_wf_def Let_def by simp
qed

text \<open>What the loop keeps: well-formed points without repeated identifiers or addresses.\<close>

definition table_ok :: "point list \<Rightarrow> bool" where
  "table_ok ps \<longleftrightarrow> list_all point_wf ps \<and> distinct (map casefold_id ps) \<and> distinct (map address ps) \<and> length ps \<le> MAX_POINT_COUNT"

lemma load_rows_ok: "load_rows points rows failure = Inr ps \<Longrightarrow> table_ok points \<Longrightarrow> table_ok ps"
proof (induction points rows failure rule: load_rows.induct)
  case (1 points failure)
  then show ?case by (simp split: option.splits)
next
  case (2 points row n rows failure)
  obtain p where none: "row_checks (length points) n row = None" and p: "point_from_row n row = Inr p"
    "casefold_id p \<notin> set (map casefold_id points)" "address p \<notin> set (map address points)"
    and rest: "load_rows (points @ [p]) rows failure = Inr ps"
    using "2.prems"(1) by (auto simp: bindE_eq_Inr split: option.splits if_splits)
  have "length points < MAX_POINT_COUNT" using none by (auto simp: row_checks_def)
  then have "table_ok (points @ [p])" using "2.prems"(2) p point_from_row_wf by (simp add: table_ok_def)
  then show ?case by (rule "2.IH" [OF none p(2,3) rest])
qed

lemma load_point_table_ok: "load_point_table file = Inr ps \<Longrightarrow> table_ok ps \<and> ps \<noteq> []"
  by (auto simp: load_point_table_def load_text_def bindE_eq_Inr table_ok_def
      split: table_file.splits if_splits prod.splits list.splits option.splits dest!: load_rows_ok)

lemma unsigned_integer_ok: "lo \<le> i \<Longrightarrow> i \<le> hi \<Longrightarrow> exc_of (unsigned_integer (PInt i) f lo hi) = None"
  by (simp add: unsigned_integer_def exc_of_def checked_def raise_if_def)

lemma point_group_range:
  assumes "point_wf p"
  shows "0 \<le> pt_static_group p" "pt_static_group p \<le> 255" "pt_static_group p \<noteq> 60"
proof -
  have "pt_static_group p \<in> {1, 3, 10, 20, 21, 30, 40, 110}"
    using assms by (auto simp: point_wf_def Let_def POINT_GROUPS_def)
  then show "0 \<le> pt_static_group p" "pt_static_group p \<le> 255" "pt_static_group p \<noteq> 60" by auto
qed

lemma point_header:
  assumes "point_wf p"
  shows "point_read_header p = Inr \<lparr>rh_group = pt_static_group p, rh_variation = pt_static_variation p, rh_qualifier = pt_read_qualifier p,
    rh_start = Some (pt_index p), rh_stop = Some (pt_index p), rh_count = None\<rparr>"
proof -
  have wf: "1 \<le> pt_static_variation p" "pt_static_variation p \<le> 255" "0 \<le> pt_index p" "pt_index p \<le> 65535"
    "pt_read_qualifier p = ''range8'' \<and> pt_index p \<le> 255 \<or> pt_read_qualifier p = ''range16''"
    using assms by (simp_all add: point_wf_def Let_def)
  have member: "check_member (PStr ''range8'') READ_QUALIFIERS e = None" "check_member (PStr ''range16'') READ_QUALIFIERS e = None" for e :: pyexc
    by (simp_all add: check_member_def READ_QUALIFIERS_def)
  have checks: "exc_of (unsigned_integer (PInt (pt_static_group p)) f 0 255) = None"
    "exc_of (unsigned_integer (PInt (pt_static_variation p)) f 0 255) = None"
    "exc_of (unsigned_integer (PInt (pt_index p)) f 0 (if pt_read_qualifier p = ''range8'' then 255 else 65535)) = None" for f
    using wf point_group_range [OF assms] by (auto intro!: unsigned_integer_ok)
  show ?thesis
    using wf(5) point_group_range(3) [OF assms] checks member
    by (auto simp: point_read_header_def ReadHeader_range8_def ReadHeader_range16_def ReadHeader_def read_header_range_def opt_int_def Let_def)
qed

section \<open>Writing a table\<close>

definition opt_text :: "('a \<Rightarrow> string) \<Rightarrow> 'a option \<Rightarrow> string" where
  "opt_text f v = (case v of None \<Rightarrow> [] | Some x \<Rightarrow> f x)"

text \<open>The row of a point, with some text for each number.\<close>

definition point_row :: "(rat \<Rightarrow> string) \<Rightarrow> point \<Rightarrow> string list" where
  "point_row num p =
     [pt_id p, pt_name p, pt_type p, str_int (pt_index p), str_int (pt_static_group p), str_int (pt_static_variation p),
      opt_text str_int (pt_event_group p), opt_text str_int (pt_event_variation p), opt_text str_int (pt_event_class p), pt_read_qualifier p,
      opt_text id (pt_unit p), opt_text num (pt_min p), opt_text num (pt_max p), (if pt_enabled p then ''true'' else ''false''),
      opt_text id (pt_notes p)]"

definition stripped :: "nat \<Rightarrow> string \<Rightarrow> bool" where
  "stripped n s \<longleftrightarrow> strip s = s \<and> s \<noteq> [] \<and> length s \<le> n \<and> utf8_valid s"

definition reads_as :: "string \<Rightarrow> rat \<Rightarrow> bool" where
  "reads_as s q \<longleftrightarrow> stripped 1000 s \<and> (\<exists>x \<in> set_option (decimal_value s). binary64 x = Fin q)"

definition point_printable :: "(rat \<Rightarrow> string) \<Rightarrow> point \<Rightarrow> bool" where
  "point_printable num p \<longleftrightarrow> stripped 512 (pt_name p) \<and> list_all (stripped 64) (case pt_unit p of None \<Rightarrow> [] | Some u \<Rightarrow> [u]) \<and>
     list_all (stripped 2048) (case pt_notes p of None \<Rightarrow> [] | Some u \<Rightarrow> [u]) \<and>
     (case pt_min p of None \<Rightarrow> True | Some q \<Rightarrow> reads_as (num q) q) \<and> (case pt_max p of None \<Rightarrow> True | Some q \<Rightarrow> reads_as (num q) q)"

definition visible :: "char \<Rightarrow> bool" where
  "visible c \<longleftrightarrow> 0x20 < (of_char c :: nat) \<and> (of_char c :: nat) < 0x80"

lemma code_points_visible: "list_all visible s \<Longrightarrow> code_points s = map (\<lambda>c. [c]) s"
  by (induction s) (simp_all add: visible_def utf8_width_def)

lemma strip_visible:
  assumes "list_all visible s"
  shows "strip s = s"
proof -
  have no: "dropWhile is_space (map (\<lambda>c. [c]) t) = map (\<lambda>c. [c]) t" if "list_all visible t" for t
    using that by (cases t) (auto simp: visible_def is_space_def)
  have "concat (map (\<lambda>c. [c]) s) = s" by (induction s) simp_all
  then show ?thesis
    using assms no [of s] no [of "rev s"] by (simp add: strip_def code_points_visible rev_map list_all_iff)
qed

lemma visible_dec: "list_all visible (dec n)"
  using dec_all [of n] by (auto simp: list_all_iff is_dec_def code_in_def visible_def)

lemma str_int_dec: "0 \<le> i \<Longrightarrow> str_int i = dec (nat i)"
  by (simp add: str_int_def)

lemma short_dec: "n \<le> 65535 \<Longrightarrow> length (dec n) \<le> 5"
  by (rule length_dec) simp_all

lemma unsigned_str_int:
  assumes "0 \<le> i" "i \<le> 65535" "lo \<le> i" "i \<le> hi"
  shows "unsigned_field n (str_int i) f lo hi = Inr i" "strip (str_int i) \<noteq> []"
proof -
  have "length (dec (nat i)) \<le> MAX_INT_DIGITS" using short_dec [of "nat i"] assms(2) unfolding MAX_INT_DIGITS_def by linarith
  then show "unsigned_field n (str_int i) f lo hi = Inr i" "strip (str_int i) \<noteq> []"
    using assms by (simp_all add: unsigned_Inr str_int_dec strip_visible visible_dec dec_all)
qed

lemma optional_unsigned_str_int:
  "1 \<le> i \<Longrightarrow> i \<le> 255 \<Longrightarrow> lo \<le> i \<Longrightarrow> i \<le> hi \<Longrightarrow> optional_unsigned n (str_int i) f lo hi = Inr (Some i)"
  using unsigned_str_int [of i lo hi] by (simp add: optional_unsigned_def)

lemma optional_unsigned_blank: "optional_unsigned n [] f lo hi = Inr None"
  by (simp add: optional_unsigned_def strip_def)

lemma columns:
  "column (point_row num p) ''point_id'' = pt_id p" "column (point_row num p) ''point_name'' = pt_name p" "column (point_row num p) ''point_type'' = pt_type p"
  "column (point_row num p) ''index'' = str_int (pt_index p)" "column (point_row num p) ''static_group'' = str_int (pt_static_group p)"
  "column (point_row num p) ''static_variation'' = str_int (pt_static_variation p)" "column (point_row num p) ''event_group'' = opt_text str_int (pt_event_group p)"
  "column (point_row num p) ''event_variation'' = opt_text str_int (pt_event_variation p)" "column (point_row num p) ''event_class'' = opt_text str_int (pt_event_class p)"
  "column (point_row num p) ''read_qualifier'' = pt_read_qualifier p" "column (point_row num p) ''engineering_unit'' = opt_text id (pt_unit p)"
  "column (point_row num p) ''expected_min'' = opt_text num (pt_min p)" "column (point_row num p) ''expected_max'' = opt_text num (pt_max p)"
  "column (point_row num p) ''enabled'' = (if pt_enabled p then ''true'' else ''false'')" "column (point_row num p) ''notes'' = opt_text id (pt_notes p)"
  by (simp_all add: column_def point_row_def POINT_TABLE_COLUMNS_def)

lemma strip_Nil [simp]: "strip [] = []"
  by (simp add: strip_def)

lemma optional_text_stripped:
  "list_all (stripped m) (case v of None \<Rightarrow> [] | Some u \<Rightarrow> [u]) \<Longrightarrow> optional_text n (opt_text id v) f m = Inr v"
proof (cases v)
  case (Some u)
  moreover assume "list_all (stripped m) (case v of None \<Rightarrow> [] | Some u \<Rightarrow> [u])"
  ultimately have "strip u = u" "u \<noteq> []" "required_text n u f m = Inr u" by (simp_all add: required_text_Inr stripped_def)
  then show ?thesis using Some by (simp add: optional_text_def opt_text_def)
qed (simp add: optional_text_def opt_text_def)

lemma optional_number_reads:
  "(case v of None \<Rightarrow> True | Some q \<Rightarrow> reads_as (num q) q) \<Longrightarrow> optional_number n (opt_text num v) f = Inr v"
  by (cases v) (auto simp: optional_number_def opt_text_def reads_as_def stripped_def)

lemma point_id_visible: "point_id_match s \<Longrightarrow> list_all visible s"
  by (auto simp: point_id_match_def class_match_def list_all_iff visible_def is_alnum_def code_in_def split: list.splits)

lemma type_visible: "t \<in> set (map fst POINT_GROUPS) \<Longrightarrow> list_all visible t"
  by (auto simp: POINT_GROUPS_def visible_def)

lemma point_from_row_back:
  assumes "point_wf p" "point_printable num p"
  shows "point_from_row n (point_row num p) = Inr p"
proof -
  let ?row = "point_row num p"
  note wf = assms(1) [unfolded point_wf_def Let_def] and printable = assms(2) [unfolded point_printable_def]
  have "row_identity n ?row = Inr (pt_id p, pt_name p, pt_type p)"
  proof -
    have "strip (pt_id p) = pt_id p" "strip (pt_type p) = pt_type p" using wf point_id_visible type_visible strip_visible by simp_all
    moreover have "pt_id p \<noteq> []" using wf by (auto simp: point_id_match_def)
    ultimately have "required_text n (pt_id p) ''point_id'' 128 = Inr (pt_id p)" "required_text n (pt_name p) ''point_name'' 512 = Inr (pt_name p)"
      using wf printable by (simp_all add: required_text_Inr stripped_def)
    then show ?thesis using wf \<open>strip (pt_type p) = pt_type p\<close> by (simp add: row_identity_def columns checked_def raise_if_def first_error.simps)
  qed
  moreover have "row_static n ?row (pt_type p) = Inr (pt_index p, pt_static_group p, pt_static_variation p)"
  proof -
    have "1 \<le> pt_static_group p" "pt_static_group p \<le> 255" using wf by (auto simp: POINT_GROUPS_def)
    then show ?thesis using wf by (simp add: row_static_def columns unsigned_str_int checked_def raise_if_def first_error.simps)
  qed
  moreover have "row_event n ?row (pt_type p) = Inr (pt_event_group p, pt_event_variation p, pt_event_class p)"
  proof -
    have "1 \<le> snd (the (map_of POINT_GROUPS (pt_type p)))" "snd (the (map_of POINT_GROUPS (pt_type p))) \<le> 255" using wf by (auto simp: POINT_GROUPS_def)
    then show ?thesis
      using wf by (auto simp: row_event_def columns opt_text_def optional_unsigned_str_int optional_unsigned_blank checked_def raise_if_def first_error.simps)
  qed
  moreover have "row_qualifier n ?row (pt_index p) = Inr (pt_read_qualifier p)"
  proof -
    have "strip ''range8'' = ''range8''" "strip ''range16'' = ''range16''" by (simp_all add: strip_visible visible_def)
    then show ?thesis using wf by (auto simp: row_qualifier_def columns checked_def raise_if_def first_error.simps)
  qed
  moreover have "row_limits n ?row (pt_type p) = Inr (pt_min p, pt_max p)"
    using wf printable by (auto simp: row_limits_def columns optional_number_reads checked_def raise_if_def first_error.simps)
  moreover have "strip ''true'' = ''true''" "strip ''false'' = ''false''" by (simp_all add: strip_visible visible_def)
  ultimately show ?thesis
    using printable by (simp add: point_from_row_def columns optional_text_stripped checked_def raise_if_def first_error.simps)
qed

lemma load_rows_back:
  assumes "map fst rows = map (point_row num) ps" "list_all (\<lambda>p. point_wf p \<and> point_printable num p) ps"
    and "distinct (map casefold_id (points @ ps))" "distinct (map address (points @ ps))" "length (points @ ps) \<le> MAX_POINT_COUNT"
  shows "load_rows points rows None = Inr (points @ ps)"
  using assms
proof (induction ps arbitrary: points rows)
  case (Cons p ps)
  then obtain n rest where rows: "rows = (point_row num p, n) # rest" "map fst rest = map (point_row num) ps" by auto
  have "length (point_row num p) = length POINT_TABLE_COLUMNS" by (simp add: point_row_def POINT_TABLE_COLUMNS_def)
  moreover have "\<not> list_all (\<lambda>v. strip v = []) (point_row num p)"
  proof -
    have i: "point_id_match (pt_id p)" using Cons.prems(2) by (simp add: point_wf_def Let_def)
    have "strip (pt_id p) \<noteq> []" using strip_visible [OF point_id_visible [OF i]] i by (simp add: point_id_match_def split: list.splits)
    then show ?thesis by (simp add: point_row_def)
  qed
  ultimately have "row_checks (length points) n (point_row num p) = None" using Cons.prems(5) by (simp add: row_checks_def raise_if_def first_error.simps)
  moreover have "point_from_row n (point_row num p) = Inr p" using Cons.prems(2) by (simp add: point_from_row_back)
  moreover have "load_rows (points @ [p]) rest None = Inr ((points @ [p]) @ ps)"
    using Cons.prems rows(2) by (intro Cons.IH) simp_all
  moreover have "casefold_id p \<notin> set (map casefold_id points)" "address p \<notin> set (map address points)" using Cons.prems(3,4) by auto
  ultimately show ?case by (simp add: rows(1))
qed simp

lemma dict_rows_full: "[] \<notin> fst ` set rows \<Longrightarrow> dict_rows None rows = rows"
  by (induction rows) auto

lemma point_count_length: "point_count_of s \<le> length s"
  by (simp add: point_count_of_def)

lemma valid_visible: "list_all visible s \<Longrightarrow> utf8_valid s"
  by (rule utf8_valid_ascii) (auto simp: ascii_def list_all_iff visible_def)

definition field_ok :: "string \<Rightarrow> bool" where
  "field_ok f \<longleftrightarrow> length f \<le> 2048 \<and> utf8_valid f"

lemma field_ok_int: "0 \<le> i \<Longrightarrow> i \<le> 65535 \<Longrightarrow> field_ok (str_int i)"
  using short_dec [of "nat i"] valid_visible [OF visible_dec [of "nat i"]] unfolding field_ok_def str_int_dec by linarith

lemma field_ok_opt: "(\<And>x. v = Some x \<Longrightarrow> field_ok (f x)) \<Longrightarrow> field_ok (opt_text f v)"
  by (cases v) (simp_all add: opt_text_def field_ok_def)

lemma field_ok_stripped: "stripped m s \<Longrightarrow> m \<le> 2048 \<Longrightarrow> field_ok s"
  by (simp add: stripped_def field_ok_def)

lemma field_ok_literals: "field_ok ''true''" "field_ok ''false''" "field_ok ''range8''" "field_ok ''range16''"
  by (simp_all add: field_ok_def valid_visible visible_def)

lemma field_ok_type: "t \<in> set (map fst POINT_GROUPS) \<Longrightarrow> field_ok t"
proof -
  assume t: "t \<in> set (map fst POINT_GROUPS)"
  have "list_all (\<lambda>t. length t \<le> 2048) (map fst POINT_GROUPS)" by (simp add: POINT_GROUPS_def)
  then show ?thesis using t valid_visible [OF type_visible [OF t]] by (auto simp: list_all_iff field_ok_def)
qed

lemma group_range:
  assumes "t \<in> set (map fst POINT_GROUPS)"
  shows "0 \<le> fst (the (map_of POINT_GROUPS t))" "fst (the (map_of POINT_GROUPS t)) \<le> 65535"
    "0 \<le> snd (the (map_of POINT_GROUPS t))" "snd (the (map_of POINT_GROUPS t)) \<le> 65535"
  using assms by (auto simp: POINT_GROUPS_def)

lemma point_row_fields:
  assumes "point_wf p" "point_printable num p"
  shows "list_all field_ok (point_row num p)"
proof -
  note wf = assms(1) [unfolded point_wf_def Let_def] and printable = assms(2) [unfolded point_printable_def]
  have t: "pt_type p \<in> set (map fst POINT_GROUPS)" using wf by blast
  have "field_ok (pt_id p)" using wf valid_visible [OF point_id_visible] by (simp add: field_ok_def)
  moreover have "field_ok (pt_name p)" using printable by (simp add: field_ok_stripped [of 512])
  moreover have "field_ok (str_int (pt_static_group p))" "field_ok (str_int (pt_static_variation p))" "field_ok (str_int (pt_index p))"
    using wf group_range [OF t] by (auto intro!: field_ok_int)
  moreover have "field_ok (opt_text str_int (pt_event_group p))" "field_ok (opt_text str_int (pt_event_variation p))"
    "field_ok (opt_text str_int (pt_event_class p))"
    using wf group_range [OF t] by (auto intro!: field_ok_opt field_ok_int)
  moreover have "field_ok (opt_text id (pt_unit p))" "field_ok (opt_text id (pt_notes p))"
    using printable by (auto intro!: field_ok_opt field_ok_stripped)
  moreover have "field_ok (opt_text num (pt_min p))" "field_ok (opt_text num (pt_max p))"
    using printable by (auto simp: reads_as_def intro!: field_ok_opt field_ok_stripped)
  moreover have "field_ok (pt_read_qualifier p)" using wf field_ok_literals(3,4) by auto
  ultimately show ?thesis using field_ok_type [OF t] field_ok_literals(1,2) by (simp add: point_row_def)
qed

lemma escaped_valid: "utf8_valid f \<Longrightarrow> utf8_valid (escaped f @ t) = utf8_valid t"
proof -
  have point: "utf8_valid (escaped p @ u) = utf8_valid u" if "valid_point p" for p u
    using that
  proof (cases rule: valid_point_cases)
    case (1 c)
    then show ?thesis by (simp add: utf8_valid_Cons)
  next
    case 2
    then have "escaped p = p" by (induction p) auto
    then show ?thesis using that by (simp add: utf8_valid_point)
  qed
  have points: "list_all valid_point ps \<Longrightarrow> utf8_valid (escaped (concat ps) @ t) = utf8_valid t" for ps
    by (induction ps) (simp_all add: point)
  assume "utf8_valid f"
  then show ?thesis using points [of "code_points f"] by (simp add: utf8_valid_def)
qed

lemma csv_row_valid: "list_all utf8_valid fs \<Longrightarrow> utf8_valid (csv_row fs @ t) = utf8_valid t"
proof (induction fs rule: csv_row.induct)
  case 1
  show ?case by (simp add: utf8_valid_Cons)
qed (simp_all add: quote_field_def utf8_valid_Cons escaped_valid)

lemma csv_text_valid: "list_all (list_all utf8_valid) rows \<Longrightarrow> utf8_valid (csv_text rows)"
  by (induction rows) (simp_all add: csv_text_def csv_row_valid)

lemma columns_ok: "list_all field_ok POINT_TABLE_COLUMNS"
  by (simp add: POINT_TABLE_COLUMNS_def field_ok_def valid_visible visible_def)

lemma field_ok_rows: "list_all (list_all field_ok) rows \<Longrightarrow> [] \<notin> set rows \<Longrightarrow> list_all row_ok rows \<and> list_all (list_all utf8_valid) rows"
proof -
  have "point_count_of f \<le> FIELD_LIMIT" if "field_ok f" for f
    using that point_count_length [of f] by (simp add: field_ok_def FIELD_LIMIT_def)
  then show "list_all (list_all field_ok) rows \<Longrightarrow> [] \<notin> set rows \<Longrightarrow> list_all row_ok rows \<and> list_all (list_all utf8_valid) rows"
    by (auto simp: list_all_iff row_ok_def field_ok_def)
qed

section \<open>The theorems\<close>

text \<open>
  C36: every table of well-formed points can be written and is loaded back exactly. For at most 100000 points without
  repeated identifiers (whatever their case) or addresses, whose texts have no white space at their ends and whose limits have some decimal text that
  rounds to them, the quoted CSV text within the size limit loads to these points in this order, whatever
  commas, quotes and ends of lines the texts contain.
\<close>

theorem point_table_roundtrip:
  assumes "list_all (\<lambda>p. point_wf p \<and> point_printable num p) ps" "ps \<noteq> []" "length ps \<le> 100000"
    and "distinct (map casefold_id ps)" "distinct (map address ps)"
    and "length (csv_text (POINT_TABLE_COLUMNS # map (point_row num) ps)) \<le> 4194304"
  shows "load_point_table (Content (csv_text (POINT_TABLE_COLUMNS # map (point_row num) ps))) = Inr ps"
proof -
  let ?rows = "POINT_TABLE_COLUMNS # map (point_row num) ps"
  have "list_all (list_all field_ok) ?rows" using assms(1) columns_ok point_row_fields by (auto simp: list_all_iff)
  moreover have "[] \<notin> set ?rows" by (auto simp: point_row_def POINT_TABLE_COLUMNS_def)
  ultimately have rows: "list_all row_ok ?rows" "list_all (list_all utf8_valid) ?rows" using field_ok_rows [of ?rows] by blast+
  obtain records failure where r: "csv_reader_of (csv_text ?rows) = (records, failure)" by fastforce
  then have "map fst records = ?rows" "failure = None"
    using csv_read_back [OF rows(1)] by (simp_all add: csv_reader_of_def rows_of_def)
  then obtain n rest where records: "records = (POINT_TABLE_COLUMNS, n) # rest" "map fst rest = map (point_row num) ps" by auto
  have "[] \<notin> fst ` set rest" using arg_cong [OF records(2), of set] by (auto simp: point_row_def)
  then have "load_rows [] (dict_rows None rest) None = Inr ps"
    using load_rows_back [OF records(2) assms(1), of "[]"] assms(3-5) by (simp add: dict_rows_full MAX_POINT_COUNT_def)
  then have load: "load_text (csv_text ?rows) = Inr ps"
    using r records(1) \<open>failure = None\<close> assms(2) by (simp add: load_text_def checked_def raise_if_def)
  have "without_bom (csv_text ?rows) = csv_text ?rows"
    by (simp add: without_bom_def csv_text_def POINT_TABLE_COLUMNS_def quote_field_def)
  then show ?thesis
    using load csv_text_valid [OF rows(2)] assms(6) by (simp add: load_point_table_def MAX_POINT_TABLE_BYTES_def)
qed

text \<open>
  C37: whatever file is loaded, the points are usable: there is at least one and there are at most 100000, no identifier is repeated in
  any case and no address at all, each point has the groups and variations of its type, and its read header is always accepted and asks for exactly its own index.
\<close>

theorem point_table_sound:
  assumes "load_point_table file = Inr ps"
  shows "ps \<noteq> [] \<and> length ps \<le> 100000 \<and> distinct (map casefold_id ps) \<and> distinct (map address ps) \<and>
    list_all (\<lambda>p. point_wf p \<and> (\<exists>h. point_read_header p = Inr h \<and> rh_group h = pt_static_group p \<and> rh_variation h = pt_static_variation p \<and>
      rh_start h = Some (pt_index p) \<and> rh_stop h = Some (pt_index p))) ps"
  using load_point_table_ok [OF assms] point_header by (auto simp: table_ok_def MAX_POINT_COUNT_def list_all_iff)

text \<open>
  A measurement belongs to at most one row of a loaded table: when it matches two points of the table, as a static value or as an event,
  they are the same point, and it is never both a static value and an event of it.
\<close>

theorem point_match_unique:
  assumes "load_point_table file = Inr ps" "p \<in> set ps" "q \<in> set ps"
    and "m \<in> set (matching_measurements p ms) \<union> set (matching_event_measurements p ms)"
    and "m \<in> set (matching_measurements q ms) \<union> set (matching_event_measurements q ms)"
  shows "p = q \<and> m \<notin> set (matching_measurements p ms) \<inter> set (matching_event_measurements p ms)"
proof -
  have match: "address r = (me_kind m, the (me_index m))"
    if "m \<in> set (matching_measurements r ms) \<union> set (matching_event_measurements r ms)" for r
    using that by (auto simp: address_def matching_measurements_def matching_event_measurements_def split: option.splits)
  have "distinct (map address ps)" using load_point_table_ok [OF assms(1)] by (simp add: table_ok_def)
  then have "p = q" using assms(2,3) match [OF assms(4)] match [OF assms(5)] by (auto simp: distinct_map inj_on_def)
  then show ?thesis by (auto simp: matching_measurements_def matching_event_measurements_def split: option.splits)
qed

section \<open>Samples\<close>

definition sample_row :: string where
  "sample_row = ''A1, Pump ,binary_input,7,1,2,2,1,3,range8,,,,true,'' @ [NL]"

definition sample_table :: string where
  "sample_table = join '','' POINT_TABLE_COLUMNS @ [NL] @ sample_row"

definition sample_table_point :: point where
  "sample_table_point = \<lparr>pt_id = ''A1'', pt_name = ''Pump'', pt_type = ''binary_input'', pt_index = 7, pt_static_group = 1, pt_static_variation = 2,
     pt_event_group = Some 2, pt_event_variation = Some 1, pt_event_class = Some 3, pt_read_qualifier = ''range8'', pt_unit = None, pt_min = None,
     pt_max = None, pt_enabled = True, pt_notes = None\<rparr>"

lemma sample_table_loads: "load_point_table (Content sample_table) = Inr [sample_table_point]"
  by code_simp

text \<open>
  The message says that blank rows are not allowed, and a row of separators alone is refused; but an empty line is passed over
  by the reader before the check sees it.
\<close>

lemma blank_line_accepted:
  "load_point_table (Content (join '','' POINT_TABLE_COLUMNS @ [NL, NL] @ sample_row)) = Inr [sample_table_point] \<and>
   load_point_table (Content (join '','' POINT_TABLE_COLUMNS @ [NL] @ replicate 14 COMMA @ [NL] @ sample_row)) =
     Inl (Table_Error (Some 2) ''blank rows are not allowed'')"
  by (rule conjI; code_simp)

text \<open>A number of more than 4300 digits is not refused with the error of the module.\<close>

lemma long_number_escapes: "unsigned_field n (replicate 4301 (CHR ''1'')) f lo hi = Inl (Table_Value_Error ''Exceeds the limit (4300 digits) for integer string conversion'')"
proof -
  have "strip (replicate 4301 (CHR ''1'')) = replicate 4301 (CHR ''1'')" by (rule strip_visible) (simp add: list_all_iff visible_def)
  then show ?thesis
    by (simp add: unsigned_field_def Let_def checked_def raise_if_def first_error.simps list_all_iff is_dec_def code_in_def MAX_INT_DIGITS_def)
qed

theorem point_table_sound_witness:
  "load_point_table (Content sample_table) = Inr [sample_table_point] \<and> (\<exists>h. point_read_header sample_table_point = Inr h \<and> rh_start h = Some 7)"
  using point_table_sound [OF sample_table_loads] sample_table_loads by (auto simp: sample_table_point_def)

definition sample_limits :: point where
  "sample_limits = sample_table_point\<lparr>pt_id := ''C.1'', pt_name := ''Flow, '' @ [QUOTE] @ ''total'' @ [QUOTE], pt_type := ''counter'', pt_static_group := 20,
     pt_event_group := Some 22, pt_min := Some 0, pt_max := Some 10\<rparr>"

abbreviation whole_text :: "rat \<Rightarrow> string" where
  "whole_text q \<equiv> str_int \<lfloor>q\<rfloor>"

lemma sample_points_ok: "list_all (\<lambda>p. point_wf p \<and> point_printable whole_text p) [sample_table_point, sample_limits]"
proof -
  have "binary64 0 = Fin 0" "binary64 10 = Fin 10" using binary64_of_int [of 0] binary64_of_int [of 10] by simp_all
  moreover have "decimal_value ''0'' = Some 0" "decimal_value ''10'' = Some 10" "str_int 0 = ''0''" "str_int 10 = ''10''" "stripped 1000 ''0''" "stripped 1000 ''10''"
    by code_simp+
  ultimately have "reads_as (whole_text 0) 0" "reads_as (whole_text 10) 10" by (simp_all add: reads_as_def)
  moreover have "point_wf sample_table_point" by (simp add: sample_table_point_def point_wf_def Let_def POINT_GROUPS_def POINT_VARIATIONS_def not_allowed_def
      point_id_match_def class_match_def is_alnum_def code_in_def)
  moreover have "point_wf sample_limits" by (simp add: sample_limits_def sample_table_point_def point_wf_def Let_def POINT_GROUPS_def POINT_VARIATIONS_def
      NUMERIC_POINT_TYPES_def not_allowed_def point_id_match_def class_match_def is_alnum_def code_in_def)
  moreover have "stripped 512 (pt_name sample_table_point)" "stripped 512 (pt_name sample_limits)" by code_simp+
  ultimately show ?thesis by (simp add: point_printable_def) (simp add: sample_limits_def sample_table_point_def)
qed

theorem point_table_roundtrip_witness:
  "load_point_table (Content (csv_text (POINT_TABLE_COLUMNS # map (point_row whole_text) [sample_table_point, sample_limits]))) =
     Inr [sample_table_point, sample_limits]"
proof (rule point_table_roundtrip [OF sample_points_ok])
  have "length (csv_text (POINT_TABLE_COLUMNS # map (point_row whole_text) [sample_table_point, sample_limits])) < 1000" by code_simp
  then show "length (csv_text (POINT_TABLE_COLUMNS # map (point_row whole_text) [sample_table_point, sample_limits])) \<le> 4194304" by simp
qed (simp, simp, code_simp, code_simp)

definition sample_event :: measurement where
  "sample_event = \<lparr>me_receive_seq = 1, me_received_monotonic_ns = 5, me_kind = ''binary_input'', me_group = 2, me_variation = 1, me_qualifier = ''range8'',
     me_qualifier_raw = 0, me_index = Some 7, me_value = PBool True, me_flags_raw = None, me_flags_valid = True, me_dnp3_timestamp_ms = None,
     me_timestamp_quality = ''INVALID'', me_is_event = True, me_header_index = 0, me_source = ''unsolicited'', me_fragment_index = 0,
     me_session_id = None, me_raw = []\<rparr>"

theorem point_match_unique_witness:
  "matching_event_measurements sample_table_point [sample_event] = [sample_event] \<and> sample_event \<notin> set (matching_measurements sample_table_point [sample_event])"
proof -
  have m: "matching_event_measurements sample_table_point [sample_event] = [sample_event]"
    by (simp add: matching_event_measurements_def sample_table_point_def sample_event_def)
  then show ?thesis
    using point_match_unique [OF sample_table_loads, of sample_table_point sample_table_point sample_event "[sample_event]"] by simp
qed

end
