(* ===== verification/EmsPlan.thy ===== *)
theory EmsPlan
  imports PointTable IncidentRecords
begin

text \<open>
  EMS test plans, \<open>ems_test_plan.py\<close>: the expectations on values, the three kinds of scenarios, the strict parser of a plan and the check of
  its references against a point table. In messages the path is left out. A text that has no UTF-8 encoding (a lone surrogate from an escape) raises
  \<open>UnicodeEncodeError\<close>, a \<open>ValueError\<close>, where the source encodes it. Scenario identifiers are ASCII, so \<open>casefold\<close> is lower case.
  JSON so deeply nested that the standard library gives up with \<open>RecursionError\<close> is not modelled.
\<close>

section \<open>Tables of constants\<close>

definition MAX_PLAN_BYTES :: nat where "MAX_PLAN_BYTES = 1048576"
definition MAX_SCENARIOS_PER_KIND :: nat where "MAX_SCENARIOS_PER_KIND = 128"
definition MAX_REFERENCED_POINTS :: nat where "MAX_REFERENCED_POINTS = 256"

definition COMMAND_TYPES :: "string list" where
  "COMMAND_TYPES = [''crob'', ''analog_output_int16'', ''analog_output_int32'', ''analog_output_float32'', ''analog_output_double64'']"

definition BINARY_POINT_TYPES :: "string list" where
  "BINARY_POINT_TYPES = [''binary_input'', ''binary_output_status'']"

definition PLACEHOLDER_AUTHORIZATION_TOKENS :: "string list" where
  "PLACEHOLDER_AUTHORIZATION_TOKENS = [''FILL_ME'', ''TODO'', ''TBD'', ''PLACEHOLDER'', ''EXAMPLE'']"

text \<open>
  The literals \<open>0.1\<close>, \<open>0.05\<close>, \<open>1.0e12\<close> and \<open>1.0e-12\<close> as the floats they denote; the text is what \<open>{:g}\<close> makes of a bound.
\<close>

definition TENTH :: rat where "TENTH = 3602879701896397 / 2 ^ 55"
definition TWENTIETH :: rat where "TWENTIETH = 3602879701896397 / 2 ^ 56"
definition MAX_TOLERANCE :: rat where "MAX_TOLERANCE = 1000000000000"
definition CLOSE_TOLERANCE :: rat where "CLOSE_TOLERANCE = 4951760157141521 / 2 ^ 92"

definition bound_text :: "rat \<Rightarrow> string" where
  "bound_text q = (if q = TENTH then ''0.1'' else if q = TWENTIETH then ''0.05'' else if q = MAX_TOLERANCE then ''1e+12'' else str_int \<lfloor>q\<rfloor>)"

section \<open>Expectations\<close>

record expectation =
  ex_value :: pyval
  ex_tolerance :: rat

fun is_number :: "pyval \<Rightarrow> bool" where
  "is_number (PInt _) = True"
| "is_number (PFloat _) = True"
| "is_number _ = False"

text \<open>\<open>float(v)\<close> of a number; \<open>None\<close> is the \<open>OverflowError\<close> of an integer that is too large.\<close>

fun float_of :: "pyval \<Rightarrow> pyfloat option" where
  "float_of (PInt i) = (case binary64 (of_int i) of Fin q \<Rightarrow> Some (Fin q) | _ \<Rightarrow> None)"
| "float_of (PFloat f) = Some f"
| "float_of _ = None"

definition INT_TOO_LARGE :: pyexc where
  "INT_TOO_LARGE = OverflowError ''int too large to convert to float''"

definition SURROGATES :: pyexc where
  "SURROGATES = ValueError ''surrogates not allowed''"

definition expected_value_check :: "pyval \<Rightarrow> pyexc option" where
  "expected_value_check v = (case v of
     PBool _ \<Rightarrow> None
   | PStr s \<Rightarrow> first_error
       [raise_if (s \<noteq> [] \<and> \<not> utf8_valid s) SURROGATES,
        raise_if (s = [] \<or> length s > 4096) (ValueError ''expected text value must contain 1-4096 UTF-8 bytes'')]
   | _ \<Rightarrow> if is_number v then raise_if (finite_number v = None) (ValueError ''expected numeric value must be finite'')
       else Some (ValueError ''expected value must be boolean, numeric, or text''))"

definition tolerance_check :: "pyval \<Rightarrow> pyval \<Rightarrow> pyexc option" where
  "tolerance_check v t =
     (if is_number t \<and> float_of t = None then Some INT_TOO_LARGE
      else case finite_number t of
        None \<Rightarrow> Some (ValueError ''absolute_tolerance must be a finite number between 0 and 1e12'')
      | Some q \<Rightarrow> first_error
          [raise_if (\<not> (0 \<le> q \<and> q \<le> MAX_TOLERANCE)) (ValueError ''absolute_tolerance must be a finite number between 0 and 1e12''),
           raise_if ((is_bool v \<or> is_str v) \<and> q \<noteq> 0) (ValueError ''absolute_tolerance must be zero for boolean or text values'')])"

definition ValueExpectation :: "pyval \<Rightarrow> pyval \<Rightarrow> pyexc + expectation" where
  "ValueExpectation v t = checked (first_error [expected_value_check v, tolerance_check v t])
     \<lparr>ex_value = v, ex_tolerance = the (finite_number t)\<rparr>"

text \<open>\<open>abs(x - y) <= t\<close> on floats, for finite operands.\<close>

definition float_within :: "rat \<Rightarrow> rat \<Rightarrow> rat \<Rightarrow> bool" where
  "float_within x y t = (case binary64 (x - y) of Fin d \<Rightarrow> \<bar>d\<bar> \<le> t | _ \<Rightarrow> False)"

definition expectation_matches :: "expectation \<Rightarrow> pyval \<Rightarrow> bool" where
  "expectation_matches e observed = (case ex_value e of
     PBool b \<Rightarrow> observed = PBool b
   | PStr s \<Rightarrow> observed = PStr s
   | v \<Rightarrow> (case (finite_number observed, finite_number v) of
       (Some normalized, Some expected) \<Rightarrow> float_within normalized expected (ex_tolerance e)
     | _ \<Rightarrow> False))"

text \<open>\<open>math.isclose(a, b, rel_tol=1.0e-12, abs_tol=1.0e-12)\<close> for finite \<open>a\<close> and \<open>b\<close>; no product or difference overflows here.\<close>

definition float_le_abs :: "pyfloat \<Rightarrow> pyfloat \<Rightarrow> bool" where
  "float_le_abs x y = (case (x, y) of
     (Fin a, Fin b) \<Rightarrow> \<bar>a\<bar> \<le> \<bar>b\<bar> | (Fin _, PosInf) \<Rightarrow> True | (Fin _, NegInf) \<Rightarrow> True | _ \<Rightarrow> False)"

definition isclose :: "rat \<Rightarrow> rat \<Rightarrow> bool" where
  "isclose a b \<longleftrightarrow> a = b \<or>
     (let diff = binary64 (b - a) in
      float_le_abs diff (binary64 (CLOSE_TOLERANCE * b)) \<or> float_le_abs diff (binary64 (CLOSE_TOLERANCE * a)) \<or>
      float_le_abs diff (Fin CLOSE_TOLERANCE))"

text \<open>The distance may overflow to infinity, which is neither less than nor close to the finite tolerance.\<close>

definition overlaps :: "expectation \<Rightarrow> expectation \<Rightarrow> bool" where
  "overlaps a b =
     (if is_bool (ex_value a) \<or> is_bool (ex_value b) then is_bool (ex_value a) \<and> is_bool (ex_value b) \<and> ex_value a = ex_value b
      else if is_str (ex_value a) \<or> is_str (ex_value b) then is_str (ex_value a) \<and> is_str (ex_value b) \<and> ex_value a = ex_value b
      else case (binary64 (the (finite_number (ex_value a)) - the (finite_number (ex_value b))), binary64 (ex_tolerance a + ex_tolerance b)) of
        (Fin d, Fin combined) \<Rightarrow> \<bar>d\<bar> < combined \<or> isclose \<bar>d\<bar> combined
      | _ \<Rightarrow> False)"

definition expectation_to_mapping :: "expectation \<Rightarrow> dict" where
  "expectation_to_mapping e = [(''value'', ex_value e), (''absolute_tolerance'', PFloat (Fin (ex_tolerance e)))]"

section \<open>Scenarios\<close>

definition with_opt :: "string \<Rightarrow> ('a \<Rightarrow> pyval) \<Rightarrow> 'a option \<Rightarrow> dict" where
  "with_opt k f v = (case v of None \<Rightarrow> [] | Some x \<Rightarrow> [(k, f x)])"

definition class_capability :: "int \<Rightarrow> string" where
  "class_capability n = ''OBJ.G60.V'' @ str_int n"

record poll_scenario =
  ps_id :: string
  ps_enabled :: bool
  ps_poll_type :: string
  ps_classes :: "int list"
  ps_timeout :: rat
  ps_max_measurements :: int
  ps_minimum_measurements :: int
  ps_expected_point_ids :: "string list"
  ps_notes :: "string option"

definition poll_capability_ids :: "poll_scenario \<Rightarrow> string list" where
  "poll_capability_ids s = [''APP.FC.01.READ'', ''APP.CLASS.EVENTS'', ''QUAL.Q06.REVIEW''] @
     (if ps_poll_type s = ''integrity'' then map class_capability [1, 2, 3, 4] else map (\<lambda>c. class_capability (c + 1)) (ps_classes s))"

definition poll_to_mapping :: "poll_scenario \<Rightarrow> dict" where
  "poll_to_mapping s =
     [(''scenario_id'', PStr (ps_id s)), (''enabled'', PBool (ps_enabled s)), (''poll_type'', PStr (ps_poll_type s)),
      (''classes'', PList (map PInt (ps_classes s))), (''timeout_seconds'', PFloat (Fin (ps_timeout s))),
      (''max_measurements'', PInt (ps_max_measurements s)), (''minimum_measurements'', PInt (ps_minimum_measurements s)),
      (''expected_point_ids'', PList (map PStr (ps_expected_point_ids s)))] @ with_opt ''notes'' PStr (ps_notes s)"

record unsolicited_scenario =
  us_id :: string
  us_enabled :: bool
  us_classes :: "int list"
  us_task_timeout :: rat
  us_observation_timeout :: rat
  us_max_events :: int
  us_point_id :: string
  us_expectation :: expectation
  us_require_timestamp :: bool
  us_trigger :: string
  us_notes :: "string option"

definition unsolicited_capability_ids :: "unsolicited_scenario \<Rightarrow> point \<Rightarrow> pyexc + string list" where
  "unsolicited_capability_ids s p = (case event_capability_id p of
     None \<Rightarrow> Inl (ValueError (''point '' @ quoted (pt_id p) @ '' has no event capability''))
   | Some c \<Rightarrow> Inr ([''APP.UNSOLICITED'', ''APP.FC.14.ENABLE_UNSOLICITED'', ''APP.FC.15.DISABLE_UNSOLICITED'', ''APP.FC.82.UNSOLICITED_RESPONSE'',
       ''QUAL.Q06.REVIEW''] @ map (\<lambda>c. class_capability (c + 1)) (us_classes s) @ [c]))"

definition unsolicited_matching :: "unsolicited_scenario \<Rightarrow> point \<Rightarrow> measurement list \<Rightarrow> measurement list" where
  "unsolicited_matching s p ms = filter (\<lambda>m. me_source m = ''unsolicited'' \<and> expectation_matches (us_expectation s) (me_value m) \<and>
     (\<not> us_require_timestamp s \<or> me_dnp3_timestamp_ms m \<noteq> None)) (matching_event_measurements p ms)"

definition unsolicited_to_mapping :: "unsolicited_scenario \<Rightarrow> dict" where
  "unsolicited_to_mapping s =
     [(''scenario_id'', PStr (us_id s)), (''enabled'', PBool (us_enabled s)), (''classes'', PList (map PInt (us_classes s))),
      (''task_timeout_seconds'', PFloat (Fin (us_task_timeout s))), (''observation_timeout_seconds'', PFloat (Fin (us_observation_timeout s))),
      (''max_events_per_read'', PInt (us_max_events s)), (''expected_point_id'', PStr (us_point_id s)),
      (''expectation'', PDict (expectation_to_mapping (us_expectation s))), (''require_timestamp'', PBool (us_require_timestamp s)),
      (''trigger_instructions'', PStr (us_trigger s))] @ with_opt ''notes'' PStr (us_notes s)"

record control_command =
  ck_type :: string
  ck_index :: int
  ck_operation :: "string option"
  ck_trip_close :: "string option"
  ck_clear :: "bool option"
  ck_count :: "int option"
  ck_on_time_ms :: "int option"
  ck_off_time_ms :: "int option"
  ck_value :: "pyval option"

definition command_capability_id :: "control_command \<Rightarrow> pyexc + string" where
  "command_capability_id c =
     (if ck_type c = ''crob'' then Inr ''OBJ.G12.V1''
      else case map_of [(''analog_output_int32'', 1), (''analog_output_int16'', 2), (''analog_output_float32'', 3), (''analog_output_double64'', 4)] (ck_type c) of
        None \<Rightarrow> Inl (KeyError (ck_type c)) | Some v \<Rightarrow> Inr (''OBJ.G41.V'' @ str_int v))"

definition qualifier_capability_id :: "control_command \<Rightarrow> string" where
  "qualifier_capability_id c = (if ck_index c \<le> 255 then ''QUAL.Q17.REVIEW'' else ''QUAL.Q28.REVIEW'')"

text \<open>The command that is sent, as parameters of the request; a missing field is an \<open>AssertionError\<close>.\<close>

datatype sent_command = Sent_Crob crob_command | Sent_Analog analog_command

definition to_command :: "control_command \<Rightarrow> pyexc + sent_command" where
  "to_command c =
     (if ck_type c = ''crob'' then
        (case (ck_operation c, ck_trip_close c, ck_clear c, ck_count c, ck_on_time_ms c, ck_off_time_ms c) of
           (Some operation, Some trip_close, Some clear, Some n, Some on, Some off) \<Rightarrow>
             bindE (CrobCommand (PInt (ck_index c)) (PStr operation) (PStr trip_close) (PBool clear) (PInt n) (PInt on) (PInt off)) (\<lambda>s. Inr (Sent_Crob s))
         | _ \<Rightarrow> Inl (AssertionError []))
      else case ck_value c of
        None \<Rightarrow> Inl (AssertionError [])
      | Some v \<Rightarrow> bindE (AnalogOutputCommand (PInt (ck_index c)) v (PStr (ck_type c))) (\<lambda>s. Inr (Sent_Analog s)))"

definition command_to_mapping :: "control_command \<Rightarrow> dict" where
  "command_to_mapping c =
     (if ck_type c = ''crob'' then
        [(''type'', PStr (ck_type c)), (''index'', PInt (ck_index c)), (''operation'', opt_val PStr (ck_operation c)),
         (''trip_close'', opt_val PStr (ck_trip_close c)), (''clear'', opt_val PBool (ck_clear c)), (''count'', opt_val PInt (ck_count c)),
         (''on_time_ms'', opt_val PInt (ck_on_time_ms c)), (''off_time_ms'', opt_val PInt (ck_off_time_ms c))]
      else [(''type'', PStr (ck_type c)), (''index'', PInt (ck_index c)), (''value'', opt_val id (ck_value c))])"

record control_scenario =
  cs_id :: string
  cs_enabled :: bool
  cs_authorization :: "string option"
  cs_mode :: string
  cs_command :: control_command
  cs_feedback_point_id :: string
  cs_precondition :: "expectation option"
  cs_postcondition :: expectation
  cs_restore_command :: "control_command option"
  cs_restore_expectation :: "expectation option"
  cs_command_timeout :: rat
  cs_feedback_timeout :: rat
  cs_poll_interval :: rat
  cs_notes :: "string option"
  cs_environment :: string

text \<open>\<open>tuple(dict.fromkeys(xs))\<close>: the first occurrence of each.\<close>

definition unique_first :: "'a list \<Rightarrow> 'a list" where
  "unique_first xs = rev (remdups (rev xs))"

definition control_capability_ids :: "control_scenario \<Rightarrow> point \<Rightarrow> pyexc + string list" where
  "control_capability_ids s feedback_point = bindE (command_capability_id (cs_command s)) (\<lambda>capability. Inr (unique_first
     ([''APP.COMMAND_STATUS.CATALOG''] @
      (if cs_mode s = ''select_and_operate'' then [''APP.FC.03.SELECT'', ''APP.FC.04.OPERATE''] else [''APP.FC.05.DIRECT_OPERATE'']) @
      [capability, qualifier_capability_id (cs_command s)] @
      (case cs_restore_command s of None \<Rightarrow> [] | Some r \<Rightarrow> [qualifier_capability_id r]) @
      [''APP.FC.01.READ'', capability_id feedback_point, read_qualifier_capability_id feedback_point])))"

definition control_to_mapping :: "control_scenario \<Rightarrow> dict" where
  "control_to_mapping s =
     [(''scenario_id'', PStr (cs_id s)), (''enabled'', PBool (cs_enabled s)), (''control_mode'', PStr (cs_mode s)),
      (''command'', PDict (command_to_mapping (cs_command s))), (''feedback_point_id'', PStr (cs_feedback_point_id s)),
      (''postcondition'', PDict (expectation_to_mapping (cs_postcondition s))), (''command_timeout_seconds'', PFloat (Fin (cs_command_timeout s))),
      (''feedback_timeout_seconds'', PFloat (Fin (cs_feedback_timeout s))), (''feedback_poll_interval_seconds'', PFloat (Fin (cs_poll_interval s)))] @
     with_opt ''authorization_reference'' PStr (cs_authorization s) @
     with_opt ''precondition'' (PDict \<circ> expectation_to_mapping) (cs_precondition s) @
     with_opt ''restore_command'' (PDict \<circ> command_to_mapping) (cs_restore_command s) @
     with_opt ''restore_expectation'' (PDict \<circ> expectation_to_mapping) (cs_restore_expectation s) @
     with_opt ''notes'' PStr (cs_notes s)"

record test_plan =
  tp_polls :: "poll_scenario list"
  tp_unsolicited :: "unsolicited_scenario list"
  tp_controls :: "control_scenario list"
  tp_notes :: "string option"
  tp_environment :: string

definition enabled_poll_scenarios :: "test_plan \<Rightarrow> poll_scenario list" where
  "enabled_poll_scenarios plan = filter ps_enabled (tp_polls plan)"

definition enabled_unsolicited_scenarios :: "test_plan \<Rightarrow> unsolicited_scenario list" where
  "enabled_unsolicited_scenarios plan = filter us_enabled (tp_unsolicited plan)"

definition enabled_control_scenarios :: "test_plan \<Rightarrow> control_scenario list" where
  "enabled_control_scenarios plan = filter cs_enabled (tp_controls plan)"

definition control_by_id :: "test_plan \<Rightarrow> string \<Rightarrow> control_scenario option" where
  "control_by_id plan = map_of (rev (map (\<lambda>s. (cs_id s, s)) (tp_controls plan)))"

definition plan_to_mapping :: "test_plan \<Rightarrow> dict" where
  "plan_to_mapping plan =
     [(''schema_version'', PInt 1), (''poll_scenarios'', PList (map (PDict \<circ> poll_to_mapping) (tp_polls plan))),
      (''unsolicited_scenarios'', PList (map (PDict \<circ> unsolicited_to_mapping) (tp_unsolicited plan))),
      (''control_scenarios'', PList (map (PDict \<circ> control_to_mapping) (tp_controls plan)))] @
     (if tp_environment plan \<noteq> ''LAB'' then [(''environment'', PStr (tp_environment plan))] else []) @ with_opt ''notes'' PStr (tp_notes plan)"

section \<open>The parser: fields\<close>

text \<open>The error of the module at a location, its error about the whole file, and an exception of the language that it does not turn into its own.\<close>

datatype plan_exc = Plan_Error string string | Plan_File_Error string | Plan_Python pyexc

definition at_index :: "string \<Rightarrow> nat \<Rightarrow> string" where
  "at_index location i = location @ ''['' @ dec i @ '']''"

definition mapE_indexed :: "(nat \<Rightarrow> 'a \<Rightarrow> 'e + 'b) \<Rightarrow> 'a list \<Rightarrow> 'e + 'b list" where
  "mapE_indexed f xs = mapE (\<lambda>(i, x). f i x) (List.enumerate 0 xs)"

definition plan_object :: "string \<Rightarrow> pyval \<Rightarrow> string list \<Rightarrow> string list \<Rightarrow> plan_exc + dict" where
  "plan_object location v required optional_fields =
     (let missing = missing_keys required (as_dict v);
          unknown = filter (\<lambda>k. k \<notin> set (required @ optional_fields)) (map fst (as_dict v)) in checked (first_error
       [raise_if (\<not> is_dict v) (Plan_Error location ''must be a JSON object''),
        raise_if (missing \<noteq> []) (Plan_Error location (''missing fields: '' @ join '', '' (sort missing))),
        raise_if (unknown \<noteq> []) (Plan_Error location (''unknown fields: '' @ join '', '' (sort unknown)))]) (as_dict v))"

definition plan_array :: "string \<Rightarrow> pyval \<Rightarrow> nat \<Rightarrow> plan_exc + pyval list" where
  "plan_array location v maximum = checked (first_error
     [raise_if (\<not> is_list v) (Plan_Error location ''must be a JSON array''),
      raise_if (length (as_list v) > maximum) (Plan_Error location (''must contain at most '' @ dec maximum @ '' items''))]) (as_list v)"

definition plan_text :: "string \<Rightarrow> pyval \<Rightarrow> nat \<Rightarrow> plan_exc + string" where
  "plan_text location v maximum =
     (let normalized = strip (as_str v) in checked (first_error
       [raise_if (\<not> is_str v \<or> normalized = []) (Plan_Error location ''must be a non-empty string''),
        raise_if (\<not> utf8_valid normalized) (Plan_Python SURROGATES),
        raise_if (length normalized > maximum) (Plan_Error location (''must not exceed '' @ dec maximum @ '' UTF-8 bytes''))]) normalized)"

text \<open>\<open>_text\<close> with \<open>pattern=_SCENARIO_ID_PATTERN\<close>, which is the pattern of point identifiers.\<close>

definition plan_identifier :: "string \<Rightarrow> pyval \<Rightarrow> plan_exc + string" where
  "plan_identifier location v = bindE (plan_text location v 128) (\<lambda>s.
     checked (raise_if (\<not> point_id_match s) (Plan_Error location ''has an invalid identifier format'')) s)"

definition optional_notes :: "string \<Rightarrow> pyval \<Rightarrow> plan_exc + string option" where
  "optional_notes location v = (if v = PNone then Inr None else bindE (plan_text location v 4096) (\<lambda>s. Inr (Some s)))"

definition plan_boolean :: "string \<Rightarrow> pyval \<Rightarrow> plan_exc + bool" where
  "plan_boolean location v = checked (raise_if (\<not> is_bool v) (Plan_Error location ''must be boolean'')) (as_bool v)"

definition plan_integer :: "string \<Rightarrow> pyval \<Rightarrow> int \<Rightarrow> int \<Rightarrow> plan_exc + int" where
  "plan_integer location v minimum maximum = checked (raise_if (\<not> is_int v \<or> \<not> (minimum \<le> as_int v \<and> as_int v \<le> maximum))
     (Plan_Error location (''must be an integer between '' @ str_int minimum @ '' and '' @ str_int maximum))) (as_int v)"

definition plan_number :: "string \<Rightarrow> pyval \<Rightarrow> rat \<Rightarrow> rat \<Rightarrow> plan_exc + rat" where
  "plan_number location v minimum maximum =
     (if is_number v \<and> float_of v = None then Inl (Plan_Python INT_TOO_LARGE)
      else checked (raise_if (\<not> (\<exists>q \<in> set_option (finite_number v). minimum \<le> q \<and> q \<le> maximum))
        (Plan_Error location (''must be a finite number between '' @ bound_text minimum @ '' and '' @ bound_text maximum))) (the (finite_number v)))"

definition plan_classes :: "string \<Rightarrow> pyval \<Rightarrow> plan_exc + int list" where
  "plan_classes location v = bindE (plan_array location v 3) (\<lambda>items.
     if items = [] then Inl (Plan_Error location ''must contain between one and three classes'')
     else bindE (mapE_indexed (\<lambda>i item. plan_integer (at_index location i) item 1 3) items) (\<lambda>classes.
       checked (raise_if (\<not> distinct classes) (Plan_Error location ''must not contain duplicate classes'')) classes))"

definition plan_point_ids :: "string \<Rightarrow> pyval \<Rightarrow> plan_exc + string list" where
  "plan_point_ids location v = bindE (plan_array location v MAX_REFERENCED_POINTS) (\<lambda>items.
     bindE (mapE_indexed (\<lambda>i item. plan_identifier (at_index location i) item) items) (\<lambda>point_ids.
       checked (raise_if (\<not> distinct (map ascii_lower point_ids)) (Plan_Error location ''must not contain duplicate point IDs'')) point_ids))"

text \<open>The module's error is a \<open>ValueError\<close> too, so the one of the tolerance is wrapped once more.\<close>

definition value_error_at :: "string \<Rightarrow> plan_exc \<Rightarrow> plan_exc" where
  "value_error_at location e = (case e of
     Plan_Error inner message \<Rightarrow> Plan_Error location (inner @ '': '' @ message)
   | Plan_Python (ValueError message) \<Rightarrow> Plan_Error location message
   | _ \<Rightarrow> e)"

definition map_error :: "('e \<Rightarrow> 'f) \<Rightarrow> 'e + 'a \<Rightarrow> 'f + 'a" where
  "map_error f m = (case m of Inl e \<Rightarrow> Inl (f e) | Inr x \<Rightarrow> Inr x)"

definition plan_expectation :: "string \<Rightarrow> pyval \<Rightarrow> plan_exc + expectation" where
  "plan_expectation location v = bindE (plan_object location v [''value'', ''absolute_tolerance''] []) (\<lambda>document.
     let raw = get document ''value'' in
     if \<not> (is_bool raw \<or> is_number raw \<or> is_str raw) then Inl (Plan_Error (location @ ''.value'') ''must be boolean, numeric, or text'')
     else map_error (value_error_at location)
       (bindE (plan_number (location @ ''.absolute_tolerance'') (get document ''absolute_tolerance'') 0 MAX_TOLERANCE) (\<lambda>tolerance.
        map_error Plan_Python (ValueExpectation raw (PFloat (Fin tolerance))))))"

section \<open>The parser: scenarios\<close>

definition plan_poll_scenario :: "nat \<Rightarrow> pyval \<Rightarrow> plan_exc + poll_scenario" where
  "plan_poll_scenario index v =
     (let location = at_index ''poll_scenarios'' index in
      bindE (plan_object location v [''scenario_id'', ''enabled'', ''poll_type'', ''classes'', ''timeout_seconds'', ''max_measurements'',
        ''minimum_measurements'', ''expected_point_ids''] [''notes'']) (\<lambda>document.
      bindE (plan_text (location @ ''.poll_type'') (get document ''poll_type'') 16) (\<lambda>poll_type.
      bindE (checked (raise_if (poll_type \<notin> {''integrity'', ''class''})
        (Plan_Error (location @ ''.poll_type'') (''must be '' @ quoted ''integrity'' @ '' or '' @ quoted ''class''))) ()) (\<lambda>_.
      bindE (plan_array (location @ ''.classes'') (get document ''classes'') 3) (\<lambda>raw_classes.
      bindE (if poll_type = ''integrity''
             then checked (raise_if (raw_classes \<noteq> []) (Plan_Error (location @ ''.classes'') ''must be empty for integrity'')) []
             else plan_classes (location @ ''.classes'') (PList raw_classes)) (\<lambda>classes.
      bindE (plan_integer (location @ ''.max_measurements'') (get document ''max_measurements'') 1 10000) (\<lambda>max_measurements.
      bindE (plan_integer (location @ ''.minimum_measurements'') (get document ''minimum_measurements'') 0 10000) (\<lambda>minimum_measurements.
      bindE (checked (raise_if (minimum_measurements > max_measurements)
        (Plan_Error (location @ ''.minimum_measurements'') ''must not exceed max_measurements'')) ()) (\<lambda>_.
      bindE (plan_identifier (location @ ''.scenario_id'') (get document ''scenario_id'')) (\<lambda>scenario_id.
      bindE (plan_boolean (location @ ''.enabled'') (get document ''enabled'')) (\<lambda>enabled.
      bindE (plan_number (location @ ''.timeout_seconds'') (get document ''timeout_seconds'') TENTH 60) (\<lambda>timeout.
      bindE (plan_point_ids (location @ ''.expected_point_ids'') (get document ''expected_point_ids'')) (\<lambda>point_ids.
      bindE (optional_notes (location @ ''.notes'') (get document ''notes'')) (\<lambda>remark.
      Inr \<lparr>ps_id = scenario_id, ps_enabled = enabled, ps_poll_type = poll_type, ps_classes = classes, ps_timeout = timeout,
           ps_max_measurements = max_measurements, ps_minimum_measurements = minimum_measurements,
           ps_expected_point_ids = point_ids, ps_notes = remark\<rparr>))))))))))))))"

definition plan_unsolicited_scenario :: "nat \<Rightarrow> pyval \<Rightarrow> plan_exc + unsolicited_scenario" where
  "plan_unsolicited_scenario index v =
     (let location = at_index ''unsolicited_scenarios'' index in
      bindE (plan_object location v [''scenario_id'', ''enabled'', ''classes'', ''task_timeout_seconds'', ''observation_timeout_seconds'',
        ''max_events_per_read'', ''expected_point_id'', ''expectation'', ''require_timestamp'', ''trigger_instructions''] [''notes'']) (\<lambda>document.
      bindE (plan_identifier (location @ ''.scenario_id'') (get document ''scenario_id'')) (\<lambda>scenario_id.
      bindE (plan_boolean (location @ ''.enabled'') (get document ''enabled'')) (\<lambda>enabled.
      bindE (plan_classes (location @ ''.classes'') (get document ''classes'')) (\<lambda>classes.
      bindE (plan_number (location @ ''.task_timeout_seconds'') (get document ''task_timeout_seconds'') TENTH 60) (\<lambda>task_timeout.
      bindE (plan_number (location @ ''.observation_timeout_seconds'') (get document ''observation_timeout_seconds'') TENTH 300) (\<lambda>observation_timeout.
      bindE (plan_integer (location @ ''.max_events_per_read'') (get document ''max_events_per_read'') 1 256) (\<lambda>max_events.
      bindE (plan_identifier (location @ ''.expected_point_id'') (get document ''expected_point_id'')) (\<lambda>point_id.
      bindE (plan_expectation (location @ ''.expectation'') (get document ''expectation'')) (\<lambda>expectation.
      bindE (plan_boolean (location @ ''.require_timestamp'') (get document ''require_timestamp'')) (\<lambda>require_timestamp.
      bindE (plan_text (location @ ''.trigger_instructions'') (get document ''trigger_instructions'') 2048) (\<lambda>trigger.
      bindE (optional_notes (location @ ''.notes'') (get document ''notes'')) (\<lambda>remark.
      Inr \<lparr>us_id = scenario_id, us_enabled = enabled, us_classes = classes, us_task_timeout = task_timeout,
           us_observation_timeout = observation_timeout, us_max_events = max_events, us_point_id = point_id, us_expectation = expectation,
           us_require_timestamp = require_timestamp, us_trigger = trigger, us_notes = remark\<rparr>)))))))))))))"

text \<open>The two kinds of commands, then the check that the command could be sent.\<close>

definition plan_crob :: "string \<Rightarrow> pyval \<Rightarrow> plan_exc + control_command" where
  "plan_crob location v =
     bindE (plan_object location v [''type'', ''index'', ''operation'', ''trip_close'', ''clear'', ''count'', ''on_time_ms'', ''off_time_ms''] []) (\<lambda>document.
     bindE (plan_integer (location @ ''.index'') (get document ''index'') 0 65535) (\<lambda>index.
     bindE (plan_text (location @ ''.operation'') (get document ''operation'') 16) (\<lambda>operation.
     bindE (plan_text (location @ ''.trip_close'') (get document ''trip_close'') 16) (\<lambda>trip_close.
     bindE (plan_boolean (location @ ''.clear'') (get document ''clear'')) (\<lambda>clear.
     bindE (plan_integer (location @ ''.count'') (get document ''count'') 1 255) (\<lambda>n.
     bindE (plan_integer (location @ ''.on_time_ms'') (get document ''on_time_ms'') 0 0xFFFFFFFF) (\<lambda>on_time.
     bindE (plan_integer (location @ ''.off_time_ms'') (get document ''off_time_ms'') 0 0xFFFFFFFF) (\<lambda>off_time.
     checked (raise_if (operation = ''null'') (Plan_Error (location @ ''.operation'')
         (''must change an approved state; '' @ quoted ''null'' @ '' is not allowed in EMS scenarios'')))
       \<lparr>ck_type = ''crob'', ck_index = index, ck_operation = Some operation, ck_trip_close = Some trip_close, ck_clear = Some clear,
        ck_count = Some n, ck_on_time_ms = Some on_time, ck_off_time_ms = Some off_time, ck_value = None\<rparr>))))))))"

definition plan_analog :: "string \<Rightarrow> string \<Rightarrow> pyval \<Rightarrow> plan_exc + control_command" where
  "plan_analog location command_type v =
     bindE (plan_object location v [''type'', ''index'', ''value''] []) (\<lambda>document.
     if \<not> is_number (get document ''value'') then Inl (Plan_Error (location @ ''.value'') ''must be a finite number'')
     else bindE (plan_integer (location @ ''.index'') (get document ''index'') 0 65535) (\<lambda>index.
       Inr \<lparr>ck_type = command_type, ck_index = index, ck_operation = None, ck_trip_close = None, ck_clear = None, ck_count = None,
            ck_on_time_ms = None, ck_off_time_ms = None, ck_value = Some (get document ''value'')\<rparr>))"

definition plan_control_command :: "string \<Rightarrow> pyval \<Rightarrow> plan_exc + control_command" where
  "plan_control_command location v =
     (if \<not> is_dict v then Inl (Plan_Error location ''must be a JSON object'')
      else let command_type = get (as_dict v) ''type'' in
        if \<not> hashable command_type then Inl (Plan_Python (TypeError ''unhashable type''))
        else if \<not> (is_str command_type \<and> as_str command_type \<in> set COMMAND_TYPES)
        then Inl (Plan_Error (location @ ''.type'') (''must be one of: '' @ join '', '' (sort COMMAND_TYPES)))
        else bindE (if as_str command_type = ''crob'' then plan_crob location v else plan_analog location (as_str command_type) v) (\<lambda>command.
          bindE (map_error (value_error_at location) (map_error Plan_Python (to_command command))) (\<lambda>_. Inr command)))"

text \<open>
  \<open>str.upper\<close>, as far as ASCII texts in its result depend on it: the code points beyond ASCII whose upper case has an ASCII letter are listed,
  the others keep out of ASCII and are left as they are.
\<close>

definition UPPER_WITH_ASCII :: "(string \<times> string) list" where
  "UPPER_WITH_ASCII =
     [([CHR 0xC3, CHR 0x9F], ''SS''), ([CHR 0xC4, CHR 0xB1], ''I''), ([CHR 0xC5, CHR 0x89], [CHR 0xCA, CHR 0xBC, CHR ''N'']),
      ([CHR 0xC5, CHR 0xBF], ''S''), ([CHR 0xC7, CHR 0xB0], [CHR ''J'', CHR 0xCC, CHR 0x8C]),
      ([CHR 0xE1, CHR 0xBA, CHR 0x96], [CHR ''H'', CHR 0xCC, CHR 0xB1]), ([CHR 0xE1, CHR 0xBA, CHR 0x97], [CHR ''T'', CHR 0xCC, CHR 0x88]),
      ([CHR 0xE1, CHR 0xBA, CHR 0x98], [CHR ''W'', CHR 0xCC, CHR 0x8A]), ([CHR 0xE1, CHR 0xBA, CHR 0x99], [CHR ''Y'', CHR 0xCC, CHR 0x8A]),
      ([CHR 0xE1, CHR 0xBA, CHR 0x9A], [CHR ''A'', CHR 0xCA, CHR 0xBE]), ([CHR 0xEF, CHR 0xAC, CHR 0x80], ''FF''),
      ([CHR 0xEF, CHR 0xAC, CHR 0x81], ''FI''), ([CHR 0xEF, CHR 0xAC, CHR 0x82], ''FL''), ([CHR 0xEF, CHR 0xAC, CHR 0x83], ''FFI''),
      ([CHR 0xEF, CHR 0xAC, CHR 0x84], ''FFL''), ([CHR 0xEF, CHR 0xAC, CHR 0x85], ''ST''), ([CHR 0xEF, CHR 0xAC, CHR 0x86], ''ST'')]"

definition upper_point :: "string \<Rightarrow> string" where
  "upper_point p = (case map_of UPPER_WITH_ASCII p of
     Some u \<Rightarrow> u | None \<Rightarrow> map (\<lambda>c. if code_in c 97 122 then char_of (of_char c - (32 :: nat)) else c) p)"

definition upper :: "string \<Rightarrow> string" where
  "upper s = concat (map upper_point (code_points s))"

fun contains :: "string \<Rightarrow> string \<Rightarrow> bool" where
  "contains token [] = (token = [])"
| "contains token (c # cs) = (starts token (c # cs) \<or> contains token cs)"

definition is_placeholder :: "string \<Rightarrow> bool" where
  "is_placeholder reference = list_ex (\<lambda>token. contains token (upper reference)) PLACEHOLDER_AUTHORIZATION_TOKENS"

text \<open>\<open>f(document[k]) if k in document else None\<close>\<close>

definition if_present :: "dict \<Rightarrow> string \<Rightarrow> (pyval \<Rightarrow> 'e + 'a) \<Rightarrow> 'e + 'a option" where
  "if_present document k f = (case map_of document k of None \<Rightarrow> Inr None | Some v \<Rightarrow> bindE (f v) (\<lambda>x. Inr (Some x)))"

definition LAB_FIELDS :: "string list" where
  "LAB_FIELDS = [''authorization_reference'', ''precondition'', ''restore_command'', ''restore_expectation'']"

definition CONTROL_FIELDS :: "string list" where
  "CONTROL_FIELDS = [''scenario_id'', ''enabled'', ''control_mode'', ''command'', ''feedback_point_id'', ''postcondition'', ''command_timeout_seconds'',
     ''feedback_timeout_seconds'', ''feedback_poll_interval_seconds'']"

text \<open>
  The scenario in parts, in the order of the source: identity and authorization, mode and commands, expectations, times.
\<close>

definition control_identity :: "string \<Rightarrow> bool \<Rightarrow> dict \<Rightarrow> plan_exc + string \<times> bool \<times> string option" where
  "control_identity location simulator document =
     bindE (plan_identifier (location @ ''.scenario_id'') (get document ''scenario_id'')) (\<lambda>scenario_id.
     bindE (plan_boolean (location @ ''.enabled'') (get document ''enabled'')) (\<lambda>enabled.
     bindE (if_present document ''authorization_reference'' (\<lambda>v. plan_text (location @ ''.authorization_reference'') v 512)) (\<lambda>authorization.
     checked (raise_if (\<not> simulator \<and> enabled \<and> is_placeholder (the authorization))
         (Plan_Error (location @ ''.authorization_reference'') ''enabled controls require a real approved authorization reference''))
       (scenario_id, enabled, authorization))))"

definition control_commands :: "string \<Rightarrow> bool \<Rightarrow> dict \<Rightarrow> plan_exc + string \<times> control_command \<times> control_command option" where
  "control_commands location simulator document =
     bindE (plan_text (location @ ''.control_mode'') (get document ''control_mode'') 32) (\<lambda>control_mode.
     bindE (checked (raise_if (control_mode \<notin> {''select_and_operate'', ''direct_operate''}) (Plan_Error (location @ ''.control_mode'')
       (''must be '' @ quoted ''select_and_operate'' @ '' or '' @ quoted ''direct_operate''))) ()) (\<lambda>_.
     bindE (plan_control_command (location @ ''.command'') (get document ''command'')) (\<lambda>command.
     bindE (if_present document ''restore_command'' (plan_control_command (location @ ''.restore_command''))) (\<lambda>restore_command.
     checked (first_error
       [raise_if (\<exists>r \<in> set_option restore_command. ck_type command \<noteq> ck_type r \<or> ck_index command \<noteq> ck_index r)
          (Plan_Error (location @ ''.restore_command'') ''must use the same command type and index as command''),
        raise_if (\<not> simulator \<and> py_eq (PDict (command_to_mapping command)) (PDict (command_to_mapping (the restore_command))))
          (Plan_Error (location @ ''.restore_command'') ''must differ from command'')]) (control_mode, command, restore_command)))))"

definition control_expectations ::
    "string \<Rightarrow> bool \<Rightarrow> dict \<Rightarrow> control_command option \<Rightarrow> plan_exc + expectation option \<times> expectation \<times> expectation option" where
  "control_expectations location simulator document restore_command =
     bindE (if_present document ''precondition'' (plan_expectation (location @ ''.precondition''))) (\<lambda>precondition.
     bindE (plan_expectation (location @ ''.postcondition'') (get document ''postcondition'')) (\<lambda>postcondition.
     bindE (if_present document ''restore_expectation'' (plan_expectation (location @ ''.restore_expectation''))) (\<lambda>restore_expectation.
     checked (first_error
       [raise_if ((restore_command = None) \<noteq> (restore_expectation = None))
          (Plan_Error location ''restore_command and restore_expectation must be supplied together''),
        raise_if (\<not> simulator \<and> \<not> py_eq (PDict (expectation_to_mapping (the precondition))) (PDict (expectation_to_mapping (the restore_expectation))))
          (Plan_Error (location @ ''.restore_expectation'') ''must exactly equal precondition so the scenario restores its baseline''),
        raise_if (\<not> simulator \<and> overlaps (the precondition) postcondition)
          (Plan_Error (location @ ''.postcondition'') ''must not overlap precondition'')]) (precondition, postcondition, restore_expectation))))"

definition control_feedback_times :: "string \<Rightarrow> dict \<Rightarrow> plan_exc + rat \<times> rat" where
  "control_feedback_times location document =
     bindE (plan_number (location @ ''.feedback_timeout_seconds'') (get document ''feedback_timeout_seconds'') TENTH 300) (\<lambda>feedback_timeout.
     bindE (plan_number (location @ ''.feedback_poll_interval_seconds'') (get document ''feedback_poll_interval_seconds'') TWENTIETH 10) (\<lambda>poll_interval.
     checked (raise_if (poll_interval > feedback_timeout)
         (Plan_Error (location @ ''.feedback_poll_interval_seconds'') ''must not exceed feedback_timeout_seconds'')) (feedback_timeout, poll_interval)))"

definition plan_control_scenario :: "string \<Rightarrow> nat \<Rightarrow> pyval \<Rightarrow> plan_exc + control_scenario" where
  "plan_control_scenario environment index v =
     (let location = at_index ''control_scenarios'' index; simulator = (environment = ''SIMULATOR'') in
      bindE (plan_object location v (CONTROL_FIELDS @ (if simulator then [] else LAB_FIELDS)) (''notes'' # (if simulator then LAB_FIELDS else []))) (\<lambda>document.
      bindE (control_identity location simulator document) (\<lambda>(scenario_id, enabled, authorization).
      bindE (control_commands location simulator document) (\<lambda>(control_mode, command, restore_command).
      bindE (control_expectations location simulator document restore_command) (\<lambda>(precondition, postcondition, restore_expectation).
      bindE (control_feedback_times location document) (\<lambda>(feedback_timeout, poll_interval).
      bindE (plan_identifier (location @ ''.feedback_point_id'') (get document ''feedback_point_id'')) (\<lambda>feedback_point_id.
      bindE (plan_number (location @ ''.command_timeout_seconds'') (get document ''command_timeout_seconds'') TENTH 60) (\<lambda>command_timeout.
      bindE (optional_notes (location @ ''.notes'') (get document ''notes'')) (\<lambda>remark.
      Inr \<lparr>cs_id = scenario_id, cs_enabled = enabled, cs_authorization = authorization, cs_mode = control_mode, cs_command = command,
           cs_feedback_point_id = feedback_point_id, cs_precondition = precondition, cs_postcondition = postcondition,
           cs_restore_command = restore_command, cs_restore_expectation = restore_expectation, cs_command_timeout = command_timeout,
           cs_feedback_timeout = feedback_timeout, cs_poll_interval = poll_interval, cs_notes = remark, cs_environment = environment\<rparr>)))))))))"

section \<open>References to points\<close>

definition plan_point :: "point list \<Rightarrow> string \<Rightarrow> string \<Rightarrow> plan_exc + point" where
  "plan_point table point_id location = (case by_id table point_id of
     None \<Rightarrow> Inl (Plan_Error location (''references unknown point_id '' @ quoted point_id))
   | Some p \<Rightarrow> checked (raise_if (\<not> pt_enabled p) (Plan_Error location (''references disabled point_id '' @ quoted point_id))) p)"

text \<open>\<open>x < y\<close> and \<open>x > y\<close> for a float \<open>x\<close> and a finite one\<close>

definition float_less :: "pyfloat \<Rightarrow> rat \<Rightarrow> bool" where
  "float_less x y = (case x of Fin q \<Rightarrow> q < y | NegInf \<Rightarrow> True | _ \<Rightarrow> False)"

definition float_greater :: "pyfloat \<Rightarrow> rat \<Rightarrow> bool" where
  "float_greater x y = (case x of Fin q \<Rightarrow> q > y | PosInf \<Rightarrow> True | _ \<Rightarrow> False)"

definition outside_range :: "expectation \<Rightarrow> point \<Rightarrow> bool" where
  "outside_range e p = (case (pt_min p, pt_max p) of
     (Some lo, Some hi) \<Rightarrow> let expected = the (finite_number (ex_value e)) in
       float_less (binary64 (expected - ex_tolerance e)) lo \<or> float_greater (binary64 (expected + ex_tolerance e)) hi
   | _ \<Rightarrow> False)"

definition validate_expectation_for_point :: "string \<Rightarrow> expectation \<Rightarrow> point \<Rightarrow> plan_exc option" where
  "validate_expectation_for_point location e p = first_error
     [raise_if (pt_type p \<in> set BINARY_POINT_TYPES \<and> \<not> is_bool (ex_value e)) (Plan_Error location (pt_type p @ '' requires a boolean value'')),
      raise_if (pt_type p \<in> set NUMERIC_POINT_TYPES \<and> \<not> is_number (ex_value e)) (Plan_Error location (pt_type p @ '' requires a numeric value'')),
      raise_if (pt_type p \<in> set NUMERIC_POINT_TYPES \<and> outside_range e p)
        (Plan_Error location ''expectation including tolerance is outside the point engineering range'')]"

definition validate_poll_point :: "point list \<Rightarrow> poll_scenario \<Rightarrow> string \<Rightarrow> string \<Rightarrow> plan_exc option" where
  "validate_poll_point table s location point_id = exc_of (bindE (plan_point table point_id location) (\<lambda>p.
     checked (if ps_poll_type s = ''class'' then
         (case pt_event_class p of
            None \<Rightarrow> Some (Plan_Error location ''class polls require a point with event metadata'')
          | Some c \<Rightarrow> raise_if (c \<notin> set (ps_classes s)) (Plan_Error location (''point event_class '' @ str_int c @ '' is not requested'')))
       else None) ()))"

definition validate_poll :: "point list \<Rightarrow> nat \<times> poll_scenario \<Rightarrow> plan_exc option" where
  "validate_poll table = (\<lambda>(i, s). for_each (\<lambda>(j, point_id).
     validate_poll_point table s (at_index (at_index ''poll_scenarios'' i @ ''.expected_point_ids'') j) point_id)
     (List.enumerate 0 (ps_expected_point_ids s)))"

definition validate_unsolicited :: "point list \<Rightarrow> nat \<times> unsolicited_scenario \<Rightarrow> plan_exc option" where
  "validate_unsolicited table = (\<lambda>(i, s). let location = at_index ''unsolicited_scenarios'' i in
     exc_of (bindE (plan_point table (us_point_id s) (location @ ''.expected_point_id'')) (\<lambda>p. checked (first_error
       [raise_if (pt_event_class p = None \<or> pt_event_group p = None \<or> pt_event_variation p = None)
          (Plan_Error (location @ ''.expected_point_id'') ''unsolicited scenarios require complete event metadata''),
        raise_if (the (pt_event_class p) \<notin> set (us_classes s))
          (Plan_Error (location @ ''.classes'') (''must include expected point event_class '' @ str_int (the (pt_event_class p)))),
        validate_expectation_for_point (location @ ''.expectation'') (us_expectation s) p]) ())))"

definition validate_control :: "point list \<Rightarrow> nat \<times> control_scenario \<Rightarrow> plan_exc option" where
  "validate_control table = (\<lambda>(i, s). let location = at_index ''control_scenarios'' i in
     exc_of (bindE (plan_point table (cs_feedback_point_id s) (location @ ''.feedback_point_id'')) (\<lambda>p. checked (for_each (\<lambda>(field_name, expectation).
       case expectation of None \<Rightarrow> None | Some e \<Rightarrow> validate_expectation_for_point (location @ ''.'' @ field_name) e p)
       [(''precondition'', cs_precondition s), (''postcondition'', Some (cs_postcondition s)), (''restore_expectation'', cs_restore_expectation s)]) ())))"

definition validate_point_references ::
    "point list \<Rightarrow> poll_scenario list \<Rightarrow> unsolicited_scenario list \<Rightarrow> control_scenario list \<Rightarrow> plan_exc option" where
  "validate_point_references table polls unsolicited controls = first_error
     [for_each (validate_poll table) (List.enumerate 0 polls), for_each (validate_unsolicited table) (List.enumerate 0 unsolicited),
      for_each (validate_control table) (List.enumerate 0 controls)]"

section \<open>Plans\<close>

definition plan_from_document :: "point list \<Rightarrow> pyval \<Rightarrow> plan_exc + test_plan" where
  "plan_from_document table document =
     bindE (plan_object ''$'' document [''schema_version'', ''poll_scenarios'', ''unsolicited_scenarios'', ''control_scenarios'']
       [''notes'', ''environment'']) (\<lambda>root.
     bindE (checked (raise_if (\<not> eq_int (get root ''schema_version'') 1) (Plan_Error ''$.schema_version'' ''must equal 1'')) ()) (\<lambda>_.
     let raw_environment = (case map_of root ''environment'' of None \<Rightarrow> PStr ''LAB'' | Some v \<Rightarrow> v); environment = as_str raw_environment in
     bindE (checked (raise_if (raw_environment \<notin> {PStr ''LAB'', PStr ''SIMULATOR''}) (Plan_Error ''$.environment'' ''must be LAB or SIMULATOR'')) ()) (\<lambda>_.
     bindE (plan_array ''$.poll_scenarios'' (get root ''poll_scenarios'') MAX_SCENARIOS_PER_KIND) (\<lambda>polls_raw.
     bindE (plan_array ''$.unsolicited_scenarios'' (get root ''unsolicited_scenarios'') MAX_SCENARIOS_PER_KIND) (\<lambda>unsolicited_raw.
     bindE (plan_array ''$.control_scenarios'' (get root ''control_scenarios'') MAX_SCENARIOS_PER_KIND) (\<lambda>controls_raw.
     bindE (mapE_indexed plan_poll_scenario polls_raw) (\<lambda>polls.
     bindE (mapE_indexed plan_unsolicited_scenario unsolicited_raw) (\<lambda>unsolicited.
     bindE (mapE_indexed (plan_control_scenario environment) controls_raw) (\<lambda>controls.
     let all_ids = map ps_id polls @ map us_id unsolicited @ map cs_id controls in
     bindE (checked (first_error
       [raise_if (\<not> distinct (map ascii_lower all_ids)) (Plan_Error ''$'' ''scenario_id values must be globally unique''),
        validate_point_references table polls unsolicited controls]) ()) (\<lambda>_.
     bindE (optional_notes ''$.notes'' (get root ''notes'')) (\<lambda>remark.
     Inr \<lparr>tp_polls = polls, tp_unsolicited = unsolicited, tp_controls = controls, tp_notes = remark, tp_environment = environment\<rparr>)))))))))))"

text \<open>What the file system says of the path: no status, no regular file, no text, or the content.\<close>

datatype plan_file = Plan_Stat_Error string | Plan_No_File | Plan_Read_Error nat string | Plan_Content string

definition load_ems_test_plan :: "plan_file \<Rightarrow> point list \<Rightarrow> plan_exc + test_plan" where
  "load_ems_test_plan file table =
     (let too_large = Plan_File_Error (''test plan exceeds '' @ dec MAX_PLAN_BYTES @ '' bytes'') in
      case file of
        Plan_Stat_Error e \<Rightarrow> Inl (Plan_File_Error (''cannot stat test plan: '' @ e))
      | Plan_No_File \<Rightarrow> Inl (Plan_File_Error ''test plan does not exist'')
      | Plan_Read_Error n e \<Rightarrow> Inl (if n > MAX_PLAN_BYTES then too_large else Plan_File_Error (''cannot read UTF-8 test plan: '' @ e))
      | Plan_Content s \<Rightarrow>
          if length s > MAX_PLAN_BYTES then Inl too_large
          else if \<not> utf8_valid s then Inl (Plan_File_Error ''cannot read UTF-8 test plan: '')
          else (case json_loads s of
              Inl (Json_Duplicate k) \<Rightarrow> Inl (Plan_File_Error (''invalid JSON: duplicate JSON key: '' @ k))
            | Inl (Json_Constant c) \<Rightarrow> Inl (Plan_File_Error (''invalid JSON: non-standard JSON number is forbidden: '' @ c))
            | Inl _ \<Rightarrow> Inl (Plan_File_Error ''invalid JSON: '')
            | Inr document \<Rightarrow> plan_from_document table document))"
end
