(* ===== verification/Rounding.thy ===== *)
theory Rounding
  imports Json
begin

text \<open>The error of rounding to binary64: half a unit in the last place, relative to the exact result, and a least absolute error below the normal range.\<close>

definition tiny :: rat where
  "tiny = 1 / 2 ^ 1074"

lemma pow2_binade:
  assumes "x \<noteq> 0"
  shows "pow2 (max (ilog2 \<bar>x\<bar> - 52) (-1074)) \<le> \<bar>x\<bar> / 2 ^ 52 + tiny"
proof -
  have "pow2 (ilog2 \<bar>x\<bar> - 52) * 2 ^ 52 = pow2 (ilog2 \<bar>x\<bar>)" using pow2_add [of "ilog2 \<bar>x\<bar> - 52" 52] by (simp add: pow2_def [of 52])
  then have "pow2 (ilog2 \<bar>x\<bar> - 52) \<le> \<bar>x\<bar> / 2 ^ 52" using ilog2_bounds(1) [of "\<bar>x\<bar>"] assms by (simp add: pos_le_divide_eq)
  moreover have "pow2 (- 1074) = tiny" by (simp add: pow2_def tiny_def)
  moreover have "0 \<le> tiny" "0 \<le> \<bar>x\<bar> / 2 ^ 52" by (simp_all add: tiny_def)
  ultimately show ?thesis unfolding max_def by (cases "ilog2 \<bar>x\<bar> - 52 \<le> -1074") simp_all
qed

text \<open>The value that is rounded to, before the test for overflow.\<close>

definition rounded :: "rat \<Rightarrow> rat" where
  "rounded x = (let e = max (ilog2 \<bar>x\<bar> - 52) (-1074) in of_int (round_half_even (x / pow2 e)) * pow2 e)"

lemma rounded_error: "x \<noteq> 0 \<Longrightarrow> \<bar>rounded x - x\<bar> \<le> \<bar>x\<bar> / 2 ^ 53 + tiny"
proof -
  assume x: "x \<noteq> 0"
  define e where "e = max (ilog2 \<bar>x\<bar> - 52) (-1074)"
  have "rounded x - x = (of_int (round_half_even (x / pow2 e)) - x / pow2 e) * pow2 e"
    using less_imp_neq [OF pow2_pos [of e]] by (simp add: rounded_def e_def [symmetric] left_diff_distrib)
  then have "\<bar>rounded x - x\<bar> = \<bar>of_int (round_half_even (x / pow2 e)) - x / pow2 e\<bar> * pow2 e"
    by (simp add: abs_mult less_imp_le)
  also have "\<dots> \<le> 1 / 2 * pow2 e" using round_half_even_dist [of "x / pow2 e"] by (intro mult_right_mono) (simp_all add: less_imp_le)
  also have "\<dots> \<le> 1 / 2 * (\<bar>x\<bar> / 2 ^ 52 + tiny)" using pow2_binade [OF x] by (simp add: e_def)
  also have "\<dots> \<le> \<bar>x\<bar> / 2 ^ 53 + tiny" by (simp add: tiny_def field_simps)
  finally show ?thesis .
qed

lemma binary64_rounded:
  "binary64 x = (if x = 0 then Fin 0 else if rounded x \<ge> 2 ^ 1024 then PosInf else if rounded x \<le> - (2 ^ 1024) then NegInf else Fin (rounded x))"
  by (simp only: binary64_def rounded_def Let_def)

lemma binary64_error: "binary64 x = Fin y \<Longrightarrow> \<bar>y - x\<bar> \<le> \<bar>x\<bar> / 2 ^ 53 + tiny"
  using rounded_error [of x] by (auto simp: binary64_rounded tiny_def split: if_splits)

lemma binary64_nonneg: "binary64 x = Fin y \<Longrightarrow> 0 \<le> x \<Longrightarrow> 0 \<le> y"
proof -
  assume y: "binary64 x = Fin y" and x: "0 \<le> x"
  have "0 \<le> x / pow2 e" for e using x by (simp add: less_imp_le)
  then have "0 \<le> round_half_even (x / pow2 e)" for e using round_half_even_ge [of 0] by simp
  then have "0 \<le> rounded x" by (simp add: rounded_def Let_def less_imp_le)
  then show ?thesis using y by (auto simp: binary64_rounded split: if_splits)
qed

lemma binary64_finite:
  assumes "\<bar>x\<bar> \<le> 2 ^ 1000"
  obtains y where "binary64 x = Fin y" "\<bar>y - x\<bar> \<le> \<bar>x\<bar> / 2 ^ 53 + tiny"
proof (cases "x = 0")
  case False
  have "tiny \<le> 1" by (simp add: tiny_def)
  moreover have "(2 :: rat) ^ 1000 + 2 ^ 1000 + 1 < 2 ^ 1024" by (simp add: field_simps)
  moreover have "\<bar>x\<bar> / 2 ^ 53 \<le> \<bar>x\<bar>" by (simp add: field_simps)
  ultimately have "\<bar>rounded x\<bar> < 2 ^ 1024" using rounded_error [OF False] assms by linarith
  then have "\<not> rounded x \<ge> 2 ^ 1024" "\<not> rounded x \<le> - (2 ^ 1024)" by linarith+
  then have "binary64 x = Fin (rounded x)" using False unfolding binary64_rounded by (simp only: if_False)
  then show ?thesis using that rounded_error [OF False] by blast
qed (use that [of 0] in \<open>simp add: binary64_def tiny_def\<close>)

end
