(* ===== verification/EmsPlanFacts.thy ===== *)
theory EmsPlanFacts
  imports EmsPlan Rounding
begin

text \<open>
  What the parsing functions of test plans accept, and that they read back what the mappings write: one well-formedness predicate per part of a
  plan, which parsing establishes and which is enough for parsing the mapping again. First the tolerances of expectations: two expectations that a value
  satisfies both are found to overlap in spite of rounding.
\<close>

section \<open>Tolerances\<close>

lemma tiny_bounds: "0 \<le> tiny" "tiny \<le> 1 / 2 ^ 100"
  by (simp_all add: tiny_def)

lemma float_within_exact:
  assumes "float_within x y t" "0 \<le> t"
  shows "\<bar>x - y\<bar> \<le> t + t / 2 ^ 52 + 2 * tiny"
proof -
  obtain d where d: "binary64 (x - y) = Fin d" "\<bar>d\<bar> \<le> t" using assms by (auto simp: float_within_def split: pyfloat.splits)
  have "\<bar>x - y\<bar> \<le> t + \<bar>x - y\<bar> / 2 ^ 53 + tiny" using binary64_error [OF d(1)] d(2) by linarith
  then show ?thesis using tiny_bounds assms(2) by (simp add: field_simps)
qed

lemma isclose_near:
  assumes "0 \<le> c" "c \<le> d" "d - c \<le> 6 * s / 2 ^ 53 + 10 * tiny" "0 \<le> s" "s - s / 2 ^ 53 - tiny \<le> c" "c \<le> 2 ^ 100"
  shows "isclose d c"
proof -
  have small: "d - c \<le> s + 1" using assms(3,4) tiny_bounds by simp
  have "s \<le> 2 * c + 2" using assms(4,5) tiny_bounds by simp
  then have "\<bar>c - d\<bar> \<le> 2 ^ 1000" using small assms(1,2,6) by (simp add: abs_le_iff)
  then obtain f where f: "binary64 (c - d) = Fin f" "\<bar>f - (c - d)\<bar> \<le> \<bar>c - d\<bar> / 2 ^ 53 + tiny" by (rule binary64_finite)
  have "\<bar>f\<bar> \<le> (d - c) + \<bar>f - (c - d)\<bar>" "\<bar>c - d\<bar> = d - c" using assms(2) by (auto simp: abs_if)
  then have bound: "\<bar>f\<bar> \<le> 7 * s / 2 ^ 53 + 12 * tiny" using f(2) assms(2,3,4) tiny_bounds by (simp add: field_simps)
  show ?thesis
  proof (cases "s \<le> 1")
    case True
    then have "\<bar>f\<bar> \<le> CLOSE_TOLERANCE" using bound tiny_bounds by (simp add: CLOSE_TOLERANCE_def)
    then show ?thesis using f(1) by (simp add: isclose_def float_le_abs_def CLOSE_TOLERANCE_def)
  next
    case False
    have "\<bar>CLOSE_TOLERANCE * c\<bar> \<le> 2 ^ 1000" using assms(1,6) by (simp add: CLOSE_TOLERANCE_def)
    then obtain g where g: "binary64 (CLOSE_TOLERANCE * c) = Fin g" "\<bar>g - CLOSE_TOLERANCE * c\<bar> \<le> \<bar>CLOSE_TOLERANCE * c\<bar> / 2 ^ 53 + tiny" by (rule binary64_finite)
    have "CLOSE_TOLERANCE * c - \<bar>g - CLOSE_TOLERANCE * c\<bar> \<le> \<bar>g\<bar>" "\<bar>CLOSE_TOLERANCE * c\<bar> = CLOSE_TOLERANCE * c"
      using assms(1) by (auto simp: abs_if CLOSE_TOLERANCE_def)
    then have "CLOSE_TOLERANCE * c - CLOSE_TOLERANCE * c / 2 ^ 53 - tiny \<le> \<bar>g\<bar>" using g(2) by linarith
    then have "\<bar>f\<bar> \<le> \<bar>g\<bar>" using bound False assms(5) tiny_bounds by (simp add: CLOSE_TOLERANCE_def field_simps)
    then show ?thesis using f(1) g(1) by (simp add: isclose_def float_le_abs_def)
  qed
qed

lemma overlap_numbers:
  assumes "float_within n a t" "float_within n b u" "0 \<le> t" "t \<le> MAX_TOLERANCE" "0 \<le> u" "u \<le> MAX_TOLERANCE"
  obtains d c where "binary64 (a - b) = Fin d" "binary64 (t + u) = Fin c" "\<bar>d\<bar> < c \<or> isclose \<bar>d\<bar> c"
proof -
  define s where "s = t + u"
  have s: "0 \<le> s" "s \<le> 2000000000000" using assms(3-6) by (simp_all add: s_def MAX_TOLERANCE_def)
  have "\<bar>a - b\<bar> \<le> \<bar>n - a\<bar> + \<bar>n - b\<bar>" by (simp add: abs_if)
  then have apart: "\<bar>a - b\<bar> \<le> s + s / 2 ^ 52 + 4 * tiny"
    using float_within_exact [OF assms(1,3)] float_within_exact [OF assms(2,5)] by (simp add: s_def field_simps)
  then have "\<bar>a - b\<bar> \<le> 2 ^ 1000" using s tiny_bounds by simp
  then obtain d where d: "binary64 (a - b) = Fin d" "\<bar>d - (a - b)\<bar> \<le> \<bar>a - b\<bar> / 2 ^ 53 + tiny" by (rule binary64_finite)
  have "\<bar>s\<bar> \<le> 2 ^ 1000" using s by simp
  then obtain c where c: "binary64 s = Fin c" "\<bar>c - s\<bar> \<le> \<bar>s\<bar> / 2 ^ 53 + tiny" by (rule binary64_finite)
  have low: "s - s / 2 ^ 53 - tiny \<le> c" using c(2) s(1) by (simp add: abs_le_iff)
  have "isclose \<bar>d\<bar> c" if "c \<le> \<bar>d\<bar>" "0 \<le> c"
  proof (rule isclose_near [OF that(2,1) _ s(1) low])
    have "\<bar>d\<bar> \<le> \<bar>a - b\<bar> + \<bar>d - (a - b)\<bar>" by (simp add: abs_if)
    then show "\<bar>d\<bar> - c \<le> 6 * s / 2 ^ 53 + 10 * tiny" using d(2) apart low s tiny_bounds by (simp add: field_simps)
    show "c \<le> 2 ^ 100" using c(2) s tiny_bounds by (simp add: abs_le_iff)
  qed
  moreover have "0 \<le> c" by (rule binary64_nonneg [OF c(1) s(1)])
  ultimately show ?thesis using that [OF d(1)] c(1) by (fastforce simp: s_def)
qed

section \<open>Stripped text\<close>

fun full_points :: "string list \<Rightarrow> bool" where
  "full_points [] = True"
| "full_points (p # ps) \<longleftrightarrow> p \<noteq> [] \<and> length p \<le> utf8_width (hd p) \<and> (ps \<noteq> [] \<longrightarrow> length p = utf8_width (hd p)) \<and> full_points ps"

lemma full_code_points: "full_points (code_points s)"
proof (induction s rule: code_points.induct)
  case (2 c cs)
  have "utf8_width c \<noteq> 0" using utf8_width_pos [of c] by linarith
  then show ?case using 2 by (auto simp: min_def dest: arg_cong [where f = concat])
qed simp

lemma code_points_concat: "full_points ps \<Longrightarrow> code_points (concat ps) = ps"
proof (induction ps)
  case (Cons p ps)
  then obtain c cs where "p = c # cs" by (cases p) auto
  then show ?case using Cons by (cases "ps = []") (auto dest!: sym [of "Suc _"])
qed simp

lemma full_points_append: "full_points (ps @ qs) \<Longrightarrow> full_points ps \<and> full_points qs"
  by (induction ps) auto

lemma strip_idem [simp]: "strip (strip s) = strip s"
proof -
  define rs where "rs = dropWhile is_space (code_points s)"
  define qs where "qs = rev (dropWhile is_space (rev rs))"
  have rs: "rs = qs @ rev (takeWhile is_space (rev rs))" unfolding qs_def rev_append [symmetric] takeWhile_dropWhile_id by simp
  have "full_points (takeWhile is_space (code_points s) @ rs)" using full_code_points [of s] by (simp add: rs_def)
  then have "full_points rs" using full_points_append by blast
  then have full: "code_points (concat qs) = qs" using rs full_points_append [of qs] code_points_concat by metis
  have last: "dropWhile is_space (rev qs) = rev qs" by (simp add: qs_def)
  have first: "dropWhile is_space qs = qs"
  proof (cases "qs")
    case (Cons q q's)
    have "rs = [] \<or> \<not> is_space (hd rs)" unfolding rs_def using hd_dropWhile [of is_space "code_points s"] by blast
    moreover have "hd rs = q" "rs \<noteq> []" using rs Cons by (metis append_Cons list.sel(1), metis append_Cons list.distinct(1))
    ultimately show ?thesis using Cons by simp
  qed simp
  have "strip s = concat qs" by (simp add: strip_def qs_def rs_def)
  then show ?thesis unfolding strip_def [of "strip s"] by (simp add: full first last)
qed

section \<open>What each parsing function accepts\<close>

lemma plan_object_Inr: "plan_object loc v required optional_fields = Inr d \<longleftrightarrow>
    v = PDict d \<and> (\<forall>k \<in> set required. map_of d k \<noteq> None) \<and> (\<forall>k \<in> set (map fst d). k \<in> set (required @ optional_fields))"
  by (auto simp: plan_object_def Let_def is_dict_iff filter_empty_conv)

lemma plan_array_Inr: "plan_array loc v m = Inr xs \<longleftrightarrow> v = PList xs \<and> length xs \<le> m"
  by (auto simp: plan_array_def is_list_iff)

lemma plan_text_Inr: "plan_text loc v m = Inr s \<longleftrightarrow> (\<exists>t. v = PStr t \<and> s = strip t \<and> s \<noteq> [] \<and> utf8_valid s \<and> length s \<le> m)"
  by (auto simp: plan_text_def Let_def is_str_iff)

lemma plan_boolean_Inr: "plan_boolean loc v = Inr b \<longleftrightarrow> v = PBool b"
  by (auto simp: plan_boolean_def is_bool_iff)

lemma plan_integer_Inr: "plan_integer loc v lo hi = Inr i \<longleftrightarrow> v = PInt i \<and> lo \<le> i \<and> i \<le> hi"
  by (auto simp: plan_integer_def is_int_iff)

lemma finite_number_float_of: "finite_number v = Some q \<Longrightarrow> is_number v \<and> float_of v = Some (Fin q)"
  by (cases v rule: finite_number.cases) (auto split: pyfloat.splits)

lemma plan_number_Inr: "plan_number loc v lo hi = Inr q \<longleftrightarrow> finite_number v = Some q \<and> lo \<le> q \<and> q \<le> hi"
  using finite_number_float_of [of v] by (auto simp: plan_number_def)

lemma map_error_Inr: "map_error f m = Inr x \<longleftrightarrow> m = Inr x"
  by (simp add: map_error_def split: sum.splits)

lemma if_present_Inr: "if_present d k f = Inr r \<longleftrightarrow> (case map_of d k of None \<Rightarrow> r = None | Some v \<Rightarrow> \<exists>x. r = Some x \<and> f v = Inr x)"
  by (auto simp: if_present_def bindE_eq_Inr split: option.splits)

definition identifier_wf :: "string \<Rightarrow> bool" where
  "identifier_wf s \<longleftrightarrow> stripped 128 s \<and> point_id_match s"

definition notes_wf :: "string option \<Rightarrow> bool" where
  "notes_wf n \<longleftrightarrow> list_all (stripped 4096) (case n of None \<Rightarrow> [] | Some s \<Rightarrow> [s])"

lemma plan_text_stripped: "plan_text loc v m = Inr s \<Longrightarrow> stripped m s"
  by (auto simp: plan_text_Inr stripped_def)

lemma plan_text_back: "stripped m s \<Longrightarrow> plan_text loc (PStr s) m = Inr s"
  by (auto simp: plan_text_Inr stripped_def)

lemma plan_identifier_Inr: "plan_identifier loc v = Inr s \<Longrightarrow> identifier_wf s"
  by (auto simp: plan_identifier_def bindE_eq_Inr identifier_wf_def dest: plan_text_stripped)

lemma plan_identifier_back: "identifier_wf s \<Longrightarrow> plan_identifier loc (PStr s) = Inr s"
  by (simp add: plan_identifier_def identifier_wf_def plan_text_back)

lemma optional_notes_wf: "optional_notes loc v = Inr n \<Longrightarrow> notes_wf n"
  by (auto simp: optional_notes_def bindE_eq_Inr notes_wf_def split: if_splits dest: plan_text_stripped)

lemma optional_notes_back: "notes_wf n \<Longrightarrow> optional_notes loc (opt_val PStr n) = Inr n"
  by (cases n) (auto simp: optional_notes_def notes_wf_def opt_val_def plan_text_back)

lemma plan_number_back: "lo \<le> q \<Longrightarrow> q \<le> hi \<Longrightarrow> plan_number loc (PFloat (Fin q)) lo hi = Inr q"
  by (simp add: plan_number_Inr)

lemma plan_boolean_back: "plan_boolean loc (PBool b) = Inr b"
  by (simp add: plan_boolean_Inr)

lemma plan_integer_back: "lo \<le> i \<Longrightarrow> i \<le> hi \<Longrightarrow> plan_integer loc (PInt i) lo hi = Inr i"
  by (simp add: plan_integer_Inr)

lemma mapE_indexed_Inr: "mapE_indexed f xs = Inr ys \<longleftrightarrow> length ys = length xs \<and> (\<forall>i < length xs. f i (xs ! i) = Inr (ys ! i))"
  by (auto simp: mapE_indexed_def mapE_Inr_iff list_all2_conv_all_nth nth_enumerate_eq)

lemma mapE_indexed_all:
  assumes "mapE_indexed f xs = Inr ys" "\<And>i x y. f i x = Inr y \<Longrightarrow> P y"
  shows "list_all P ys"
  using assms by (auto simp: mapE_indexed_Inr list_all_length)

lemma mapE_indexed_back:
  assumes "list_all P ys" "\<And>i y. P y \<Longrightarrow> f i (g y) = Inr y"
  shows "mapE_indexed f (map g ys) = Inr ys"
  using assms by (simp add: mapE_indexed_Inr list_all_length)

definition classes_wf :: "int list \<Rightarrow> bool" where
  "classes_wf cs \<longleftrightarrow> cs \<noteq> [] \<and> length cs \<le> 3 \<and> list_all (\<lambda>c. 1 \<le> c \<and> c \<le> 3) cs \<and> distinct cs"

lemma plan_classes_wf: "plan_classes loc v = Inr cs \<Longrightarrow> classes_wf cs"
  by (auto simp: plan_classes_def bindE_eq_Inr plan_array_Inr classes_wf_def split: if_splits dest: mapE_indexed_all [where P = "\<lambda>c. 1 \<le> c \<and> c \<le> 3"])
    (auto simp: plan_integer_Inr mapE_indexed_Inr list_all_length)

lemma plan_classes_back: "classes_wf cs \<Longrightarrow> plan_classes loc (PList (map PInt cs)) = Inr cs"
proof -
  assume cs: "classes_wf cs"
  have "mapE_indexed (\<lambda>i item. plan_integer (at_index loc i) item 1 3) (map PInt cs) = Inr cs"
    by (rule mapE_indexed_back [where P = "\<lambda>c. 1 \<le> c \<and> c \<le> 3"]) (use cs in \<open>simp_all add: classes_wf_def plan_integer_back\<close>)
  then show ?thesis using cs by (simp add: plan_classes_def plan_array_def checked_def raise_if_def first_error.simps classes_wf_def)
qed

definition point_ids_wf :: "string list \<Rightarrow> bool" where
  "point_ids_wf ids \<longleftrightarrow> length ids \<le> MAX_REFERENCED_POINTS \<and> list_all identifier_wf ids \<and> distinct (map ascii_lower ids)"

lemma plan_point_ids_wf: "plan_point_ids loc v = Inr ids \<Longrightarrow> point_ids_wf ids"
  by (auto simp: plan_point_ids_def bindE_eq_Inr plan_array_Inr point_ids_wf_def mapE_indexed_Inr list_all_length dest: plan_identifier_Inr)

lemma plan_point_ids_back: "point_ids_wf ids \<Longrightarrow> plan_point_ids loc (PList (map PStr ids)) = Inr ids"
proof -
  assume ids: "point_ids_wf ids"
  have "mapE_indexed (\<lambda>i item. plan_identifier (at_index loc i) item) (map PStr ids) = Inr ids"
    by (rule mapE_indexed_back [where P = identifier_wf]) (use ids in \<open>simp_all add: point_ids_wf_def plan_identifier_back\<close>)
  then show ?thesis using ids by (simp add: plan_point_ids_def plan_array_def checked_def raise_if_def first_error.simps point_ids_wf_def)
qed

section \<open>Expectations\<close>

definition expectation_wf :: "expectation \<Rightarrow> bool" where
  "expectation_wf e \<longleftrightarrow> 0 \<le> ex_tolerance e \<and> ex_tolerance e \<le> MAX_TOLERANCE \<and>
     (case ex_value e of
        PBool _ \<Rightarrow> ex_tolerance e = 0
      | PStr s \<Rightarrow> s \<noteq> [] \<and> length s \<le> 4096 \<and> utf8_valid s \<and> ex_tolerance e = 0
      | v \<Rightarrow> finite_number v \<noteq> None)"

lemma ValueExpectation_Inr: "ValueExpectation v t = Inr e \<longleftrightarrow>
    ex_value e = v \<and> finite_number t = Some (ex_tolerance e) \<and> expectation_wf e"
proof -
  have "is_number v \<and> finite_number v \<noteq> None \<longleftrightarrow> finite_number v \<noteq> None" using finite_number_float_of by blast
  then have "expected_value_check v = None \<longleftrightarrow> (case v of PBool _ \<Rightarrow> True | PStr s \<Rightarrow> s \<noteq> [] \<and> length s \<le> 4096 \<and> utf8_valid s | _ \<Rightarrow> finite_number v \<noteq> None)"
    by (cases v) (auto simp: expected_value_check_def)
  moreover have "tolerance_check v t = None \<longleftrightarrow> (\<exists>q. finite_number t = Some q \<and> 0 \<le> q \<and> q \<le> MAX_TOLERANCE \<and> (is_bool v \<or> is_str v \<longrightarrow> q = 0))"
    using finite_number_float_of [of t] by (auto simp: tolerance_check_def split: option.splits if_splits)
  ultimately show ?thesis by (cases v; cases e) (auto simp: ValueExpectation_def expectation_wf_def)
qed

lemma plan_expectation_wf: "plan_expectation loc v = Inr e \<Longrightarrow> expectation_wf e"
  by (auto simp: plan_expectation_def bindE_eq_Inr Let_def map_error_Inr ValueExpectation_Inr split: if_splits)

lemma plan_expectation_back: "expectation_wf e \<Longrightarrow> plan_expectation loc (PDict (expectation_to_mapping e)) = Inr e"
proof -
  assume e: "expectation_wf e"
  have "is_bool (ex_value e) \<or> is_number (ex_value e) \<or> is_str (ex_value e)"
    using e finite_number_float_of by (cases "ex_value e") (auto simp: expectation_wf_def)
  moreover have "ValueExpectation (ex_value e) (PFloat (Fin (ex_tolerance e))) = Inr e" using e by (simp add: ValueExpectation_Inr)
  moreover have "plan_object loc (PDict (expectation_to_mapping e)) [''value'', ''absolute_tolerance''] [] = Inr (expectation_to_mapping e)"
    by (simp add: plan_object_Inr expectation_to_mapping_def)
  ultimately show ?thesis
    using e by (auto simp: plan_expectation_def expectation_wf_def Let_def get_def map_error_Inr plan_number_back expectation_to_mapping_def)
qed

text \<open>An observed value that satisfies two expectations is found by \<open>overlaps\<close>.\<close>

lemma overlaps_complete:
  assumes "expectation_wf a" "expectation_wf b" "expectation_matches a v" "expectation_matches b v"
  shows "overlaps a b"
proof (cases "is_bool (ex_value a) \<or> is_bool (ex_value b) \<or> is_str (ex_value a) \<or> is_str (ex_value b)")
  case True
  then show ?thesis
    using assms(3,4) by (cases "ex_value a"; cases "ex_value b") (auto simp: overlaps_def expectation_matches_def split: option.splits)
next
  case False
  obtain n x where x: "finite_number v = Some n" "finite_number (ex_value a) = Some x" "float_within n x (ex_tolerance a)"
    using assms(3) False by (cases "ex_value a") (auto simp: expectation_matches_def split: option.splits)
  obtain y where y: "finite_number (ex_value b) = Some y" "float_within n y (ex_tolerance b)"
    using assms(4) False x(1) by (cases "ex_value b") (auto simp: expectation_matches_def split: option.splits)
  obtain d c where "binary64 (x - y) = Fin d" "binary64 (ex_tolerance a + ex_tolerance b) = Fin c" "\<bar>d\<bar> < c \<or> isclose \<bar>d\<bar> c"
    using overlap_numbers [OF x(3) y(2)] assms(1,2) unfolding expectation_wf_def by blast
  then show ?thesis using False x(2) y(1) by (simp add: overlaps_def)
qed

section \<open>Poll and unsolicited scenarios\<close>

text \<open>The classes of a poll are empty for an integrity poll and one to three otherwise.\<close>

definition poll_classes_wf :: "string \<Rightarrow> int list \<Rightarrow> bool" where
  "poll_classes_wf t cs \<longleftrightarrow> (if t = ''integrity'' then cs = [] else t = ''class'' \<and> classes_wf cs)"

definition poll_wf :: "poll_scenario \<Rightarrow> bool" where
  "poll_wf s \<longleftrightarrow> identifier_wf (ps_id s) \<and>
     poll_classes_wf (ps_poll_type s) (ps_classes s) \<and> TENTH \<le> ps_timeout s \<and> ps_timeout s \<le> 60 \<and> 1 \<le> ps_max_measurements s \<and> ps_max_measurements s \<le> 10000 \<and>
     0 \<le> ps_minimum_measurements s \<and> ps_minimum_measurements s \<le> ps_max_measurements s \<and> point_ids_wf (ps_expected_point_ids s) \<and> notes_wf (ps_notes s)"

lemma get_Cons: "get ((k, v) # d) k' = (if k = k' then v else get d k')"
  by (simp add: get_def)

lemma get_with_opt: "get (with_opt k f v) k' = (if k = k' then opt_val f v else PNone)"
  by (cases v) (simp_all add: get_def with_opt_def opt_val_def)

lemma keys_with_opt: "map fst (with_opt k f v) = (if v = None then [] else [k])"
  by (cases v) (simp_all add: with_opt_def)

lemma poll_classes_parsed:
  assumes "checked (raise_if (t \<notin> {''integrity'', ''class''}) e) () = Inr u"
    and "(if t = ''integrity'' then checked (raise_if (raw \<noteq> []) e') [] else plan_classes loc v) = Inr cs"
  shows "poll_classes_wf t cs"
  using assms plan_classes_wf by (simp add: poll_classes_wf_def split: if_splits)

lemma plan_poll_wf:
  assumes "plan_poll_scenario i v = Inr s"
  shows "poll_wf s"
  using assms unfolding plan_poll_scenario_def Let_def bindE_eq_Inr
  apply (elim exE conjE)
  subgoal premises p for d t u raw cs
    using p(6-) poll_classes_parsed [OF p(3) p(5)]
    by (auto simp: poll_wf_def plan_number_Inr plan_integer_Inr plan_identifier_Inr plan_point_ids_wf optional_notes_wf)
  done

lemma literals_stripped:
  "stripped 16 ''integrity''" "stripped 16 ''class''" "stripped 32 ''select_and_operate''" "stripped 32 ''direct_operate''"
  by code_simp+

lemma plan_poll_back:
  assumes "poll_wf s"
  shows "plan_poll_scenario i (PDict (poll_to_mapping s)) = Inr s"
proof -
  note wf = assms [unfolded poll_wf_def]
  let ?required = "[''scenario_id'', ''enabled'', ''poll_type'', ''classes'', ''timeout_seconds'', ''max_measurements'',
        ''minimum_measurements'', ''expected_point_ids'']"
  have obj: "plan_object l (PDict (poll_to_mapping s)) ?required [''notes''] = Inr (poll_to_mapping s)" for l
    by (simp add: plan_object_Inr poll_to_mapping_def keys_with_opt)
  have classes: "poll_classes_wf (ps_poll_type s) (ps_classes s)" using wf by blast
  have ty: "plan_text l (PStr (ps_poll_type s)) 16 = Inr (ps_poll_type s)" for l
    by (rule plan_text_back) (use classes literals_stripped(1,2) in \<open>simp add: poll_classes_wf_def split: if_splits\<close>)
  have arr: "plan_array l (PList (map PInt (ps_classes s))) 3 = Inr (map PInt (ps_classes s))" for l
    using classes by (simp add: plan_array_Inr poll_classes_wf_def classes_wf_def split: if_splits)
  have cl: "(if ps_poll_type s = ''integrity'' then checked (raise_if (map PInt (ps_classes s) \<noteq> []) e) []
      else plan_classes l (PList (map PInt (ps_classes s)))) = Inr (ps_classes s)" for e l
    using classes by (simp add: poll_classes_wf_def plan_classes_back split: if_splits)
  have it: "checked (raise_if (ps_poll_type s \<notin> {''integrity'', ''class''}) e) () = Inr ()" for e
    using classes by (simp add: poll_classes_wf_def split: if_splits)
  have bound: "ps_minimum_measurements s \<le> 10000" using wf by linarith
  have g: "get (poll_to_mapping s) ''poll_type'' = PStr (ps_poll_type s)" "get (poll_to_mapping s) ''classes'' = PList (map PInt (ps_classes s))"
    by (simp_all add: poll_to_mapping_def get_Cons)
  show ?thesis
    unfolding plan_poll_scenario_def Let_def obj bindE_Inr g ty it arr cl
    by (simp add: poll_to_mapping_def get_Cons get_with_opt wf bound plan_integer_back plan_identifier_back plan_boolean_back
        plan_number_back plan_point_ids_back optional_notes_back not_less checked_def raise_if_def)
qed

definition unsolicited_wf :: "unsolicited_scenario \<Rightarrow> bool" where
  "unsolicited_wf s \<longleftrightarrow> identifier_wf (us_id s) \<and> classes_wf (us_classes s) \<and> TENTH \<le> us_task_timeout s \<and> us_task_timeout s \<le> 60 \<and>
     TENTH \<le> us_observation_timeout s \<and> us_observation_timeout s \<le> 300 \<and> 1 \<le> us_max_events s \<and> us_max_events s \<le> 256 \<and>
     identifier_wf (us_point_id s) \<and> expectation_wf (us_expectation s) \<and> stripped 2048 (us_trigger s) \<and> notes_wf (us_notes s)"

lemma plan_unsolicited_wf: "plan_unsolicited_scenario i v = Inr s \<Longrightarrow> unsolicited_wf s"
  by (auto simp: plan_unsolicited_scenario_def Let_def bindE_eq_Inr unsolicited_wf_def plan_number_Inr plan_integer_Inr
      dest!: plan_identifier_Inr plan_classes_wf optional_notes_wf plan_expectation_wf plan_text_stripped)

lemma plan_unsolicited_back:
  assumes "unsolicited_wf s"
  shows "plan_unsolicited_scenario i (PDict (unsolicited_to_mapping s)) = Inr s"
proof -
  note wf = assms [unfolded unsolicited_wf_def]
  have obj: "plan_object l (PDict (unsolicited_to_mapping s)) [''scenario_id'', ''enabled'', ''classes'', ''task_timeout_seconds'',
      ''observation_timeout_seconds'', ''max_events_per_read'', ''expected_point_id'', ''expectation'', ''require_timestamp'', ''trigger_instructions'']
      [''notes''] = Inr (unsolicited_to_mapping s)" for l
    by (simp add: plan_object_Inr unsolicited_to_mapping_def keys_with_opt)
  show ?thesis
    unfolding plan_unsolicited_scenario_def Let_def obj bindE_Inr
    by (simp add: unsolicited_to_mapping_def get_Cons get_with_opt wf plan_integer_back plan_identifier_back plan_boolean_back plan_classes_back
        plan_number_back plan_expectation_back plan_text_back optional_notes_back)
qed

section \<open>Commands\<close>

definition command_wf :: "control_command \<Rightarrow> bool" where
  "command_wf c \<longleftrightarrow> ck_type c \<in> set COMMAND_TYPES \<and> 0 \<le> ck_index c \<and> ck_index c \<le> 65535 \<and> (\<exists>s. to_command c = Inr s) \<and>
     (if ck_type c = ''crob''
      then ck_operation c \<noteq> Some ''null'' \<and> ck_value c = None
      else ck_operation c = None \<and> ck_trip_close c = None \<and> ck_clear c = None \<and> ck_count c = None \<and> ck_on_time_ms c = None \<and> ck_off_time_ms c = None)"

lemma to_command_crob:
  assumes "ck_type c = ''crob''" "to_command c = Inr s"
  obtains operation trip_close clear n on off where "ck_operation c = Some operation" "ck_trip_close c = Some trip_close" "ck_clear c = Some clear"
    "ck_count c = Some n" "ck_on_time_ms c = Some on" "ck_off_time_ms c = Some off"
    "operation \<in> set CROB_OPERATIONS" "trip_close \<in> set TRIP_CLOSE_SELECTIONS" "1 \<le> n" "n \<le> 255" "0 \<le> on" "on \<le> 4294967295" "0 \<le> off" "off \<le> 4294967295"
  using assms by (auto simp: to_command_def CrobCommand_def bindE_eq_Inr unsigned_integer_def split: option.splits)

lemma to_command_analog:
  assumes "ck_type c \<noteq> ''crob''" "to_command c = Inr s"
  obtains v where "ck_value c = Some v" "is_number v"
proof -
  obtain v where v: "ck_value c = Some v" "ck_type c \<in> set ANALOG_COMMAND_TYPES" "analog_value_check (ck_type c) v = None"
    using assms by (auto simp: to_command_def AnalogOutputCommand_def bindE_eq_Inr split: option.splits)
  then have "is_number v"
    using finite_number_float_of by (auto simp: ANALOG_COMMAND_TYPES_def analog_value_checks)
  then show ?thesis using that v(1) by blast
qed

lemma plan_command_wf: "plan_control_command loc v = Inr c \<Longrightarrow> command_wf c"
  by (auto simp: plan_control_command_def Let_def bindE_eq_Inr map_error_Inr command_wf_def plan_crob_def plan_analog_def plan_integer_Inr split: if_splits)

lemma crob_texts: "list_all (stripped 16) CROB_OPERATIONS" "list_all (stripped 16) TRIP_CLOSE_SELECTIONS"
  by code_simp+

lemma plan_command_back:
  assumes "command_wf c"
  shows "plan_control_command loc (PDict (command_to_mapping c)) = Inr c"
proof -
  note wf = assms [unfolded command_wf_def]
  obtain s where s: "to_command c = Inr s" using wf by blast
  have ty: "get (command_to_mapping c) ''type'' = PStr (ck_type c)" by (simp add: command_to_mapping_def get_def)
  have "(if ck_type c = ''crob'' then plan_crob loc (PDict (command_to_mapping c)) else plan_analog loc (ck_type c) (PDict (command_to_mapping c))) = Inr c"
  proof (cases "ck_type c = ''crob''")
    case True
    from to_command_crob [OF True s] obtain operation trip_close clear n on off where
      parts: "ck_operation c = Some operation" "ck_trip_close c = Some trip_close" "ck_clear c = Some clear"
        "ck_count c = Some n" "ck_on_time_ms c = Some on" "ck_off_time_ms c = Some off"
      and ok: "operation \<in> set CROB_OPERATIONS" "trip_close \<in> set TRIP_CLOSE_SELECTIONS" "1 \<le> n" "n \<le> 255" "0 \<le> on" "on \<le> 4294967295" "0 \<le> off" "off \<le> 4294967295" .
    have "stripped 16 operation" "stripped 16 trip_close" using crob_texts ok(1,2) by (auto simp: list_all_iff)
    moreover have "operation \<noteq> ''null''" "ck_value c = None" using wf True parts(1) by auto
    moreover have "plan_object loc (PDict (command_to_mapping c)) [''type'', ''index'', ''operation'', ''trip_close'', ''clear'', ''count'', ''on_time_ms'', ''off_time_ms''] []
        = Inr (command_to_mapping c)" using True by (simp add: plan_object_Inr command_to_mapping_def)
    ultimately show ?thesis
      using True parts ok(3-) wf
      by (simp add: plan_crob_def) (simp add: command_to_mapping_def get_Cons opt_val_def plan_integer_back plan_text_back plan_boolean_back)
  next
    case False
    obtain v where v: "ck_value c = Some v" "is_number v" by (rule to_command_analog [OF False s])
    have "plan_object loc (PDict (command_to_mapping c)) [''type'', ''index'', ''value''] [] = Inr (command_to_mapping c)"
      using False by (simp add: plan_object_Inr command_to_mapping_def)
    then show ?thesis
      using False v wf
      by (simp add: plan_analog_def) (simp add: command_to_mapping_def get_Cons opt_val_def plan_integer_back)
  qed
  then have "bindE (if ck_type c = ''crob'' then plan_crob loc (PDict (command_to_mapping c)) else plan_analog loc (ck_type c) (PDict (command_to_mapping c))) f = f c"
    for f :: "control_command \<Rightarrow> plan_exc + control_command" by (simp only: bindE_Inr)
  then show ?thesis using wf s unfolding plan_control_command_def Let_def as_dict.simps ty as_str.simps by (simp add: map_error_def split del: if_split)
qed

section \<open>Control scenarios\<close>

text \<open>What a scenario of the LAB environment needs in addition: a way back that is different from the command, and a check before and after.\<close>

definition lab_wf :: "control_scenario \<Rightarrow> bool" where
  "lab_wf s \<longleftrightarrow> cs_authorization s \<noteq> None \<and> cs_precondition s \<noteq> None \<and> cs_restore_command s \<noteq> None \<and> cs_restore_expectation s \<noteq> None \<and>
     (cs_enabled s \<longrightarrow> \<not> is_placeholder (the (cs_authorization s))) \<and>
     \<not> py_eq (PDict (command_to_mapping (cs_command s))) (PDict (command_to_mapping (the (cs_restore_command s)))) \<and>
     py_eq (PDict (expectation_to_mapping (the (cs_precondition s)))) (PDict (expectation_to_mapping (the (cs_restore_expectation s)))) \<and>
     \<not> overlaps (the (cs_precondition s)) (cs_postcondition s)"

definition control_wf :: "string \<Rightarrow> control_scenario \<Rightarrow> bool" where
  "control_wf environment s \<longleftrightarrow> cs_environment s = environment \<and> identifier_wf (cs_id s) \<and> pred_option (stripped 512) (cs_authorization s) \<and>
     cs_mode s \<in> {''select_and_operate'', ''direct_operate''} \<and> command_wf (cs_command s) \<and>
     pred_option (\<lambda>r. command_wf r \<and> ck_type r = ck_type (cs_command s) \<and> ck_index r = ck_index (cs_command s)) (cs_restore_command s) \<and>
     identifier_wf (cs_feedback_point_id s) \<and> pred_option expectation_wf (cs_precondition s) \<and> expectation_wf (cs_postcondition s) \<and>
     pred_option expectation_wf (cs_restore_expectation s) \<and> (cs_restore_command s = None \<longleftrightarrow> cs_restore_expectation s = None) \<and>
     TENTH \<le> cs_command_timeout s \<and> cs_command_timeout s \<le> 60 \<and> TENTH \<le> cs_feedback_timeout s \<and> cs_feedback_timeout s \<le> 300 \<and>
     TWENTIETH \<le> cs_poll_interval s \<and> cs_poll_interval s \<le> 10 \<and> cs_poll_interval s \<le> cs_feedback_timeout s \<and> notes_wf (cs_notes s) \<and>
     (environment \<noteq> ''SIMULATOR'' \<longrightarrow> lab_wf s)"

lemma if_present_pred: "if_present d k f = Inr r \<Longrightarrow> (\<And>v x. f v = Inr x \<Longrightarrow> P x) \<Longrightarrow> pred_option P r \<and> (r = None \<longleftrightarrow> map_of d k = None)"
  by (auto simp: if_present_Inr split: option.splits)

lemma control_identity_Inr:
  assumes "control_identity loc sim d = Inr (i, en, a)"
  shows "identifier_wf i" "pred_option (stripped 512) a" "a = None \<longleftrightarrow> map_of d ''authorization_reference'' = None"
    "\<not> sim \<Longrightarrow> en \<Longrightarrow> \<not> is_placeholder (the a)"
proof -
  have parts: "plan_identifier (loc @ ''.scenario_id'') (get d ''scenario_id'') = Inr i"
      "if_present d ''authorization_reference'' (\<lambda>v. plan_text (loc @ ''.authorization_reference'') v 512) = Inr a"
      "\<not> (\<not> sim \<and> en \<and> is_placeholder (the a))"
    using assms by (auto simp: control_identity_def bindE_eq_Inr)
  show "identifier_wf i" using parts(1) by (rule plan_identifier_Inr)
  show "pred_option (stripped 512) a" "a = None \<longleftrightarrow> map_of d ''authorization_reference'' = None"
    using if_present_pred [OF parts(2), of "stripped 512"] plan_text_stripped by blast+
  show "\<not> sim \<Longrightarrow> en \<Longrightarrow> \<not> is_placeholder (the a)" using parts(3) by blast
qed

lemma control_commands_Inr:
  assumes "control_commands loc sim d = Inr (m, c, r)"
  shows "m \<in> {''select_and_operate'', ''direct_operate''}" "command_wf c"
    "pred_option (\<lambda>r. command_wf r \<and> ck_type r = ck_type c \<and> ck_index r = ck_index c) r" "r = None \<longleftrightarrow> map_of d ''restore_command'' = None"
    "\<not> sim \<Longrightarrow> \<not> py_eq (PDict (command_to_mapping c)) (PDict (command_to_mapping (the r)))"
proof -
  have "(m \<in> {''select_and_operate'', ''direct_operate''}) \<and>
      (plan_control_command (loc @ ''.command'') (get d ''command'') = Inr c) \<and>
      (if_present d ''restore_command'' (plan_control_command (loc @ ''.restore_command'')) = Inr r) \<and>
      (\<not> (\<exists>r' \<in> set_option r. ck_type c \<noteq> ck_type r' \<or> ck_index c \<noteq> ck_index r')) \<and>
      (\<not> (\<not> sim \<and> py_eq (PDict (command_to_mapping c)) (PDict (command_to_mapping (the r)))))"
    using assms unfolding control_commands_def bindE_eq_Inr checked_Inr first_error_Cons_None raise_if_None prod.inject not_not by (elim exE conjE) simp
  note parts = this [THEN conjunct1] this [THEN conjunct2, THEN conjunct1] this [THEN conjunct2, THEN conjunct2, THEN conjunct1] this [THEN conjunct2, THEN conjunct2, THEN conjunct2, THEN conjunct1] this [THEN conjunct2, THEN conjunct2, THEN conjunct2, THEN conjunct2]
  show "m \<in> {''select_and_operate'', ''direct_operate''}" "command_wf c" using parts(1,2) plan_command_wf by blast+
  show "pred_option (\<lambda>r. command_wf r \<and> ck_type r = ck_type c \<and> ck_index r = ck_index c) r" "r = None \<longleftrightarrow> map_of d ''restore_command'' = None"
    using if_present_pred [OF parts(3), of command_wf] plan_command_wf parts(4) by (cases r; simp)+
  show "\<not> sim \<Longrightarrow> \<not> py_eq (PDict (command_to_mapping c)) (PDict (command_to_mapping (the r)))" using parts(5) by blast
qed

lemma control_expectations_Inr:
  assumes "control_expectations loc sim d r = Inr (pre, post, re)"
  shows "pred_option expectation_wf pre" "pre = None \<longleftrightarrow> map_of d ''precondition'' = None" "expectation_wf post" "pred_option expectation_wf re"
    "re = None \<longleftrightarrow> map_of d ''restore_expectation'' = None" "r = None \<longleftrightarrow> re = None"
    "\<not> sim \<Longrightarrow> py_eq (PDict (expectation_to_mapping (the pre))) (PDict (expectation_to_mapping (the re))) \<and> \<not> overlaps (the pre) post"
proof -
  have "(if_present d ''precondition'' (plan_expectation (loc @ ''.precondition'')) = Inr pre) \<and>
      (plan_expectation (loc @ ''.postcondition'') (get d ''postcondition'') = Inr post) \<and>
      (if_present d ''restore_expectation'' (plan_expectation (loc @ ''.restore_expectation'')) = Inr re) \<and>
      (\<not> ((r = None) \<noteq> (re = None))) \<and>
      (\<not> (\<not> sim \<and> \<not> py_eq (PDict (expectation_to_mapping (the pre))) (PDict (expectation_to_mapping (the re))))) \<and>
      (\<not> (\<not> sim \<and> overlaps (the pre) post))"
    using assms unfolding control_expectations_def bindE_eq_Inr checked_Inr first_error_Cons_None raise_if_None prod.inject not_not by (elim exE conjE) simp
  note parts = this [THEN conjunct1] this [THEN conjunct2, THEN conjunct1] this [THEN conjunct2, THEN conjunct2, THEN conjunct1] this [THEN conjunct2, THEN conjunct2, THEN conjunct2, THEN conjunct1] this [THEN conjunct2, THEN conjunct2, THEN conjunct2, THEN conjunct2, THEN conjunct1] this [THEN conjunct2, THEN conjunct2, THEN conjunct2, THEN conjunct2, THEN conjunct2]
  show "pred_option expectation_wf pre" "pre = None \<longleftrightarrow> map_of d ''precondition'' = None" using if_present_pred [OF parts(1), of expectation_wf] plan_expectation_wf by blast+
  show "expectation_wf post" using parts(2) by (rule plan_expectation_wf)
  show "pred_option expectation_wf re" "re = None \<longleftrightarrow> map_of d ''restore_expectation'' = None" using if_present_pred [OF parts(3), of expectation_wf] plan_expectation_wf by blast+
  show "r = None \<longleftrightarrow> re = None" using parts(4) by blast
  show "\<not> sim \<Longrightarrow> py_eq (PDict (expectation_to_mapping (the pre))) (PDict (expectation_to_mapping (the re))) \<and> \<not> overlaps (the pre) post"
    using parts(5,6) by blast
qed

lemma control_feedback_times_Inr: "control_feedback_times loc d = Inr (t, p) \<longleftrightarrow>
    finite_number (get d ''feedback_timeout_seconds'') = Some t \<and> finite_number (get d ''feedback_poll_interval_seconds'') = Some p \<and>
    TENTH \<le> t \<and> t \<le> 300 \<and> TWENTIETH \<le> p \<and> p \<le> 10 \<and> p \<le> t"
  by (auto simp: control_feedback_times_def bindE_eq_Inr plan_number_Inr)

lemma plan_control_wf:
  assumes "plan_control_scenario environment i v = Inr s"
  shows "control_wf environment s"
proof -
  let ?sim = "environment = ''SIMULATOR''" and ?loc = "at_index ''control_scenarios'' i"
  obtain d sid en a m c r pre post re ft pi fp ct n where
    d: "plan_object ?loc v (CONTROL_FIELDS @ (if ?sim then [] else LAB_FIELDS)) (''notes'' # (if ?sim then LAB_FIELDS else [])) = Inr d"
    and ids: "control_identity ?loc ?sim d = Inr (sid, en, a)" and cmds: "control_commands ?loc ?sim d = Inr (m, c, r)"
    and exps: "control_expectations ?loc ?sim d r = Inr (pre, post, re)" and times: "control_feedback_times ?loc d = Inr (ft, pi)"
    and fp: "plan_identifier (?loc @ ''.feedback_point_id'') (get d ''feedback_point_id'') = Inr fp"
    and ct: "plan_number (?loc @ ''.command_timeout_seconds'') (get d ''command_timeout_seconds'') TENTH 60 = Inr ct"
    and n: "optional_notes (?loc @ ''.notes'') (get d ''notes'') = Inr n"
    and s: "s = \<lparr>cs_id = sid, cs_enabled = en, cs_authorization = a, cs_mode = m, cs_command = c,
           cs_feedback_point_id = fp, cs_precondition = pre, cs_postcondition = post,
           cs_restore_command = r, cs_restore_expectation = re, cs_command_timeout = ct,
           cs_feedback_timeout = ft, cs_poll_interval = pi, cs_notes = n, cs_environment = environment\<rparr>"
    using assms unfolding plan_control_scenario_def Let_def bindE_eq_Inr split_paired_Ex prod.case by blast
  have "lab_wf s" if "\<not> ?sim"
  proof -
    have "\<forall>k \<in> set LAB_FIELDS. map_of d k \<noteq> None" using d that by (simp add: plan_object_Inr)
    then show ?thesis
      using that control_identity_Inr(3,4) [OF ids] control_commands_Inr(4,5) [OF cmds] control_expectations_Inr(2,5,7) [OF exps]
      by (simp add: lab_wf_def s LAB_FIELDS_def)
  qed
  then have "environment \<noteq> ''SIMULATOR'' \<longrightarrow> lab_wf s" by blast
  then show ?thesis
    using control_identity_Inr(1,2) [OF ids] control_commands_Inr(1-3) [OF cmds] control_expectations_Inr(1,3,4,6) [OF exps] times
      plan_identifier_Inr [OF fp] ct optional_notes_wf [OF n]
    unfolding control_wf_def control_feedback_times_Inr plan_number_Inr unfolding s by (simp only: control_scenario.simps simp_thms)
qed

lemma get_with_opt_append: "get (with_opt k f v @ d) k' = (if k = k' \<and> v \<noteq> None then f (the v) else get d k')"
  by (cases v) (simp_all add: get_def with_opt_def)

lemma if_present_back:
  assumes "map_of d k = map_option g v" "pred_option P v" "\<And>x. P x \<Longrightarrow> f (g x) = Inr x"
  shows "if_present d k f = Inr v"
  using assms by (cases v) (simp_all add: if_present_def)

lemma map_of_with_opt: "map_of (with_opt k f v) k' = (if k = k' then map_option f v else None)"
  by (cases v) (simp_all add: with_opt_def)

lemma control_mapping_opt:
  "map_of (control_to_mapping s) ''authorization_reference'' = map_option PStr (cs_authorization s)"
  "map_of (control_to_mapping s) ''precondition'' = map_option (PDict \<circ> expectation_to_mapping) (cs_precondition s)"
  "map_of (control_to_mapping s) ''restore_command'' = map_option (PDict \<circ> command_to_mapping) (cs_restore_command s)"
  "map_of (control_to_mapping s) ''restore_expectation'' = map_option (PDict \<circ> expectation_to_mapping) (cs_restore_expectation s)"
  by (simp_all add: control_to_mapping_def map_add_def map_of_with_opt split: option.split)

lemma control_mapping_get:
  "get (control_to_mapping s) ''scenario_id'' = PStr (cs_id s)" "get (control_to_mapping s) ''enabled'' = PBool (cs_enabled s)"
  "get (control_to_mapping s) ''control_mode'' = PStr (cs_mode s)" "get (control_to_mapping s) ''command'' = PDict (command_to_mapping (cs_command s))"
  "get (control_to_mapping s) ''feedback_point_id'' = PStr (cs_feedback_point_id s)"
  "get (control_to_mapping s) ''postcondition'' = PDict (expectation_to_mapping (cs_postcondition s))"
  "get (control_to_mapping s) ''command_timeout_seconds'' = PFloat (Fin (cs_command_timeout s))"
  "get (control_to_mapping s) ''feedback_timeout_seconds'' = PFloat (Fin (cs_feedback_timeout s))"
  "get (control_to_mapping s) ''feedback_poll_interval_seconds'' = PFloat (Fin (cs_poll_interval s))"
  "get (control_to_mapping s) ''notes'' = opt_val PStr (cs_notes s)"
  by (simp_all add: control_to_mapping_def get_Cons get_with_opt_append get_with_opt)

lemma control_object_back:
  assumes "environment \<noteq> ''SIMULATOR'' \<longrightarrow> lab_wf s"
  shows "plan_object loc (PDict (control_to_mapping s)) (CONTROL_FIELDS @ (if environment = ''SIMULATOR'' then [] else LAB_FIELDS))
    (''notes'' # (if environment = ''SIMULATOR'' then LAB_FIELDS else [])) = Inr (control_to_mapping s)"
proof -
  have keys: "set (map fst (control_to_mapping s)) \<subseteq> set (CONTROL_FIELDS @ LAB_FIELDS @ [''notes''])"
    by (simp add: control_to_mapping_def keys_with_opt CONTROL_FIELDS_def LAB_FIELDS_def)
  have "\<forall>k \<in> set CONTROL_FIELDS. map_of (control_to_mapping s) k \<noteq> None" by (simp add: control_to_mapping_def CONTROL_FIELDS_def)
  moreover have "\<forall>k \<in> set LAB_FIELDS. map_of (control_to_mapping s) k \<noteq> None" if "lab_wf s"
    using that by (simp add: LAB_FIELDS_def control_mapping_opt lab_wf_def)
  ultimately show ?thesis using assms keys unfolding plan_object_Inr by auto
qed

lemma control_identity_back:
  assumes "control_wf environment s"
  shows "control_identity loc (environment = ''SIMULATOR'') (control_to_mapping s) = Inr (cs_id s, cs_enabled s, cs_authorization s)"
proof -
  note wf = assms [unfolded control_wf_def]
  have "if_present (control_to_mapping s) ''authorization_reference'' (\<lambda>v. plan_text (loc @ ''.authorization_reference'') v 512) = Inr (cs_authorization s)"
    by (rule if_present_back [OF control_mapping_opt(1)]) (use wf plan_text_back in blast)+
  moreover have "\<not> (environment \<noteq> ''SIMULATOR'' \<and> cs_enabled s \<and> is_placeholder (the (cs_authorization s)))" using wf unfolding lab_wf_def by blast
  ultimately show ?thesis using wf unfolding control_identity_def by (simp add: control_mapping_get plan_identifier_back plan_boolean_back)
qed

lemma control_commands_back:
  assumes "control_wf environment s"
  shows "control_commands loc (environment = ''SIMULATOR'') (control_to_mapping s) = Inr (cs_mode s, cs_command s, cs_restore_command s)"
proof -
  note wf = assms [unfolded control_wf_def]
  have restore: "if_present (control_to_mapping s) ''restore_command'' (plan_control_command (loc @ ''.restore_command'')) = Inr (cs_restore_command s)"
    by (rule if_present_back [OF control_mapping_opt(3), where P = command_wf]) (use wf plan_command_back in \<open>auto intro: option.pred_mono_strong\<close>)
  have mode: "plan_text l (PStr (cs_mode s)) 32 = Inr (cs_mode s)" for l by (rule plan_text_back) (use wf literals_stripped(3,4) in auto)
  have command: "plan_control_command l (PDict (command_to_mapping (cs_command s))) = Inr (cs_command s)" for l using wf plan_command_back by blast
  have same: "\<not> (\<exists>r \<in> set_option (cs_restore_command s). ck_type (cs_command s) \<noteq> ck_type r \<or> ck_index (cs_command s) \<noteq> ck_index r)"
    using wf by (cases "cs_restore_command s") auto
  have known: "\<not> cs_mode s \<notin> {''select_and_operate'', ''direct_operate''}" using wf by blast
  have differ: "\<not> (environment \<noteq> ''SIMULATOR'' \<and> py_eq (PDict (command_to_mapping (cs_command s))) (PDict (command_to_mapping (the (cs_restore_command s)))))"
    using wf unfolding lab_wf_def by blast
  show ?thesis
    unfolding control_commands_def control_mapping_get mode restore command bindE_Inr raise_if_def checked_def first_error.simps
    using known same differ by (simp only: if_False option.case bindE_Inr)
qed

lemma control_expectations_back:
  assumes "control_wf environment s"
  shows "control_expectations loc (environment = ''SIMULATOR'') (control_to_mapping s) (cs_restore_command s) =
    Inr (cs_precondition s, cs_postcondition s, cs_restore_expectation s)"
proof -
  note wf = assms [unfolded control_wf_def]
  have present: "if_present (control_to_mapping s) ''precondition'' (plan_expectation l) = Inr (cs_precondition s)"
    "if_present (control_to_mapping s) ''restore_expectation'' (plan_expectation l) = Inr (cs_restore_expectation s)" for l
  proof -
    have pre: "pred_option expectation_wf (cs_precondition s)" "pred_option expectation_wf (cs_restore_expectation s)" using wf by blast+
    show "if_present (control_to_mapping s) ''precondition'' (plan_expectation l) = Inr (cs_precondition s)"
      by (rule if_present_back [OF control_mapping_opt(2) pre(1)]) (simp add: plan_expectation_back)
    show "if_present (control_to_mapping s) ''restore_expectation'' (plan_expectation l) = Inr (cs_restore_expectation s)"
      by (rule if_present_back [OF control_mapping_opt(4) pre(2)]) (simp add: plan_expectation_back)
  qed
  have post: "plan_expectation l (PDict (expectation_to_mapping (cs_postcondition s))) = Inr (cs_postcondition s)" for l using wf plan_expectation_back by blast
  have "\<not> ((cs_restore_command s = None) \<noteq> (cs_restore_expectation s = None))" using wf by blast
  moreover have "\<not> (environment \<noteq> ''SIMULATOR'' \<and> \<not> py_eq (PDict (expectation_to_mapping (the (cs_precondition s)))) (PDict (expectation_to_mapping (the (cs_restore_expectation s)))))"
    "\<not> (environment \<noteq> ''SIMULATOR'' \<and> overlaps (the (cs_precondition s)) (cs_postcondition s))" using wf unfolding lab_wf_def by blast+
  ultimately show ?thesis
    unfolding control_expectations_def control_mapping_get present post bindE_Inr raise_if_def checked_def first_error.simps by (simp only: if_False option.case)
qed

lemma plan_control_back:
  assumes "control_wf environment s"
  shows "plan_control_scenario environment i (PDict (control_to_mapping s)) = Inr s"
proof -
  note wf = assms [unfolded control_wf_def]
  let ?loc = "at_index ''control_scenarios'' i"
  have times: "control_feedback_times ?loc (control_to_mapping s) = Inr (cs_feedback_timeout s, cs_poll_interval s)"
    using wf by (simp add: control_feedback_times_Inr control_mapping_get)
  have rest: "plan_identifier l (PStr (cs_feedback_point_id s)) = Inr (cs_feedback_point_id s)" "optional_notes l (opt_val PStr (cs_notes s)) = Inr (cs_notes s)"
    "plan_number l (PFloat (Fin (cs_command_timeout s))) TENTH 60 = Inr (cs_command_timeout s)" for l
    using wf plan_identifier_back optional_notes_back plan_number_back by blast+
  have lab: "environment \<noteq> ''SIMULATOR'' \<longrightarrow> lab_wf s" and env: "environment = cs_environment s" using wf by blast+
  show ?thesis
    unfolding plan_control_scenario_def Let_def control_object_back [OF lab] control_identity_back [OF assms] control_commands_back [OF assms]
      control_expectations_back [OF assms] times control_mapping_get rest bindE_Inr prod.case by (simp add: env)
qed

section \<open>Plans\<close>

definition plan_ok :: "point list \<Rightarrow> test_plan \<Rightarrow> bool" where
  "plan_ok table plan \<longleftrightarrow> tp_environment plan \<in> {''LAB'', ''SIMULATOR''} \<and> length (tp_polls plan) \<le> MAX_SCENARIOS_PER_KIND \<and>
     length (tp_unsolicited plan) \<le> MAX_SCENARIOS_PER_KIND \<and> length (tp_controls plan) \<le> MAX_SCENARIOS_PER_KIND \<and>
     list_all poll_wf (tp_polls plan) \<and> list_all unsolicited_wf (tp_unsolicited plan) \<and> list_all (control_wf (tp_environment plan)) (tp_controls plan) \<and>
     distinct (map ascii_lower (map ps_id (tp_polls plan) @ map us_id (tp_unsolicited plan) @ map cs_id (tp_controls plan))) \<and>
     validate_point_references table (tp_polls plan) (tp_unsolicited plan) (tp_controls plan) = None \<and> notes_wf (tp_notes plan)"

lemma environment_parsed:
  "checked (raise_if (v \<notin> {PStr ''LAB'', PStr ''SIMULATOR''}) e) () = Inr u \<Longrightarrow> as_str v \<in> {''LAB'', ''SIMULATOR''}"
  by (cases v) simp_all

lemma checked_two: "checked (first_error [raise_if b e, c]) () = Inr u \<Longrightarrow> \<not> b \<and> c = None"
  by simp

lemma plan_from_document_ok:
  assumes "plan_from_document table document = Inr plan"
  shows "plan_ok table plan"
  using assms unfolding plan_from_document_def Let_def bindE_eq_Inr
  apply (elim exE conjE)
  subgoal premises p for root u1 u2 polls_raw unsolicited_raw controls_raw polls unsolicited controls u3 remark
  proof -
    have "length polls \<le> MAX_SCENARIOS_PER_KIND" "length unsolicited \<le> MAX_SCENARIOS_PER_KIND" "length controls \<le> MAX_SCENARIOS_PER_KIND"
      using p(4-9) by (simp_all add: plan_array_Inr mapE_indexed_Inr)
    moreover note environment_parsed [OF p(3)] mapE_indexed_all [OF p(7) plan_poll_wf] mapE_indexed_all [OF p(8) plan_unsolicited_wf]
      mapE_indexed_all [OF p(9) plan_control_wf] checked_two [OF p(10)] optional_notes_wf [OF p(11)]
    ultimately show ?thesis unfolding plan_ok_def p(12) [unfolded sum.inject, symmetric] by (simp only: test_plan.simps simp_thms not_not)
  qed
  done

lemma plan_back:
  assumes "plan_ok table plan"
  shows "plan_from_document table (PDict (plan_to_mapping plan)) = Inr plan"
proof -
  note ok = assms [unfolded plan_ok_def]
  let ?d = "plan_to_mapping plan"
  have obj: "plan_object ''$'' (PDict ?d) [''schema_version'', ''poll_scenarios'', ''unsolicited_scenarios'', ''control_scenarios''] [''notes'', ''environment''] = Inr ?d"
    by (simp add: plan_object_Inr plan_to_mapping_def keys_with_opt)
  have env: "(case map_of ?d ''environment'' of None \<Rightarrow> PStr ''LAB'' | Some v \<Rightarrow> v) = PStr (tp_environment plan)"
    by (cases "tp_notes plan") (simp_all add: plan_to_mapping_def with_opt_def)
  have known: "checked (raise_if (PStr (tp_environment plan) \<notin> {PStr ''LAB'', PStr ''SIMULATOR''}) e) () = Inr ()" for e
    using ok by simp
  have fields: "get ?d ''schema_version'' = PInt 1" "get ?d ''poll_scenarios'' = PList (map (PDict \<circ> poll_to_mapping) (tp_polls plan))"
    "get ?d ''unsolicited_scenarios'' = PList (map (PDict \<circ> unsolicited_to_mapping) (tp_unsolicited plan))"
    "get ?d ''control_scenarios'' = PList (map (PDict \<circ> control_to_mapping) (tp_controls plan))"
    "get ?d ''notes'' = opt_val PStr (tp_notes plan)"
    by (cases "tp_notes plan"; simp add: plan_to_mapping_def get_def with_opt_def opt_val_def)+
  have arrays: "plan_array l (PList (map (PDict \<circ> poll_to_mapping) (tp_polls plan))) MAX_SCENARIOS_PER_KIND = Inr (map (PDict \<circ> poll_to_mapping) (tp_polls plan))"
    "plan_array l (PList (map (PDict \<circ> unsolicited_to_mapping) (tp_unsolicited plan))) MAX_SCENARIOS_PER_KIND = Inr (map (PDict \<circ> unsolicited_to_mapping) (tp_unsolicited plan))"
    "plan_array l (PList (map (PDict \<circ> control_to_mapping) (tp_controls plan))) MAX_SCENARIOS_PER_KIND = Inr (map (PDict \<circ> control_to_mapping) (tp_controls plan))" for l
    using ok by (simp_all add: plan_array_Inr)
  have "mapE_indexed plan_poll_scenario (map (PDict \<circ> poll_to_mapping) (tp_polls plan)) = Inr (tp_polls plan)"
    by (rule mapE_indexed_back [where P = poll_wf]) (use ok in \<open>simp_all add: plan_poll_back\<close>)
  moreover have "mapE_indexed plan_unsolicited_scenario (map (PDict \<circ> unsolicited_to_mapping) (tp_unsolicited plan)) = Inr (tp_unsolicited plan)"
    by (rule mapE_indexed_back [where P = unsolicited_wf]) (use ok in \<open>simp_all add: plan_unsolicited_back\<close>)
  moreover have "mapE_indexed (plan_control_scenario (tp_environment plan)) (map (PDict \<circ> control_to_mapping) (tp_controls plan)) = Inr (tp_controls plan)"
    by (rule mapE_indexed_back [where P = "control_wf (tp_environment plan)"]) (use ok in \<open>simp_all add: plan_control_back\<close>)
  moreover have "optional_notes ''$.notes'' (opt_val PStr (tp_notes plan)) = Inr (tp_notes plan)" using ok optional_notes_back by blast
  ultimately show ?thesis
    unfolding plan_from_document_def Let_def obj bindE_Inr env known fields arrays as_str.simps
    using ok by (simp add: checked_def raise_if_def first_error.simps del: map_map map_append)
qed

lemma load_plan_ok: "load_ems_test_plan file table = Inr plan \<Longrightarrow> plan_ok table plan"
  by (auto simp: load_ems_test_plan_def Let_def split: plan_file.splits if_splits sum.splits json_exc.splits intro: plan_from_document_ok)


end
