(* ===== verification/EmsPlanTheorems.thy ===== *)
theory EmsPlanTheorems
  imports EmsPlanFacts
begin

text \<open>The theorems on test plans: the overlap of expectations, the safety of laboratory controls, reloading a plan, and the exceptions that escape.\<close>

section \<open>Comparing mappings\<close>

lemma py_eq_field:
  assumes "py_eq (PDict a) (PDict b)"
  shows "map_option (number_norm \<circ> sort_keys) (map_of a k) = map_option (number_norm \<circ> sort_keys) (map_of b k)"
proof -
  have field: "map_of (map (\<lambda>(k, v). (k, number_norm v)) (sorted_dict d)) k = map_option (number_norm \<circ> sort_keys) (map_of d k)" for d
    by (simp add: map_of_map option.map_comp)
  have "map (\<lambda>(k, v). (k, number_norm v)) (sorted_dict a) = map (\<lambda>(k, v). (k, number_norm v)) (sorted_dict b)" using assms by (simp add: py_eq_def sorted_dict_def)
  then show ?thesis using field [of a] field [of b] by simp
qed

lemma py_eq_expectations:
  assumes "py_eq (PDict (expectation_to_mapping a)) (PDict (expectation_to_mapping b))"
  shows "py_eq (ex_value a) (ex_value b)" "ex_tolerance a = ex_tolerance b"
  using py_eq_field [OF assms, of "''value''"] py_eq_field [OF assms, of "''absolute_tolerance''"]
  by (simp_all add: expectation_to_mapping_def py_eq_def)

lemma to_command_inj:
  assumes "command_wf c" "command_wf d" "to_command c = to_command d"
  shows "command_to_mapping c = command_to_mapping d"
proof -
  obtain s where s: "to_command c = Inr s" "to_command d = Inr s" using assms by (auto simp: command_wf_def)
  show ?thesis
  proof (cases "ck_type c = ''crob''")
    case True
    then have "\<exists>k. s = Sent_Crob k" using s(1) by (auto simp: to_command_def bindE_eq_Inr split: option.splits)
    then have d: "ck_type d = ''crob''" using s(2) by (auto simp: to_command_def bindE_eq_Inr split: option.splits if_splits)
    obtain o1 t1 c1 n1 a1 b1 where c: "ck_operation c = Some o1" "ck_trip_close c = Some t1" "ck_clear c = Some c1" "ck_count c = Some n1"
      "ck_on_time_ms c = Some a1" "ck_off_time_ms c = Some b1" using to_command_crob [OF True s(1)] by metis
    obtain o2 t2 c2 n2 a2 b2 where d': "ck_operation d = Some o2" "ck_trip_close d = Some t2" "ck_clear d = Some c2" "ck_count d = Some n2"
      "ck_on_time_ms d = Some a2" "ck_off_time_ms d = Some b2" using to_command_crob [OF d s(2)] by metis
    show ?thesis using s True d c d' by (auto simp: to_command_def bindE_eq_Inr CrobCommand_def command_to_mapping_def opt_val_def)
  next
    case False
    then have "\<exists>k. s = Sent_Analog k" using s(1) by (auto simp: to_command_def bindE_eq_Inr split: option.splits)
    then have d: "ck_type d \<noteq> ''crob''" using s(2) by (auto simp: to_command_def bindE_eq_Inr split: option.splits if_splits)
    obtain v where v: "ck_value c = Some v" using to_command_analog [OF False s(1)] .
    obtain w where w: "ck_value d = Some w" using to_command_analog [OF d s(2)] .
    show ?thesis using s False d v w by (auto simp: to_command_def bindE_eq_Inr AnalogOutputCommand_def command_to_mapping_def opt_val_def)
  qed
qed

lemma control_point:
  assumes "plan_ok table plan" "s \<in> set (tp_controls plan)"
  obtains p loc where "by_id table (cs_feedback_point_id s) = Some p" "pt_enabled p"
    "\<And>e. e \<in> set_option (cs_precondition s) \<union> {cs_postcondition s} \<union> set_option (cs_restore_expectation s) \<Longrightarrow>
       \<exists>l. validate_expectation_for_point l e p = None"
proof -
  obtain i where i: "i < length (tp_controls plan)" "s = tp_controls plan ! i" using assms(2) by (auto simp: in_set_conv_nth)
  then have "(i, s) \<in> set (List.enumerate 0 (tp_controls plan))" by (auto simp: in_set_enumerate_eq)
  moreover have "for_each (validate_control table) (List.enumerate 0 (tp_controls plan)) = None"
    using assms(1) by (simp add: plan_ok_def validate_point_references_def del: for_each_None)
  ultimately have "validate_control table (i, s) = None" by auto
  then show thesis
    using that by (auto simp: validate_control_def Let_def bindE_eq_Inr plan_point_def split: option.splits)
qed

lemma binary_value: "validate_expectation_for_point l e p = None \<Longrightarrow> pt_type p \<in> set BINARY_POINT_TYPES \<Longrightarrow> is_bool (ex_value e)"
  by (simp add: validate_expectation_for_point_def)

lemma numeric_value: "validate_expectation_for_point l e p = None \<Longrightarrow> pt_type p \<in> set NUMERIC_POINT_TYPES \<Longrightarrow> is_number (ex_value e)"
  by (simp add: validate_expectation_for_point_def)

section \<open>The theorems\<close>

text \<open>
  C30: the test for overlapping expectations misses nothing: whenever one observed value satisfies two expectations that the constructor accepted,
  \<open>overlaps\<close> says so in both directions, although the differences, the sum of the tolerances and the comparison are computed with rounding.
\<close>

theorem overlap_complete:
  assumes "ValueExpectation x t = Inr a" "ValueExpectation y u = Inr b" "expectation_matches a v" "expectation_matches b v"
  shows "overlaps a b \<and> overlaps b a"
  using assms overlaps_complete [of a b v] overlaps_complete [of b a v] by (simp add: ValueExpectation_Inr)

text \<open>
  C29: every control scenario of a laboratory plan that loads can be undone and its effect can be told: no value satisfies its precondition and its
  postcondition, the command and the restore command can be sent and are different commands for the same type and index, the feedback point is an enabled
  point of the table, what is expected after restoring equals the precondition (identically for a binary point), and an enabled scenario has no placeholder as authorization.
\<close>

theorem lab_control_safe:
  assumes "load_ems_test_plan file table = Inr plan" "tp_environment plan = ''LAB''" "s \<in> set (tp_controls plan)"
  shows "\<exists>pre restore undone p sent undo. cs_precondition s = Some pre \<and> cs_restore_command s = Some restore \<and> cs_restore_expectation s = Some undone \<and>
    (\<nexists>v. expectation_matches pre v \<and> expectation_matches (cs_postcondition s) v) \<and>
    to_command (cs_command s) = Inr sent \<and> to_command restore = Inr undo \<and> sent \<noteq> undo \<and>
    ck_type restore = ck_type (cs_command s) \<and> ck_index restore = ck_index (cs_command s) \<and>
    by_id table (cs_feedback_point_id s) = Some p \<and> pt_enabled p \<and>
    py_eq (ex_value pre) (ex_value undone) \<and> ex_tolerance pre = ex_tolerance undone \<and> (pt_type p \<in> set BINARY_POINT_TYPES \<longrightarrow> pre = undone) \<and>
    (cs_enabled s \<longrightarrow> (\<exists>reference. cs_authorization s = Some reference \<and> \<not> is_placeholder reference))"
proof -
  have ok: "plan_ok table plan" using assms(1) by (rule load_plan_ok)
  then have "control_wf ''LAB'' s" using assms(2,3) by (auto simp: plan_ok_def list_all_iff)
  note wf = this [unfolded control_wf_def]
  then have lab: "lab_wf s" by simp
  obtain a pre restore undone where some: "cs_authorization s = Some a" "cs_precondition s = Some pre" "cs_restore_command s = Some restore"
    "cs_restore_expectation s = Some undone" using lab by (auto simp: lab_wf_def)
  have same: "py_eq (PDict (expectation_to_mapping pre)) (PDict (expectation_to_mapping undone))" and apart: "\<not> overlaps pre (cs_postcondition s)"
    and differ: "\<not> py_eq (PDict (command_to_mapping (cs_command s))) (PDict (command_to_mapping restore))"
    and authorized: "cs_enabled s \<longrightarrow> \<not> is_placeholder a" using lab by (simp_all add: lab_wf_def some)
  have commands: "command_wf (cs_command s)" "command_wf restore" "ck_type restore = ck_type (cs_command s)" "ck_index restore = ck_index (cs_command s)"
    using wf by (simp_all add: some)
  obtain sent undo where sent: "to_command (cs_command s) = Inr sent" "to_command restore = Inr undo" using commands(1,2) by (auto simp: command_wf_def)
  have "sent \<noteq> undo" using to_command_inj [OF commands(1,2)] sent differ by (auto simp: py_eq_def)
  moreover have "\<nexists>v. expectation_matches pre v \<and> expectation_matches (cs_postcondition s) v"
    using overlaps_complete [of pre "cs_postcondition s"] apart wf by (auto simp: some)
  moreover obtain p where p: "by_id table (cs_feedback_point_id s) = Some p" "pt_enabled p"
    "\<And>e. e \<in> {pre, cs_postcondition s, undone} \<Longrightarrow> \<exists>l. validate_expectation_for_point l e p = None"
    by (rule control_point [OF ok assms(3)]) (use some in auto)
  moreover have "pre = undone" if "pt_type p \<in> set BINARY_POINT_TYPES"
  proof -
    have "is_bool (ex_value pre)" "is_bool (ex_value undone)" using p(3) binary_value that by blast+
    then have "ex_value pre = ex_value undone" using py_eq_expectations(1) [OF same] by (auto simp: is_bool_iff py_eq_def)
    then show ?thesis using py_eq_expectations(2) [OF same] by (cases pre; cases undone) simp
  qed
  ultimately show ?thesis
    using some sent commands(3,4) py_eq_expectations [OF same] authorized
    by (intro exI [of _ pre] exI [of _ restore] exI [of _ undone] exI [of _ p] exI [of _ sent] exI [of _ undo] conjI impI) (assumption | simp)+
qed

text \<open>
  C31: a plan can be saved and loaded again: any JSON text within the size limit that denotes the mapping of a loaded plan loads to exactly this plan with the same point table.
\<close>

theorem plan_reload:
  assumes "load_ems_test_plan file table = Inr plan" "json_loads s = Inr (PDict (plan_to_mapping plan))" "utf8_valid s" "length s \<le> 1048576"
  shows "load_ems_test_plan (Plan_Content s) table = Inr plan"
  using plan_back [OF load_plan_ok [OF assms(1)]] assms(2-4) by (simp add: load_ems_test_plan_def MAX_PLAN_BYTES_def)

section \<open>Samples\<close>

definition sample_plan_crob :: "string \<Rightarrow> control_command" where
  "sample_plan_crob operation = \<lparr>ck_type = ''crob'', ck_index = 3, ck_operation = Some operation, ck_trip_close = Some ''null'', ck_clear = Some False,
     ck_count = Some 1, ck_on_time_ms = Some 0, ck_off_time_ms = Some 0, ck_value = None\<rparr>"

definition sample_control :: control_scenario where
  "sample_control = \<lparr>cs_id = ''C1'', cs_enabled = True, cs_authorization = Some ''WO-17'', cs_mode = ''select_and_operate'', cs_command = sample_plan_crob ''latch_on'',
     cs_feedback_point_id = ''A1'', cs_precondition = Some \<lparr>ex_value = PBool False, ex_tolerance = 0\<rparr>,
     cs_postcondition = \<lparr>ex_value = PBool True, ex_tolerance = 0\<rparr>, cs_restore_command = Some (sample_plan_crob ''latch_off''),
     cs_restore_expectation = Some \<lparr>ex_value = PBool False, ex_tolerance = 0\<rparr>, cs_command_timeout = 5, cs_feedback_timeout = 10, cs_poll_interval = 1,
     cs_notes = None, cs_environment = ''LAB''\<rparr>"

definition sample_plan :: test_plan where
  "sample_plan = \<lparr>tp_polls = [], tp_unsolicited = [], tp_controls = [sample_control], tp_notes = None, tp_environment = ''LAB''\<rparr>"

text \<open>A text for the floats of the sample.\<close>

definition whole_repr :: "rat \<Rightarrow> string" where
  "whole_repr q = dec (nat \<lfloor>q\<rfloor>) @ ''.0''"

lemma whole_repr_reads: "n < 2 ^ 53 \<Longrightarrow> repr_reads whole_repr (of_nat n)"
proof -
  assume n: "n < 2 ^ 53"
  have "json_number (dec n @ CHR ''.'' # CHR ''0'' # r) = Inr (PFloat (Fin (of_nat n)), r)" if r: "ends_number r" for r
  proof -
    have digit: "is_dec (CHR ''0'')" "\<not> is_dec (CHR ''.'')" by (simp_all add: is_dec_def code_in_def)
    have int_part: "json_int (dec n @ CHR ''.'' # CHR ''0'' # r) = Some (False, dec n, CHR ''.'' # CHR ''0'' # r)"
    proof -
      obtain c cs where d: "dec n = c # cs" by (cases "dec n") auto
      have c: "is_dec c" and cs: "list_all is_dec cs" using dec_all [of n] d by auto
      have "c \<noteq> CHR ''-''" using c by (auto simp: is_dec_def code_in_def)
      moreover have "c = CHR ''0'' \<Longrightarrow> cs = []" using hd_dec [of n] d dec_0 by auto
      moreover have "takeWhile is_dec (cs @ CHR ''.'' # CHR ''0'' # r) = cs" "dropWhile is_dec (cs @ CHR ''.'' # CHR ''0'' # r) = CHR ''.'' # CHR ''0'' # r"
        using cs digit(2) by (induction cs) auto
      ultimately show ?thesis using c by (auto simp: json_int_def d Let_def)
    qed
    have "takeWhile is_dec (CHR ''0'' # r) = ''0''" "dropWhile is_dec (CHR ''0'' # r) = r" using takeWhile_digits [of "''0''" r] r digit(1) by simp_all
    then have "json_frac (CHR ''.'' # CHR ''0'' # r) = (''0'', r)" by (simp add: json_frac_def)
    moreover have "json_exp r = ((False, []), r)" using r by (auto simp: json_exp_def ends_number_def split: list.splits)
    moreover have "dec_value (dec n @ ''0'') = 10 * n" using dec_value_snoc [of "dec n" "CHR ''0''"] by simp
    moreover have "dec_value [] = 0" by (simp add: dec_value_def)
    moreover have "binary64 (of_nat n) = Fin (of_nat n)" using binary64_of_int [of "int n"] n by simp
    ultimately show ?thesis using int_part by (simp add: json_number_def)
  qed
  then show ?thesis by (simp add: repr_reads_def whole_repr_def)
qed

definition sample_text :: string where
  "sample_text = json_text whole_repr (PDict (plan_to_mapping sample_plan))"

lemma sample_commands: "command_wf (sample_plan_crob ''latch_on'')" "command_wf (sample_plan_crob ''latch_off'')"
  by (simp_all add: command_wf_def sample_plan_crob_def COMMAND_TYPES_def to_command_def CrobCommand_def unsigned_integer_def check_member_def CROB_OPERATIONS_def
      TRIP_CLOSE_SELECTIONS_def checked_def raise_if_def exc_of_def first_error.simps)

lemma sample_plan_texts: "identifier_wf ''C1''" "identifier_wf ''A1''" "stripped 512 ''WO-17''" "\<not> is_placeholder ''WO-17''"
  "is_placeholder ''ticket: fill_me''"
  by code_simp+

lemma sample_differs: "\<not> py_eq (PDict (command_to_mapping (sample_plan_crob ''latch_on''))) (PDict (command_to_mapping (sample_plan_crob ''latch_off'')))"
  using py_eq_field [of "command_to_mapping (sample_plan_crob ''latch_on'')" "command_to_mapping (sample_plan_crob ''latch_off'')" "''operation''"]
  by (auto simp: command_to_mapping_def sample_plan_crob_def opt_val_def)

lemma sample_lab: "lab_wf sample_control"
  using sample_plan_texts(4) sample_differs by (simp add: lab_wf_def sample_control_def py_eq_def overlaps_def)

lemma sample_control_wf: "control_wf ''LAB'' sample_control"
  using sample_lab sample_plan_texts(1-3) sample_commands
  by (simp add: control_wf_def) (simp add: sample_control_def sample_plan_crob_def expectation_wf_def MAX_TOLERANCE_def TENTH_def TWENTIETH_def notes_wf_def)

lemma sample_references: "validate_point_references [sample_table_point] [] [] [sample_control] = None"
  by code_simp

lemma sample_plan_ok: "plan_ok [sample_table_point] sample_plan"
  using sample_control_wf sample_references by (simp add: plan_ok_def sample_plan_def notes_wf_def MAX_SCENARIOS_PER_KIND_def)

lemma sample_json_ok: "json_ok whole_repr (PDict (plan_to_mapping sample_plan))"
proof -
  have "repr_reads whole_repr 0" "repr_reads whole_repr 1" "repr_reads whole_repr 5" "repr_reads whole_repr 10"
    using whole_repr_reads [of 0] whole_repr_reads [of 1] whole_repr_reads [of 5] whole_repr_reads [of 10] by simp_all
  moreover have "1 \<le> MAX_INT_DIGITS" by (simp add: MAX_INT_DIGITS_def)
  then have ten: "(10 :: int) ^ 1 \<le> 10 ^ MAX_INT_DIGITS" by (rule power_increasing) simp
  then have "(3 :: int) < 10 ^ MAX_INT_DIGITS" "(1 :: int) < 10 ^ MAX_INT_DIGITS" "(0 :: int) < 10 ^ MAX_INT_DIGITS" unfolding power_one_right by linarith+
  ultimately show ?thesis
    by (simp add: plan_to_mapping_def sample_plan_def control_to_mapping_def sample_control_def command_to_mapping_def sample_plan_crob_def expectation_to_mapping_def
        with_opt_def opt_val_def)
qed

lemma sample_text_length: "length sample_text < 2000"
  by code_simp

lemma sample_text_facts: "json_loads sample_text = Inr (PDict (plan_to_mapping sample_plan))" "utf8_valid sample_text" "length sample_text \<le> 1048576"
proof -
  show "json_loads sample_text = Inr (PDict (plan_to_mapping sample_plan))" using json_read_back [OF sample_json_ok, of "[]"] by (simp add: sample_text_def)
  have "texts_valid whole_repr (PDict (plan_to_mapping sample_plan))" by code_simp
  then show "utf8_valid sample_text" unfolding sample_text_def by (rule json_text_valid(1))
  show "length sample_text \<le> 1048576" using sample_text_length by simp
qed

lemma sample_loads: "load_ems_test_plan (Plan_Content sample_text) [sample_table_point] = Inr sample_plan"
  using plan_back [OF sample_plan_ok] sample_text_facts by (simp add: load_ems_test_plan_def MAX_PLAN_BYTES_def)

theorem plan_reload_witness: "load_ems_test_plan (Plan_Content (sample_text @ [CHR 0x0A])) [sample_table_point] = Inr sample_plan"
proof (rule plan_reload [OF sample_loads])
  show "json_loads (sample_text @ [CHR 0x0A]) = Inr (PDict (plan_to_mapping sample_plan))"
    using json_read_back [OF sample_json_ok, of "[CHR 0x0A]"] by (simp add: sample_text_def is_json_ws_def)
  show "utf8_valid (sample_text @ [CHR 0x0A])" using sample_text_facts(2) by (simp add: utf8_valid_append utf8_valid_Cons)
  show "length (sample_text @ [CHR 0x0A]) \<le> 1048576" using sample_text_length by simp
qed

theorem lab_control_safe_witness:
  "load_ems_test_plan (Plan_Content sample_text) [sample_table_point] = Inr sample_plan \<and>
   (\<exists>sent undo. to_command (sample_plan_crob ''latch_on'') = Inr sent \<and> to_command (sample_plan_crob ''latch_off'') = Inr undo \<and> sent \<noteq> undo)"
  using lab_control_safe [OF sample_loads, of sample_control] sample_loads by (auto simp: sample_plan_def sample_control_def)

definition sample_expectation :: "int \<Rightarrow> expectation" where
  "sample_expectation i = \<lparr>ex_value = PInt i, ex_tolerance = 1\<rparr>"

theorem overlap_complete_witness:
  "expectation_matches (sample_expectation 10) (PInt 11) \<and> expectation_matches (sample_expectation 12) (PInt 11) \<and>
   overlaps (sample_expectation 10) (sample_expectation 12)"
proof -
  have b: "binary64 10 = Fin 10" "binary64 11 = Fin 11" "binary64 12 = Fin 12" "binary64 1 = Fin 1" "binary64 (- 1) = Fin (- 1)"
    using binary64_of_int [of 10] binary64_of_int [of 11] binary64_of_int [of 12] binary64_of_int [of 1] binary64_of_int [of "- 1"] by simp_all
  have "ValueExpectation (PInt 10) (PInt 1) = Inr (sample_expectation 10)" "ValueExpectation (PInt 12) (PInt 1) = Inr (sample_expectation 12)"
    by (simp_all add: ValueExpectation_Inr sample_expectation_def expectation_wf_def MAX_TOLERANCE_def b)
  moreover have "expectation_matches (sample_expectation 10) (PInt 11)" "expectation_matches (sample_expectation 12) (PInt 11)"
    by (simp_all add: expectation_matches_def sample_expectation_def float_within_def b)
  ultimately show ?thesis using overlap_complete [of "PInt 10" "PInt 1" "sample_expectation 10" "PInt 12" "PInt 1" "sample_expectation 12" "PInt 11"] by blast
qed

section \<open>Exceptions that escape\<close>

text \<open>
  An integer that no float can hold raises \<open>OverflowError\<close> where a number is read, a list as command type raises \<open>TypeError\<close>: neither is turned into the error of the module.
\<close>

lemma large_number_escapes:
  assumes "2 ^ 1024 \<le> i"
  shows "plan_number loc (PInt i) lo hi = Inl (Plan_Python (OverflowError ''int too large to convert to float''))"
proof -
  have "(2 :: rat) ^ 1024 = of_int (2 ^ 1024)" by (simp only: of_int_power of_int_numeral)
  also have "\<dots> \<le> of_int i" using assms by (simp only: of_int_le_iff)
  finally show ?thesis using binary64_overflow by (simp add: plan_number_def INT_TOO_LARGE_def del: of_int_power)
qed

lemma list_type_escapes: "plan_control_command loc (PDict [(''type'', PList [])]) = Inl (Plan_Python (TypeError ''unhashable type''))"
  by (simp add: plan_control_command_def get_def)

text \<open>The comparison of the restore expectation with the precondition takes \<open>True\<close> and \<open>1\<close> for equal, although no value satisfies both.\<close>

lemma true_equals_one:
  "py_eq (PDict (expectation_to_mapping \<lparr>ex_value = PBool True, ex_tolerance = 0\<rparr>)) (PDict (expectation_to_mapping \<lparr>ex_value = PInt 1, ex_tolerance = 0\<rparr>))"
  "\<not> (expectation_matches \<lparr>ex_value = PBool True, ex_tolerance = 0\<rparr> v \<and> expectation_matches \<lparr>ex_value = PInt 1, ex_tolerance = 0\<rparr> v)"
proof -
  show "py_eq (PDict (expectation_to_mapping \<lparr>ex_value = PBool True, ex_tolerance = 0\<rparr>)) (PDict (expectation_to_mapping \<lparr>ex_value = PInt 1, ex_tolerance = 0\<rparr>))"
    by code_simp
  show "\<not> (expectation_matches \<lparr>ex_value = PBool True, ex_tolerance = 0\<rparr> v \<and> expectation_matches \<lparr>ex_value = PInt 1, ex_tolerance = 0\<rparr> v)"
    by (cases v) (simp_all add: expectation_matches_def split: option.splits)
qed

text \<open>A schema version of \<open>true\<close> passes the comparison with 1.\<close>

lemma schema_version_true: "plan_from_document [] (PDict [(''schema_version'', PBool True), (''poll_scenarios'', PList []), (''unsolicited_scenarios'', PList []),
    (''control_scenarios'', PList [])]) = Inr \<lparr>tp_polls = [], tp_unsolicited = [], tp_controls = [], tp_notes = None, tp_environment = ''LAB''\<rparr>"
  by code_simp

end
