(* ===== verification/Performance.thy ===== *)
theory Performance
  imports EmsPlan CaptureModels ClientCore
begin

text \<open>
  Performance profiles, \<open>performance.py\<close>: the limits, the policy of soak runs, the read-only scenarios and the strict loader of a profile, and
  the nearest-rank percentile and the checks of a report against the limits. Constructors are called as the loader calls them, with headers and
  captures that are already objects. A number is kept as it was given, an integer or a float. In messages the text of a number and of a wrapped error is left out.
\<close>

section \<open>Fields\<close>

datatype perf_exc = Profile_Error string | Profile_Python pyexc

definition exact_fields :: "dict \<Rightarrow> string list \<Rightarrow> string list \<Rightarrow> string \<Rightarrow> perf_exc option" where
  "exact_fields v required optional_fields context_name =
     (let missing = missing_keys required v; unknown = filter (\<lambda>k. k \<notin> set (required @ optional_fields)) (map fst v) in first_error
       [raise_if (missing \<noteq> []) (Profile_Error (context_name @ '' is missing fields: '' @ join '', '' (sort missing))),
        raise_if (unknown \<noteq> []) (Profile_Error (context_name @ '' contains unknown fields: '' @ join '', '' (sort unknown)))])"

definition perf_number :: "pyval \<Rightarrow> string \<Rightarrow> rat \<Rightarrow> rat \<Rightarrow> perf_exc option" where
  "perf_number v f minimum maximum =
     (if \<not> is_number v then Some (Profile_Error (f @ '' must be a finite number''))
      else if float_of v = None then Some (Profile_Python INT_TOO_LARGE)
      else raise_if (\<not> (\<exists>q \<in> set_option (finite_number v). minimum \<le> q \<and> q \<le> maximum)) (Profile_Error (f @ '' must be between '')))"

definition perf_integer :: "pyval \<Rightarrow> string \<Rightarrow> int \<Rightarrow> int \<Rightarrow> perf_exc option" where
  "perf_integer v f minimum maximum = raise_if (\<not> is_int v \<or> \<not> (minimum \<le> as_int v \<and> as_int v \<le> maximum))
     (Profile_Error (f @ '' must be an integer between '' @ str_int minimum @ '' and '' @ str_int maximum))"

definition perf_token :: "pyval \<Rightarrow> string \<Rightarrow> perf_exc option" where
  "perf_token v f =
     (if is_str v \<and> \<not> utf8_valid (as_str v) then Some (Profile_Python SURROGATES)
      else raise_if (\<not> (is_str v \<and> class_match (\<lambda>c. is_alnum c \<or> c \<in> set ''._:-'') 1 128 (as_str v)))
        (Profile_Error (f @ '' must be a 1-128 byte ASCII token'')))"

text \<open>\<open>except (TypeError, ValueError) as error\<close>, where an error of the module passes and others do too\<close>

definition wrap_error :: "string \<Rightarrow> perf_exc \<Rightarrow> perf_exc" where
  "wrap_error prefix e = (case e of
     Profile_Python (TypeError _) \<Rightarrow> Profile_Error prefix
   | Profile_Python (ValueError _) \<Rightarrow> Profile_Error prefix
   | Profile_Python (KeyError _) \<Rightarrow> Profile_Error prefix
   | _ \<Rightarrow> e)"

text \<open>The call of a constructor with the items of a mapping as keyword arguments.\<close>

definition keyword_check :: "dict \<Rightarrow> string list \<Rightarrow> string list \<Rightarrow> pyexc option" where
  "keyword_check d required optional_fields = first_error
     [raise_if (\<not> list_all (\<lambda>k. k \<in> set (required @ optional_fields)) (map fst d)) (TypeError ''got an unexpected keyword argument''),
      raise_if (missing_keys required d \<noteq> []) (TypeError ''missing required positional arguments'')]"

definition get_or :: "dict \<Rightarrow> string \<Rightarrow> pyval \<Rightarrow> pyval" where
  "get_or d k v = (case map_of d k of None \<Rightarrow> v | Some x \<Rightarrow> x)"

section \<open>Limits and soak settings\<close>

record thresholds =
  th_minimum_samples :: int
  th_max_task_p95_ms :: pyval
  th_max_task_p99_ms :: pyval
  th_max_task_ms :: pyval
  th_max_cpu_core_percent :: pyval
  th_max_working_set_bytes :: int
  th_max_private_bytes :: int
  th_max_handle_count :: int
  th_max_thread_count :: int
  th_max_private_growth :: pyval
  th_max_working_set_growth :: pyval
  th_max_handle_growth :: int
  th_max_thread_growth :: int
  th_max_capture_overhead :: pyval

definition THRESHOLD_NUMBERS :: "string list" where
  "THRESHOLD_NUMBERS = [''max_task_p95_ms'', ''max_task_p99_ms'', ''max_task_ms'', ''max_cpu_core_percent'',
     ''max_private_growth_bytes_per_hour'', ''max_working_set_growth_bytes_per_hour'', ''max_capture_overhead_percent'']"

definition THRESHOLD_INTEGERS :: "string list" where
  "THRESHOLD_INTEGERS = [''max_working_set_bytes'', ''max_private_bytes'', ''max_handle_count'', ''max_thread_count'', ''max_handle_growth'', ''max_thread_growth'']"

definition PerformanceThresholds :: "dict \<Rightarrow> perf_exc + thresholds" where
  "PerformanceThresholds d = checked (first_error
     [perf_integer (get d ''minimum_samples'') ''thresholds.minimum_samples'' 1 1000000,
      for_each (\<lambda>f. perf_number (get d f) (''thresholds.'' @ f) 0 (10 ^ 18)) THRESHOLD_NUMBERS,
      for_each (\<lambda>f. perf_integer (get d f) (''thresholds.'' @ f) 0 (2 ^ 63)) THRESHOLD_INTEGERS])
     \<lparr>th_minimum_samples = as_int (get d ''minimum_samples''), th_max_task_p95_ms = get d ''max_task_p95_ms'', th_max_task_p99_ms = get d ''max_task_p99_ms'',
      th_max_task_ms = get d ''max_task_ms'', th_max_cpu_core_percent = get d ''max_cpu_core_percent'',
      th_max_working_set_bytes = as_int (get d ''max_working_set_bytes''), th_max_private_bytes = as_int (get d ''max_private_bytes''),
      th_max_handle_count = as_int (get d ''max_handle_count''), th_max_thread_count = as_int (get d ''max_thread_count''),
      th_max_private_growth = get d ''max_private_growth_bytes_per_hour'', th_max_working_set_growth = get d ''max_working_set_growth_bytes_per_hour'',
      th_max_handle_growth = as_int (get d ''max_handle_growth''), th_max_thread_growth = as_int (get d ''max_thread_growth''),
      th_max_capture_overhead = get d ''max_capture_overhead_percent''\<rparr>"

definition thresholds_from_mapping :: "dict \<Rightarrow> perf_exc + thresholds" where
  "thresholds_from_mapping d =
     bindE (checked (exact_fields d (''minimum_samples'' # THRESHOLD_NUMBERS @ THRESHOLD_INTEGERS) [] ''thresholds'') ()) (\<lambda>_.
       map_error (wrap_error ''invalid thresholds: '') (PerformanceThresholds d))"

record soak_settings =
  so_target_duration :: pyval
  so_cycle_interval :: pyval
  so_checkpoint_interval :: pyval
  so_resource_sample_interval :: pyval
  so_watchdog_timeout :: pyval
  so_max_checkpoints :: int
  so_max_evidence_bytes :: int
  so_min_free_disk_bytes :: int
  so_allowed_reconnects :: int
  so_max_consecutive_failures :: int

definition SOAK_FIELDS :: "string list" where
  "SOAK_FIELDS = [''target_duration_seconds'', ''cycle_interval_seconds'', ''checkpoint_interval_seconds'', ''resource_sample_interval_seconds'',
     ''watchdog_timeout_seconds'', ''max_checkpoints'', ''max_evidence_bytes'', ''min_free_disk_bytes'', ''allowed_reconnects'', ''max_consecutive_failures'']"

definition SoakSettings :: "dict \<Rightarrow> perf_exc + soak_settings" where
  "SoakSettings d = checked (first_error
     [perf_number (get d ''target_duration_seconds'') ''soak.target_duration_seconds'' TENTH 604800,
      perf_number (get d ''cycle_interval_seconds'') ''soak.cycle_interval_seconds'' 0 3600,
      perf_number (get d ''checkpoint_interval_seconds'') ''soak.checkpoint_interval_seconds'' TENTH 86400,
      perf_number (get d ''resource_sample_interval_seconds'') ''soak.resource_sample_interval_seconds'' TENTH 3600,
      perf_number (get d ''watchdog_timeout_seconds'') ''soak.watchdog_timeout_seconds'' TENTH 3600,
      perf_integer (get d ''max_checkpoints'') ''soak.max_checkpoints'' 2 10000,
      perf_integer (get d ''max_evidence_bytes'') ''soak.max_evidence_bytes'' 65536 (2 ^ 50),
      perf_integer (get d ''min_free_disk_bytes'') ''soak.min_free_disk_bytes'' 0 (2 ^ 60),
      perf_integer (get d ''allowed_reconnects'') ''soak.allowed_reconnects'' 0 10000,
      perf_integer (get d ''max_consecutive_failures'') ''soak.max_consecutive_failures'' 0 10000])
     \<lparr>so_target_duration = get d ''target_duration_seconds'', so_cycle_interval = get d ''cycle_interval_seconds'',
      so_checkpoint_interval = get d ''checkpoint_interval_seconds'', so_resource_sample_interval = get d ''resource_sample_interval_seconds'',
      so_watchdog_timeout = get d ''watchdog_timeout_seconds'', so_max_checkpoints = as_int (get d ''max_checkpoints''),
      so_max_evidence_bytes = as_int (get d ''max_evidence_bytes''), so_min_free_disk_bytes = as_int (get d ''min_free_disk_bytes''),
      so_allowed_reconnects = as_int (get d ''allowed_reconnects''), so_max_consecutive_failures = as_int (get d ''max_consecutive_failures'')\<rparr>"

definition soak_from_mapping :: "dict \<Rightarrow> perf_exc + soak_settings" where
  "soak_from_mapping d = bindE (checked (exact_fields d SOAK_FIELDS [] ''soak'') ()) (\<lambda>_. map_error (wrap_error ''invalid soak settings: '') (SoakSettings d))"

section \<open>Expected populations\<close>

definition EXPECTED_KINDS :: "string list" where
  "EXPECTED_KINDS = [''analog_input'', ''analog_output_status'', ''binary_input'', ''binary_output_status'', ''counter'', ''double_bit_binary_input'',
     ''frozen_counter'', ''octet_string'', ''time_and_interval'']"

text \<open>The two numbers of a canonical \<open>group:variation\<close>.\<close>

definition octet_text :: "string \<Rightarrow> bool" where
  "octet_text s \<longleftrightarrow> class_match is_dec 1 3 s \<and> dec_value s \<le> 255 \<and> dec (dec_value s) = s"

definition group_variation :: "string \<Rightarrow> (nat \<times> nat) option" where
  "group_variation k =
     (let g = takeWhile (\<lambda>c. c \<noteq> CHR '':'') k; v = drop (Suc (length g)) k in
      if length g < length k \<and> octet_text g \<and> octet_text v then Some (dec_value g, dec_value v) else None)"

definition expected_key_check :: "string \<Rightarrow> bool \<Rightarrow> string \<Rightarrow> perf_exc option" where
  "expected_key_check context_name by_object k =
     (if by_object then raise_if (group_variation k = None) (Profile_Error (context_name @ '' key must be canonical group:variation within 0-255''))
      else raise_if (k \<notin> set EXPECTED_KINDS) (Profile_Error (context_name @ '' contains unsupported kind '' @ quoted k)))"

definition expected_count_mapping :: "pyval \<Rightarrow> string \<Rightarrow> bool \<Rightarrow> perf_exc + (string \<times> int) list" where
  "expected_count_mapping v context_name by_object = checked (first_error
     [raise_if (\<not> is_dict v \<or> length (as_dict v) > 256) (Profile_Error (context_name @ '' must be an object with at most 256 entries'')),
      for_each (\<lambda>(k, n). first_error [expected_key_check context_name by_object k, perf_integer n (context_name @ ''.'' @ k) 1 1000000]) (as_dict v)])
     (sort_key fst (map (\<lambda>(k, n). (k, as_int n)) (as_dict v)))"

definition counts_total :: "(string \<times> int) list \<Rightarrow> int" where
  "counts_total m = sum_list (map snd m)"

text \<open>The number of points of each kind in the ranges of a capture.\<close>

definition add_range :: "capture_range \<Rightarrow> (string \<times> int) list \<Rightarrow> (string \<times> int) list" where
  "add_range r m = dict_set (pr_kind r) ((case dict_get m (pr_kind r) of None \<Rightarrow> 0 | Some n \<Rightarrow> n) + point_count r) m"

definition capture_by_kind :: "capture_config \<Rightarrow> (string \<times> int) list" where
  "capture_by_kind c = fold add_range (cf_point_ranges c) []"

section \<open>Scenarios\<close>

record read_scenario =
  rs_id :: string
  rs_operation :: string
  rs_headers :: "read_header list"
  rs_classes :: "pyval list"
  rs_capture :: "capture_config option"
  rs_warmup_iterations :: int
  rs_measurement_iterations :: int
  rs_interval :: pyval
  rs_cooldown :: pyval
  rs_task_timeout :: pyval
  rs_max_measurements :: int
  rs_expected_objects :: int
  rs_by_kind :: "(string \<times> int) list"
  rs_by_group_variation :: "(string \<times> int) list"
  rs_baseline :: "string option"

definition OPERATIONS :: "string list" where
  "OPERATIONS = [''read'', ''integrity_poll'', ''class_poll'']"

text \<open>\<open>item not in {1, 2, 3}\<close>, which compares by value, and the test for repeated values\<close>

definition class_member_check :: "pyval \<Rightarrow> perf_exc option" where
  "class_member_check v =
     (if \<not> hashable v then Some (Profile_Python (TypeError ''unhashable type''))
      else raise_if (\<not> (eq_int v 1 \<or> eq_int v 2 \<or> eq_int v 3)) (Profile_Error ''class_poll scenario requires unique Class 1/2/3 values''))"

definition scenario_classes_check :: "string \<Rightarrow> pyval list \<Rightarrow> perf_exc option" where
  "scenario_classes_check operation classes =
     (if operation = ''class_poll'' then first_error
        [raise_if (\<not> (1 \<le> length classes \<and> length classes \<le> 3)) (Profile_Error ''class_poll scenario requires unique Class 1/2/3 values''),
         for_each class_member_check classes,
         raise_if (\<not> distinct (map number_norm classes)) (Profile_Error ''class_poll scenario requires unique Class 1/2/3 values'')]
      else raise_if (classes \<noteq> []) (Profile_Error ''only class_poll scenarios accept classes''))"

definition operation_check :: "pyval \<Rightarrow> perf_exc option" where
  "operation_check v =
     (if \<not> hashable v then Some (Profile_Python (TypeError ''unhashable type''))
      else raise_if (\<not> (is_str v \<and> as_str v \<in> set OPERATIONS)) (Profile_Error ''operation must be read, integrity_poll, or class_poll''))"

definition scenario_request_checks :: "dict \<Rightarrow> read_header list \<Rightarrow> pyval list \<Rightarrow> perf_exc option" where
  "scenario_request_checks d headers classes =
     (let operation = as_str (get d ''operation'') in first_error
       [perf_token (get d ''scenario_id'') ''scenario_id'',
        operation_check (get d ''operation''),
        raise_if (operation = ''read'' \<and> \<not> (1 \<le> length headers \<and> length headers \<le> 64)) (Profile_Error ''read scenario requires 1-64 headers''),
        raise_if (operation \<noteq> ''read'' \<and> headers \<noteq> []) (Profile_Error ''only read scenarios accept headers''),
        scenario_classes_check operation classes,
        perf_integer (get d ''warmup_iterations'') ''warmup_iterations'' 0 10000,
        perf_integer (get d ''measurement_iterations'') ''measurement_iterations'' 1 1000000,
        perf_number (get d ''interval_seconds'') ''interval_seconds'' 0 3600,
        perf_number (get d ''cooldown_seconds'') ''cooldown_seconds'' 0 3600,
        perf_number (get d ''task_timeout_seconds'') ''task_timeout_seconds'' TWENTIETH 300,
        perf_integer (get d ''max_measurements'') ''max_measurements'' 1 1000000,
        perf_integer (get d ''expected_objects_per_iteration'') ''expected_objects_per_iteration'' 0 (as_int (get d ''max_measurements''))])"

definition population_checks :: "int \<Rightarrow> (string \<times> int) list \<Rightarrow> (string \<times> int) list \<Rightarrow> capture_config option \<Rightarrow> pyval \<Rightarrow> perf_exc option" where
  "population_checks expected by_kind by_object capture baseline = first_error
     [raise_if (counts_total by_kind \<noteq> expected) (Profile_Error ''expected_by_kind must sum to expected_objects_per_iteration''),
      raise_if (counts_total by_object \<noteq> expected) (Profile_Error ''expected_by_group_variation must sum to expected_objects_per_iteration''),
      raise_if (\<exists>c \<in> set_option capture. cf_mode c = ''static_set'' \<and> sort_key fst (capture_by_kind c) \<noteq> by_kind)
        (Profile_Error ''static capture point_ranges must exactly match expected_by_kind''),
      (if baseline = PNone then None else first_error
        [perf_token baseline ''baseline_scenario_id'',
         raise_if (capture = None) (Profile_Error ''baseline_scenario_id is only valid for a capture-enabled scenario'')])]"

definition ReadPerformanceScenario :: "dict \<Rightarrow> read_header list \<Rightarrow> pyval list \<Rightarrow> capture_config option \<Rightarrow> perf_exc + read_scenario" where
  "ReadPerformanceScenario d headers classes capture =
     bindE (checked (scenario_request_checks d headers classes) ()) (\<lambda>_.
     bindE (expected_count_mapping (get d ''expected_by_kind'') ''expected_by_kind'' False) (\<lambda>by_kind.
     bindE (expected_count_mapping (get d ''expected_by_group_variation'') ''expected_by_group_variation'' True) (\<lambda>by_object.
     checked (population_checks (as_int (get d ''expected_objects_per_iteration'')) by_kind by_object capture (get d ''baseline_scenario_id''))
       \<lparr>rs_id = as_str (get d ''scenario_id''), rs_operation = as_str (get d ''operation''), rs_headers = headers, rs_classes = classes,
        rs_capture = capture, rs_warmup_iterations = as_int (get d ''warmup_iterations''), rs_measurement_iterations = as_int (get d ''measurement_iterations''),
        rs_interval = get d ''interval_seconds'', rs_cooldown = get d ''cooldown_seconds'', rs_task_timeout = get d ''task_timeout_seconds'',
        rs_max_measurements = as_int (get d ''max_measurements''), rs_expected_objects = as_int (get d ''expected_objects_per_iteration''),
        rs_by_kind = by_kind, rs_by_group_variation = by_object,
        rs_baseline = (if get d ''baseline_scenario_id'' = PNone then None else Some (as_str (get d ''baseline_scenario_id'')))\<rparr>)))"

definition header_from_mapping :: "dict \<Rightarrow> pyexc + read_header" where
  "header_from_mapping d = bindE (checked (keyword_check d [''group'', ''variation''] [''qualifier'', ''start'', ''stop'', ''count'']) ()) (\<lambda>_.
     ReadHeader (get d ''group'') (get d ''variation'') (get_or d ''qualifier'' (PStr ''all_objects'')) (get d ''start'') (get d ''stop'') (get d ''count''))"

definition range_from_mapping :: "dict \<Rightarrow> pyexc + capture_range" where
  "range_from_mapping d = bindE (checked (keyword_check d [''kind'', ''start'', ''stop''] []) ()) (\<lambda>_.
     CapturePointRange (get d ''kind'') (get d ''start'') (get d ''stop''))"

definition manifest_from_mapping :: "dict \<Rightarrow> pyexc + event_manifest" where
  "manifest_from_mapping d = bindE (checked (keyword_check d (filter (\<lambda>f. f \<noteq> ''match_rule'') MANIFEST_FIELDS) [''match_rule'']) ()) (\<lambda>_.
     CaptureEventManifest (dict_set ''match_rule'' (get_or d ''match_rule'' (PStr ''ordered_kind_index_value'')) d))"

text \<open>\<open>tuple(v)\<close>: a text yields its characters, a dictionary its keys.\<close>

fun tuple_items :: "pyval \<Rightarrow> pyexc + pyval list" where
  "tuple_items (PStr s) = Inr (map PStr (code_points s))"
| "tuple_items (PList vs) = Inr vs"
| "tuple_items (PDict d) = Inr (map (PStr \<circ> fst) d)"
| "tuple_items v = Inl (TypeError ''object is not iterable'')"

definition capture_manifest :: "pyval \<Rightarrow> perf_exc + manifest_arg" where
  "capture_manifest v =
     (if v = PNone then Inr No_Manifest
      else if \<not> is_dict v then Inl (Profile_Error ''capture.event_manifest must be an object'')
      else map_error (wrap_error ''invalid event manifest: '') (bindE (map_error Profile_Python (manifest_from_mapping (as_dict v))) (\<lambda>m. Inr (Manifest m))))"

definition capture_from_mapping :: "pyval \<Rightarrow> perf_exc + capture_config option" where
  "capture_from_mapping v =
     (if v = PNone then Inr None
      else let d = as_dict v; ranges_value = get_or d ''point_ranges'' (PList []) in
      bindE (checked (first_error
        [raise_if (\<not> is_dict v) (Profile_Error ''scenario.capture must be an object or null''),
         exact_fields d [''mode'', ''sources'', ''duration_limit_seconds''] [''point_ranges'', ''event_manifest'', ''mismatch_sample_limit'', ''queue_capacity'']
           ''scenario.capture'',
         raise_if (\<not> is_list ranges_value) (Profile_Error ''capture.point_ranges must be an array''),
         raise_if (\<not> list_all is_dict (as_list ranges_value)) (Profile_Error ''capture point range must be an object'')]) ()) (\<lambda>_.
      bindE (map_error Profile_Python (mapE range_from_mapping (map as_dict (as_list ranges_value)))) (\<lambda>ranges.
      bindE (capture_manifest (get d ''event_manifest'')) (\<lambda>manifest.
      map_error (wrap_error ''invalid capture configuration: '') (map_error Profile_Python (bindE (tuple_items (get d ''sources'')) (\<lambda>sources.
        bindE (CaptureConfig (get d ''mode'') (PList sources) (get d ''duration_limit_seconds'') (Ranges (map Some ranges)) manifest
          (get_or d ''mismatch_sample_limit'' (PInt 100)) (get_or d ''queue_capacity'' (PInt 4096))) (\<lambda>c. Inr (Some c)))))))))"

definition SCENARIO_FIELDS :: "string list" where
  "SCENARIO_FIELDS = [''scenario_id'', ''operation'', ''headers'', ''classes'', ''capture'', ''warmup_iterations'', ''measurement_iterations'',
     ''interval_seconds'', ''cooldown_seconds'', ''task_timeout_seconds'', ''max_measurements'', ''expected_objects_per_iteration'', ''expected_by_kind'',
     ''expected_by_group_variation'', ''baseline_scenario_id'']"

definition scenario_from_mapping :: "dict \<Rightarrow> perf_exc + read_scenario" where
  "scenario_from_mapping d =
     bindE (checked (exact_fields d SCENARIO_FIELDS [] ''scenario'') ()) (\<lambda>_. map_error (wrap_error ''invalid performance scenario: '')
       (bindE (checked (first_error
          [raise_if (\<not> is_list (get d ''headers'')) (Profile_Error ''scenario.headers must be an array''),
           raise_if (\<not> list_all is_dict (as_list (get d ''headers''))) (Profile_Error ''scenario header must be an object'')]) ()) (\<lambda>_.
        bindE (map_error Profile_Python (mapE header_from_mapping (map as_dict (as_list (get d ''headers''))))) (\<lambda>headers.
        bindE (checked (raise_if (\<not> is_list (get d ''classes'')) (Profile_Error ''scenario.classes must be an array'')) ()) (\<lambda>_.
        bindE (capture_from_mapping (get d ''capture'')) (\<lambda>capture.
        ReadPerformanceScenario d headers (as_list (get d ''classes'')) capture))))))"

definition QUALIFIER_CAPABILITIES :: "(string \<times> string) list" where
  "QUALIFIER_CAPABILITIES = [(''all_objects'', ''QUAL.Q06.REVIEW''), (''range8'', ''QUAL.Q00.REVIEW''), (''range16'', ''QUAL.Q01.REVIEW''),
     (''count8'', ''QUAL.Q07.REVIEW''), (''count16'', ''QUAL.Q08.REVIEW'')]"

definition object_capability :: "nat \<times> nat \<Rightarrow> string" where
  "object_capability = (\<lambda>(g, v). ''OBJ.G'' @ dec g @ ''.V'' @ dec v)"

text \<open>An event class is written with one added: a float keeps its fraction.\<close>

fun class_object :: "pyval \<Rightarrow> string" where
  "class_object (PInt n) = ''OBJ.G60.V'' @ str_int (n + 1)"
| "class_object (PBool b) = ''OBJ.G60.V'' @ str_int (of_bool b + 1)"
| "class_object (PFloat (Fin q)) = ''OBJ.G60.V'' @ str_int (\<lfloor>q\<rfloor> + 1) @ ''.0''"
| "class_object _ = []"

definition scenario_capability_ids :: "read_scenario \<Rightarrow> string list" where
  "scenario_capability_ids s = sort (remdups
     ([''APP.FC.01.READ'', ''APP.TASK.LIFECYCLE'', ''APP.TASK.OBSERVABILITY''] @
      (if rs_operation s = ''integrity_poll'' then ''APP.CLASS.EVENTS'' # map class_capability [1, 2, 3, 4] @ [''QUAL.Q06.REVIEW'']
       else if rs_operation s = ''class_poll'' then ''APP.CLASS.EVENTS'' # map class_object (rs_classes s) @ [''QUAL.Q06.REVIEW'']
       else concat (map (\<lambda>h. [''OBJ.G'' @ str_int (rh_group h) @ ''.V'' @ str_int (rh_variation h), the (map_of QUALIFIER_CAPABILITIES (rh_qualifier h))])
         (rs_headers s))) @
      map (\<lambda>(k, n). object_capability (the (group_variation k))) (rs_by_group_variation s)))"

section \<open>Profiles\<close>

record perf_profile =
  pf_id :: string
  pf_scope :: string
  pf_seed :: int
  pf_scenarios :: "read_scenario list"
  pf_thresholds :: thresholds
  pf_soak :: soak_settings
  pf_sha256 :: string

definition SCOPES :: "string list" where
  "SCOPES = [''LOCAL_LOOPBACK_ONLY'', ''TARGET_ENVIRONMENT_PENDING_REVIEW'']"

definition same_population :: "read_scenario \<Rightarrow> read_scenario \<Rightarrow> bool" where
  "same_population b s \<longleftrightarrow> rs_operation b = rs_operation s \<and> rs_headers b = rs_headers s \<and> map number_norm (rs_classes b) = map number_norm (rs_classes s) \<and>
     number_norm (rs_task_timeout b) = number_norm (rs_task_timeout s) \<and> rs_max_measurements b = rs_max_measurements s \<and>
     rs_expected_objects b = rs_expected_objects s \<and> rs_by_kind b = rs_by_kind s \<and> rs_by_group_variation b = rs_by_group_variation s \<and>
     rs_measurement_iterations b = rs_measurement_iterations s"

definition scenario_by_id :: "read_scenario list \<Rightarrow> string \<Rightarrow> read_scenario option" where
  "scenario_by_id scenarios = map_of (rev (map (\<lambda>s. (rs_id s, s)) scenarios))"

definition baseline_check :: "read_scenario list \<Rightarrow> read_scenario \<Rightarrow> perf_exc option" where
  "baseline_check scenarios s = (case rs_baseline s of
     None \<Rightarrow> None
   | Some i \<Rightarrow> (case scenario_by_id scenarios i of
       None \<Rightarrow> Some (Profile_Error (''baseline scenario '' @ quoted i @ '' does not exist''))
     | Some b \<Rightarrow> first_error
         [raise_if (rs_capture b \<noteq> None) (Profile_Error ''capture baseline scenario must disable capture''),
          raise_if (\<not> same_population b s) (Profile_Error ''capture and baseline scenarios must use the same population'')]))"

text \<open>The sum of two floats; those added here are small.\<close>

definition float_add :: "rat \<Rightarrow> rat \<Rightarrow> rat" where
  "float_add x y = (case binary64 (x + y) of Fin z \<Rightarrow> z | _ \<Rightarrow> x + y)"

definition timeout_value :: "read_scenario \<Rightarrow> rat" where
  "timeout_value s = the (finite_number (rs_task_timeout s))"

definition drain_value :: "read_scenario \<Rightarrow> rat" where
  "drain_value s = min 300 (max 1 (timeout_value s))"

definition iteration_bound :: "read_scenario \<Rightarrow> rat" where
  "iteration_bound s = float_add (float_add (timeout_value s) 1) (if rs_capture s \<noteq> None then float_add (float_add 2 (drain_value s)) 1 else 0)"

definition watchdog_value :: "soak_settings \<Rightarrow> rat" where
  "watchdog_value s = the (finite_number (so_watchdog_timeout s))"

definition scope_check :: "pyval \<Rightarrow> perf_exc option" where
  "scope_check v =
     (if \<not> hashable v then Some (Profile_Python (TypeError ''unhashable type''))
      else raise_if (\<not> (is_str v \<and> as_str v \<in> set SCOPES)) (Profile_Error ''scope must be LOCAL_LOOPBACK_ONLY or TARGET_ENVIRONMENT_PENDING_REVIEW''))"

definition PerformanceProfile :: "pyval \<Rightarrow> pyval \<Rightarrow> pyval \<Rightarrow> read_scenario list \<Rightarrow> thresholds \<Rightarrow> soak_settings \<Rightarrow> string \<Rightarrow> perf_exc + perf_profile" where
  "PerformanceProfile profile_id scope seed scenarios limits soak digest = checked (first_error
     [perf_token profile_id ''profile_id'',
      scope_check scope,
      perf_integer seed ''seed'' 0 (2 ^ 63 - 1),
      raise_if (\<not> (1 \<le> length scenarios \<and> length scenarios \<le> 64)) (Profile_Error ''profile must contain 1-64 scenarios''),
      raise_if (\<not> distinct (map rs_id scenarios)) (Profile_Error ''scenario_id values must be unique''),
      for_each (baseline_check scenarios) scenarios,
      raise_if (watchdog_value soak \<le> fold max (map iteration_bound scenarios) 0)
        (Profile_Error ''soak watchdog_timeout_seconds must exceed the bounded begin/read/end RPC budget''),
      raise_if (\<not> class_match is_lower_hex 64 64 digest) (Profile_Error ''source_sha256 must be lowercase SHA-256'')])
     \<lparr>pf_id = as_str profile_id, pf_scope = as_str scope, pf_seed = as_int seed, pf_scenarios = scenarios, pf_thresholds = limits, pf_soak = soak,
      pf_sha256 = digest\<rparr>"

definition profile_capability_ids :: "perf_profile \<Rightarrow> string list" where
  "profile_capability_ids p = sort (remdups (concat (map scenario_capability_ids (pf_scenarios p))))"

definition MAX_PROFILE_BYTES :: nat where "MAX_PROFILE_BYTES = 1048576"

definition profile_from_document :: "pyval \<Rightarrow> string \<Rightarrow> perf_exc + perf_profile" where
  "profile_from_document v digest =
     (let d = as_dict v in
      bindE (checked (first_error
        [raise_if (\<not> is_dict v) (Profile_Error ''performance profile root must be an object''),
         exact_fields d [''schema_version'', ''profile_id'', ''scope'', ''seed'', ''scenarios'', ''thresholds'', ''soak''] [] ''performance profile'',
         raise_if (\<not> eq_int (get d ''schema_version'') 1) (Profile_Error ''schema_version must be 1''),
         raise_if (\<not> is_list (get d ''scenarios'')) (Profile_Error ''scenarios must be an array''),
         raise_if (\<not> is_dict (get d ''thresholds'') \<or> \<not> is_dict (get d ''soak'')) (Profile_Error ''thresholds and soak must be objects''),
         raise_if (\<not> list_all is_dict (as_list (get d ''scenarios''))) (Profile_Error ''each scenario must be an object'')]) ()) (\<lambda>_.
      bindE (mapE scenario_from_mapping (map as_dict (as_list (get d ''scenarios'')))) (\<lambda>scenarios.
      bindE (thresholds_from_mapping (as_dict (get d ''thresholds''))) (\<lambda>limits.
      bindE (soak_from_mapping (as_dict (get d ''soak''))) (\<lambda>soak.
      PerformanceProfile (get d ''profile_id'') (get d ''scope'') (get d ''seed'') scenarios limits soak digest)))))"

text \<open>The file: an error of reading it, or its octets.\<close>

definition load_performance_profile :: "string + string \<Rightarrow> perf_exc + perf_profile" where
  "load_performance_profile file = (case file of
     Inl e \<Rightarrow> Inl (Profile_Error (''cannot read performance profile: '' @ e))
   | Inr raw \<Rightarrow>
       if raw = [] \<or> length raw > MAX_PROFILE_BYTES then Inl (Profile_Error (''performance profile must contain 1-'' @ dec MAX_PROFILE_BYTES @ '' bytes''))
       else if \<not> utf8_valid (without_bom raw) then Inl (Profile_Error ''invalid performance profile JSON: '')
       else (case json_loads (without_bom raw) of
           Inl (Json_Duplicate k) \<Rightarrow> Inl (Profile_Error (''duplicate JSON key: '' @ quoted k))
         | Inl (Json_Constant c) \<Rightarrow> Inl (Profile_Error (''non-finite JSON number is forbidden: '' @ c))
         | Inl _ \<Rightarrow> Inl (Profile_Error ''invalid performance profile JSON: '')
         | Inr v \<Rightarrow> profile_from_document v (sha256 raw)))"

section \<open>Percentiles\<close>

definition finite_part :: "pyfloat \<Rightarrow> rat" where
  "finite_part f = (case f of Fin q \<Rightarrow> q | _ \<Rightarrow> 0)"

definition is_finite :: "pyfloat \<Rightarrow> bool" where
  "is_finite f = (case f of Fin _ \<Rightarrow> True | _ \<Rightarrow> False)"

text \<open>\<open>max(1, math.ceil(percentile / 100.0 * len(ordered)))\<close> with the rounding of the quotient and of the product\<close>

definition rank :: "rat \<Rightarrow> nat \<Rightarrow> nat" where
  "rank percentile n = nat (max 1 \<lceil>finite_part (binary64 (finite_part (binary64 (percentile / 100)) * of_nat n))\<rceil>)"

definition nearest_rank :: "pyfloat list \<Rightarrow> rat \<Rightarrow> pyexc + rat option" where
  "nearest_rank values percentile =
     (if values = [] then Inr None
      else if \<not> (0 < percentile \<and> percentile \<le> 100) then Inl (ValueError ''percentile must be greater than 0 and at most 100'')
      else if \<not> list_all is_finite values then Inl (ValueError ''percentile population must contain only finite values'')
      else Inr (Some (sort (map finite_part values) ! (rank percentile (length values) - 1))))"

record distribution =
  ds_sample_count :: nat
  ds_p50 :: "rat option"
  ds_p95 :: "rat option"
  ds_p99 :: "rat option"
  ds_max :: "rat option"
  ds_reason :: "string option"

text \<open>The report of a population that was collected as finite floats; the constant texts of the report are left out.\<close>

definition distribution_of :: "rat list \<Rightarrow> pyexc + distribution" where
  "distribution_of values =
     (let fs = map Fin values in
      bindE (nearest_rank fs 50) (\<lambda>p50. bindE (nearest_rank fs 95) (\<lambda>p95. bindE (nearest_rank fs 99) (\<lambda>p99.
      Inr \<lparr>ds_sample_count = length values, ds_p50 = p50, ds_p95 = p95, ds_p99 = p99,
           ds_max = (if values = [] then None else Some (Max (set values))), ds_reason = (if values = [] then Some ''NO_SAMPLES'' else None)\<rparr>))))"

section \<open>Checks against the limits\<close>

text \<open>
  What the checks use of the resource report: extreme, first and last counters, the growth rates and the processor load, whose
  floats are what the arithmetic of the report gave.
\<close>

record resources =
  re_cpu_maximum :: "pyfloat option"
  re_cpu_samples :: nat
  re_working_set_maximum :: int
  re_private_maximum :: int
  re_handle_maximum :: int
  re_thread_maximum :: int
  re_private_growth :: pyfloat
  re_working_set_growth :: pyfloat
  re_handle_first :: int
  re_handle_last :: int
  re_thread_first :: int
  re_thread_last :: int

record threshold_check =
  tc_name :: string
  tc_observed :: "pyfloat option"
  tc_limit :: rat
  tc_minimum :: bool
  tc_passed :: bool
  tc_reason :: "string option"

text \<open>The exact value of an integer or a finite float, by which comparisons go.\<close>

fun exact_value :: "pyval \<Rightarrow> rat" where
  "exact_value (PInt i) = of_int i"
| "exact_value (PFloat f) = finite_part f"
| "exact_value _ = 0"

definition float_at_least :: "pyfloat \<Rightarrow> rat \<Rightarrow> bool" where
  "float_at_least x q = (case x of Fin y \<Rightarrow> q \<le> y | PosInf \<Rightarrow> True | _ \<Rightarrow> False)"

definition float_at_most :: "pyfloat \<Rightarrow> rat \<Rightarrow> bool" where
  "float_at_most x q = (case x of Fin y \<Rightarrow> y \<le> q | NegInf \<Rightarrow> True | _ \<Rightarrow> False)"

definition float_int :: "int \<Rightarrow> pyfloat" where
  "float_int i = binary64 (of_int i)"

definition latency_rows :: "distribution \<Rightarrow> thresholds \<Rightarrow> (string \<times> pyfloat option \<times> rat \<times> string option) list" where
  "latency_rows latency t =
     [(''minimum_samples'', Some (float_int (int (ds_sample_count latency))), finite_part (float_int (th_minimum_samples t)), None),
      (''max_task_p95_ms'', map_option Fin (ds_p95 latency), exact_value (th_max_task_p95_ms t), ds_reason latency),
      (''max_task_p99_ms'', map_option Fin (ds_p99 latency), exact_value (th_max_task_p99_ms t), ds_reason latency),
      (''max_task_ms'', map_option Fin (ds_max latency), exact_value (th_max_task_ms t), ds_reason latency)]"

definition resource_rows :: "resources + string \<Rightarrow> thresholds \<Rightarrow> (string \<times> pyfloat option \<times> rat \<times> string option) list" where
  "resource_rows report t = (case report of
     Inl r \<Rightarrow>
       [(''max_cpu_core_percent'', re_cpu_maximum r, exact_value (th_max_cpu_core_percent t), if re_cpu_samples r = 0 then Some ''NO_CPU_INTERVAL'' else None),
        (''max_working_set_bytes'', Some (float_int (re_working_set_maximum r)), finite_part (float_int (th_max_working_set_bytes t)), None),
        (''max_private_bytes'', Some (float_int (re_private_maximum r)), finite_part (float_int (th_max_private_bytes t)), None),
        (''max_handle_count'', Some (float_int (re_handle_maximum r)), finite_part (float_int (th_max_handle_count t)), None),
        (''max_thread_count'', Some (float_int (re_thread_maximum r)), finite_part (float_int (th_max_thread_count t)), None),
        (''max_private_growth_bytes_per_hour'', Some (re_private_growth r), exact_value (th_max_private_growth t), None),
        (''max_working_set_growth_bytes_per_hour'', Some (re_working_set_growth r), exact_value (th_max_working_set_growth t), None),
        (''max_handle_growth'', Some (float_int (re_handle_last r - re_handle_first r)), finite_part (float_int (th_max_handle_growth t)), None),
        (''max_thread_growth'', Some (float_int (re_thread_last r - re_thread_first r)), finite_part (float_int (th_max_thread_growth t)), None)]
   | Inr reason \<Rightarrow> map (\<lambda>(name, limit). (name, None, limit, Some reason))
       [(''max_cpu_core_percent'', the (finite_number (th_max_cpu_core_percent t))), (''max_working_set_bytes'', finite_part (float_int (th_max_working_set_bytes t))),
        (''max_private_bytes'', finite_part (float_int (th_max_private_bytes t))), (''max_handle_count'', finite_part (float_int (th_max_handle_count t))),
        (''max_thread_count'', finite_part (float_int (th_max_thread_count t))),
        (''max_private_growth_bytes_per_hour'', the (finite_number (th_max_private_growth t))),
        (''max_working_set_growth_bytes_per_hour'', the (finite_number (th_max_working_set_growth t))),
        (''max_handle_growth'', finite_part (float_int (th_max_handle_growth t))), (''max_thread_growth'', finite_part (float_int (th_max_thread_growth t)))])"

definition threshold_checks :: "distribution \<Rightarrow> resources + string \<Rightarrow> thresholds \<Rightarrow> threshold_check list" where
  "threshold_checks latency report t = map (\<lambda>(name, observed, limit, reason).
     let is_minimum = (name = ''minimum_samples'') in
     \<lparr>tc_name = name, tc_observed = observed, tc_limit = limit, tc_minimum = is_minimum,
      tc_passed = (case observed of None \<Rightarrow> False | Some x \<Rightarrow> if is_minimum then float_at_least x limit else float_at_most x limit),
      tc_reason = (if observed \<noteq> None then None else reason)\<rparr>) (latency_rows latency t @ resource_rows report t)"

definition capture_overhead :: "rat option \<Rightarrow> rat option \<Rightarrow> pyfloat option" where
  "capture_overhead measured baseline = (case (measured, baseline) of
     (Some m, Some b) \<Rightarrow> if b > 0
       then Some (case binary64 (m - b) of Fin d \<Rightarrow> (case binary64 (d / b) of Fin e \<Rightarrow> binary64 (e * 100) | f \<Rightarrow> f) | f \<Rightarrow> f) else None
   | _ \<Rightarrow> None)"

definition overhead_passed :: "rat option \<Rightarrow> rat option \<Rightarrow> thresholds \<Rightarrow> bool" where
  "overhead_passed measured baseline t = (case capture_overhead measured baseline of
     None \<Rightarrow> False | Some x \<Rightarrow> float_at_most x (exact_value (th_max_capture_overhead t)))"
end
