(* ===== verification/PerformanceRuns.thy ===== *)
theory PerformanceRuns
  imports Performance ClientSession
begin

text \<open>
  Runs of performance scenarios on a client, \<open>performance.py\<close>: one iteration with its capture, the warm-up and measurement loops, the report of a
  scenario and the suite. What the host, the clock and the sampler of process resources do is an argument: each iteration has its own. The sampler is
  open; the growth rates of the resource report are a parameter, as their sums depend on the interpreter. Pauses, time stamps and constant texts are left out.
\<close>

section \<open>One iteration\<close>

text \<open>An error of the client, a \<open>RuntimeError\<close> of the runner, or a failed resource sample.\<close>

datatype run_exc = Client_Raised client_exc | Runtime_Error string | Sample_Error string

text \<open>What is outside during one iteration: the three exchanges, and whether the process is alive before the capture is ended.\<close>

record iteration_env =
  ie_begin :: exchange_env
  ie_read :: exchange_env
  ie_alive :: bool
  ie_end :: exchange_env

definition is_running :: "bool \<Rightarrow> client \<Rightarrow> bool" where
  "is_running alive c \<longleftrightarrow> cl_process c \<and> alive \<and> cl_state c \<in> {STARTING, RUNNING, CLOSING}"

definition REQUEST_ERROR_BITS :: "string list" where
  "REQUEST_ERROR_BITS = [''IIN2.0.'', ''IIN2.1.'', ''IIN2.2.'']"

definition assert_read_accepted :: "read_result \<Rightarrow> run_exc option" where
  "assert_read_accepted r =
     (let bits = get (rr_iin r) ''bits'';
          request_errors = filter (\<lambda>b. is_str b \<and> list_ex (\<lambda>p. take (length p) (as_str b) = p) REQUEST_ERROR_BITS) (as_list bits) in first_error
       [raise_if (\<not> is_list bits) (Runtime_Error ''read result IIN bits are unavailable''),
        raise_if (request_errors \<noteq> []) (Runtime_Error (''DUT rejected the performance read: '' @ join '', '' (map as_str request_errors)))])"

definition run_result :: "'a result \<Rightarrow> (run_exc + 'a) \<times> client" where
  "run_result r = (map_error Client_Raised (fst r), snd r)"

definition request_read :: "(rat \<Rightarrow> string) \<Rightarrow> exchange_env \<Rightarrow> client \<Rightarrow> read_scenario \<Rightarrow> read_result result" where
  "request_read repr x c s =
     (let n = PInt (rs_max_measurements s); mode = PStr ''summary''; request_timeout = PFloat (Fin (float_add (timeout_value s) 1)) in
      if rs_operation s = ''read'' then read_headers repr x c (Seq (map Some (rs_headers s))) (rs_task_timeout s) n mode request_timeout
      else if rs_operation s = ''class_poll'' then class_poll repr x c (PList (rs_classes s)) (rs_task_timeout s) n mode request_timeout
      else integrity_poll repr x c (rs_task_timeout s) n mode request_timeout)"

definition execute_read :: "(rat \<Rightarrow> string) \<Rightarrow> exchange_env \<Rightarrow> client \<Rightarrow> read_scenario \<Rightarrow> (run_exc + read_result) \<times> client" where
  "execute_read repr x c s = (case run_result (request_read repr x c s) of
     (Inl e, c) \<Rightarrow> (Inl e, c)
   | (Inr r, c) \<Rightarrow> (checked (assert_read_accepted r) r, c))"

text \<open>\<open>min(300.0, max(1.0, scenario.task_timeout_seconds))\<close>, which keeps an integer in between\<close>

definition drain_timeout :: "read_scenario \<Rightarrow> pyval" where
  "drain_timeout s = (if timeout_value s \<le> 1 then PFloat (Fin 1) else if 300 \<le> timeout_value s then PFloat (Fin 300) else rs_task_timeout s)"

definition open_capture :: "(rat \<Rightarrow> string) \<Rightarrow> exchange_env \<Rightarrow> client \<Rightarrow> read_scenario \<Rightarrow> (run_exc + capture_result option) \<times> client" where
  "open_capture repr x c s = (case rs_capture s of
     None \<Rightarrow> (Inr None, c)
   | Some cfg \<Rightarrow> (case run_result (begin_capture repr x c (Object cfg) (PFloat (Fin 2))) of
       (Inl e, c) \<Rightarrow> (Inl e, c) | (Inr r, c) \<Rightarrow> (Inr (Some r), c)))"

text \<open>The \<open>finally\<close> block; an error it raises replaces the one of the read.\<close>

definition close_capture ::
    "(rat \<Rightarrow> string) \<Rightarrow> exchange_env \<Rightarrow> bool \<Rightarrow> client \<Rightarrow> read_scenario \<Rightarrow> capture_result option \<Rightarrow> (run_exc + capture_result option) \<times> client" where
  "close_capture repr x alive c s capture = (case capture of
     None \<Rightarrow> (Inr None, c)
   | Some r \<Rightarrow> if \<not> is_running alive c then (Inr (Some r), c)
       else (case run_result (end_capture repr x c (PStr (cr_capture_id r)) (drain_timeout s) (PFloat (Fin (float_add (drain_value s) 1)))) of
         (Inl e, c) \<Rightarrow> (Inl e, c) | (Inr t, c) \<Rightarrow> (Inr (Some t), c)))"

definition capture_checks :: "capture_result \<Rightarrow> run_exc option" where
  "capture_checks r = first_error
     [raise_if (cr_state r \<noteq> ''FINALIZED'' \<or> cr_valid r \<noteq> Some True) (Runtime_Error ''native capture did not finalize as a valid bounded run''),
      raise_if (cr_queue_overflow r \<noteq> 0) (Runtime_Error ''native capture queue overflowed''),
      raise_if (cr_mode r = ''static_set'' \<and> (cr_missing r \<noteq> Some 0 \<or> cr_duplicates r \<noteq> Some 0 \<or> cr_unmatched_total r \<noteq> 0))
        (Runtime_Error ''static capture truth mismatch: '')]"

text \<open>\<open>dict(actual) != dict(expected)\<close>, numbers by value\<close>

definition counts_equal :: "pyval \<Rightarrow> (string \<times> int) list \<Rightarrow> bool" where
  "counts_equal v m \<longleftrightarrow> is_dict v \<and> list_all (\<lambda>k. map_of m k \<noteq> None) (map fst (as_dict v)) \<and>
     list_all (\<lambda>(k, n). \<exists>u \<in> set_option (map_of (as_dict v) k). eq_int u n) m"

definition population_mismatch :: "read_scenario \<Rightarrow> read_result \<Rightarrow> run_exc option" where
  "population_mismatch s r = first_error
     [raise_if (as_int (get (rr_summary r) ''received_total'') \<noteq> rs_expected_objects s) (Runtime_Error ''read population mismatch: ''),
      raise_if (\<not> counts_equal (get (rr_summary r) ''by_kind'') (rs_by_kind s)) (Runtime_Error ''read population by_kind mismatch: ''),
      raise_if (\<not> counts_equal (get (rr_summary r) ''by_group_variation'') (rs_by_group_variation s))
        (Runtime_Error ''read population by_group_variation mismatch: '')]"

definition execute_iteration ::
    "(rat \<Rightarrow> string) \<Rightarrow> iteration_env \<Rightarrow> client \<Rightarrow> read_scenario \<Rightarrow> (run_exc + read_result \<times> capture_result option) \<times> client" where
  "execute_iteration repr env c s = (case open_capture repr (ie_begin env) c s of
     (Inl e, c) \<Rightarrow> (Inl e, c)
   | (Inr capture, c) \<Rightarrow> (case execute_read repr (ie_read env) c s of (result, c) \<Rightarrow>
       (case close_capture repr (ie_end env) (ie_alive env) c s capture of
          (Inl e, c) \<Rightarrow> (Inl e, c)
        | (Inr capture, c) \<Rightarrow> (bindE result (\<lambda>r.
            checked (first_error [for_each capture_checks (case capture of None \<Rightarrow> [] | Some t \<Rightarrow> [t]), population_mismatch s r]) (r, capture)), c))))"

section \<open>The loops\<close>

record resource_sample =
  sa_monotonic_ns :: int
  sa_cpu_seconds :: rat
  sa_working_set :: int
  sa_private :: int
  sa_handles :: int
  sa_threads :: int

record measure_env =
  me_before :: "string + resource_sample"
  me_iteration :: iteration_env
  me_after :: "string + resource_sample"

record measured =
  ms_latencies :: "rat list"
  ms_throughput :: "rat list"
  ms_samples :: "resource_sample list"
  ms_cpu :: "pyfloat list"
  ms_captures :: "capture_result list"
  ms_received :: int
  ms_fragments :: int
  ms_by_kind :: "(string \<times> int) list"
  ms_by_object :: "(string \<times> int) list"
  ms_completed :: nat

definition nothing_measured :: measured where
  "nothing_measured = \<lparr>ms_latencies = [], ms_throughput = [], ms_samples = [], ms_cpu = [], ms_captures = [], ms_received = 0, ms_fragments = 0,
     ms_by_kind = [], ms_by_object = [], ms_completed = 0\<rparr>"

text \<open>Operations of floats with a finite divisor or factor.\<close>

definition float_div :: "pyfloat \<Rightarrow> rat \<Rightarrow> pyfloat" where
  "float_div x q = (case x of Fin p \<Rightarrow> binary64 (p / q) | _ \<Rightarrow> x)"

definition float_mul :: "pyfloat \<Rightarrow> rat \<Rightarrow> pyfloat" where
  "float_mul x q = (case x of Fin p \<Rightarrow> binary64 (p * q) | _ \<Rightarrow> x)"

definition cpu_percent :: "resource_sample \<Rightarrow> resource_sample \<Rightarrow> pyfloat list" where
  "cpu_percent a b =
     (let wall = finite_part (float_div (float_int (sa_monotonic_ns b - sa_monotonic_ns a)) (10 ^ 9)); cpu = binary64 (sa_cpu_seconds b - sa_cpu_seconds a) in
      if 0 < wall \<and> float_at_least cpu 0 then [float_mul (float_div cpu wall) 100] else [])"

text \<open>\<open>float(duration)\<close> of a number, where a Boolean is one\<close>

fun duration_value :: "pyval \<Rightarrow> run_exc + rat" where
  "duration_value (PBool b) = Inr (of_bool b)"
| "duration_value (PInt i) = (case finite_number (PInt i) of Some q \<Rightarrow> Inr q | None \<Rightarrow> Inl (Client_Raised (Client_Python INT_TOO_LARGE)))"
| "duration_value (PFloat (Fin q)) = Inr q"
| "duration_value _ = Inl (Runtime_Error ''read task did not expose finite duration_ms'')"

fun int_of :: "pyval \<Rightarrow> int" where
  "int_of (PInt i) = i"
| "int_of (PBool b) = of_bool b"
| "int_of (PFloat (Fin q)) = (if q < 0 then \<lceil>q\<rceil> else \<lfloor>q\<rfloor>)"
| "int_of _ = 0"

definition count_of :: "(string \<times> int) list \<Rightarrow> string \<Rightarrow> int" where
  "count_of m k = (case map_of m k of None \<Rightarrow> 0 | Some n \<Rightarrow> n)"

text \<open>A dictionary has each key once.\<close>

definition add_counts :: "dict \<Rightarrow> (string \<times> int) list \<Rightarrow> (string \<times> int) list" where
  "add_counts d m = fold (\<lambda>k m. dict_set k (count_of m k + int_of (get d k)) m) (remdups (map fst d)) m"

definition add_sample :: "resource_sample \<Rightarrow> resource_sample \<Rightarrow> measured \<Rightarrow> measured" where
  "add_sample a b m = m\<lparr>ms_samples := ms_samples m @ [a, b], ms_cpu := ms_cpu m @ cpu_percent a b\<rparr>"

definition add_result :: "rat \<Rightarrow> read_result \<Rightarrow> capture_result option \<Rightarrow> measured \<Rightarrow> measured" where
  "add_result duration r capture m = m\<lparr>ms_latencies := ms_latencies m @ [duration],
     ms_received := ms_received m + as_int (get (rr_summary r) ''received_total''),
     ms_fragments := ms_fragments m + as_int (get (rr_summary r) ''fragments_received''),
     ms_by_kind := add_counts (as_dict (get (rr_summary r) ''by_kind'')) (ms_by_kind m),
     ms_by_object := add_counts (as_dict (get (rr_summary r) ''by_group_variation'')) (ms_by_object m),
     ms_throughput := ms_throughput m @ (case capture of None \<Rightarrow> [] | Some t \<Rightarrow> [the (cr_throughput_per_sec t)]),
     ms_captures := ms_captures m @ (case capture of None \<Rightarrow> [] | Some t \<Rightarrow> [t]),
     ms_completed := Suc (ms_completed m)\<rparr>"

definition measure_one :: "(rat \<Rightarrow> string) \<Rightarrow> measure_env \<Rightarrow> client \<Rightarrow> read_scenario \<Rightarrow> measured \<Rightarrow> run_exc option \<times> measured \<times> client" where
  "measure_one repr env c s m = (case me_before env of
     Inl e \<Rightarrow> (Some (Sample_Error e), m, c)
   | Inr a \<Rightarrow> (case execute_iteration repr (me_iteration env) c s of
       (Inl e, c) \<Rightarrow> (Some e, m, c)
     | (Inr (r, capture), c) \<Rightarrow> (case me_after env of
         Inl e \<Rightarrow> (Some (Sample_Error e), m, c)
       | Inr b \<Rightarrow> let m = add_sample a b m in (case duration_value (get (rr_timings r) ''duration_ms'') of
           Inl e \<Rightarrow> (Some e, m, c)
         | Inr duration \<Rightarrow> (None, add_result duration r capture m, c)))))"

fun warm_up :: "(rat \<Rightarrow> string) \<Rightarrow> (nat \<Rightarrow> iteration_env) \<Rightarrow> nat \<Rightarrow> client \<Rightarrow> read_scenario \<Rightarrow> run_exc option \<times> client" where
  "warm_up repr env 0 c s = (None, c)"
| "warm_up repr env (Suc n) c s = (case execute_iteration repr (env n) c s of
     (Inl e, c) \<Rightarrow> (Some e, c) | (Inr _, c) \<Rightarrow> warm_up repr env n c s)"

fun measure_all ::
    "(rat \<Rightarrow> string) \<Rightarrow> (nat \<Rightarrow> measure_env) \<Rightarrow> nat \<Rightarrow> client \<Rightarrow> read_scenario \<Rightarrow> measured \<Rightarrow> run_exc option \<times> measured \<times> client" where
  "measure_all repr env 0 c s m = (None, m, c)"
| "measure_all repr env (Suc n) c s m = (case measure_one repr (env n) c s m of
     (Some e, m, c) \<Rightarrow> (Some e, m, c) | (None, m, c) \<Rightarrow> measure_all repr env n c s m)"

section \<open>Reports\<close>

type_synonym growth_rates = "resource_sample list \<Rightarrow> pyfloat \<times> pyfloat"

fun float_below :: "pyfloat \<Rightarrow> pyfloat \<Rightarrow> bool" where
  "float_below (Fin x) (Fin y) = (x < y)"
| "float_below (Fin x) PosInf = True"
| "float_below NegInf (Fin y) = True"
| "float_below NegInf PosInf = True"
| "float_below _ _ = False"

definition float_max :: "pyfloat list \<Rightarrow> pyfloat option" where
  "float_max fs = (case fs of [] \<Rightarrow> None | f # fs \<Rightarrow> Some (fold (\<lambda>y x. if float_below x y then y else x) fs f))"

text \<open>The rates of private bytes and of the working set, in this order.\<close>

definition resource_report :: "growth_rates \<Rightarrow> resource_sample list \<Rightarrow> pyfloat list \<Rightarrow> resources + string" where
  "resource_report growth samples cpu =
     (if samples = [] then Inr ''NO_RESOURCE_SAMPLES''
      else Inl \<lparr>re_cpu_maximum = float_max cpu, re_cpu_samples = length cpu, re_working_set_maximum = Max (set (map sa_working_set samples)),
        re_private_maximum = Max (set (map sa_private samples)), re_handle_maximum = Max (set (map sa_handles samples)),
        re_thread_maximum = Max (set (map sa_threads samples)), re_private_growth = fst (growth samples), re_working_set_growth = snd (growth samples),
        re_handle_first = sa_handles (hd samples), re_handle_last = sa_handles (List.last samples), re_thread_first = sa_threads (hd samples),
        re_thread_last = sa_threads (List.last samples)\<rparr>)"

record scenario_report =
  sr_scenario_id :: string
  sr_attempted :: int
  sr_completed :: nat
  sr_received :: int
  sr_received_by_kind :: "(string \<times> int) list"
  sr_received_by_object :: "(string \<times> int) list"
  sr_fragments :: int
  sr_latency :: distribution
  sr_throughput :: distribution
  sr_resources :: "resources + string"
  sr_failures :: "(string \<times> run_exc) list"
  sr_checks :: "threshold_check list"
  sr_passed :: bool

definition scenario_report_of ::
    "growth_rates \<Rightarrow> thresholds \<Rightarrow> read_scenario \<Rightarrow> (string \<times> run_exc) list \<Rightarrow> measured \<Rightarrow> run_exc + scenario_report" where
  "scenario_report_of growth t s failures m =
     map_error (Client_Raised \<circ> Client_Python) (bindE (distribution_of (ms_latencies m)) (\<lambda>latency. bindE (distribution_of (ms_throughput m)) (\<lambda>throughput.
       let resources = resource_report growth (ms_samples m) (ms_cpu m); checks = threshold_checks latency resources t in
       Inr \<lparr>sr_scenario_id = rs_id s, sr_attempted = rs_measurement_iterations s, sr_completed = ms_completed m, sr_received = ms_received m,
         sr_received_by_kind = ms_by_kind m, sr_received_by_object = ms_by_object m, sr_fragments = ms_fragments m, sr_latency = latency,
         sr_throughput = throughput, sr_resources = resources, sr_failures = failures, sr_checks = checks,
         sr_passed = (failures = [] \<and> list_all tc_passed checks)\<rparr>)))"

text \<open>\<open>except Exception\<close> does not catch an interrupt.\<close>

fun interrupts :: "run_exc \<Rightarrow> bool" where
  "interrupts (Client_Raised (Interrupt _ _ _)) = True"
| "interrupts _ = False"

record scenario_env =
  sv_warmup :: "nat \<Rightarrow> iteration_env"
  sv_measure :: "nat \<Rightarrow> measure_env"

definition run_scenario ::
    "(rat \<Rightarrow> string) \<Rightarrow> growth_rates \<Rightarrow> thresholds \<Rightarrow> scenario_env \<Rightarrow> client \<Rightarrow> read_scenario \<Rightarrow> (run_exc + scenario_report) \<times> client" where
  "run_scenario repr growth t env c s = (case warm_up repr (sv_warmup env) (nat (rs_warmup_iterations s)) c s of
     (Some e, c) \<Rightarrow> (if interrupts e then Inl e else scenario_report_of growth t s [(''warmup'', e)] nothing_measured, c)
   | (None, c) \<Rightarrow> (case measure_all repr (sv_measure env) (nat (rs_measurement_iterations s)) c s nothing_measured of
       (Some e, m, c) \<Rightarrow> (if interrupts e then Inl e else scenario_report_of growth t s [(''measurement'', e)] m, c)
     | (None, m, c) \<Rightarrow> (scenario_report_of growth t s [] m, c)))"

fun run_scenarios ::
    "(rat \<Rightarrow> string) \<Rightarrow> growth_rates \<Rightarrow> thresholds \<Rightarrow> (string \<Rightarrow> scenario_env) \<Rightarrow> client \<Rightarrow> read_scenario list \<Rightarrow> (run_exc + scenario_report list) \<times> client" where
  "run_scenarios repr growth t env c [] = (Inr [], c)"
| "run_scenarios repr growth t env c (s # ss) = (case run_scenario repr growth t (env (rs_id s)) c s of
     (Inl e, c) \<Rightarrow> (Inl e, c)
   | (Inr report, c) \<Rightarrow> (case run_scenarios repr growth t env c ss of (r, c) \<Rightarrow> (bindE r (\<lambda>reports. Inr (report # reports)), c)))"

section \<open>The suite\<close>

record overhead_report =
  ov_scenario_id :: string
  ov_baseline_id :: string
  ov_percent :: "pyfloat option"
  ov_passed :: bool

record suite_report =
  su_scenarios :: "scenario_report list"
  su_overhead :: "overhead_report list"
  su_passed :: bool

definition p50_of :: "scenario_report list \<Rightarrow> string \<Rightarrow> rat option" where
  "p50_of reports i = Option.bind (map_of (map (\<lambda>r. (sr_scenario_id r, r)) reports) i) (\<lambda>r. ds_p50 (sr_latency r))"

definition overhead_reports :: "thresholds \<Rightarrow> read_scenario list \<Rightarrow> scenario_report list \<Rightarrow> overhead_report list" where
  "overhead_reports t scenarios reports = concat (map (\<lambda>s. case rs_baseline s of
     None \<Rightarrow> []
   | Some b \<Rightarrow> [\<lparr>ov_scenario_id = rs_id s, ov_baseline_id = b, ov_percent = capture_overhead (p50_of reports (rs_id s)) (p50_of reports b),
       ov_passed = overhead_passed (p50_of reports (rs_id s)) (p50_of reports b) t\<rparr>]) scenarios)"

text \<open>A scenario with too much overhead has not passed.\<close>

definition with_overhead :: "overhead_report list \<Rightarrow> scenario_report \<Rightarrow> scenario_report" where
  "with_overhead overhead r = r\<lparr>sr_passed := sr_passed r \<and> list_all (\<lambda>o1. ov_scenario_id o1 = sr_scenario_id r \<longrightarrow> ov_passed o1) overhead\<rparr>"

definition suite_report_of :: "perf_profile \<Rightarrow> scenario_report list \<Rightarrow> suite_report" where
  "suite_report_of p reports =
     (let overhead = overhead_reports (pf_thresholds p) (pf_scenarios p) reports; final = map (with_overhead overhead) reports in
      \<lparr>su_scenarios = final, su_overhead = overhead, su_passed = list_all sr_passed final\<rparr>)"

text \<open>The process identifier is what the property \<open>pid\<close> of the client gives.\<close>

definition run_performance_suite ::
    "(rat \<Rightarrow> string) \<Rightarrow> growth_rates \<Rightarrow> (string \<Rightarrow> scenario_env) \<Rightarrow> int option \<Rightarrow> client \<Rightarrow> perf_profile \<Rightarrow> (run_exc + suite_report) \<times> client" where
  "run_performance_suite repr growth env pid c p =
     (if pid = None then (Inl (Runtime_Error ''client must own a running native host process''), c)
      else case run_scenarios repr growth (pf_thresholds p) env c (pf_scenarios p) of
        (Inl e, c) \<Rightarrow> (Inl e, c)
      | (Inr reports, c) \<Rightarrow> (case hello_info c of (h, c) \<Rightarrow> (bindE (map_error Client_Raised h) (\<lambda>_. Inr (suite_report_of p reports)), c)))"

end
