(* ===== verification/Percentiles.thy ===== *)
theory Percentiles
  imports Performance Rounding
begin

text \<open>
  The percentiles of \<open>performance.py\<close>: the rank \<open>ceil(p / 100.0 * n)\<close> is computed with floats, and a quotient such as \<open>95 / 100.0\<close> is not exact; for the
  three percentiles of a report and up to a million samples the rounding never moves the rank.
\<close>

section \<open>Rounding of the rank\<close>

lemma round_half_even_near: "\<bar>x - of_int k\<bar> < 1 / 2 \<Longrightarrow> round_half_even x = k"
proof -
  assume "\<bar>x - of_int k\<bar> < 1 / 2"
  then have "\<bar>of_int (round_half_even x) - (of_int k :: rat)\<bar> < 1" using round_half_even_dist [of x] by linarith
  then have "\<bar>of_int (round_half_even x - k) :: rat\<bar> < of_int 1" by simp
  then have "\<bar>round_half_even x - k\<bar> < 1" by (simp only: of_int_less_iff flip: of_int_abs)
  then show ?thesis by simp
qed

lemma pow2_less_cancel: "pow2 a < pow2 b \<Longrightarrow> a < b"
  using pow2_mono [of b a] by (metis not_less)

text \<open>A positive number that is close enough to an integer is rounded to it.\<close>

lemma binary64_near_int:
  assumes "1 / 2 \<le> x" "x < 2 ^ 53" "\<bar>x - of_int m\<bar> * 2 ^ 54 < x"
  shows "binary64 x = Fin (of_int m)"
proof -
  define l where "l = ilog2 x"
  have x: "0 < x" using assms(1) by linarith
  have l: "pow2 l \<le> x" "x < pow2 (l + 1)" using ilog2_bounds [OF x] by (simp_all add: l_def)
  have "pow2 (- 1) < pow2 (l + 1)" using l(2) assms(1) by (simp add: pow2_def)
  then have low: "- 2 < l" using pow2_less_cancel by fastforce
  have "pow2 l < pow2 53" using l(1) assms(2) by (simp add: pow2_def [of 53])
  then have high: "l \<le> 52" using pow2_less_cancel by fastforce
  define e where "e = l - 52"
  have e: "max (ilog2 \<bar>x\<bar> - 52) (-1074) = e" using x low by (simp add: e_def l_def)
  have split: "pow2 (l + 1) = 2 ^ 53 * pow2 e" using pow2_add [of 53 e] by (simp add: e_def pow2_def [of 53] add.commute)
  define k where "k = m * 2 ^ nat (- e)"
  have pe: "pow2 e * 2 ^ nat (- e) = 1" using high by (simp add: e_def pow2_def)
  have k: "of_int k * pow2 e = (of_int m :: rat)" using pe by (simp add: k_def mult.assoc mult.commute [of "2 ^ nat (- e)"])
  have dist: "\<bar>x / pow2 e - of_int k\<bar> * pow2 e = \<bar>x - of_int m\<bar>"
    using k less_imp_neq [OF pow2_pos [of e]] by (simp add: abs_mult_pos' [symmetric] left_diff_distrib less_imp_le abs_mult_pos)
  have "\<bar>x / pow2 e - of_int k\<bar> * pow2 e * 2 ^ 54 < 2 ^ 53 * pow2 e" unfolding dist using assms(3) l(2) unfolding split by (rule less_trans)
  then have "\<bar>x / pow2 e - of_int k\<bar> * 2 * pow2 e < 1 * pow2 e" by simp
  then have "\<bar>x / pow2 e - of_int k\<bar> < 1 / 2" unfolding mult_less_cancel_right_pos [OF pow2_pos] by simp
  then have r: "round_half_even (x / pow2 e) = k" by (rule round_half_even_near)
  have "rounded x = of_int m" using r k e by (simp add: rounded_def)
  moreover have "\<bar>of_int m\<bar> < (2 :: rat) ^ 1024"
  proof -
    have "\<bar>of_int m\<bar> \<le> x + \<bar>x - of_int m\<bar>" using x by (simp add: abs_if)
    also have "\<dots> \<le> x + x"
    proof -
      have "\<bar>x - of_int m\<bar> * 1 \<le> \<bar>x - of_int m\<bar> * 2 ^ 54" by (rule mult_left_mono) simp_all
      then have "\<bar>x - of_int m\<bar> * 1 < x" using assms(3) by (rule le_less_trans)
      then show ?thesis by simp
    qed
    also have "\<dots> < 2 ^ 54" using assms(2) by simp
    also have "\<dots> \<le> (2 :: rat) ^ 1024" by (rule power_increasing) simp_all
    finally show ?thesis .
  qed
  then have "\<not> of_int m \<ge> (2 :: rat) ^ 1024" "\<not> of_int m \<le> - ((2 :: rat) ^ 1024)" by linarith+
  ultimately show ?thesis using x unfolding binary64_rounded by simp
qed

text \<open>The floats of the three percent_floats.\<close>

definition percent_float :: "nat \<Rightarrow> rat" where
  "percent_float p = (if p = 50 then 1 / 2 else if p = 95 then 4278419646001971 / 2 ^ 52 else 4458563631096791 / 2 ^ 52)"

text \<open>Scaling by a power of two commutes with rounding in the normal range.\<close>

lemma binary64_at_scale:
  assumes "pow2 52 \<le> x * 2 ^ s" "x * 2 ^ s < pow2 53" "\<bar>x * 2 ^ s - of_int k\<bar> < 1 / 2" "0 < x" "s \<le> 60" "0 < k" "k < 2 ^ 54"
  shows "binary64 x = Fin (of_int k / 2 ^ s)"
proof -
  define l where "l = ilog2 x"
  have l: "pow2 l \<le> x" "x < pow2 (l + 1)" using ilog2_bounds [OF assms(4)] by (simp_all add: l_def)
  have up: "pow2 (a + int s) = pow2 a * 2 ^ s" for a by (simp add: pow2_add pow2_nonneg_nat)
  have "pow2 l * 2 ^ s \<le> x * 2 ^ s" "x * 2 ^ s < pow2 (l + 1) * 2 ^ s" using l by (simp_all add: mult_right_mono)
  then have "pow2 (l + int s) < pow2 53" "pow2 52 < pow2 (l + 1 + int s)" unfolding up using assms(1,2) by linarith+
  then have "l + int s < 53" "52 < l + 1 + int s" using pow2_less_cancel by blast+
  then have l52: "l = 52 - int s" by linarith
  then have e: "max (ilog2 \<bar>x\<bar> - 52) (-1074) = - int s" using assms(4,5) unfolding l_def by simp
  have inv: "pow2 (- int s) * 2 ^ s = 1" using up [of "- int s"] by (simp add: pow2_def)
  have scale: "x / pow2 (- int s) = x * 2 ^ s" "of_int k * pow2 (- int s) = of_int k / (2 :: rat) ^ s" using inv less_imp_neq [OF pow2_pos [of "- int s"]] by (simp_all add: divide_eq_eq eq_divide_eq mult.assoc mult.commute)
  have "rounded x = of_int k / 2 ^ s"
    unfolding rounded_def e Let_def scale(1) using round_half_even_near [OF assms(3)] scale(2) by simp
  moreover have "0 < of_int k / (2 :: rat) ^ s" using assms(6) by simp
  moreover have "of_int k / (2 :: rat) ^ s < 2 ^ 1024"
  proof -
    have "of_int k / (2 :: rat) ^ s \<le> of_int k" using assms(6) by (simp add: divide_le_eq)
    also have "\<dots> < of_int (2 ^ 54)" using assms(7) by (simp only: of_int_less_iff)
    also have "\<dots> \<le> (2 :: rat) ^ 1024" using power_increasing [of 54 1024 "2 :: rat"] by simp
    finally show ?thesis .
  qed
  ultimately show ?thesis using assms(4) unfolding binary64_rounded by (simp add: not_le)
qed

lemma percent_float_rounded: "p \<in> {50, 95, 99} \<Longrightarrow> binary64 (of_nat p / 100) = Fin (percent_float p)"
  using binary64_at_scale [of "1 / 2" 53 "2 ^ 52"] binary64_at_scale [of "95 / 100" 53 8556839292003942] binary64_at_scale [of "99 / 100" 53 8917127262193582]
  by (auto simp: percent_float_def pow2_def)

lemma percent_float_bounds:
  assumes "p \<in> {50, 95, 99}"
  shows "1 / 2 \<le> percent_float p" "percent_float p \<le> 1" "\<bar>percent_float p - of_nat p / 100\<bar> * 2 ^ 54 < percent_float p" "p \<le> 100" "1 \<le> p"
  using assms by (auto simp: percent_float_def)

lemma rank_product:
  assumes "p \<in> {50, 95, 99}" "0 < n" "n \<le> 1000000"
  shows "\<lceil>finite_part (binary64 (percent_float p * of_nat n))\<rceil> = \<lceil>of_nat p * of_nat n / (100 :: rat)\<rceil>"
proof -
  define x where "x = percent_float p * of_nat n"
  define y where "y = of_nat p * of_nat n / (100 :: rat)"
  have n: "1 \<le> (of_nat n :: rat)" "of_nat n \<le> (1000000 :: rat)" using assms(2) of_nat_mono [OF assms(3), where 'a = rat] by simp_all
  have "\<bar>x - y\<bar> = \<bar>(percent_float p - of_nat p / 100) * of_nat n\<bar>" by (simp add: x_def y_def left_diff_distrib)
  then have xy: "\<bar>x - y\<bar> = \<bar>percent_float p - of_nat p / 100\<bar> * of_nat n" using n by (simp add: abs_mult)
  have near: "\<bar>x - y\<bar> * 2 ^ 54 < x"
    using mult_strict_right_mono [OF percent_float_bounds(3) [OF assms(1)], of "of_nat n"] n unfolding xy unfolding x_def by (simp add: mult_ac)
  have "1 / 2 * 1 \<le> percent_float p * of_nat n" "percent_float p * of_nat n \<le> 1 * 1000000"
    using mult_mono [OF percent_float_bounds(1) [OF assms(1)] n(1)] mult_mono [OF percent_float_bounds(2) [OF assms(1)] n(2)] percent_float_bounds(1) [OF assms(1)]
    by simp_all
  then have x: "1 / 2 \<le> x" "x \<le> 1000000" by (simp_all add: x_def)
  show ?thesis
  proof (cases "y = of_int \<lceil>y\<rceil>")
    case True
    then have "binary64 x = Fin (of_int \<lceil>y\<rceil>)" using near x by (intro binary64_near_int) auto
    then show ?thesis by (simp add: finite_part_def flip: x_def y_def)
  next
    case False
    obtain z where z: "binary64 x = Fin z" "\<bar>z - x\<bar> \<le> \<bar>x\<bar> / 2 ^ 53 + tiny" using x by (elim binary64_finite [of x, rotated]) (simp add: abs_le_iff)
    have tiny: "(tiny :: rat) < 1 / 1000" by (simp add: tiny_def)
    have far: "\<bar>y - of_int k\<bar> \<ge> 1 / 100" if "y \<noteq> of_int k" for k
    proof -
      have "(y - of_int k) * 100 = of_int (int (p * n) - 100 * k)" by (simp add: y_def field_simps)
      then have "\<bar>(y - of_int k) * 100\<bar> = of_int \<bar>int (p * n) - 100 * k\<bar>" by (simp only: of_int_abs)
      then have "\<bar>y - of_int k\<bar> * 100 = of_int \<bar>int (p * n) - 100 * k\<bar>" by (simp only: abs_mult abs_numeral)
      moreover have "int (p * n) \<noteq> 100 * k"
      proof
        assume "int (p * n) = 100 * k"
        then have "of_int (int (p * n)) = (of_int (100 * k) :: rat)" by (rule arg_cong)
        then show False using that by (simp add: y_def field_simps)
      qed
      then have "1 \<le> \<bar>int (p * n) - 100 * k\<bar>" by linarith
      then have "(of_int 1 :: rat) \<le> of_int \<bar>int (p * n) - 100 * k\<bar>" by (simp only: of_int_le_iff)
      ultimately show ?thesis by simp
    qed
    have "\<bar>x\<bar> / 2 ^ 53 \<le> 1000000 / 2 ^ 53" using x by (intro divide_right_mono) simp_all
    then have "\<bar>z - x\<bar> \<le> 1 / 500" using z(2) tiny by simp
    moreover have "\<bar>x - y\<bar> < x / 2 ^ 54" using near by (simp only: pos_less_divide_eq zero_less_power zero_less_numeral)
    then have "\<bar>x - y\<bar> < 1 / 1000" using divide_right_mono [OF x(2), of "2 ^ 54"] by simp
    moreover have "y \<le> of_int \<lceil>y\<rceil>" "of_int (\<lceil>y\<rceil> - 1) < y" using ceiling_correct [of y] by simp_all
    then have "1 / 100 \<le> of_int \<lceil>y\<rceil> - y" "1 / 100 \<le> y - of_int (\<lceil>y\<rceil> - 1)" 
      using far [of "\<lceil>y\<rceil>"] far [of "\<lceil>y\<rceil> - 1"] False abs_of_nonpos [of "y - of_int \<lceil>y\<rceil>"] abs_of_nonneg [of "y - of_int (\<lceil>y\<rceil> - 1)"] by linarith+
    ultimately have "of_int (\<lceil>y\<rceil> - 1) < z" "z \<le> of_int \<lceil>y\<rceil>" by (simp_all add: abs_if split: if_splits)
    then have "\<lceil>z\<rceil> = \<lceil>y\<rceil>" by (intro ceiling_unique) simp_all
    then show ?thesis using z(1) by (simp add: finite_part_def flip: x_def y_def)
  qed
qed

section \<open>Nearest rank\<close>

lemma sorted_filter_le:
  fixes xs :: "rat list"
  assumes "sorted xs" "i < length xs"
  shows "i < length (filter (\<lambda>v. v \<le> xs ! i) xs)"
proof -
  have "filter (\<lambda>v. v \<le> xs ! i) (take (Suc i) xs) = take (Suc i) xs"
    using sorted_nth_mono [OF assms(1) _ assms(2)] by (auto simp: filter_id_conv in_set_conv_nth less_Suc_eq_le)
  then have "length (filter (\<lambda>v. v \<le> xs ! i) (take (Suc i) xs @ drop (Suc i) xs)) \<ge> Suc i" unfolding filter_append using assms(2) by simp
  then show ?thesis by (simp only: append_take_drop_id Suc_le_eq)
qed

lemma sorted_filter_less:
  fixes xs :: "rat list"
  assumes "sorted xs" "i < length xs" "v < xs ! i"
  shows "length (filter (\<lambda>u. u \<le> v) xs) \<le> i"
proof -
  have "xs ! i \<le> u" if "u \<in> set (drop i xs)" for u
    using that assms(1,2) by (auto simp: in_set_conv_nth intro: sorted_nth_mono)
  then have "filter (\<lambda>u. u \<le> v) (drop i xs) = []" using assms(3) by (fastforce simp: filter_empty_conv)
  then have "length (filter (\<lambda>u. u \<le> v) (take i xs @ drop i xs)) \<le> i" unfolding filter_append using length_filter_le [of _ "take i xs"] by (simp add: le_trans)
  then show ?thesis by (simp only: append_take_drop_id)
qed

lemma length_filter_sort: "length (filter P (sort xs)) = length (filter P xs)"
  by (metis mset_filter mset_sort size_mset)

text \<open>The \<open>p\<close>-th percentile: the least sample which at least \<open>p\<close> percent of the samples do not exceed.\<close>

definition percentile_of :: "nat \<Rightarrow> rat list \<Rightarrow> rat \<Rightarrow> bool" where
  "percentile_of p values q \<longleftrightarrow> q \<in> set values \<and> p * length values \<le> 100 * length (filter (\<lambda>v. v \<le> q) values) \<and>
     (\<forall>v \<in> set values. v < q \<longrightarrow> 100 * length (filter (\<lambda>u. u \<le> v) values) < p * length values)"

lemma pred_bound: "int r = c \<Longrightarrow> 1 \<le> c \<Longrightarrow> 100 * (c - 1) < int m \<Longrightarrow> 100 * (r - 1) < m"
  by presburger

lemma rank_bounds:
  assumes "p \<in> {50, 95, 99}" "0 < n" "n \<le> 1000000"
  shows "0 < rank (of_nat p) n" "rank (of_nat p) n \<le> n" "p * n \<le> 100 * rank (of_nat p) n" "100 * (rank (of_nat p) n - 1) < p * n"
proof -
  define y where "y = of_nat p * of_nat n / (100 :: rat)"
  have r: "rank (of_nat p) n = nat (max 1 \<lceil>y\<rceil>)"
    by (simp only: rank_def percent_float_rounded [OF assms(1)] finite_part_def pyfloat.case rank_product [OF assms, unfolded finite_part_def] y_def)
  have y: "0 < y" using assms percent_float_bounds(5) [OF assms(1)] by (auto simp: y_def)
  then have c: "1 \<le> \<lceil>y\<rceil>" by linarith
  then have R: "int (rank (of_nat p) n) = \<lceil>y\<rceil>" by (simp add: r)
  show "0 < rank (of_nat p) n" by (simp add: r)
  have "y \<le> of_nat n" using assms percent_float_bounds(4) [OF assms(1)] by (auto simp: y_def)
  then have "\<lceil>y\<rceil> \<le> int n" by (simp add: ceiling_le_iff)
  then show "rank (of_nat p) n \<le> n" using R by linarith
  have pn: "of_nat (p * n) = y * 100" by (simp add: y_def)
  have "of_nat (p * n) \<le> (of_int (100 * \<lceil>y\<rceil>) :: rat)" using le_of_int_ceiling [of y] unfolding pn of_int_mult of_int_numeral by linarith
  then have "int (p * n) \<le> 100 * \<lceil>y\<rceil>" by (metis of_int_le_iff of_int_of_nat_eq)
  then show "p * n \<le> 100 * rank (of_nat p) n" using R by linarith
  have "(of_int (100 * (\<lceil>y\<rceil> - 1)) :: rat) < of_nat (p * n)" using ceiling_correct [of y] by (simp add: y_def)
  then have "100 * (\<lceil>y\<rceil> - 1) < int (p * n)" by (metis of_int_less_iff of_int_of_nat_eq)
  then show "100 * (rank (of_nat p) n - 1) < p * n" by (rule pred_bound [OF R c])
qed

lemma nearest_rank_percentile:
  assumes "p \<in> {50, 95, 99}" "values \<noteq> []" "length values \<le> 1000000"
  obtains q where "nearest_rank (map Fin values) (of_nat p) = Inr (Some q)" "percentile_of p values q"
proof -
  define r where "r = rank (of_nat p) (length values)"
  have r: "0 < r" "r \<le> length values" "p * length values \<le> 100 * r" "100 * (r - 1) < p * length values"
    using rank_bounds [OF assms(1) _ assms(3)] assms(2) by (simp_all add: r_def)
  let ?q = "sort values ! (r - 1)"
  have i: "sorted (sort values)" "r - 1 < length (sort values)" using r by simp_all
  have part: "map finite_part (map Fin values) = values" by (induction "values") (simp_all add: finite_part_def)
  have fin: "list_all is_finite (map Fin values)" by (simp add: list_all_iff is_finite_def)
  have p: "0 < (of_nat p :: rat)" "of_nat p \<le> (100 :: rat)" using percent_float_bounds(4,5) [OF assms(1)] by simp_all
  have "nearest_rank (map Fin values) (of_nat p) = Inr (Some ?q)"
    using assms(2) fin p unfolding nearest_rank_def part by (simp add: r_def)
  moreover have "?q \<in> set values" using nth_mem [OF i(2)] by simp
  moreover have "p * length values \<le> 100 * length (filter (\<lambda>v. v \<le> ?q) values)"
    using sorted_filter_le [OF i] r(3) unfolding length_filter_sort by linarith
  moreover have "100 * length (filter (\<lambda>u. u \<le> v) values) < p * length values" if "v < ?q" for v
    using sorted_filter_less [OF i that] r(4) unfolding length_filter_sort by linarith
  ultimately show thesis using that unfolding percentile_of_def by blast
qed

lemma distribution_percentiles:
  assumes "values \<noteq> []" "length values \<le> 1000000"
  obtains a b c where "distribution_of values = Inr \<lparr>ds_sample_count = length values, ds_p50 = Some a, ds_p95 = Some b, ds_p99 = Some c,
      ds_max = Some (Max (set values)), ds_reason = None\<rparr>"
    "percentile_of 50 values a" "percentile_of 95 values b" "percentile_of 99 values c"
proof -
  obtain a where a: "nearest_rank (map Fin values) 50 = Inr (Some a)" "percentile_of 50 values a" using nearest_rank_percentile [OF _ assms, of 50] by auto
  obtain b where b: "nearest_rank (map Fin values) 95 = Inr (Some b)" "percentile_of 95 values b" using nearest_rank_percentile [OF _ assms, of 95] by auto
  obtain c where c: "nearest_rank (map Fin values) 99 = Inr (Some c)" "percentile_of 99 values c" using nearest_rank_percentile [OF _ assms, of 99] by auto
  show thesis using that a b c assms(1) unfolding distribution_of_def by (simp add: Let_def)
qed

text \<open>
  C35: the percentiles of a report are exact. For every population of up to a million samples, which is the largest number of iterations of a scenario, the reported
  median, 95th and 99th percentile are each the least sample that at least that share of the samples does not exceed, in spite of the rounding of the
  quotient and of the product; the number of samples and the maximum are reported with them.
\<close>

theorem distribution_exact:
  assumes "values \<noteq> []" "length values \<le> 1000000"
  shows "\<exists>a b c. distribution_of values = Inr \<lparr>ds_sample_count = length values, ds_p50 = Some a, ds_p95 = Some b, ds_p99 = Some c,
      ds_max = Some (Max (set values)), ds_reason = None\<rparr> \<and> percentile_of 50 values a \<and> percentile_of 95 values b \<and> percentile_of 99 values c"
  by (rule distribution_percentiles [OF assms]) blast

theorem distribution_exact_witness:
  "\<exists>d. distribution_of [4, 1, 3, 2] = Inr d \<and> ds_p50 d = Some 2 \<and> ds_p95 d = Some 4 \<and> ds_max d = Some 4"
proof -
  obtain a b c where d: "distribution_of [4, 1, 3, 2] = Inr \<lparr>ds_sample_count = length [4 :: rat, 1, 3, 2], ds_p50 = Some a, ds_p95 = Some b, ds_p99 = Some c,
      ds_max = Some (Max (set [4, 1, 3, 2])), ds_reason = None\<rparr>" "percentile_of 50 [4, 1, 3, 2] a" "percentile_of 95 [4, 1, 3, 2] b"
    using distribution_exact [of "[4, 1, 3, 2]"] by auto
  have "a = 2" "b = 4" using d(2,3) by (auto simp: percentile_of_def)
  then show ?thesis using d(1) by simp
qed

end
