(* ===== verification/PerformanceFacts.thy ===== *)
theory PerformanceFacts
  imports PerformanceRuns Percentiles EmsPlanFacts
begin

text \<open>
  Lemmas on performance profiles and runs: what a run may send, that the loops count exactly what was received, what the loader of profiles accepts, and what
  a report that passed shows.
\<close>

section \<open>Only reads\<close>

definition READ_COMMANDS :: "string list" where
  "READ_COMMANDS = [''capture.begin'', ''capture.end'', ''read'', ''class_poll'', ''integrity_poll'']"

definition quiet :: "(rat \<Rightarrow> string) \<Rightarrow> nat \<Rightarrow> client \<Rightarrow> client \<Rightarrow> bool" where
  "quiet repr n c c' \<longleftrightarrow> frame c c' \<and> (\<exists>lines. cl_requests c' = cl_requests c @ lines \<and> length lines \<le> n \<and>
     (\<forall>l \<in> set lines. \<exists>i k ps. k \<in> set READ_COMMANDS \<and> l = request_line repr i k ps))"

lemma quiet_refl [simp]: "quiet repr n c c"
  by (simp add: quiet_def)

lemma quiet_mono: "quiet repr n c c' \<Longrightarrow> n \<le> m \<Longrightarrow> quiet repr m c c'"
  unfolding quiet_def using le_trans by blast

lemma quiet_trans: "quiet repr n c c' \<Longrightarrow> quiet repr m c' c'' \<Longrightarrow> quiet repr (n + m) c c''"
proof -
  assume a: "quiet repr n c c'" and b: "quiet repr m c' c''"
  obtain l1 where l1: "cl_requests c' = cl_requests c @ l1" "length l1 \<le> n" "\<forall>l \<in> set l1. \<exists>i k ps. k \<in> set READ_COMMANDS \<and> l = request_line repr i k ps"
    using a unfolding quiet_def by blast
  obtain l2 where l2: "cl_requests c'' = cl_requests c' @ l2" "length l2 \<le> m" "\<forall>l \<in> set l2. \<exists>i k ps. k \<in> set READ_COMMANDS \<and> l = request_line repr i k ps"
    using b unfolding quiet_def by blast
  have "frame c c''" using a b frame_trans unfolding quiet_def by blast
  moreover have "cl_requests c'' = cl_requests c @ (l1 @ l2)" "length (l1 @ l2) \<le> n + m" using l1 l2 by simp_all
  moreover have "\<forall>l \<in> set (l1 @ l2). \<exists>i k ps. k \<in> set READ_COMMANDS \<and> l = request_line repr i k ps" using l1(3) l2(3) by auto
  ultimately show ?thesis unfolding quiet_def by blast
qed

text \<open>The contract of a metered session: a relation that bounds what happens between two states, and which adds up.\<close>

locale metered =
  fixes cost :: "nat \<Rightarrow> 's \<Rightarrow> 's \<Rightarrow> bool"
  assumes cost_mono: "cost n a b \<Longrightarrow> n \<le> m \<Longrightarrow> cost m a b"
    and cost_trans: "cost n a b \<Longrightarrow> cost m b c \<Longrightarrow> cost (n + m) a c"
begin

lemma three: "cost 1 a b \<Longrightarrow> cost 1 b c \<Longrightarrow> cost 1 c d \<Longrightarrow> cost 3 a d"
  using cost_trans [OF cost_trans, of 1 a b 1 c 1 d] by (simp add: numeral_3_eq_3)

lemma round_stops: "cost k a b \<Longrightarrow> cost (k * Suc n) a b"
  by (erule cost_mono) simp

lemma round_continues: "cost k a b \<Longrightarrow> cost (k * n) b c \<Longrightarrow> cost (k * Suc n) a c"
  using cost_trans by fastforce

lemma part: "cost (k * n) a b \<Longrightarrow> cost (k * (n + m)) a b"
  by (erule cost_mono) simp

lemma parts: "cost (k * n) a b \<Longrightarrow> cost (k * m) b c \<Longrightarrow> cost (k * (n + m)) a c"
  unfolding add_mult_distrib2 by (rule cost_trans)

end

interpretation reads: metered "quiet repr" for repr
  by unfold_locales (rule quiet_mono, assumption+, rule quiet_trans)

lemma quiet_op: "ok_op repr k c r \<Longrightarrow> k \<in> set READ_COMMANDS \<Longrightarrow> quiet repr 1 c (snd r)"
proof -
  assume op: "ok_op repr k c r" and k: "k \<in> set READ_COMMANDS"
  have f: "frame c (snd r)" "sent_one repr k c (snd r)" using op by (simp_all add: ok_op_def)
  from f(2) consider "cl_requests (snd r) = cl_requests c" | i ps where "cl_requests (snd r) = cl_requests c @ [request_line repr i k ps]"
    unfolding sent_one_def by blast
  then show ?thesis
  proof cases
    case 1
    then show ?thesis using f(1) unfolding quiet_def by (intro conjI exI [of _ "[]"]) simp_all
  next
    case (2 i ps)
    then show ?thesis using f(1) k unfolding quiet_def by (intro conjI exI [of _ "[request_line repr i k ps]"]) auto
  qed
qed

lemma quiet_read: "quiet repr 1 c (snd (execute_read repr x c s))"
proof -
  have "quiet repr 1 c (snd (request_read repr x c s))"
    unfolding request_read_def Let_def using quiet_op [OF ok_ops(4)] quiet_op [OF ok_ops(5)] quiet_op [OF ok_ops(6)] by (simp add: READ_COMMANDS_def)
  then show ?thesis by (simp add: execute_read_def run_result_def split: prod.splits sum.splits)
qed

lemma quiet_open: "quiet repr 1 c (snd (open_capture repr x c s))"
  unfolding open_capture_def
  using quiet_op [OF ok_ops(10)] by (auto simp: run_result_def READ_COMMANDS_def split: option.splits prod.splits sum.splits)

lemma quiet_close: "quiet repr 1 c (snd (close_capture repr x alive c s capture))"
  unfolding close_capture_def
  using quiet_op [OF ok_ops(12)] by (auto simp: run_result_def READ_COMMANDS_def split: option.splits prod.splits sum.splits)

lemma quiet_iteration: "quiet repr 3 c (snd (execute_iteration repr env c s))"
proof -
  obtain r1 c1 where 1: "open_capture repr (ie_begin env) c s = (r1, c1)" by fastforce
  obtain r2 c2 where 2: "execute_read repr (ie_read env) c1 s = (r2, c2)" by fastforce
  have q: "quiet repr 1 c c1" "quiet repr 1 c1 c2" using quiet_open quiet_read 1 2 by (metis snd_conv)+
  show ?thesis
  proof (cases r1)
    case (Inl e)
    then show ?thesis using 1 q(1) quiet_mono by (simp add: execute_iteration_def)
  next
    case (Inr capture)
    obtain r3 c3 where 3: "close_capture repr (ie_end env) (ie_alive env) c2 s capture = (r3, c3)" by fastforce
    have "quiet repr 1 c2 c3" using quiet_close 3 by (metis snd_conv)
    then have "quiet repr 3 c c3" using q reads.three by blast
    then show ?thesis using 1 2 3 Inr by (simp add: execute_iteration_def split: sum.splits)
  qed
qed

lemma quiet_measure: "quiet repr 3 c (snd (snd (measure_one repr env c s m)))"
  using quiet_iteration [of repr c "me_iteration env" s]
  by (auto simp: measure_one_def Let_def split: sum.splits prod.splits)

lemma quiet_warm_up: "quiet repr (3 * n) c (snd (warm_up repr env n c s))"
proof (induction n arbitrary: c)
  case (Suc n)
  obtain r c1 where 1: "execute_iteration repr (env n) c s = (r, c1)" by fastforce
  have q: "quiet repr 3 c c1" using quiet_iteration 1 by (metis snd_conv)
  show ?case using 1 reads.round_stops [OF q] reads.round_continues [OF q Suc.IH] by (auto split: sum.splits)
qed simp

lemma quiet_measure_all: "quiet repr (3 * n) c (snd (snd (measure_all repr env n c s m)))"
proof (induction n arbitrary: c m)
  case (Suc n)
  obtain r m1 c1 where 1: "measure_one repr (env n) c s m = (r, m1, c1)" by (rule prod_cases3)
  have q: "quiet repr 3 c c1" using quiet_measure [of repr c "env n" s m] 1 by simp
  show ?case using 1 reads.round_stops [OF q] reads.round_continues [OF q Suc.IH] by (auto split: option.splits)
qed simp

definition iterations :: "read_scenario \<Rightarrow> nat" where
  "iterations s = nat (rs_warmup_iterations s) + nat (rs_measurement_iterations s)"

lemma quiet_scenario: "quiet repr (3 * iterations s) c (snd (run_scenario repr growth t env c s))"
proof -
  obtain r c1 where 1: "warm_up repr (sv_warmup env) (nat (rs_warmup_iterations s)) c s = (r, c1)" by fastforce
  obtain e m c2 where 2: "measure_all repr (sv_measure env) (nat (rs_measurement_iterations s)) c1 s nothing_measured = (e, m, c2)" by (rule prod_cases3)
  have q: "quiet repr (3 * nat (rs_warmup_iterations s)) c c1" using quiet_warm_up 1 by (metis snd_conv)
  have q2: "quiet repr (3 * nat (rs_measurement_iterations s)) c1 c2"
    using quiet_measure_all [of repr "nat (rs_measurement_iterations s)" c1 "sv_measure env" s nothing_measured] 2 by simp
  have "quiet repr (3 * iterations s) c c1" "quiet repr (3 * iterations s) c c2"
    using reads.part [OF q] reads.parts [OF q q2] by (simp_all only: iterations_def)
  then show ?thesis using 1 2 by (auto simp: run_scenario_def split: option.splits)
qed

lemma quiet_scenarios: "quiet repr (3 * sum_list (map iterations ss)) c (snd (run_scenarios repr growth t env c ss))"
proof (induction ss arbitrary: c)
  case (Cons s ss)
  obtain r c1 where 1: "run_scenario repr growth t (env (rs_id s)) c s = (r, c1)" by fastforce
  have q: "quiet repr (3 * iterations s) c c1" using quiet_scenario 1 by (metis snd_conv)
  show ?case using 1 reads.part [OF q] reads.parts [OF q Cons.IH [of c1]] by (auto split: sum.splits prod.splits)
qed simp

section \<open>Counts\<close>

lemma count_of_dict_set: "count_of (dict_set k n m) k' = (if k' = k then n else count_of m k')"
  by (simp add: count_of_def map_of_dict_set)

lemma count_of_fold:
  "distinct ks \<Longrightarrow> count_of (fold (\<lambda>k m. dict_set k (count_of m k + f k) m) ks m) k = count_of m k + (if k \<in> set ks then f k else 0)"
  by (induction ks arbitrary: m) (auto simp: count_of_dict_set)

lemma eq_int_int_of: "eq_int u n \<Longrightarrow> int_of u = n"
  by (induction u n rule: eq_int.induct) auto

lemma counts_equal_get:
  assumes "counts_equal v m"
  shows "count_of m k = (if k \<in> set (map fst (as_dict v)) then int_of (get (as_dict v) k) else 0)"
proof (cases "map_of m k")
  case None
  then have "k \<notin> set (map fst (as_dict v))" using assms unfolding counts_equal_def list_all_iff by blast
  then show ?thesis using None by (simp add: count_of_def)
next
  case (Some n)
  then have "(k, n) \<in> set m" by (rule map_of_SomeD)
  then obtain u where u: "map_of (as_dict v) k = Some u" "eq_int u n" using assms unfolding counts_equal_def list_all_iff by fastforce
  then have "k \<in> set (map fst (as_dict v))" by (metis domI dom_map_of_conv_image_fst set_map)
  then show ?thesis using u Some by (simp add: count_of_def get_def eq_int_int_of)
qed

lemma add_counts_equal: "counts_equal v e \<Longrightarrow> count_of (add_counts (as_dict v) m) k = count_of m k + count_of e k"
  unfolding add_counts_def using counts_equal_get [of v e k] by (subst count_of_fold) simp_all

section \<open>Complete measurements\<close>

text \<open>The read results of the iterations of a measurement loop.\<close>

fun read_results :: "(rat \<Rightarrow> string) \<Rightarrow> (nat \<Rightarrow> measure_env) \<Rightarrow> nat \<Rightarrow> client \<Rightarrow> read_scenario \<Rightarrow> read_result list" where
  "read_results repr env 0 c s = []"
| "read_results repr env (Suc n) c s = (case execute_iteration repr (me_iteration (env n)) c s of
     (Inl e, c) \<Rightarrow> [] | (Inr (r, capture), c) \<Rightarrow> r # read_results repr env n c s)"

lemma iteration_population:
  assumes "execute_iteration repr env c s = (Inr (r, capture), c')"
  shows "population_mismatch s r = None"
  using assms
  by (auto simp: execute_iteration_def checked_def bindE_def split: sum.splits prod.splits if_splits option.splits)

text \<open>The resource samples of a measurement loop: one before and one after each iteration, or why there is none.\<close>

fun usage_results :: "(nat \<Rightarrow> measure_env) \<Rightarrow> nat \<Rightarrow> (string + resource_sample) list" where
  "usage_results env 0 = []"
| "usage_results env (Suc n) = me_before (env n) # me_after (env n) # usage_results env n"

lemma measure_one_None:
  assumes "measure_one repr env c s m = (None, m', c')"
  obtains a b r capture q where "execute_iteration repr (me_iteration env) c s = (Inr (r, capture), c')"
    "duration_value (get (rr_timings r) ''duration_ms'') = Inr q" "m' = add_result q r capture (add_sample a b m)"
    "me_before env = Inr a" "me_after env = Inr b"
  using assms by (auto simp: measure_one_def Let_def split: sum.splits prod.splits)

definition complete :: "read_scenario \<Rightarrow> nat \<Rightarrow> measured \<Rightarrow> bool" where
  "complete s n m \<longleftrightarrow> length (ms_latencies m) = n \<and> ms_completed m = n \<and> ms_received m = int n * rs_expected_objects s \<and>
     (\<forall>k. count_of (ms_by_kind m) k = int n * count_of (rs_by_kind s) k) \<and>
     (\<forall>k. count_of (ms_by_object m) k = int n * count_of (rs_by_group_variation s) k)"

lemma complete_step:
  assumes "complete s n m" "population_mismatch s r = None"
  shows "complete s (Suc n) (add_result q r capture (add_sample a b m))"
proof -
  have p: "as_int (get (rr_summary r) ''received_total'') = rs_expected_objects s"
    "counts_equal (get (rr_summary r) ''by_kind'') (rs_by_kind s)" "counts_equal (get (rr_summary r) ''by_group_variation'') (rs_by_group_variation s)"
    using assms(2) by (simp_all add: population_mismatch_def)
  show ?thesis using assms(1) unfolding complete_def add_result_def add_sample_def
    by (simp add: p(1) add_counts_equal [OF p(2)] add_counts_equal [OF p(3)] algebra_simps)
qed

lemma measure_all_complete:
  assumes "measure_all repr env n c s m = (None, m', c')" "complete s i m"
  shows "complete s (i + n) m' \<and> map Inr (ms_latencies m') =
    map Inr (ms_latencies m) @ map (\<lambda>r. duration_value (get (rr_timings r) ''duration_ms'')) (read_results repr env n c s) \<and>
    map Inr (ms_samples m') = map Inr (ms_samples m) @ usage_results env n"
  using assms
proof (induction n arbitrary: c m i)
  case (Suc n)
  obtain m1 c1 where 1: "measure_one repr (env n) c s m = (None, m1, c1)" "measure_all repr env n c1 s m1 = (None, m', c')"
    using Suc.prems(1) by (auto split: prod.splits option.splits)
  from 1(1) obtain a b r capture q where 2: "execute_iteration repr (me_iteration (env n)) c s = (Inr (r, capture), c1)"
    "duration_value (get (rr_timings r) ''duration_ms'') = Inr q" "m1 = add_result q r capture (add_sample a b m)"
    "me_before (env n) = Inr a" "me_after (env n) = Inr b" by (rule measure_one_None)
  have "complete s (Suc i) m1" unfolding 2(3) using Suc.prems(2) iteration_population [OF 2(1)] by (rule complete_step)
  moreover have "ms_latencies m1 = ms_latencies m @ [q]" "ms_samples m1 = ms_samples m @ [a, b]" by (simp_all add: 2(3) add_result_def add_sample_def)
  ultimately show ?case using Suc.IH [OF 1(2), of "Suc i"] 2(1,2,4,5) by simp
qed simp

section \<open>Loaded profiles\<close>

text \<open>An identifier, a number within limits, and a count within limits.\<close>

definition token_wf :: "string \<Rightarrow> bool" where
  "token_wf i \<longleftrightarrow> class_match (\<lambda>c. is_alnum c \<or> c \<in> set ''._:-'') 1 128 i"

definition in_limits :: "rat \<Rightarrow> rat \<Rightarrow> pyval \<Rightarrow> bool" where
  "in_limits lo hi v = (case finite_number v of None \<Rightarrow> False | Some q \<Rightarrow> lo \<le> q \<and> q \<le> hi)"

definition counts_wf :: "(string \<Rightarrow> bool) \<Rightarrow> (string \<times> int) list \<Rightarrow> bool" where
  "counts_wf name m \<longleftrightarrow> length m \<le> 256 \<and> (\<forall>(k, n) \<in> set m. name k \<and> 1 \<le> n \<and> n \<le> 1000000)"

text \<open>A capture: its mode, sources and limits, and the ground truth of the mode, where no point of a static capture is named twice.\<close>

definition capture_wf :: "capture_config \<Rightarrow> bool" where
  "capture_wf c \<longleftrightarrow> cf_mode c \<in> set CAPTURE_MODES \<and> 1 \<le> length (cf_sources c) \<and> length (cf_sources c) \<le> 2 \<and> set (cf_sources c) \<subseteq> set CAPTURE_SOURCES \<and>
     distinct (cf_sources c) \<and> (\<exists>ms. duration_limit_ms c = Inr ms) \<and> 0 \<le> cf_mismatch_sample_limit c \<and> cf_mismatch_sample_limit c \<le> 1024 \<and>
     1 \<le> cf_queue_capacity c \<and> cf_queue_capacity c \<le> 65536 \<and> length (cf_point_ranges c) \<le> 256 \<and> (\<forall>r \<in> set (cf_point_ranges c). range_ok r) \<and>
     (if cf_mode c = ''static_set'' then cf_point_ranges c \<noteq> [] \<and> cf_event_manifest c = None \<and>
        sum_list (map point_count (cf_point_ranges c)) \<le> 1000000 \<and>
        int (card (\<Union>r \<in> set (cf_point_ranges c). points r)) = sum_list (map point_count (cf_point_ranges c))
      else cf_point_ranges c = [] \<and> (cf_event_manifest c \<noteq> None \<longleftrightarrow> cf_mode c = ''event_sequence''))"

text \<open>
  The classes of a class poll are one to three values that equal 1, 2 or 3 and are different by value; they need not be integers.
\<close>

definition poll_values :: "pyval list \<Rightarrow> bool" where
  "poll_values vs \<longleftrightarrow> length vs \<le> 3 \<and> (\<forall>v \<in> set vs. eq_int v 1 \<or> eq_int v 2 \<or> eq_int v 3) \<and> distinct (map number_norm vs)"

definition scenario_wf :: "read_scenario \<Rightarrow> bool" where
  "scenario_wf s \<longleftrightarrow> token_wf (rs_id s) \<and> rs_operation s \<in> set OPERATIONS \<and>
     (rs_operation s = ''read'' \<longleftrightarrow> rs_headers s \<noteq> []) \<and> length (rs_headers s) \<le> 64 \<and> (\<forall>h \<in> set (rs_headers s). read_header_ok h) \<and>
     (rs_operation s = ''class_poll'' \<longleftrightarrow> rs_classes s \<noteq> []) \<and> poll_values (rs_classes s) \<and>
     0 \<le> rs_warmup_iterations s \<and> rs_warmup_iterations s \<le> 10000 \<and> 1 \<le> rs_measurement_iterations s \<and> rs_measurement_iterations s \<le> 1000000 \<and>
     in_limits 0 3600 (rs_interval s) \<and> in_limits 0 3600 (rs_cooldown s) \<and> in_limits TWENTIETH 300 (rs_task_timeout s) \<and>
     1 \<le> rs_max_measurements s \<and> rs_max_measurements s \<le> 1000000 \<and> 0 \<le> rs_expected_objects s \<and> rs_expected_objects s \<le> rs_max_measurements s \<and>
     counts_wf (\<lambda>k. k \<in> set EXPECTED_KINDS) (rs_by_kind s) \<and> counts_wf (\<lambda>k. group_variation k \<noteq> None) (rs_by_group_variation s) \<and>
     counts_total (rs_by_kind s) = rs_expected_objects s \<and> counts_total (rs_by_group_variation s) = rs_expected_objects s \<and>
     (\<forall>c \<in> set_option (rs_capture s). capture_wf c \<and> (cf_mode c = ''static_set'' \<longrightarrow> sort_key fst (capture_by_kind c) = rs_by_kind s)) \<and>
     (rs_baseline s \<noteq> None \<longrightarrow> rs_capture s \<noteq> None)"

definition thresholds_wf :: "thresholds \<Rightarrow> bool" where
  "thresholds_wf t \<longleftrightarrow> 1 \<le> th_minimum_samples t \<and> th_minimum_samples t \<le> 1000000 \<and>
     list_all (in_limits 0 (10 ^ 18)) [th_max_task_p95_ms t, th_max_task_p99_ms t, th_max_task_ms t, th_max_cpu_core_percent t, th_max_private_growth t,
       th_max_working_set_growth t, th_max_capture_overhead t] \<and>
     list_all (\<lambda>n. 0 \<le> n \<and> n \<le> 2 ^ 63) [th_max_working_set_bytes t, th_max_private_bytes t, th_max_handle_count t, th_max_thread_count t,
       th_max_handle_growth t, th_max_thread_growth t]"

definition soak_wf :: "soak_settings \<Rightarrow> bool" where
  "soak_wf k \<longleftrightarrow> in_limits TENTH 604800 (so_target_duration k) \<and> in_limits 0 3600 (so_cycle_interval k) \<and> in_limits TENTH 86400 (so_checkpoint_interval k) \<and>
     in_limits TENTH 3600 (so_resource_sample_interval k) \<and> in_limits TENTH 3600 (so_watchdog_timeout k) \<and>
     2 \<le> so_max_checkpoints k \<and> so_max_checkpoints k \<le> 10000 \<and> 65536 \<le> so_max_evidence_bytes k \<and> so_max_evidence_bytes k \<le> 2 ^ 50 \<and>
     0 \<le> so_min_free_disk_bytes k \<and> so_min_free_disk_bytes k \<le> 2 ^ 60 \<and> 0 \<le> so_allowed_reconnects k \<and> so_allowed_reconnects k \<le> 10000 \<and>
     0 \<le> so_max_consecutive_failures k \<and> so_max_consecutive_failures k \<le> 10000"

lemma perf_integer_None: "perf_integer v f lo hi = None \<longleftrightarrow> is_int v \<and> lo \<le> as_int v \<and> as_int v \<le> hi"
  by (auto simp: perf_integer_def)

lemma perf_number_None: "perf_number v f lo hi = None \<longleftrightarrow> (\<exists>q. finite_number v = Some q \<and> lo \<le> q \<and> q \<le> hi)"
  by (cases v) (auto simp: perf_number_def split: pyfloat.splits)

lemma perf_number_limits: "perf_number v f lo hi = None \<longleftrightarrow> in_limits lo hi v"
  by (auto simp: perf_number_None in_limits_def split: option.splits)

lemma perf_token_None: "perf_token v f = None \<Longrightarrow> token_wf (as_str v)"
  by (auto simp: perf_token_def token_wf_def split: if_splits)

lemma in_limits_value: "in_limits lo hi (rs_task_timeout s) \<Longrightarrow> finite_number (rs_task_timeout s) = Some (timeout_value s) \<and> lo \<le> timeout_value s \<and> timeout_value s \<le> hi"
  by (auto simp: in_limits_def timeout_value_def split: option.splits)

lemma thresholds_wf_constructed: "PerformanceThresholds d = Inr t \<Longrightarrow> thresholds_wf t"
  unfolding PerformanceThresholds_def checked_Inr check_simps thresholds_wf_def perf_integer_None perf_number_limits
  by (simp add: THRESHOLD_NUMBERS_def THRESHOLD_INTEGERS_def)

lemma soak_wf_constructed: "SoakSettings d = Inr k \<Longrightarrow> soak_wf k"
  unfolding SoakSettings_def checked_Inr check_simps soak_wf_def perf_integer_None perf_number_limits by simp

lemma expected_counts_wf:
  assumes "expected_count_mapping v f by_object = Inr m"
  shows "counts_wf (\<lambda>k. if by_object then group_variation k \<noteq> None else k \<in> set EXPECTED_KINDS) m"
  using assms by (auto simp: expected_count_mapping_def counts_wf_def expected_key_check_def perf_integer_None split: if_splits)

lemma capture_config_wf:
  assumes "CaptureConfig mode sources dur (Ranges (map Some rs)) manifest limit capacity = Inr c" "\<forall>r \<in> set rs. range_ok r"
    "manifest \<noteq> Other_Manifest"
  shows "capture_wf c"
proof -
  obtain ss where src: "sources_check ss ''sources must contain one or both unique values: solicited, unsolicited'' = None"
    and c: "c = \<lparr>cf_mode = as_str mode, cf_sources = map as_str ss, cf_duration_limit = dur, cf_point_ranges = rs,
      cf_event_manifest = (case manifest of Manifest m \<Rightarrow> Some m | _ \<Rightarrow> None), cf_mismatch_sample_limit = as_int limit, cf_queue_capacity = as_int capacity\<rparr>"
    and n: "\<exists>ms. milliseconds dur ''duration_limit'' 100 604800000 = Inr ms" "0 \<le> as_int limit" "as_int limit \<le> 1024" "1 \<le> as_int capacity" "as_int capacity \<le> 65536"
    and mode: "as_str mode \<in> set CAPTURE_MODES" and len: "length rs \<le> 256" and truth: "truth_check (as_str mode) rs manifest = None"
    using assms(1) unfolding CaptureConfig_def bindE_eq_Inr checked_Inr by (auto simp: comp_def)
  have ss: "\<forall>x \<in> set ss. is_str x \<and> as_str x \<in> set CAPTURE_SOURCES" "distinct ss" "1 \<le> length ss" "length ss \<le> 2"
    using src by (auto simp: sources_check_def is_str_iff)
  have "inj_on as_str (set ss)" by (intro inj_onI) (metis as_str.simps(1) is_str_iff ss(1))
  then have sources: "distinct (map as_str ss)" "set (map as_str ss) \<subseteq> set CAPTURE_SOURCES" using ss by (auto simp: distinct_map)
  show ?thesis
    using n mode len truth sources ss(3,4) assms(2,3) overlap_check_exact [of rs]
    unfolding c capture_wf_def duration_limit_ms_def
    by (auto simp: truth_check_def split: if_splits manifest_arg.splits)
qed

lemma range_from_mapping_ok: "range_from_mapping d = Inr r \<Longrightarrow> range_ok r"
  by (auto simp: range_from_mapping_def bindE_eq_Inr CapturePointRange_Inr)

lemma capture_from_mapping_wf:
  assumes "capture_from_mapping v = Inr (Some c)"
  shows "capture_wf c"
proof -
  let ?d = "as_dict v"
  obtain rs m sources where rs: "mapE range_from_mapping (map as_dict (as_list (get_or ?d ''point_ranges'' (PList [])))) = Inr rs"
    and m: "capture_manifest (get ?d ''event_manifest'') = Inr m"
    and c: "CaptureConfig (get ?d ''mode'') (PList sources) (get ?d ''duration_limit_seconds'') (Ranges (map Some rs)) m
      (get_or ?d ''mismatch_sample_limit'' (PInt 100)) (get_or ?d ''queue_capacity'' (PInt 4096)) = Inr c"
    using assms unfolding capture_from_mapping_def Let_def by (auto simp: bindE_eq_Inr map_error_Inr split: if_splits)
  have "\<forall>r \<in> set rs. range_ok r"
    using rs range_from_mapping_ok by (fastforce simp: mapE_Inr_iff list_all2_conv_all_nth in_set_conv_nth)
  moreover have "m \<noteq> Other_Manifest" using m by (auto simp: capture_manifest_def bindE_eq_Inr map_error_Inr split: if_splits)
  ultimately show ?thesis by (rule capture_config_wf [OF c])
qed

lemma header_from_mapping_ok: "header_from_mapping d = Inr h \<Longrightarrow> read_header_ok h"
  using read_header_sound by (fastforce simp: header_from_mapping_def bindE_eq_Inr)

lemma request_checks_wf:
  assumes "scenario_request_checks d headers classes = None"
  shows "as_str (get d ''operation'') \<in> set OPERATIONS" "as_str (get d ''operation'') = ''read'' \<longleftrightarrow> headers \<noteq> []" "length headers \<le> 64"
    "as_str (get d ''operation'') = ''class_poll'' \<longleftrightarrow> classes \<noteq> []" "poll_values classes"
proof -
  let ?op = "as_str (get d ''operation'')"
  have c: "operation_check (get d ''operation'') = None" "\<not> (?op = ''read'' \<and> \<not> (1 \<le> length headers \<and> length headers \<le> 64))"
    "\<not> (?op \<noteq> ''read'' \<and> headers \<noteq> [])" "scenario_classes_check ?op classes = None"
    using assms by (simp_all only: scenario_request_checks_def Let_def check_simps simp_thms)
  show "?op \<in> set OPERATIONS" using c(1) by (simp add: operation_check_def split: if_splits)
  show "?op = ''read'' \<longleftrightarrow> headers \<noteq> []" "length headers \<le> 64" using c(2,3) by (cases "?op = ''read''"; auto)+
  show "?op = ''class_poll'' \<longleftrightarrow> classes \<noteq> []" "poll_values classes"
    using c(4) by (cases "?op = ''class_poll''"; auto simp: poll_values_def scenario_classes_check_def class_member_check_def split: if_splits)+
qed

lemma scenario_wf_constructed:
  assumes "ReadPerformanceScenario d headers classes capture = Inr s" "\<forall>h \<in> set headers. read_header_ok h" "\<forall>c \<in> set_option capture. capture_wf c"
  shows "scenario_wf s"
proof -
  obtain kinds objects where c: "scenario_request_checks d headers classes = None"
    "population_checks (as_int (get d ''expected_objects_per_iteration'')) kinds objects capture (get d ''baseline_scenario_id'') = None"
    and m: "expected_count_mapping (get d ''expected_by_kind'') ''expected_by_kind'' False = Inr kinds"
      "expected_count_mapping (get d ''expected_by_group_variation'') ''expected_by_group_variation'' True = Inr objects"
    and s: "rs_id s = as_str (get d ''scenario_id'')" "rs_operation s = as_str (get d ''operation'')" "rs_headers s = headers" "rs_classes s = classes" "rs_capture s = capture"
      "rs_warmup_iterations s = as_int (get d ''warmup_iterations'')" "rs_measurement_iterations s = as_int (get d ''measurement_iterations'')"
      "rs_interval s = get d ''interval_seconds''" "rs_cooldown s = get d ''cooldown_seconds''"
      "rs_task_timeout s = get d ''task_timeout_seconds''" "rs_max_measurements s = as_int (get d ''max_measurements'')"
      "rs_expected_objects s = as_int (get d ''expected_objects_per_iteration'')" "rs_by_kind s = kinds" "rs_by_group_variation s = objects"
      "rs_baseline s = (if get d ''baseline_scenario_id'' = PNone then None else Some (as_str (get d ''baseline_scenario_id'')))"
    using assms(1) unfolding ReadPerformanceScenario_def bindE_eq_Inr checked_Inr by (elim exE conjE) simp
  have n: "perf_token (get d ''scenario_id'') ''scenario_id'' = None"
    "perf_integer (get d ''warmup_iterations'') ''warmup_iterations'' 0 10000 = None"
    "perf_integer (get d ''measurement_iterations'') ''measurement_iterations'' 1 1000000 = None"
    "perf_number (get d ''interval_seconds'') ''interval_seconds'' 0 3600 = None" "perf_number (get d ''cooldown_seconds'') ''cooldown_seconds'' 0 3600 = None"
    "perf_number (get d ''task_timeout_seconds'') ''task_timeout_seconds'' TWENTIETH 300 = None"
    "perf_integer (get d ''max_measurements'') ''max_measurements'' 1 1000000 = None"
    "perf_integer (get d ''expected_objects_per_iteration'') ''expected_objects_per_iteration'' 0 (as_int (get d ''max_measurements'')) = None"
    using c(1) by (simp_all only: scenario_request_checks_def Let_def check_simps simp_thms)
  have p: "counts_total kinds = as_int (get d ''expected_objects_per_iteration'')" "counts_total objects = as_int (get d ''expected_objects_per_iteration'')"
    "\<forall>x \<in> set_option capture. cf_mode x = ''static_set'' \<longrightarrow> sort_key fst (capture_by_kind x) = kinds"
    "get d ''baseline_scenario_id'' \<noteq> PNone \<longrightarrow> capture \<noteq> None"
    using c(2) by (auto simp: population_checks_def)
  note counts = expected_counts_wf [OF m(1), unfolded if_False] expected_counts_wf [OF m(2), unfolded if_True]
  show ?thesis
    using request_checks_wf [OF c(1)] perf_token_None [OF n(1)] n(2-) p counts assms(2,3)
    unfolding scenario_wf_def s perf_number_limits perf_integer_None by simp
qed

lemma scenario_mapping_wf:
  assumes "scenario_from_mapping d = Inr s"
  shows "scenario_wf s"
proof -
  obtain headers capture where h: "mapE header_from_mapping (map as_dict (as_list (get d ''headers''))) = Inr headers"
    and c: "capture_from_mapping (get d ''capture'') = Inr capture"
    and s: "ReadPerformanceScenario d headers (as_list (get d ''classes'')) capture = Inr s"
    using assms unfolding scenario_from_mapping_def bindE_eq_Inr map_error_Inr by (elim exE conjE)
  have "\<forall>h \<in> set headers. read_header_ok h"
    using h header_from_mapping_ok by (fastforce simp: mapE_Inr_iff list_all2_conv_all_nth in_set_conv_nth)
  moreover have "\<forall>x \<in> set_option capture. capture_wf x" using c capture_from_mapping_wf by auto
  ultimately show ?thesis by (rule scenario_wf_constructed [OF s])
qed

definition profile_wf :: "perf_profile \<Rightarrow> bool" where
  "profile_wf p \<longleftrightarrow> 1 \<le> length (pf_scenarios p) \<and> length (pf_scenarios p) \<le> 64 \<and> distinct (map rs_id (pf_scenarios p)) \<and> pf_scope p \<in> set SCOPES \<and>
     token_wf (pf_id p) \<and> 0 \<le> pf_seed p \<and> pf_seed p < 2 ^ 63 \<and> thresholds_wf (pf_thresholds p) \<and> soak_wf (pf_soak p) \<and>
     (\<forall>s \<in> set (pf_scenarios p). scenario_wf s \<and> iteration_bound s < watchdog_value (pf_soak p) \<and>
       (\<forall>i \<in> set_option (rs_baseline s). \<exists>b \<in> set (pf_scenarios p). rs_id b = i \<and> rs_capture b = None \<and> same_population b s))"

lemma fold_max_start: "(a :: rat) \<le> fold max xs a"
  by (induction xs arbitrary: a) (simp_all, meson max.cobounded2 order_trans)

lemma fold_max_upper: "x \<in> set xs \<Longrightarrow> x \<le> fold max xs (a :: rat)"
  by (induction xs arbitrary: a) (auto intro: order_trans [OF max.cobounded1 fold_max_start])

lemma baseline_found:
  assumes "baseline_check scenarios s = None" "rs_baseline s = Some i"
  shows "\<exists>b \<in> set scenarios. rs_id b = i \<and> rs_capture b = None \<and> same_population b s"
proof -
  obtain b where b: "scenario_by_id scenarios i = Some b" "rs_capture b = None" "same_population b s"
    using assms by (auto simp: baseline_check_def split: option.splits)
  then have "(i, b) \<in> set (rev (map (\<lambda>s. (rs_id s, s)) scenarios))" unfolding scenario_by_id_def by (intro map_of_SomeD)
  then show ?thesis using b by auto
qed

lemma profile_document_wf:
  assumes "profile_from_document v digest = Inr p"
  shows "profile_wf p"
proof -
  let ?d = "as_dict v"
  obtain ds scenarios limits soak d e where m: "mapE scenario_from_mapping ds = Inr scenarios" "thresholds_from_mapping d = Inr limits"
    "soak_from_mapping e = Inr soak"
    "PerformanceProfile (get ?d ''profile_id'') (get ?d ''scope'') (get ?d ''seed'') scenarios limits soak digest = Inr p"
    using assms unfolding profile_from_document_def Let_def bindE_eq_Inr by (elim exE conjE) simp
  have p: "pf_scenarios p = scenarios" "pf_thresholds p = limits" "pf_soak p = soak" "pf_scope p = as_str (get ?d ''scope'')"
    "pf_id p = as_str (get ?d ''profile_id'')" "pf_seed p = as_int (get ?d ''seed'')"
    "scope_check (get ?d ''scope'') = None" "1 \<le> length scenarios" "length scenarios \<le> 64" "distinct (map rs_id scenarios)"
    "\<forall>s \<in> set scenarios. baseline_check scenarios s = None" "\<not> watchdog_value soak \<le> fold max (map iteration_bound scenarios) 0"
    "perf_token (get ?d ''profile_id'') ''profile_id'' = None" "perf_integer (get ?d ''seed'') ''seed'' 0 (2 ^ 63 - 1) = None"
    using m(4) unfolding PerformanceProfile_def checked_Inr by (auto simp only: check_simps not_not perf_profile.simps)
  have "thresholds_wf limits" "soak_wf soak"
    using m(2,3) thresholds_wf_constructed soak_wf_constructed
    unfolding thresholds_from_mapping_def soak_from_mapping_def bindE_eq_Inr map_error_Inr by blast+
  moreover have "scenario_wf s" if "s \<in> set scenarios" for s
    using m(1) that scenario_mapping_wf by (auto simp: mapE_Inr_iff list_all2_conv_all_nth in_set_conv_nth)
  moreover have "iteration_bound s < watchdog_value soak" if "s \<in> set scenarios" for s
    using p(12) fold_max_upper [of "iteration_bound s" "map iteration_bound scenarios" 0] that by (simp add: not_le)
  moreover have "token_wf (pf_id p)" "0 \<le> pf_seed p" "pf_seed p < 2 ^ 63"
    using perf_token_None [OF p(13)] p(14) unfolding p(5,6) perf_integer_None by auto
  ultimately show ?thesis using p(7-11) baseline_found unfolding profile_wf_def p(1-4) scope_check_def
    by (auto split: if_splits)
qed

lemma profile_document_digest: "profile_from_document v digest = Inr p \<Longrightarrow> pf_sha256 p = digest"
  unfolding profile_from_document_def Let_def bindE_eq_Inr PerformanceProfile_def checked_Inr by (elim exE conjE) simp

section \<open>The verdict\<close>

text \<open>
  The resources of a scenario are within all nine limits: the processor load, the largest working set, private memory, handle and thread
  counts of the samples, both growth rates, and how far handles and threads grew from the first sample to the last.
\<close>

definition resources_met :: "thresholds \<Rightarrow> resource_sample list \<Rightarrow> resources \<Rightarrow> bool" where
  "resources_met t samples r \<longleftrightarrow> samples \<noteq> [] \<and>
     (\<exists>cpu. re_cpu_maximum r = Some cpu \<and> float_at_most cpu (exact_value (th_max_cpu_core_percent t))) \<and>
     float_at_most (float_int (Max (set (map sa_working_set samples)))) (finite_part (float_int (th_max_working_set_bytes t))) \<and>
     float_at_most (float_int (Max (set (map sa_private samples)))) (finite_part (float_int (th_max_private_bytes t))) \<and>
     float_at_most (float_int (Max (set (map sa_handles samples)))) (finite_part (float_int (th_max_handle_count t))) \<and>
     float_at_most (float_int (Max (set (map sa_threads samples)))) (finite_part (float_int (th_max_thread_count t))) \<and>
     float_at_most (re_private_growth r) (exact_value (th_max_private_growth t)) \<and>
     float_at_most (re_working_set_growth r) (exact_value (th_max_working_set_growth t)) \<and>
     float_at_most (float_int (sa_handles (List.last samples) - sa_handles (hd samples))) (finite_part (float_int (th_max_handle_growth t))) \<and>
     float_at_most (float_int (sa_threads (List.last samples) - sa_threads (hd samples))) (finite_part (float_int (th_max_thread_growth t)))"

text \<open>What a scenario that passed has shown, given the durations that its reads reported and the resource samples that were taken.\<close>

definition scenario_met :: "growth_rates \<Rightarrow> thresholds \<Rightarrow> read_scenario \<Rightarrow> rat list \<Rightarrow> resource_sample list \<Rightarrow> scenario_report \<Rightarrow> bool" where
  "scenario_met growth t s durations samples r \<longleftrightarrow> sr_failures r = [] \<and> int (sr_completed r) = rs_measurement_iterations s \<and>
     sr_received r = rs_measurement_iterations s * rs_expected_objects s \<and>
     (\<forall>k. count_of (sr_received_by_kind r) k = rs_measurement_iterations s * count_of (rs_by_kind s) k) \<and>
     (\<forall>k. count_of (sr_received_by_object r) k = rs_measurement_iterations s * count_of (rs_by_group_variation s) k) \<and>
     int (length durations) = rs_measurement_iterations s \<and> th_minimum_samples t \<le> int (length durations) \<and>
     (\<exists>q. percentile_of 95 durations q \<and> q \<le> exact_value (th_max_task_p95_ms t)) \<and>
     (\<exists>q. percentile_of 99 durations q \<and> q \<le> exact_value (th_max_task_p99_ms t)) \<and>
     (\<forall>d \<in> set durations. d \<le> exact_value (th_max_task_ms t)) \<and>
     (\<exists>res. sr_resources r = Inl res \<and> (re_private_growth res, re_working_set_growth res) = growth samples \<and> resources_met t samples res)"

definition row_met :: "string \<times> pyfloat option \<times> rat \<times> string option \<Rightarrow> bool" where
  "row_met row = (case row of (name, observed, limit, reason) \<Rightarrow> case observed of None \<Rightarrow> False
     | Some x \<Rightarrow> if name = ''minimum_samples'' then float_at_least x limit else float_at_most x limit)"

lemma passed_rows: "list_all tc_passed (threshold_checks latency report t) \<longleftrightarrow> list_all row_met (latency_rows latency t @ resource_rows report t)"
  unfolding threshold_checks_def list.pred_map Let_def
  by (intro list.pred_cong refl) (simp add: row_met_def split: prod.split)

lemma passed_latency:
  assumes "list_all tc_passed (threshold_checks latency report t)"
  shows "float_at_least (float_int (int (ds_sample_count latency))) (finite_part (float_int (th_minimum_samples t)))"
    "\<exists>q. ds_p95 latency = Some q \<and> q \<le> exact_value (th_max_task_p95_ms t)"
    "\<exists>q. ds_p99 latency = Some q \<and> q \<le> exact_value (th_max_task_p99_ms t)"
    "\<exists>q. ds_max latency = Some q \<and> q \<le> exact_value (th_max_task_ms t)"
  using assms unfolding passed_rows latency_rows_def by (auto simp: row_met_def float_at_most_def split: option.splits)

lemma passed_resources:
  assumes "list_all tc_passed (threshold_checks latency (resource_report growth samples cpu) t)"
  obtains res where "resource_report growth samples cpu = Inl res" "(re_private_growth res, re_working_set_growth res) = growth samples" "resources_met t samples res"
proof (cases "samples = []")
  case False
  then obtain res where res: "resource_report growth samples cpu = Inl res" "re_working_set_maximum res = Max (set (map sa_working_set samples))"
    "re_private_maximum res = Max (set (map sa_private samples))" "re_handle_maximum res = Max (set (map sa_handles samples))"
    "re_thread_maximum res = Max (set (map sa_threads samples))" "(re_private_growth res, re_working_set_growth res) = growth samples"
    "re_handle_first res = sa_handles (hd samples)" "re_handle_last res = sa_handles (List.last samples)"
    "re_thread_first res = sa_threads (hd samples)" "re_thread_last res = sa_threads (List.last samples)"
    by (simp add: resource_report_def)
  have "list_all row_met (resource_rows (Inl res) t)" using assms unfolding passed_rows res(1) by simp
  then have "resources_met t samples res"
    using False unfolding resources_met_def res(2-5,7-10) [symmetric] by (auto simp: resource_rows_def row_met_def split: option.splits)
  then show thesis using that res(1,6) by blast
next
  case True
  then show thesis using assms unfolding passed_rows by (simp add: resource_report_def resource_rows_def row_met_def)
qed

lemma float_int_small: "\<bar>i\<bar> < 2 ^ 53 \<Longrightarrow> float_int i = Fin (of_int i)"
  by (simp add: float_int_def binary64_of_int)


lemma report_fields:
  assumes "scenario_report_of growth t s failures m = Inr r"
  shows "distribution_of (ms_latencies m) = Inr (sr_latency r)" "sr_failures r = failures" "sr_completed r = ms_completed m" "sr_received r = ms_received m"
    "sr_received_by_kind r = ms_by_kind m" "sr_received_by_object r = ms_by_object m" "sr_scenario_id r = rs_id s"
    "sr_passed r \<longleftrightarrow> failures = [] \<and> list_all tc_passed (threshold_checks (sr_latency r) (sr_resources r) t)"
    "sr_resources r = resource_report growth (ms_samples m) (ms_cpu m)"
  using assms unfolding scenario_report_of_def map_error_Inr bindE_eq_Inr Let_def by auto

lemma scenario_passed_met:
  assumes "scenario_report_of growth t s [] m = Inr r" "sr_passed r" "complete s (nat (rs_measurement_iterations s)) m" "scenario_wf s"
    "th_minimum_samples t \<le> 1000000" "1 \<le> th_minimum_samples t"
  shows "scenario_met growth t s (ms_latencies m) (ms_samples m) r"
proof -
  let ?n = "nat (rs_measurement_iterations s)" and ?ds = "ms_latencies m"
  have n: "1 \<le> rs_measurement_iterations s" "rs_measurement_iterations s \<le> 1000000" "int ?n = rs_measurement_iterations s" using assms(4) by (simp_all add: scenario_wf_def)
  have len: "length ?ds = ?n" using assms(3) by (simp add: complete_def)
  then have "?ds \<noteq> []" "length ?ds \<le> 1000000" using n by auto
  then obtain a b c where d: "distribution_of ?ds = Inr \<lparr>ds_sample_count = length ?ds, ds_p50 = Some a, ds_p95 = Some b, ds_p99 = Some c,
      ds_max = Some (Max (set ?ds)), ds_reason = None\<rparr>" "percentile_of 95 ?ds b" "percentile_of 99 ?ds c"
    using distribution_percentiles by blast
  note r = report_fields [OF assms(1)]
  have l: "sr_latency r = \<lparr>ds_sample_count = length ?ds, ds_p50 = Some a, ds_p95 = Some b, ds_p99 = Some c, ds_max = Some (Max (set ?ds)), ds_reason = None\<rparr>"
    using r(1) d(1) by simp
  have pass: "list_all tc_passed (threshold_checks (sr_latency r) (sr_resources r) t)" using assms(2) r(8) by simp
  have "th_minimum_samples t \<le> int (length ?ds)"
    using passed_latency(1) [OF pass] n len assms(5,6) by (simp add: l float_int_small float_at_least_def finite_part_def)
  moreover have "\<forall>d \<in> set ?ds. d \<le> exact_value (th_max_task_ms t)" using passed_latency(4) [OF pass] by (auto simp: l intro: order_trans [OF Max_ge])
  moreover have "b \<le> exact_value (th_max_task_p95_ms t)" "c \<le> exact_value (th_max_task_p99_ms t)" using passed_latency(2,3) [OF pass] by (simp_all add: l)
  moreover have "\<exists>res. sr_resources r = Inl res \<and> (re_private_growth res, re_working_set_growth res) = growth (ms_samples m) \<and> resources_met t (ms_samples m) res"
    using passed_resources [OF pass [unfolded r(9)]] unfolding r(9) by metis
  ultimately show ?thesis using d(2,3) assms(3) len n(3) unfolding scenario_met_def complete_def r(2-6) by metis
qed

lemma run_scenarios_each:
  assumes "run_scenarios repr growth t env c ss = (Inr reports, c')"
  shows "list_all2 (\<lambda>s r. \<exists>c0 c1. run_scenario repr growth t (env (rs_id s)) c0 s = (Inr r, c1)) ss reports"
  using assms
proof (induction ss arbitrary: c reports)
  case (Cons s ss)
  obtain r c1 where 1: "run_scenario repr growth t (env (rs_id s)) c s = (Inr r, c1)" using Cons.prems by (auto split: prod.splits sum.splits)
  obtain e c2 where 2: "run_scenarios repr growth t env c1 ss = (e, c2)" by fastforce
  then obtain rs where "e = Inr rs" "reports = r # rs" "c2 = c'" using Cons.prems 1 by (auto simp: bindE_eq_Inr)
  then show ?case using Cons.IH [of c1 rs] 1 2 by auto
qed simp

lemma run_scenario_id: "run_scenario repr growth t env c s = (Inr r, c') \<Longrightarrow> sr_scenario_id r = rs_id s"
  by (auto simp: run_scenario_def split: prod.splits option.splits if_splits dest: report_fields(7))

lemma run_scenario_met:
  assumes "run_scenario repr growth t env c s = (Inr r, c')" "sr_passed r" "scenario_wf s" "1 \<le> th_minimum_samples t" "th_minimum_samples t \<le> 1000000"
  obtains c1 durations samples where "warm_up repr (sv_warmup env) (nat (rs_warmup_iterations s)) c s = (None, c1)"
    "map Inr durations = map (\<lambda>r. duration_value (get (rr_timings r) ''duration_ms''))
       (read_results repr (sv_measure env) (nat (rs_measurement_iterations s)) c1 s)"
    "map Inr samples = usage_results (sv_measure env) (nat (rs_measurement_iterations s))" "scenario_met growth t s durations samples r"
proof -
  obtain w c1 where w: "warm_up repr (sv_warmup env) (nat (rs_warmup_iterations s)) c s = (w, c1)" by fastforce
  have none: "w = None" using assms(1,2) w by (auto simp: run_scenario_def split: option.splits if_splits dest: report_fields(8))
  obtain e m c2 where m: "measure_all repr (sv_measure env) (nat (rs_measurement_iterations s)) c1 s nothing_measured = (e, m, c2)" by (rule prod_cases3)
  have e: "e = None" using assms(1,2) w none m by (auto simp: run_scenario_def split: option.splits if_splits dest: report_fields(8))
  have r: "scenario_report_of growth t s [] m = Inr r" using assms(1) w none m e by (simp add: run_scenario_def)
  have "complete s 0 nothing_measured" by (simp add: complete_def nothing_measured_def count_of_def)
  then have "complete s (0 + nat (rs_measurement_iterations s)) m" "map Inr (ms_latencies m) =
    map Inr (ms_latencies nothing_measured) @ map (\<lambda>r. duration_value (get (rr_timings r) ''duration_ms''))
      (read_results repr (sv_measure env) (nat (rs_measurement_iterations s)) c1 s)"
    "map Inr (ms_samples m) = map Inr (ms_samples nothing_measured) @ usage_results (sv_measure env) (nat (rs_measurement_iterations s))"
    using measure_all_complete m e by blast+
  then show thesis using that [of c1 "ms_latencies m" "ms_samples m"] w none scenario_passed_met [OF r assms(2) _ assms(3,5,4)] by (simp add: nothing_measured_def)
qed

lemma p50_of_member: "distinct (map sr_scenario_id reports) \<Longrightarrow> r \<in> set reports \<Longrightarrow> p50_of reports (sr_scenario_id r) = ds_p50 (sr_latency r)"
  unfolding p50_of_def by (subst map_of_is_SomeI [of _ _ r]) (auto simp: comp_def)

text \<open>A suite that passed: the reports are those of the runs, in order, and each of them passed, the overhead included.\<close>

lemma suite_runs:
  assumes "run_performance_suite repr growth env pid c p = (Inr report, c')" "su_passed report" "distinct (map rs_id (pf_scenarios p))"
  shows "list_all2 (\<lambda>s r. \<exists>c0 c1. run_scenario repr growth (pf_thresholds p) (env (rs_id s)) c0 s = (Inr r, c1)) (pf_scenarios p) (su_scenarios report)"
    "map sr_scenario_id (su_scenarios report) = map rs_id (pf_scenarios p)" "list_all sr_passed (su_scenarios report)"
    "\<And>s i. s \<in> set (pf_scenarios p) \<Longrightarrow> rs_baseline s = Some i \<Longrightarrow>
      overhead_passed (p50_of (su_scenarios report) (rs_id s)) (p50_of (su_scenarios report) i) (pf_thresholds p)"
proof -
  let ?t = "pf_thresholds p"
  obtain reports c2 where run: "run_scenarios repr growth ?t env c (pf_scenarios p) = (Inr reports, c2)" and report: "report = suite_report_of p reports"
    using assms(1) by (auto simp: run_performance_suite_def hello_info_def bindE_eq_Inr map_error_Inr split: if_splits prod.splits sum.splits option.splits)
  note each = run_scenarios_each [OF run]
  then have "list_all2 (\<lambda>s r. sr_scenario_id r = rs_id s) (pf_scenarios p) reports" by (rule list_all2_mono) (auto dest: run_scenario_id)
  then have ids: "map sr_scenario_id reports = map rs_id (pf_scenarios p)" by (simp add: list_all2_conv_all_nth list_eq_iff_nth_eq)
  let ?o = "overhead_reports ?t (pf_scenarios p) reports"
  have passed: "sr_passed (with_overhead ?o r)" if "r \<in> set reports" for r
    using assms(2) that by (simp add: report suite_report_of_def Let_def list_all_iff)
  then have keep: "with_overhead ?o r = r" "sr_passed r" if "r \<in> set reports" for r
    using passed [OF that] by (simp_all add: with_overhead_def)
  have scenarios: "su_scenarios report = reports" using keep(1) by (simp add: report suite_report_of_def Let_def map_idI)
  show "list_all2 (\<lambda>s r. \<exists>c0 c1. run_scenario repr growth ?t (env (rs_id s)) c0 s = (Inr r, c1)) (pf_scenarios p) (su_scenarios report)"
    "map sr_scenario_id (su_scenarios report) = map rs_id (pf_scenarios p)" "list_all sr_passed (su_scenarios report)"
    unfolding scenarios using each ids keep(2) by (simp_all add: list_all_iff)
  show "overhead_passed (p50_of (su_scenarios report) (rs_id s)) (p50_of (su_scenarios report) i) ?t"
    if s: "s \<in> set (pf_scenarios p)" "rs_baseline s = Some i" for s i
  proof -
    have "\<lparr>ov_scenario_id = rs_id s, ov_baseline_id = i, ov_percent = capture_overhead (p50_of reports (rs_id s)) (p50_of reports i),
       ov_passed = overhead_passed (p50_of reports (rs_id s)) (p50_of reports i) ?t\<rparr> \<in> set ?o"
      unfolding overhead_reports_def using s by force
    moreover obtain r where "r \<in> set reports" "sr_scenario_id r = rs_id s" using s(1) ids by (metis (mono_tags, lifting) imageE image_eqI set_map)
    ultimately show ?thesis using passed [of r] unfolding scenarios by (auto simp: with_overhead_def list_all_iff)
  qed
qed

lemma list_all2_member: "list_all2 P xs ys \<Longrightarrow> x \<in> set xs \<Longrightarrow> \<exists>y \<in> set ys. P x y"
  by (metis in_set_conv_nth list_all2_conv_all_nth)

end
