(* ===== verification/PerformanceTheorems.thy ===== *)
theory PerformanceTheorems
  imports PerformanceFacts
begin

text \<open>
  What a performance run promises: it only reads, within a budget; a profile that was loaded is consistent; and a report that passed has
  the meaning its words have.
\<close>

text \<open>
  C33: a performance run only reads. Whatever the host answers and wherever a run fails or is interrupted, the lines that are handed to the host
  are at most three for each warm-up and measurement iteration, each of them reads or begins or ends a capture, and none operates a
  point; the session keeps its token, its device and its greeting, or is broken.
\<close>

theorem suite_read_only:
  assumes "run_performance_suite repr growth env pid c p = (r, c')"
  shows "frame c c' \<and> (\<exists>lines. cl_requests c' = cl_requests c @ lines \<and> length lines \<le> 3 * sum_list (map iterations (pf_scenarios p)) \<and>
    (\<forall>l \<in> set lines. \<exists>i k ps. k \<in> set READ_COMMANDS \<and> \<not> is_control_command k \<and> l = request_line repr i k ps))"
proof -
  obtain e c1 where 1: "run_scenarios repr growth (pf_thresholds p) env c (pf_scenarios p) = (e, c1)" by fastforce
  have q: "quiet repr (3 * sum_list (map iterations (pf_scenarios p))) c c1" using quiet_scenarios 1 by (metis snd_conv)
  have "c' = c1 \<or> c' = c" using assms 1 by (auto simp: run_performance_suite_def hello_info_def split: if_splits sum.splits option.splits)
  then have "quiet repr (3 * sum_list (map iterations (pf_scenarios p))) c c'" using q by auto
  moreover have "k \<in> set READ_COMMANDS \<Longrightarrow> \<not> is_control_command k" for k by (auto simp: READ_COMMANDS_def is_control_command_def)
  ultimately show ?thesis unfolding quiet_def by blast
qed

text \<open>
  C34: a profile that was loaded is consistent. Its identifier is a token, its scope one of the two, its seed a 63-bit number. It has one to 64 scenarios
  with distinct identifiers, each a token, with an operation, at most 64 read headers, all of them valid, exactly for a read, one to three classes exactly for
  a class poll, counts of iterations, times and object limits within their ranges, and expected counts per kind and per object that sum to the expected
  number of objects; a capture is valid, with disjoint point ranges when it is static, and a static capture covers exactly the expected kinds; a baseline exists, captures nothing and reads
  the same population. All fourteen thresholds and all ten soak settings are within their ranges, and the watchdog of a soak run waits longer than any
  iteration may take. Classes are different and equal 1, 2 or 3 by value only, so that \<open>true\<close> and \<open>1.0\<close> are among them. The
  profile is bound to the digest of its file.
\<close>

theorem profile_sound:
  assumes "load_performance_profile (Inr raw) = Inr p"
  shows "profile_wf p \<and> pf_sha256 p = sha256 raw"
  using assms by (auto simp: load_performance_profile_def split: sum.splits if_splits json_exc.splits intro: profile_document_wf profile_document_digest)


section \<open>A sample run\<close>

definition sample_summary_read :: dict where
  "sample_summary_read =
     [(''task_id'', PInt 4), (''task_status'', PStr ''SUCCESS''), (''task_started'', PBool True),
      (''task_destroyed'', PBool True), (''return_mode'', PStr ''summary''), (''measurements'', PList []),
      (''summary'', PDict [(''received_total'', PInt 2), (''stored_detail'', PInt 0), (''overflow'', PInt 0),
         (''fragments_received'', PInt 1), (''fragments_stored'', PInt 0), (''fragment_overflow'', PInt 0),
         (''max_fragments'', PInt 16), (''max_measurements'', PInt 100),
         (''by_kind'', PDict [(''counter'', PInt 2)]), (''by_group_variation'', PDict [(''20:1'', PInt 2)])]),
      (''fragments'', PList []),
      (''iin'', PDict [(''lsb'', PInt 128), (''msb'', PInt 0), (''raw_hex'', PStr ''8000''), (''bits'', PList []),
         (''observations'', PList []), (''observation_store_dropped_total'', PInt 0),
         (''observation_window_dropped'', PInt 0), (''observation_store_capacity'', PInt 8)]),
      (''timings'', PDict [(''duration_ms'', PInt 7)])]"

definition sample_poll :: read_scenario where
  "sample_poll = \<lparr>rs_id = ''poll'', rs_operation = ''integrity_poll'', rs_headers = [], rs_classes = [], rs_capture = None, rs_warmup_iterations = 0,
     rs_measurement_iterations = 1, rs_interval = PInt 0, rs_cooldown = PInt 0, rs_task_timeout = PInt 1, rs_max_measurements = 100,
     rs_expected_objects = 2, rs_by_kind = [(''counter'', 2)], rs_by_group_variation = [(''20:1'', 2)], rs_baseline = None\<rparr>"

definition sample_thresholds :: thresholds where
  "sample_thresholds = \<lparr>th_minimum_samples = 1, th_max_task_p95_ms = PInt 10, th_max_task_p99_ms = PInt 10, th_max_task_ms = PInt 10,
     th_max_cpu_core_percent = PInt 50, th_max_working_set_bytes = 1000, th_max_private_bytes = 1000, th_max_handle_count = 9, th_max_thread_count = 9,
     th_max_private_growth = PInt 0, th_max_working_set_growth = PInt 0, th_max_handle_growth = 0, th_max_thread_growth = 0, th_max_capture_overhead = PInt 5\<rparr>"

definition sample_soak :: soak_settings where
  "sample_soak = \<lparr>so_target_duration = PInt 60, so_cycle_interval = PInt 1, so_checkpoint_interval = PInt 10, so_resource_sample_interval = PInt 1,
     so_watchdog_timeout = PInt 10, so_max_checkpoints = 10, so_max_evidence_bytes = 65536, so_min_free_disk_bytes = 0, so_allowed_reconnects = 0,
     so_max_consecutive_failures = 0\<rparr>"

definition sample_profile :: perf_profile where
  "sample_profile = \<lparr>pf_id = ''local'', pf_scope = ''LOCAL_LOOPBACK_ONLY'', pf_seed = 1, pf_scenarios = [sample_poll], pf_thresholds = sample_thresholds,
     pf_soak = sample_soak, pf_sha256 = replicate 64 (CHR ''0'')\<rparr>"

definition sample_usage :: "int \<Rightarrow> resource_sample" where
  "sample_usage ns = \<lparr>sa_monotonic_ns = ns, sa_cpu_seconds = 0, sa_working_set = 900, sa_private = 800, sa_handles = 8, sa_threads = 4\<rparr>"

definition sample_iteration :: iteration_env where
  "sample_iteration = (let x = answering (success_line ''py-1'' (PDict sample_summary_read)) in \<lparr>ie_begin = x, ie_read = x, ie_alive = True, ie_end = x\<rparr>)"

definition sample_scenario_env :: scenario_env where
  "sample_scenario_env = \<lparr>sv_warmup = \<lambda>_. sample_iteration,
     sv_measure = \<lambda>_. \<lparr>me_before = Inr (sample_usage 0), me_iteration = sample_iteration, me_after = Inr (sample_usage (10 ^ 9))\<rparr>\<rparr>"

definition no_growth :: growth_rates where
  "no_growth samples = (Fin 0, Fin 0)"

definition sample_suite :: "(run_exc + suite_report) \<times> client" where
  "sample_suite = run_performance_suite (\<lambda>_. []) no_growth (\<lambda>_. sample_scenario_env) (Some 1) sample_client sample_profile"

lemma whole: "binary64 0 = Fin 0" "binary64 1 = Fin 1" "binary64 2 = Fin 2" "binary64 5 = Fin 5" "binary64 7 = Fin 7" "binary64 10 = Fin 10" "binary64 50 = Fin 50" "binary64 60 = Fin 60" "binary64 1000 = Fin 1000" "binary64 1000000000 = Fin 1000000000"
  using binary64_of_int [of 0] binary64_of_int [of 1] binary64_of_int [of 2] binary64_of_int [of 5] binary64_of_int [of 7] binary64_of_int [of 10] binary64_of_int [of 50] binary64_of_int [of 60] binary64_of_int [of 1000] binary64_of_int [of 1000000000]
  by simp_all

lemma sample_names: "token_wf ''poll''" "token_wf ''local''" "group_variation ''20:1'' = Some (20, 1)" "''counter'' \<in> set EXPECTED_KINDS"
  by code_simp+

lemma sample_poll_wf: "scenario_wf sample_poll"
  using sample_names
  by (simp add: sample_poll_def scenario_wf_def OPERATIONS_def poll_values_def in_limits_def TWENTIETH_def counts_wf_def counts_total_def whole)

lemma sample_limits_wf: "thresholds_wf sample_thresholds" "soak_wf sample_soak"
  by (simp_all add: thresholds_wf_def sample_thresholds_def soak_wf_def sample_soak_def in_limits_def whole TENTH_def)

lemma sample_profile_wf: "profile_wf sample_profile"
  using sample_names sample_poll_wf sample_limits_wf
  by (simp add: profile_wf_def sample_profile_def SCOPES_def)
    (simp add: sample_poll_def timeout_value_def iteration_bound_def float_add_def whole watchdog_value_def sample_soak_def)

lemma small_int: "n < 10 ^ 9 \<Longrightarrow> n < (10 :: int) ^ MAX_INT_DIGITS"
  by (erule less_le_trans, rule power_increasing) (simp_all add: MAX_INT_DIGITS_def)

lemma sample_answer: "parse_response (success_line ''py-1'' (PDict sample_summary_read)) ''py-1'' = Inr (Inr (PDict sample_summary_read))"
proof -
  have "json_ok (\<lambda>_. []) (PDict sample_summary_read)" by (simp add: sample_summary_read_def small_int)
  moreover have "texts_valid (\<lambda>_. []) (PDict sample_summary_read)" "nesting (PDict sample_summary_read) \<le> 63" "utf8_valid ''py-1''" by code_simp+
  ultimately show ?thesis unfolding success_line_def by (intro response_read_back) simp_all
qed

lemma read_fields:
  "ReadTaskResult_from_mapping d = Inr r \<Longrightarrow> rr_summary r = as_dict (get d ''summary'') \<and> rr_iin r = as_dict (get d ''iin'') \<and> rr_timings r = as_dict (get d ''timings'')"
  unfolding ReadTaskResult_from_mapping_def by (auto simp: bindE_eq_Inr)

lemma typed_answered:
  assumes "cl_state c = RUNNING" "xe_alive x" "t \<noteq> PNone" "finite_number t = Some q" "0 < q" "command_check (PStr k) = None"
    "next_request_id (c\<lparr>cl_write_started := False\<rparr>) = (i, c1)" "encode_request repr (cl_config c1) i k ps = Inr line" "cl_process c1"
    "xe_outcome x = Received False (Line raw)" "parse_response raw i = Inr (Inr (PDict d))" "parse d = Inr v"
  shows "typed_request repr x c k ps t what parse = (Inr v, put_request c1 line (xe_outcome x))"
  using assms by (simp add: typed_request_def request_locked_def exchange_def Let_def await_def handle_item_def andthen_def mapping_result_def parsed_result_def)

lemma sample_request:
  obtains r c where "request_read (\<lambda>_. []) (ie_read sample_iteration) sample_client sample_poll = (Inr r, c)" "ReadTaskResult_from_mapping sample_summary_read = Inr r"
    "cl_hello c = Some []"
proof -
  let ?ps = "[(''timeout_ms'', PInt 1000), (''max_measurements'', PInt 100), (''return_mode'', PStr ''summary'')]"
  have "case encode_request (\<lambda>_. []) (cl_config sample_client) ''py-1'' ''integrity_poll'' ?ps of Inr r \<Rightarrow> True | Inl e \<Rightarrow> False" by code_simp
  then obtain line where line: "encode_request (\<lambda>_. []) (cl_config sample_client) ''py-1'' ''integrity_poll'' ?ps = Inr line" by (auto split: sum.splits)
  have "case ReadTaskResult_from_mapping sample_summary_read of Inr r \<Rightarrow> True | Inl e \<Rightarrow> False" by code_simp
  then obtain r where r: "ReadTaskResult_from_mapping sample_summary_read = Inr r" by (auto split: sum.splits)
  obtain i c1 where n: "next_request_id (sample_client\<lparr>cl_write_started := False\<rparr>) = (i, c1)" by fastforce
  have "fst (next_request_id (sample_client\<lparr>cl_write_started := False\<rparr>)) = ''py-1''" by code_simp
  then have i: "i = ''py-1''" and c1: "cl_config c1 = cl_config sample_client" "cl_process c1" "cl_hello c1 = Some []"
    using n by (auto simp: next_request_id_def sample_client_def new_client_def)
  have check: "command_check (PStr ''integrity_poll'') = None" by code_simp
  have "seconds_arg (PInt 1) FIVE_HUNDREDTHS 300 m = Inr 1" for m by (simp add: seconds_arg_def FIVE_HUNDREDTHS_def whole)
  then have "read_options (PInt 1) (PInt 100) (PStr ''summary'') = Inr (?ps, 1)"
    using round_half_even_of_int [of 1000] by (simp add: read_options_def int_arg_def to_ms_def whole bindE_eq_Inr)
  moreover have x: "xe_alive (ie_read sample_iteration)" "xe_outcome (ie_read sample_iteration) = Received False (Line (success_line ''py-1'' (PDict sample_summary_read)))"
    by (simp_all add: sample_iteration_def answering_def Let_def)
  have "typed_request (\<lambda>_. []) (ie_read sample_iteration) sample_client ''integrity_poll'' ?ps (PFloat (Fin 2)) ''read result'' ReadTaskResult_from_mapping =
    (Inr r, put_request c1 line (xe_outcome (ie_read sample_iteration)))"
    using line unfolding c1(1) [symmetric]
    by (intro typed_answered [where parse = ReadTaskResult_from_mapping and q = 2, OF _ x(1) _ _ _ check n [unfolded i] _ c1(2) x(2) sample_answer r]) (simp_all add: sample_client_def)
  ultimately have "request_read (\<lambda>_. []) (ie_read sample_iteration) sample_client sample_poll = (Inr r, put_request c1 line (xe_outcome (ie_read sample_iteration)))"
    by (simp add: request_read_def sample_poll_def integrity_poll_def read_task_result_def andthen_def lift_python_def exchange_timeout_def timeout_value_def float_add_def whole)
  then show thesis using that r c1(3) x(2) by (simp add: put_request_def)
qed


lemma sample_executed:
  obtains r c where "execute_iteration (\<lambda>_. []) sample_iteration sample_client sample_poll = (Inr (r, None), c)"
    "rr_summary r = as_dict (get sample_summary_read ''summary'')" "rr_timings r = [(''duration_ms'', PInt 7)]" "cl_hello c = Some []"
proof -
  obtain r c where r: "request_read (\<lambda>_. []) (ie_read sample_iteration) sample_client sample_poll = (Inr r, c)"
    "ReadTaskResult_from_mapping sample_summary_read = Inr r" "cl_hello c = Some []" by (rule sample_request)
  have f: "rr_summary r = as_dict (get sample_summary_read ''summary'')" "rr_iin r = as_dict (get sample_summary_read ''iin'')"
    "rr_timings r = as_dict (get sample_summary_read ''timings'')" using read_fields [OF r(2)] by blast+
  have t: "as_dict (get sample_summary_read ''timings'') = [(''duration_ms'', PInt 7)]" by (simp add: sample_summary_read_def get_def)
  have "assert_read_accepted r = None" by (simp add: assert_read_accepted_def f(2) sample_summary_read_def get_def)
  moreover have "population_mismatch sample_poll r = None"
    by (simp add: population_mismatch_def f(1) sample_summary_read_def get_def sample_poll_def counts_equal_def)
  moreover have cap: "rs_capture sample_poll = None" by (simp add: sample_poll_def)
  ultimately have "execute_iteration (\<lambda>_. []) sample_iteration sample_client sample_poll = (Inr (r, None), c)"
    using r(1) cap by (simp add: execute_iteration_def open_capture_def execute_read_def run_result_def close_capture_def map_error_def checked_def for_each_def first_error.simps)
  then show thesis using that f(1,3) t r(3) by simp
qed

lemma sample_passed:
  obtains report c where "sample_suite = (Inr report, c)" "su_passed report"
proof -
  obtain r c where r: "execute_iteration (\<lambda>_. []) sample_iteration sample_client sample_poll = (Inr (r, None), c)"
    "rr_summary r = as_dict (get sample_summary_read ''summary'')" "rr_timings r = [(''duration_ms'', PInt 7)]" "cl_hello c = Some []" by (rule sample_executed)
  have m: "measure_one (\<lambda>_. []) (sv_measure sample_scenario_env 0) sample_client sample_poll nothing_measured =
    (None, add_result 7 r None (add_sample (sample_usage 0) (sample_usage (10 ^ 9)) nothing_measured), c)"
    using r(1,3) by (simp add: measure_one_def sample_scenario_env_def get_def whole)
  define m where "m = add_result 7 r None (add_sample (sample_usage 0) (sample_usage (10 ^ 9)) nothing_measured)"
  have f: "ms_latencies m = [7]" "ms_throughput m = []" "ms_samples m = [sample_usage 0, sample_usage (10 ^ 9)]" "ms_cpu m = [Fin 0]"
    by (simp_all add: m_def add_result_def add_sample_def nothing_measured_def cpu_percent_def sample_usage_def float_int_def float_div_def float_mul_def
        finite_part_def float_at_least_def whole)
  obtain a b d where d: "distribution_of [7] = Inr \<lparr>ds_sample_count = length [7 :: rat], ds_p50 = Some a, ds_p95 = Some b, ds_p99 = Some d,
      ds_max = Some (Max (set [7])), ds_reason = None\<rparr>" "percentile_of 95 [7] b" "percentile_of 99 [7] d"
    by (rule distribution_percentiles [of "[7]"]) (simp, simp, blast)
  have bd: "b = 7" "d = 7" using d(2,3) by (simp_all add: percentile_of_def)
  have empty: "distribution_of [] = Inr \<lparr>ds_sample_count = 0, ds_p50 = None, ds_p95 = None, ds_p99 = None, ds_max = None, ds_reason = Some ''NO_SAMPLES''\<rparr>"
    by (simp add: distribution_of_def nearest_rank_def)
  have res: "resource_report no_growth (ms_samples m) (ms_cpu m) = Inl \<lparr>re_cpu_maximum = Some (Fin 0), re_cpu_samples = 1, re_working_set_maximum = 900,
      re_private_maximum = 800, re_handle_maximum = 8, re_thread_maximum = 4, re_private_growth = Fin 0, re_working_set_growth = Fin 0, re_handle_first = 8,
      re_handle_last = 8, re_thread_first = 4, re_thread_last = 4\<rparr>"
    by (simp add: resource_report_def f sample_usage_def float_max_def no_growth_def)
  obtain report where report: "scenario_report_of no_growth sample_thresholds sample_poll [] m = Inr report"
    using empty d(1) by (simp add: scenario_report_of_def f map_error_def Let_def)
  have latency: "sr_latency report = \<lparr>ds_sample_count = 1, ds_p50 = Some a, ds_p95 = Some 7, ds_p99 = Some 7, ds_max = Some 7, ds_reason = None\<rparr>"
    using report_fields(1) [OF report] d(1) bd by (simp add: f)
  have passed: "sr_passed report"
    unfolding report_fields(8) [OF report] passed_rows latency report_fields(9) [OF report] res
    by (simp add: latency_rows_def resource_rows_def row_met_def float_at_least_def float_at_most_def finite_part_def float_int_small sample_thresholds_def)
  have run: "run_scenario (\<lambda>_. []) no_growth sample_thresholds sample_scenario_env sample_client sample_poll = (Inr report, c)"
    using m report by (simp add: run_scenario_def sample_poll_def m_def)
  have "run_scenarios (\<lambda>_. []) no_growth sample_thresholds (\<lambda>_. sample_scenario_env) sample_client [sample_poll] = (Inr [report], c)" using run by simp
  then have suite: "sample_suite = (Inr (suite_report_of sample_profile [report]), c)"
    using r(4) by (simp add: sample_suite_def run_performance_suite_def sample_profile_def hello_info_def map_error_def)
  have "su_passed (suite_report_of sample_profile [report])"
    using passed by (simp add: suite_report_of_def overhead_reports_def sample_profile_def sample_poll_def with_overhead_def Let_def)
  then show thesis using that suite by blast
qed


theorem suite_read_only_witness:
  "\<exists>r c. sample_suite = (r, c) \<and> frame sample_client c \<and> length (cl_requests c) \<le> 3"
proof -
  obtain report c where run: "sample_suite = (Inr report, c)" by (rule sample_passed)
  have "cl_requests sample_client = []" "sum_list (map iterations (pf_scenarios sample_profile)) = 1"
    by (simp_all add: sample_client_def new_client_def sample_profile_def sample_poll_def iterations_def)
  then show ?thesis using suite_read_only [OF run [unfolded sample_suite_def]] run by auto
qed

text \<open>The profile as a file.\<close>

definition sample_poll_document :: dict where
  "sample_poll_document =
     [(''scenario_id'', PStr ''poll''), (''operation'', PStr ''integrity_poll''), (''headers'', PList []), (''classes'', PList []), (''capture'', PNone),
      (''warmup_iterations'', PInt 0), (''measurement_iterations'', PInt 1), (''interval_seconds'', PInt 0), (''cooldown_seconds'', PInt 0),
      (''task_timeout_seconds'', PInt 1), (''max_measurements'', PInt 100), (''expected_objects_per_iteration'', PInt 2),
      (''expected_by_kind'', PDict [(''counter'', PInt 2)]), (''expected_by_group_variation'', PDict [(''20:1'', PInt 2)]), (''baseline_scenario_id'', PNone)]"

definition sample_thresholds_document :: dict where
  "sample_thresholds_document =
     [(''minimum_samples'', PInt 1), (''max_task_p95_ms'', PInt 10), (''max_task_p99_ms'', PInt 10), (''max_task_ms'', PInt 10),
      (''max_cpu_core_percent'', PInt 50), (''max_working_set_bytes'', PInt 1000), (''max_private_bytes'', PInt 1000), (''max_handle_count'', PInt 9),
      (''max_thread_count'', PInt 9), (''max_private_growth_bytes_per_hour'', PInt 0), (''max_working_set_growth_bytes_per_hour'', PInt 0),
      (''max_handle_growth'', PInt 0), (''max_thread_growth'', PInt 0), (''max_capture_overhead_percent'', PInt 5)]"

definition sample_soak_document :: dict where
  "sample_soak_document =
     [(''target_duration_seconds'', PInt 60), (''cycle_interval_seconds'', PInt 1), (''checkpoint_interval_seconds'', PInt 10),
      (''resource_sample_interval_seconds'', PInt 1), (''watchdog_timeout_seconds'', PInt 10), (''max_checkpoints'', PInt 10),
      (''max_evidence_bytes'', PInt 65536), (''min_free_disk_bytes'', PInt 0), (''allowed_reconnects'', PInt 0), (''max_consecutive_failures'', PInt 0)]"

definition sample_profile_document :: pyval where
  "sample_profile_document = PDict
     [(''schema_version'', PInt 1), (''profile_id'', PStr ''local''), (''scope'', PStr ''LOCAL_LOOPBACK_ONLY''), (''seed'', PInt 1),
      (''scenarios'', PList [PDict sample_poll_document]), (''thresholds'', PDict sample_thresholds_document), (''soak'', PDict sample_soak_document)]"

lemma sample_tokens: "perf_token (PStr ''poll'') f = None" "perf_token (PStr ''local'') f = None"
  "group_variation ''20:1'' = Some (20, 1)" "''counter'' \<in> set EXPECTED_KINDS"
proof -
  have "utf8_valid ''poll'' \<and> utf8_valid ''local''" by code_simp
  moreover have "class_match (\<lambda>c. is_alnum c \<or> c \<in> set ''._:-'') 1 128 ''poll'' \<and> class_match (\<lambda>c. is_alnum c \<or> c \<in> set ''._:-'') 1 128 ''local''" by code_simp
  ultimately show "perf_token (PStr ''poll'') f = None" "perf_token (PStr ''local'') f = None" unfolding perf_token_def by simp_all
  show "group_variation ''20:1'' = Some (20, 1)" "''counter'' \<in> set EXPECTED_KINDS" by code_simp+
qed

lemma sample_scenario_read: "scenario_from_mapping sample_poll_document = Inr sample_poll"
proof -
  have keys: "exact_fields sample_poll_document SCENARIO_FIELDS [] ''scenario'' = None" by code_simp
  have g: "get sample_poll_document ''scenario_id'' = PStr ''poll''" "get sample_poll_document ''operation'' = PStr ''integrity_poll''"
    "get sample_poll_document ''headers'' = PList []" "get sample_poll_document ''classes'' = PList []" "get sample_poll_document ''capture'' = PNone"
    "get sample_poll_document ''warmup_iterations'' = PInt 0" "get sample_poll_document ''measurement_iterations'' = PInt 1"
    "get sample_poll_document ''interval_seconds'' = PInt 0" "get sample_poll_document ''cooldown_seconds'' = PInt 0"
    "get sample_poll_document ''task_timeout_seconds'' = PInt 1" "get sample_poll_document ''max_measurements'' = PInt 100"
    "get sample_poll_document ''expected_objects_per_iteration'' = PInt 2" "get sample_poll_document ''expected_by_kind'' = PDict [(''counter'', PInt 2)]"
    "get sample_poll_document ''expected_by_group_variation'' = PDict [(''20:1'', PInt 2)]" "get sample_poll_document ''baseline_scenario_id'' = PNone"
    by (simp_all add: sample_poll_document_def get_def)
  have c: "scenario_request_checks sample_poll_document [] [] = None"
    unfolding scenario_request_checks_def Let_def g check_simps
    by (simp add: sample_tokens operation_check_def OPERATIONS_def scenario_classes_check_def perf_integer_None perf_number_None whole TWENTIETH_def)
  have k: "expected_count_mapping (PDict [(''counter'', PInt 2)]) f False = Inr [(''counter'', 2)]"
    "expected_count_mapping (PDict [(''20:1'', PInt 2)]) f True = Inr [(''20:1'', 2)]" for f
    using sample_tokens(3,4) by (simp_all add: expected_count_mapping_def expected_key_check_def perf_integer_None)
  have "ReadPerformanceScenario sample_poll_document [] [] None = Inr sample_poll"
    unfolding ReadPerformanceScenario_def g bindE_eq_Inr checked_Inr by (simp add: c k population_checks_def counts_total_def sample_poll_def)
  then show ?thesis by (simp add: scenario_from_mapping_def keys g bindE_eq_Inr map_error_Inr capture_from_mapping_def)
qed

lemma sample_thresholds_read: "thresholds_from_mapping sample_thresholds_document = Inr sample_thresholds"
proof -
  have keys: "exact_fields sample_thresholds_document (''minimum_samples'' # THRESHOLD_NUMBERS @ THRESHOLD_INTEGERS) [] ''thresholds'' = None" by code_simp
  have "PerformanceThresholds sample_thresholds_document = Inr sample_thresholds"
    unfolding PerformanceThresholds_def checked_Inr check_simps
    by (simp add: THRESHOLD_NUMBERS_def THRESHOLD_INTEGERS_def sample_thresholds_document_def get_def perf_integer_None perf_number_None whole sample_thresholds_def)
  then show ?thesis by (simp add: thresholds_from_mapping_def keys checked_def map_error_def)
qed

lemma sample_soak_read: "soak_from_mapping sample_soak_document = Inr sample_soak"
proof -
  have keys: "exact_fields sample_soak_document SOAK_FIELDS [] ''soak'' = None" by code_simp
  have "SoakSettings sample_soak_document = Inr sample_soak"
    unfolding SoakSettings_def checked_Inr check_simps
    by (simp add: sample_soak_document_def get_def perf_integer_None perf_number_None whole sample_soak_def TENTH_def)
  then show ?thesis by (simp add: soak_from_mapping_def keys checked_def map_error_def)
qed


definition sample_profile_text :: string where
  "sample_profile_text = json_text (\<lambda>_. []) sample_profile_document"

lemma sample_profile_loads: "load_performance_profile (Inr sample_profile_text) = Inr (sample_profile\<lparr>pf_sha256 := sha256 sample_profile_text\<rparr>)"
proof -
  let ?d = "as_dict sample_profile_document"
  have ok: "json_ok (\<lambda>_. []) sample_profile_document"
    by (simp add: sample_profile_document_def sample_poll_document_def sample_thresholds_document_def sample_soak_document_def small_int)
  have loads: "json_loads sample_profile_text = Inr sample_profile_document" using json_read_back [OF ok, of "[]"] by (simp add: sample_profile_text_def)
  have "texts_valid (\<lambda>_. []) sample_profile_document" by code_simp
  then have valid: "utf8_valid sample_profile_text" unfolding sample_profile_text_def by (rule json_text_valid(1))
  have small: "length sample_profile_text \<le> 5000" by code_simp
  obtain t where t: "sample_profile_text = CHR ''{'' # t" by (simp add: sample_profile_text_def sample_profile_document_def)
  have raw: "sample_profile_text \<noteq> []" "without_bom sample_profile_text = sample_profile_text" unfolding t by (simp_all add: without_bom_def)
  have size: "\<not> MAX_PROFILE_BYTES < length sample_profile_text" using small unfolding MAX_PROFILE_BYTES_def by linarith
  have g: "get ?d ''schema_version'' = PInt 1" "get ?d ''profile_id'' = PStr ''local''" "get ?d ''scope'' = PStr ''LOCAL_LOOPBACK_ONLY''" "get ?d ''seed'' = PInt 1"
    "get ?d ''scenarios'' = PList [PDict sample_poll_document]" "get ?d ''thresholds'' = PDict sample_thresholds_document" "get ?d ''soak'' = PDict sample_soak_document"
    by (simp_all add: sample_profile_document_def get_def)
  have keys: "exact_fields ?d [''schema_version'', ''profile_id'', ''scope'', ''seed'', ''scenarios'', ''thresholds'', ''soak''] [] ''performance profile'' = None" by code_simp
  have "PerformanceProfile (PStr ''local'') (PStr ''LOCAL_LOOPBACK_ONLY'') (PInt 1) [sample_poll] sample_thresholds sample_soak digest =
      Inr (sample_profile\<lparr>pf_sha256 := digest\<rparr>)" if "class_match is_lower_hex 64 64 digest" for digest
    using that unfolding PerformanceProfile_def checked_Inr check_simps
    by (simp add: sample_tokens scope_check_def SCOPES_def perf_integer_None baseline_check_def sample_poll_def watchdog_value_def sample_soak_def whole
        iteration_bound_def timeout_value_def float_add_def sample_profile_def)
  then have "profile_from_document sample_profile_document (sha256 sample_profile_text) = Inr (sample_profile\<lparr>pf_sha256 := sha256 sample_profile_text\<rparr>)"
    using sha256_hex [of sample_profile_text] sample_scenario_read sample_thresholds_read sample_soak_read keys
    unfolding profile_from_document_def Let_def g by (simp add: bindE_eq_Inr) (simp add: sample_profile_document_def)
  then show ?thesis using raw size valid loads by (simp add: load_performance_profile_def)
qed

theorem profile_sound_witness: "profile_wf (sample_profile\<lparr>pf_sha256 := sha256 sample_profile_text\<rparr>)"
  using profile_sound [OF sample_profile_loads] by simp

section \<open>Classes that the client refuses\<close>

text \<open>
  The profile compares classes by value and so accepts \<open>true\<close> and \<open>1.0\<close>, which the client refuses when the poll is made; and the capability
  that is derived from \<open>1.0\<close> does not exist.
\<close>

lemma class_value_accepted:
  "scenario_classes_check ''class_poll'' [PBool True] = None" "scenario_classes_check ''class_poll'' [PFloat (Fin 1)] = None"
  "event_classes (PList [PBool True]) = Inl (ValueError ''classes may contain only the integers 1, 2, and 3'')"
  "class_object (PFloat (Fin 1)) = ''OBJ.G60.V2.0''"
  by code_simp+

end
