(* ===== verification/Spec2Isabelle.thy ===== *)
theory Spec2Isabelle
  imports TraceAccounting ClientRuns CommandCorrelation EmsPlanTheorems PerformanceTheorems
begin

text \<open>
  A verification of the Python client of EMS_DNP3, a DNP3 (IEEE 1815) master for testing energy management
  systems. The Python package \<open>python/src/dnp3_master\<close> starts a native host process, which runs the OpenDNP3
  stack, and exchanges one JSON line per request and response with it over pipes. The client may operate
  real switchgear, so the core of the program is what it does when an outcome is not known: it ends the session and
  leaves a lock on disk, which blocks control of the device in every process until somebody has read the points
  back and acknowledges the incident.

  \<^bold>\<open>How the parts interact.\<close> A caller builds configuration and command objects (\<open>models.py\<close>), which validate themselves, and calls the
  methods of \<open>Dnp3MasterClient\<close> (\<open>client.py\<close>). Each method validates its arguments, sends one request, waits for the line with the
  same identifier, checks its envelope and parses the result into a result object. Control methods also ask
  \<open>SafetyIncidentStore\<close> (\<open>safety_incidents.py\<close>) for a lock before and write one after an uncertain outcome. The trace methods feed
  batches of log lines to \<open>TraceDecoder\<close> (\<open>trace.py\<close>), which rebuilds link frames, transport segments and application fragments.

  \<^bold>\<open>Foundations.\<close> \<open>Prelude\<close> has the error sum, checks in sequence and lemmas on lists; \<open>Bytes\<close> octets and little-endian numbers; \<open>PyVal\<close> the
  dynamic values of Python, equality, truth and binary64 rounding; \<open>PyText\<close> and \<open>Unicode\<close> texts as UTF-8 octets and the patterns
  the sources use; \<open>Sha256\<close> the digest, with its constants computed from the primes; \<open>Json\<close> the encoder and decoder of the standard library
  with the hooks of \<open>client.py\<close>, and the depth check \<open>_validate_json_depth\<close>. Decoding is recursion with fuel twice the
  length of the text, which is proved to suffice for every text; no object of a decoded value repeats a key. The interpreter's own limit of
  recursion, which a deeply nested plan or profile reaches where no depth check precedes, is not part of the model.

  \<^bold>\<open>Protocol trace, \<open>trace.py\<close>.\<close> \<open>Crc\<close>: the checksum, equal to the vendored table-driven one. \<open>TraceModels\<close>: records, summaries, batches. \<open>LinkLayer\<close>:
  frames from log lines, \<open>_consume_link\<close>. \<open>AppDecode\<close>: the bounded application decoder. \<open>TraceDecoder\<close>: transport reassembly and
  \<open>decode_batch\<close>. \<open>TraceAccounting\<close>: the locale \<open>assembler\<close> for items that are collected per route, interpreted on lines and frames and on
  segments and applications, and what a complete run accounts for. The theorems show that decoding loses nothing and invents nothing: encoded frames come back,
  decoded fragments can be rebuilt octet by octet, in a run marked complete every record is seen once and every line and segment is in a frame or application or still
  pending on its route, and memory stays bounded.

  \<^bold>\<open>Models, \<open>models.py\<close>.\<close> \<open>ConfigModels\<close>, \<open>HostConfig\<close>, \<open>ReadModels\<close>, \<open>CommandModels\<close>, \<open>CaptureModels\<close> and \<open>CaptureResults\<close>: one record per dataclass, one
  function per constructor, \<open>from_mapping\<close> and \<open>to_params\<close>, in the order of their checks. The theorems say exactly what is accepted and that what
  is accepted is complete and consistent.

  \<^bold>\<open>Incident store, \<open>safety_incidents.py\<close>.\<close> \<open>Incidents\<close>: two directories as association lists; each operation takes the failures of
  the operating system and the actions of other processes between its steps as an argument. The locale \<open>lock_store\<close> is the contract
  of the store and is interpreted on these operations. \<open>IncidentRecords\<close>: records are read back as written, an acknowledgment archives its evidence
  and succeeds when nothing fails, and the one way in which a lock is lost.

  \<^bold>\<open>Client, \<open>client.py\<close>.\<close> \<open>TailBuffer\<close>: the bounded diagnostics and their redaction. \<open>HostPipe\<close>: the reader and writer threads. \<open>ClientCore\<close>: the
  state, \<open>_exchange\<close>, \<open>_parse_response\<close>, \<open>_validate_hello\<close>, \<open>start\<close>, \<open>close\<close>. \<open>ClientOps\<close>: the methods that do not control. \<open>ClientCommands\<close>: the control path.
  \<open>ClientSession\<close>: what one exchange may do. \<open>ClientSafety\<close> and \<open>ClientTheorems\<close>: admission and the three outcomes of a control operation, and that an
  uncertain one blocks control in every later process. \<open>CommandCorrelation\<close>: results answer commands one to one. \<open>ClientRuns\<close>: all public methods
  as calls, the locale \<open>session\<close> with its interpretation, and what holds after every sequence of calls.

  \<^bold>\<open>Point table, \<open>point_table.py\<close>.\<close> \<open>Csv\<close>: the strict reader of the standard library's \<open>csv\<close> module as a machine over characters and end-of-line
  marks, which reads back every quoted text. \<open>PointTable\<close>: the loader with all its checks; what it accepts has valid read headers and matches every
  measurement at most once, and every well-formed table can be written and loaded back.

  \<^bold>\<open>Test plan, \<open>ems_test_plan.py\<close>.\<close> \<open>EmsPlan\<close>: expectations, scenarios, the strict parser and its check against a point table. \<open>Rounding\<close>: the error of
  binary64. \<open>EmsPlanFacts\<close>: one predicate per part, which parsing establishes and which suffices for parsing the mapping again. \<open>EmsPlanTheorems\<close>: laboratory
  controls that load can be undone and their effect can be told from the state before, because the test for overlapping tolerances misses nothing in spite of
  rounding; loaded plans can be saved and loaded again; and the exceptions that escape the loader.

  \<^bold>\<open>Performance runs, \<open>performance.py\<close>.\<close> \<open>Performance\<close>: the profile and its strict loader, percentiles and the checks against the limits. \<open>Percentiles\<close>: the
  nearest rank is exact in spite of rounding, for up to a million samples, which is the limit of a scenario. \<open>PerformanceRuns\<close>: the suite on the model of the
  client, from one iteration with its capture to the verdict. \<open>PerformanceFacts\<close>: the locale \<open>metered\<close>, interpreted on the requests of a client, and what the
  loops add up to. \<open>PerformanceTheorems\<close>: a run only reads and stays within its budget of requests, loaded profiles are consistent, and a suite that
  passed has measured what it says.

  \<^bold>\<open>Correspondence.\<close> Definitions keep the names of the source without a leading underscore; a class prefix becomes a field
  prefix. A raised exception is the left value of a sum; the state of the client is a record that every
  operation returns. Everything outside (the host, the clock, the operating system, interrupts) is an argument, and
  no assumption is made about it except where a theorem states one. The request lines handed to the writer are kept in the ghost
  field \<open>cl_requests\<close>. In error messages the \<open>repr\<close> of a value and the text of an operating system error are left out. The shortest text of
  a float, \<open>float.__repr__\<close>, is the parameter \<open>repr\<close>.

  \<^bold>\<open>Not modelled.\<close> The request lock makes each method one step, so that interleavings of two callers inside one
  method are not modelled; nor are process and thread handles, the job object, and the
  snapshot of diagnostics attached to errors. An interrupt may come before, during or after the wait for a response, but one that comes
  while \<open>_handle_uncertain\<close> is writing the lock is not a case of the model, nor one between marking the write as started and queueing the request. An
  acknowledgment runs without actions of other processes between its steps, unlike the recording of an incident. In \<open>performance.py\<close> the growth rates
  are a parameter, as the sums of \<open>_growth_per_hour\<close> depend on the interpreter, so that a limit on growth is checked for whatever rate is reported; the sampler of
  \<open>process_metrics.py\<close> is an argument. Left out are the long campaigns (\<open>soak.py\<close>, \<open>local_benchmark.py\<close>), the EMS profile, preflight, evidence and report files, the pytest plugin, the simulated
  outstation and self tests, packaging, the scripts, and the native host with OpenDNP3, of which the client assumes nothing.
\<close>

end
